(* ===== verification/Prelude.thy ===== *)
theory Prelude
  imports Main "HOL-Library.Word" "HOL-Library.Char_ord"
begin

text \<open>
  The prelude of the development: the numbers and the strings of the JavaScript sources.

  A JavaScript number that the code uses as an integer is an \<open>int\<close>.  The bitwise
  operators of the language work on 32-bit integers; where the code relies on that
  (\<open><<\<close> into the sign bit, \<open>| 0\<close>, \<open>>>> 0\<close>) the conversions
  are written out below, and elsewhere the operands are small non-negative numbers on which
  the operators of \<open>int\<close> give the same value.

  A JavaScript string is a \<open>string\<close>, one \<open>char\<close> for one UTF-16 unit, for the strings
  whose units are below 256.  The white space that \<open>trim\<close> and \<open>\s\<close> recognise below
  256 are the seven characters of \<open>is_ws\<close>.
\<close>

unbundle bit_operations_syntax

named_theorems js_num "evaluation of the number operators"
named_theorems js_str "facts on the string operations"

section \<open>32-bit operators\<close>

definition to_int32 :: "int \<Rightarrow> int" where
  "to_int32 n = signed_take_bit 31 n"

definition to_uint32 :: "int \<Rightarrow> int" where
  "to_uint32 n = take_bit 32 n"

text \<open>The shifts take the low five bits of the count.\<close>

definition js_shl :: "int \<Rightarrow> nat \<Rightarrow> int" where
  "js_shl a k = to_int32 (push_bit (k mod 32) (to_int32 a))"

definition js_ushr :: "int \<Rightarrow> nat \<Rightarrow> int" where
  "js_ushr a k = drop_bit (k mod 32) (to_uint32 a)"

lemma js_shl_less: "k < 32 \<Longrightarrow> js_shl a k = to_int32 (push_bit k (to_int32 a))"
  by (simp add: js_shl_def)

lemma js_ushr_less: "k < 32 \<Longrightarrow> js_ushr a k = drop_bit k (to_uint32 a)"
  by (simp add: js_ushr_def)

definition js_and :: "int \<Rightarrow> int \<Rightarrow> int" where
  "js_and a b = to_int32 a AND to_int32 b"

definition js_or :: "int \<Rightarrow> int \<Rightarrow> int" where
  "js_or a b = to_int32 a OR to_int32 b"

lemma bit_to_int32: "bit (to_int32 n) k \<longleftrightarrow> bit n (min 31 k)"
  by (auto simp: to_int32_def bit_signed_take_bit_iff min_def)

lemma bit_to_int32_low: "k < 32 \<Longrightarrow> bit (to_int32 n) k \<longleftrightarrow> bit n k"
proof -
  assume "k < 32"
  then have "min 31 k = k" by simp
  then show ?thesis by (simp add: bit_to_int32)
qed

lemma bit_to_uint32: "bit (to_uint32 n) k \<longleftrightarrow> k < 32 \<and> bit n k"
  by (simp add: to_uint32_def bit_take_bit_iff)

lemma to_int32_idem [simp, js_num]: "to_int32 (to_int32 n) = to_int32 n"
  by (rule bit_eqI) (simp add: bit_to_int32)

lemma to_uint32_int32 [simp, js_num]: "to_uint32 (to_int32 n) = to_uint32 n"
  by (rule bit_eqI) (auto simp: bit_to_int32_low bit_to_uint32)

lemma to_int32_uint32 [simp, js_num]: "to_int32 (to_uint32 n) = to_int32 n"
proof (rule bit_eqI)
  fix k
  have "min (31::nat) k < 32" by simp
  then show "bit (to_int32 (to_uint32 n)) k = bit (to_int32 n) k"
    by (simp add: bit_to_int32 bit_to_uint32)
qed

lemma to_uint32_id: "0 \<le> n \<Longrightarrow> n < 2 ^ 32 \<Longrightarrow> to_uint32 n = n"
  by (simp add: to_uint32_def take_bit_int_eq_self)

lemma to_int32_id: "- (2 ^ 31) \<le> n \<Longrightarrow> n < 2 ^ 31 \<Longrightarrow> to_int32 n = n"
  by (simp add: to_int32_def signed_take_bit_int_eq_self)

lemma to_uint32_range: "0 \<le> to_uint32 n \<and> to_uint32 n < 2 ^ 32"
  using take_bit_int_less_exp [of 32 n] by (simp add: to_uint32_def)

lemma to_uint32_or: "to_uint32 (js_or a b) = to_uint32 a OR to_uint32 b"
  by (rule bit_eqI) (auto simp: js_or_def bit_to_uint32 bit_to_int32_low bit_or_iff)

lemma to_uint32_and: "to_uint32 (js_and a b) = to_uint32 a AND to_uint32 b"
  by (rule bit_eqI) (auto simp: js_and_def bit_to_uint32 bit_to_int32_low bit_and_iff)

lemma to_uint32_shl: "k < 32 \<Longrightarrow> to_uint32 (js_shl a k) = to_uint32 (push_bit k a)"
  by (rule bit_eqI)
    (auto simp: js_shl_less bit_to_uint32 bit_to_int32_low bit_push_bit_iff)

section \<open>Characters\<close>

definition cc :: "char \<Rightarrow> int" where
  "cc c = of_char c"

lemma cc_nonneg [simp]: "0 \<le> cc c"
  by (cases c) (simp add: cc_def)

lemma cc_less [simp]: "cc c < 256"
proof -
  have "cc c = int (of_char c)" by (simp add: cc_def of_nat_of_char)
  moreover have "(of_char c :: nat) < 256" by (rule nat_of_char_less_256)
  ultimately show ?thesis by simp
qed

lemma cc_inj: "cc c = cc d \<longleftrightarrow> c = d"
  by (simp add: cc_def)

definition is_digit :: "char \<Rightarrow> bool" where
  "is_digit c \<longleftrightarrow> 48 \<le> cc c \<and> cc c \<le> 57"

definition is_upper :: "char \<Rightarrow> bool" where
  "is_upper c \<longleftrightarrow> 65 \<le> cc c \<and> cc c \<le> 90"

definition is_lower :: "char \<Rightarrow> bool" where
  "is_lower c \<longleftrightarrow> 97 \<le> cc c \<and> cc c \<le> 122"

definition is_alnum :: "char \<Rightarrow> bool" where
  "is_alnum c \<longleftrightarrow> is_digit c \<or> is_upper c \<or> is_lower c"

definition is_xdigit :: "char \<Rightarrow> bool" where
  "is_xdigit c \<longleftrightarrow> is_digit c \<or> (65 \<le> cc c \<and> cc c \<le> 70) \<or> (97 \<le> cc c \<and> cc c \<le> 102)"

definition is_lxdigit :: "char \<Rightarrow> bool" where
  "is_lxdigit c \<longleftrightarrow> is_digit c \<or> (97 \<le> cc c \<and> cc c \<le> 102)"

definition is_ws :: "char \<Rightarrow> bool" where
  "is_ws c \<longleftrightarrow> cc c \<in> {9, 10, 11, 12, 13, 32, 160}"

text \<open>\<open>toLowerCase\<close> and \<open>toUpperCase\<close> on one character.  Lower-casing stays below 256;
  upper-casing is stated for the ASCII letters, the only ones the code applies it to.\<close>

definition lower_char :: "char \<Rightarrow> char" where
  "lower_char c = (if is_upper c \<or> (192 \<le> cc c \<and> cc c \<le> 222 \<and> cc c \<noteq> 215)
                   then char_of (cc c + 32) else c)"

definition upper_char :: "char \<Rightarrow> char" where
  "upper_char c = (if is_lower c then char_of (cc c - 32) else c)"

definition lower :: "string \<Rightarrow> string" where
  "lower s = map lower_char s"

definition upper :: "string \<Rightarrow> string" where
  "upper s = map upper_char s"

lemma lower_Nil [simp]: "lower [] = []"
  by (simp add: lower_def)

lemma length_lower [simp]: "length (lower s) = length s"
  by (simp add: lower_def)

lemma is_lxdigit_xdigit: "is_lxdigit c \<Longrightarrow> is_xdigit c"
  by (auto simp: is_lxdigit_def is_xdigit_def)

lemma is_digit_lxdigit: "is_digit c \<Longrightarrow> is_lxdigit c"
  by (simp add: is_lxdigit_def)

section \<open>Strings\<close>

subsection \<open>Searching and slicing\<close>

text \<open>\<open>s.indexOf(c)\<close> and \<open>s.lastIndexOf(c)\<close>, with \<open>None\<close> for \<open>-1\<close>.\<close>

fun index_of :: "char \<Rightarrow> string \<Rightarrow> nat option" where
  "index_of c [] = None"
| "index_of c (x # xs) = (if x = c then Some 0 else map_option Suc (index_of c xs))"

fun last_index_of :: "char \<Rightarrow> string \<Rightarrow> nat option" where
  "last_index_of c [] = None"
| "last_index_of c (x # xs) =
     (case last_index_of c xs of
        Some i \<Rightarrow> Some (Suc i)
      | None \<Rightarrow> if x = c then Some 0 else None)"

fun starts_with :: "string \<Rightarrow> string \<Rightarrow> bool" where
  "starts_with [] s = True"
| "starts_with (p # ps) [] = False"
| "starts_with (p # ps) (x # xs) = (p = x \<and> starts_with ps xs)"

definition ends_with :: "string \<Rightarrow> string \<Rightarrow> bool" where
  "ends_with p s = starts_with (rev p) (rev s)"

text \<open>\<open>s.indexOf(p)\<close> for a string \<open>p\<close>.\<close>

fun index_of_str :: "string \<Rightarrow> string \<Rightarrow> nat option" where
  "index_of_str p [] = (if p = [] then Some 0 else None)"
| "index_of_str p (x # xs) =
     (if starts_with p (x # xs) then Some 0 else map_option Suc (index_of_str p xs))"

definition contains :: "string \<Rightarrow> string \<Rightarrow> bool" where
  "contains p s \<longleftrightarrow> index_of_str p s \<noteq> None"

lemma index_of_None [js_str]: "index_of c s = None \<longleftrightarrow> c \<notin> set s"
  by (induction s) auto

lemma last_index_of_None [js_str]: "last_index_of c s = None \<longleftrightarrow> c \<notin> set s"
  by (induction s) (auto split: option.splits)

lemma index_of_Some:
  "index_of c s = Some i \<Longrightarrow> i < length s \<and> s ! i = c \<and> c \<notin> set (take i s)"
  by (induction s arbitrary: i) (auto split: if_splits)

lemma last_index_of_Some:
  "last_index_of c s = Some i \<Longrightarrow> i < length s \<and> s ! i = c \<and> c \<notin> set (drop (Suc i) s)"
  by (induction s arbitrary: i) (auto split: option.splits if_splits simp: last_index_of_None)

lemma index_of_append: "c \<notin> set s \<Longrightarrow> index_of c (s @ c # t) = Some (length s)"
  by (induction s) auto

lemma last_index_of_append: "c \<notin> set t \<Longrightarrow> last_index_of c (s @ c # t) = Some (length s)"
proof (induction s)
  case Nil
  then show ?case by (simp add: last_index_of_None split: option.splits)
qed simp

lemma starts_with_iff [js_str]: "starts_with p s \<longleftrightarrow> (\<exists>t. s = p @ t)"
  by (induction p s rule: starts_with.induct) auto

lemma starts_with_append [simp]: "starts_with p (p @ s)"
  by (auto simp: starts_with_iff)

lemma starts_with_take: "starts_with p s \<longleftrightarrow> take (length p) s = p"
  by (auto simp: starts_with_iff) (metis append_take_drop_id)

subsection \<open>\<open>trim\<close>\<close>

definition trim_start :: "string \<Rightarrow> string" where
  "trim_start s = dropWhile is_ws s"

definition trim_end :: "string \<Rightarrow> string" where
  "trim_end s = rev (dropWhile is_ws (rev s))"

definition trim :: "string \<Rightarrow> string" where
  "trim s = trim_end (trim_start s)"

lemma trim_id: "\<forall>c \<in> set s. \<not> is_ws c \<Longrightarrow> trim s = s"
proof -
  assume "\<forall>c \<in> set s. \<not> is_ws c"
  then have "dropWhile is_ws s = s" and "dropWhile is_ws (rev s) = rev s"
    by (auto simp: dropWhile_eq_self_iff hd_rev)
  then show ?thesis by (simp add: trim_def trim_start_def trim_end_def)
qed

lemma trim_Nil [simp]: "trim [] = []"
  by (simp add: trim_def trim_start_def trim_end_def)

subsection \<open>\<open>split\<close> and \<open>join\<close>\<close>

fun split_on :: "char \<Rightarrow> string \<Rightarrow> string list" where
  "split_on c [] = [[]]"
| "split_on c (x # xs) =
     (if x = c then [] # split_on c xs
      else (case split_on c xs of [] \<Rightarrow> [[x]] | y # ys \<Rightarrow> (x # y) # ys))"

fun join :: "string \<Rightarrow> string list \<Rightarrow> string" where
  "join sep [] = []"
| "join sep [x] = x"
| "join sep (x # y # ys) = x @ sep @ join sep (y # ys)"

lemma split_on_not_Nil [simp]: "split_on c s \<noteq> []"
  by (cases s) (auto split: list.splits)

lemma split_on_no_sep: "c \<notin> set s \<Longrightarrow> split_on c s = [s]"
  by (induction s) auto

lemma split_on_append: "c \<notin> set s \<Longrightarrow> split_on c (s @ c # t) = s # split_on c t"
  by (induction s) auto

lemma split_on_parts: "x \<in> set (split_on c s) \<Longrightarrow> c \<notin> set x"
proof (induction s arbitrary: x)
  case (Cons d s)
  obtain y ys where y: "split_on c s = y # ys"
    by (cases "split_on c s") auto
  with Cons show ?case by (auto split: if_splits)
qed simp

lemma join_Cons: "xs \<noteq> [] \<Longrightarrow> join sep (x # xs) = x @ sep @ join sep xs"
  by (cases xs) auto

lemma split_join:
  "xs \<noteq> [] \<Longrightarrow> \<forall>x \<in> set xs. c \<notin> set x \<Longrightarrow> split_on c (join [c] xs) = xs"
proof (induction xs)
  case (Cons x xs)
  then show ?case
    by (cases "xs = []") (auto simp: split_on_no_sep join_Cons split_on_append)
qed simp

lemma join_head: "join sep ((x # y) # ys) = x # join sep (y # ys)"
  by (cases ys) auto

lemma join_split [simp]: "join [c] (split_on c s) = s"
proof (induction s)
  case (Cons x xs)
  then show ?case
    by (cases "split_on c xs") (auto simp: join_Cons join_head simp del: join.simps(2,3))
qed simp

lemma set_join: "x \<in> set xs \<Longrightarrow> set x \<subseteq> set (join sep xs)"
  by (induction sep xs rule: join.induct) auto

lemma split_on_chars: "x \<in> set (split_on c s) \<Longrightarrow> set x \<subseteq> set s"
  using set_join [of x "split_on c s" "[c]"] by simp

subsection \<open>Numerals\<close>

text \<open>\<open>Number.prototype.toString(b)\<close> of a non-negative integer, and the value of a string
  of digits, which is what \<open>Number\<close> and \<open>parseInt\<close> return for one.\<close>

definition digit_char :: "int \<Rightarrow> char" where
  "digit_char d = char_of (if d < 10 then 48 + d else 87 + d)"

definition digit_val :: "char \<Rightarrow> int" where
  "digit_val c = (if is_digit c then cc c - 48 else if is_lower c then cc c - 87
                  else if is_upper c then cc c - 55 else 36)"

function base_str :: "int \<Rightarrow> int \<Rightarrow> string" where
  "base_str b n = (if b < 2 \<or> n < b then [digit_char n]
                   else base_str b (n div b) @ [digit_char (n mod b)])"
  by pat_completeness auto
termination
proof (relation "measure (\<lambda>(b, n). nat n)", goal_cases)
  case (2 b n)
  then have "n div b < n" and "0 < n" by (auto intro: int_div_less_self)
  then show ?case by simp
qed simp

declare base_str.simps [simp del]

abbreviation dec :: "int \<Rightarrow> string" where
  "dec n \<equiv> base_str 10 n"

abbreviation hex :: "int \<Rightarrow> string" where
  "hex n \<equiv> base_str 16 n"

definition num_val :: "int \<Rightarrow> string \<Rightarrow> int" where
  "num_val b s = foldl (\<lambda>a c. a * b + digit_val c) 0 s"

definition all_digits :: "string \<Rightarrow> bool" where
  "all_digits s \<longleftrightarrow> s \<noteq> [] \<and> list_all is_digit s"

lemma cc_char_of: "0 \<le> n \<Longrightarrow> n < 256 \<Longrightarrow> cc (char_of n) = n"
  by (simp add: cc_def)

lemma digit_char_digit: "0 \<le> d \<Longrightarrow> d < 10 \<Longrightarrow> is_digit (digit_char d)"
  by (simp add: digit_char_def is_digit_def cc_char_of)

lemma digit_char_xdigit: "0 \<le> d \<Longrightarrow> d < 16 \<Longrightarrow> is_lxdigit (digit_char d)"
  by (simp add: digit_char_def is_digit_def is_lxdigit_def cc_char_of)

lemma digit_char_alnum:
  "0 \<le> d \<Longrightarrow> d < 36 \<Longrightarrow> is_digit (digit_char d) \<or> is_lower (digit_char d)"
  by (simp add: digit_char_def is_digit_def is_lower_def cc_char_of)

lemma digit_val_char: "0 \<le> d \<Longrightarrow> d < 36 \<Longrightarrow> digit_val (digit_char d) = d"
  by (simp add: digit_char_def digit_val_def is_digit_def is_lower_def is_upper_def cc_char_of)

lemma digit_val_digit: "is_digit c \<Longrightarrow> 0 \<le> digit_val c \<and> digit_val c \<le> 9"
  by (simp add: digit_val_def is_digit_def)

lemma digit_val_xdigit: "is_xdigit c \<Longrightarrow> 0 \<le> digit_val c \<and> digit_val c \<le> 15"
  by (auto simp: digit_val_def is_digit_def is_lower_def is_upper_def is_xdigit_def)

lemma num_val_Nil [simp]: "num_val b [] = 0"
  by (simp add: num_val_def)

lemma num_val_snoc: "num_val b (s @ [c]) = num_val b s * b + digit_val c"
  by (simp add: num_val_def)

lemma base_str_not_Nil [simp]: "base_str b n \<noteq> []"
  by (subst base_str.simps) simp

lemma num_val_base_str:
  "2 \<le> b \<Longrightarrow> b \<le> 36 \<Longrightarrow> 0 \<le> n \<Longrightarrow> num_val b (base_str b n) = n"
proof (induction b n rule: base_str.induct)
  case (1 b n)
  show ?case
  proof (cases "n < b")
    case True
    with 1 show ?thesis
      using num_val_snoc [of b "[]" "digit_char n"]
      by (subst base_str.simps) (simp add: digit_val_char)
  next
    case False
    with 1 have "num_val b (base_str b (n div b)) = n div b"
      by (simp add: pos_imp_zdiv_nonneg_iff)
    moreover have "0 \<le> n mod b" "n mod b < 36"
      using 1 by (auto intro: order.strict_trans2 [OF pos_mod_bound])
    ultimately show ?thesis using False 1
      by (subst base_str.simps) (simp add: num_val_snoc digit_val_char)
  qed
qed

lemma base_str_chars:
  assumes "2 \<le> b" "0 \<le> n" "\<And>d. 0 \<le> d \<Longrightarrow> d < b \<Longrightarrow> P (digit_char d)"
  shows "\<forall>c \<in> set (base_str b n). P c"
  using assms
proof (induction b n rule: base_str.induct)
  case (1 b n)
  show ?case
  proof (cases "n < b")
    case True
    with 1 show ?thesis by (subst base_str.simps) simp
  next
    case False
    with 1 have "\<forall>c \<in> set (base_str b (n div b)). P c"
      by (simp add: pos_imp_zdiv_nonneg_iff)
    with False 1 show ?thesis by (subst base_str.simps) simp
  qed
qed

lemma dec_digits: "0 \<le> n \<Longrightarrow> all_digits (dec n)"
  using base_str_chars [of 10 n is_digit]
  by (auto simp: all_digits_def list_all_iff digit_char_digit)

lemma dec_chars: "0 \<le> n \<Longrightarrow> c \<in> set (dec n) \<Longrightarrow> is_digit c"
  using dec_digits [of n] by (auto simp: all_digits_def list_all_iff)

lemma hex_chars: "0 \<le> n \<Longrightarrow> c \<in> set (hex n) \<Longrightarrow> is_lxdigit c"
  using base_str_chars [of 16 n is_lxdigit] by (auto simp: digit_char_xdigit)

lemma num_val_dec [simp]: "0 \<le> n \<Longrightarrow> num_val 10 (dec n) = n"
  by (simp add: num_val_base_str)

lemma num_val_hex [simp]: "0 \<le> n \<Longrightarrow> num_val 16 (hex n) = n"
  by (simp add: num_val_base_str)

lemma num_val_nonneg:
  "0 \<le> b \<Longrightarrow> \<forall>c \<in> set s. 0 \<le> digit_val c \<Longrightarrow> 0 \<le> num_val b s"
  by (induction s rule: rev_induct) (auto simp: num_val_snoc)

lemma num_val_less:
  "0 < b \<Longrightarrow> \<forall>c \<in> set s. 0 \<le> digit_val c \<and> digit_val c < b \<Longrightarrow> num_val b s < b ^ length s"
proof (induction s rule: rev_induct)
  case (snoc c s)
  then have "num_val b s \<le> b ^ length s - 1" by simp
  then have "num_val b s * b \<le> (b ^ length s - 1) * b"
    using snoc.prems(1) by (intro mult_right_mono) auto
  moreover have "digit_val c < b" using snoc.prems(2) by simp
  ultimately show ?case by (simp add: num_val_snoc algebra_simps)
qed simp

lemma num_val_digits_nonneg: "all_digits s \<Longrightarrow> 0 \<le> num_val 10 s"
  by (rule num_val_nonneg) (auto simp: all_digits_def list_all_iff dest: digit_val_digit)

lemma base_str_len:
  "2 \<le> b \<Longrightarrow> 0 \<le> n \<Longrightarrow> n < b ^ k \<Longrightarrow> 0 < k \<Longrightarrow> length (base_str b n) \<le> k"
proof (induction b n arbitrary: k rule: base_str.induct)
  case (1 b n)
  show ?case
  proof (cases "n < b")
    case True
    with 1 show ?thesis by (subst base_str.simps) simp
  next
    case False
    with 1 obtain j where k: "k = Suc j" "0 < j" by (cases k; cases "k - 1") auto
    have "n div b < b ^ j"
    proof (rule ccontr)
      assume "\<not> n div b < b ^ j"
      then have "b * b ^ j \<le> b * (n div b)" using 1 by (intro mult_left_mono) auto
      also have "\<dots> \<le> n"
        using 1 mult_div_mod_eq [of b n] pos_mod_sign [of b n] by linarith
      finally show False using 1 k by simp
    qed
    with False 1 k have "length (base_str b (n div b)) \<le> j"
      by (simp add: pos_imp_zdiv_nonneg_iff)
    with False 1 k show ?thesis by (subst base_str.simps) simp
  qed
qed

section \<open>Lists\<close>

lemma find_set: "find P xs = Some x \<Longrightarrow> x \<in> set xs \<and> P x"
  by (auto simp: find_Some_iff in_set_conv_nth)

lemma map_filter_set: "x \<in> set (List.map_filter f xs) \<longleftrightarrow> (\<exists>y \<in> set xs. f y = Some x)"
  by (induction xs) (auto simp: List.map_filter_simps split: option.splits)

section \<open>Two characters beyond the range of \<open>char\<close>\<close>

text \<open>The en dash and the ellipsis of the display texts stand as their UTF-8 bytes.\<close>

definition en_dash :: string where
  "en_dash = map char_of [226, 128, 147 :: nat]"

definition ellipsis :: string where
  "ellipsis = map char_of [226, 128, 166 :: nat]"

end
