(* ===== verification/Qr_Bch.thy ===== *)
theory Qr_Bch
  imports Prelude
begin

text \<open>
  The format and version information of a QR symbol (\<open>bchDigitCount\<close>, \<open>bchEncode\<close>,
  \<open>formatBits\<close> and \<open>versionBits\<close> of \<open>freenetic-qrcode.js\<close>).  The division loop is
  a \<open>partial_function\<close>, since it does not stop for a zero generator; the lemmas prove that it
  returns for the generators of the code, that the result is a codeword of the BCH code, and
  that the words of one kind are far enough apart to be told from each other after errors.
\<close>

section \<open>The operations\<close>

datatype ec_level = L | M

definition EC_LEVEL_BITS :: "ec_level \<Rightarrow> int" where
  "EC_LEVEL_BITS l = (case l of L \<Rightarrow> 1 | M \<Rightarrow> 0)"

definition G15 :: int where
  "G15 = push_bit 10 1 OR push_bit 8 1 OR push_bit 5 1 OR push_bit 4 1 OR push_bit 2 1
    OR push_bit 1 1 OR push_bit 0 1"

definition G18 :: int where
  "G18 = push_bit 12 1 OR push_bit 11 1 OR push_bit 10 1 OR push_bit 9 1 OR push_bit 8 1
    OR push_bit 5 1 OR push_bit 2 1 OR push_bit 0 1"

definition G15_MASK :: int where
  "G15_MASK = push_bit 14 1 OR push_bit 12 1 OR push_bit 10 1 OR push_bit 4 1 OR push_bit 1 1"

lemma js_ushr_range: "0 \<le> js_ushr n 1 \<and> js_ushr n 1 < 2 ^ 31"
proof -
  have "0 \<le> to_uint32 n div 2 \<and> to_uint32 n div 2 < 2 ^ 31"
    using to_uint32_range [of n] by (simp, linarith)
  then show ?thesis by (simp add: js_ushr_def drop_bit_eq_div)
qed

lemma js_ushr_half: "0 \<le> n \<Longrightarrow> n < 2 ^ 32 \<Longrightarrow> js_ushr n (Suc 0) = n div 2"
  by (simp add: js_ushr_def to_uint32_id drop_bit_eq_div)

function bch_count :: "int \<Rightarrow> nat \<Rightarrow> nat" where
  "bch_count n bits = (if n \<noteq> 0 then bch_count (js_ushr n 1) (bits + 1) else bits)"
  by pat_completeness auto
termination
proof (relation "measure (\<lambda>(n, bits). if 0 \<le> n \<and> n < 2 ^ 32 then nat n else 2 ^ 32)", goal_cases)
  case (2 n bits)
  show ?case
  proof (cases "0 \<le> n \<and> n < 2 ^ 32")
    case True
    then have "js_ushr n 1 = n div 2" by (simp add: js_ushr_half)
    moreover have "n div 2 < n" "0 \<le> n div 2" using True 2 by auto
    ultimately show ?thesis using True by auto
  next
    case False
    then show ?thesis using js_ushr_range [of n] by auto
  qed
qed simp

declare bch_count.simps [simp del]

definition bchDigitCount :: "int \<Rightarrow> nat" where
  "bchDigitCount n = bch_count n 0"

partial_function (option) bch_reduce :: "int \<Rightarrow> int \<Rightarrow> int option" where
  "bch_reduce d generator =
     (if bchDigitCount generator \<le> bchDigitCount d
      then bch_reduce (d XOR js_shl generator (bchDigitCount d - bchDigitCount generator)) generator
      else Some d)"

declare bch_reduce.simps [code]

definition bchEncode :: "int \<Rightarrow> int \<Rightarrow> int option" where
  "bchEncode data generator =
     bch_reduce (js_shl data (bchDigitCount generator - 1)) generator"

definition formatBits :: "ec_level \<Rightarrow> int \<Rightarrow> int option" where
  "formatBits ecLevel maskPattern =
     (let data = push_bit 3 (EC_LEVEL_BITS ecLevel) OR maskPattern
      in map_option (\<lambda>r. (push_bit 10 data OR r) XOR G15_MASK) (bchEncode data G15))"

definition versionBits :: "int \<Rightarrow> int option" where
  "versionBits version =
     map_option (\<lambda>r. push_bit 12 version OR r) (bchEncode version G18)"

section \<open>The digit count is the bit length\<close>

lemma bch_count_acc: "bch_count n (bits + k) = bch_count n bits + k"
proof (induction n bits rule: bch_count.induct)
  case (1 n bits)
  show ?case
  proof (cases "n = 0")
    case True
    then show ?thesis by (simp add: bch_count.simps)
  next
    case False
    with 1 have "bch_count (js_ushr n 1) (bits + 1 + k) = bch_count (js_ushr n 1) (bits + 1) + k"
      by simp
    with False show ?thesis
      using bch_count.simps [of n "bits + k"] bch_count.simps [of n bits]
      by (simp add: algebra_simps)
  qed
qed

lemma count_0 [simp]: "bchDigitCount 0 = 0"
  by (simp add: bchDigitCount_def bch_count.simps)

lemma count_pos:
  "0 < n \<Longrightarrow> n < 2 ^ 32 \<Longrightarrow> bchDigitCount n = Suc (bchDigitCount (n div 2))"
  unfolding bchDigitCount_def
  using bch_count_acc [of "n div 2" 0 1] by (subst bch_count.simps) (simp add: js_ushr_half)

lemma count_bounds:
  "0 \<le> n \<Longrightarrow> n < 2 ^ 32 \<Longrightarrow> n < 2 ^ bchDigitCount n \<and> (0 < n \<longrightarrow> 2 ^ (bchDigitCount n - 1) \<le> n)"
proof (induction "nat n" arbitrary: n rule: less_induct)
  case less
  show ?case
  proof (cases "n = 0")
    case False
    then have pos: "0 < n" using less by simp
    have half: "n div 2 < 2 ^ bchDigitCount (n div 2)"
        "0 < n div 2 \<longrightarrow> 2 ^ (bchDigitCount (n div 2) - 1) \<le> n div 2"
      using less(1) [of "n div 2"] less(2,3) pos by auto
    show ?thesis
    proof (cases "n div 2 = 0")
      case True
      then have "n = 1" using pos by linarith
      then show ?thesis by (simp add: count_pos)
    next
      case False
      then have "0 < bchDigitCount (n div 2)"
        using less(2,3) pos count_pos [of "n div 2"] by simp
      then obtain k where k: "bchDigitCount (n div 2) = Suc k" by (cases "bchDigitCount (n div 2)") auto
      have "2 ^ k \<le> n div 2" "n div 2 < 2 * 2 ^ k" using half False pos k by auto
      then have "2 * 2 ^ k \<le> n" "n < 4 * 2 ^ k" by linarith+
      then show ?thesis using pos less(2,3) k by (simp add: count_pos)
    qed
  qed simp
qed

lemma count_le: "0 \<le> n \<Longrightarrow> n < 2 ^ 32 \<Longrightarrow> bchDigitCount n \<le> k \<longleftrightarrow> n < 2 ^ k"
proof
  assume n: "0 \<le> n" "n < 2 ^ 32"
  show "n < 2 ^ k" if "bchDigitCount n \<le> k"
    using count_bounds [OF n] power_increasing [OF that, of "2::int"] by linarith
  show "bchDigitCount n \<le> k" if "n < 2 ^ k"
  proof (cases "n = 0")
    case False
    then have "(2::int) ^ (bchDigitCount n - 1) < 2 ^ k"
      using count_bounds [OF n] n that False by (auto simp del: power_strict_increasing_iff)
    then have "bchDigitCount n - 1 < k" by (rule power_less_imp_less_exp [rotated]) simp
    then show ?thesis by simp
  qed simp
qed

section \<open>The division\<close>

text \<open>The multiples of a polynomial over GF(2), as bit strings.\<close>

inductive gf2_multiple :: "int \<Rightarrow> int \<Rightarrow> bool" for g where
  zero: "gf2_multiple g 0"
| add: "gf2_multiple g m \<Longrightarrow> gf2_multiple g (m XOR push_bit k g)"

lemma gf2_multiple_xor: "gf2_multiple g n \<Longrightarrow> gf2_multiple g m \<Longrightarrow> gf2_multiple g (m XOR n)"
proof (induction n rule: gf2_multiple.induct)
  case (add n k)
  then have "gf2_multiple g ((m XOR n) XOR push_bit k g)" by (intro gf2_multiple.add) auto
  then show ?case by (simp add: ac_simps)
qed simp

lemma xor_top_bit:
  fixes x y :: int
  assumes "0 \<le> x" "x < 2 ^ Suc k" "bit x k" "0 \<le> y" "y < 2 ^ Suc k" "bit y k"
  shows "0 \<le> x XOR y \<and> x XOR y < 2 ^ k"
proof -
  have "take_bit (Suc k) x = x" "take_bit (Suc k) y = y"
    using assms by (simp_all only: take_bit_int_eq_self_iff)
  then have high: "\<not> bit x j" "\<not> bit y j" if "Suc k \<le> j" for j
    using that by (metis bit_take_bit_iff linorder_not_le)+
  have "take_bit k (x XOR y) = x XOR y"
  proof (rule bit_eqI)
    fix j
    show "bit (take_bit k (x XOR y)) j = bit (x XOR y) j"
      using assms(3,6) high [of j]
      by (cases "j < k"; cases "j = k") (auto simp: bit_take_bit_iff bit_xor_iff)
  qed
  then show ?thesis by (simp only: take_bit_int_eq_self_iff)
qed

lemma count_top_bit:
  assumes "0 < n" "n < 2 ^ 32"
  shows "0 < bchDigitCount n" "bit n (bchDigitCount n - 1)"
proof -
  obtain k where k: "bchDigitCount n = Suc k"
    using assms by (simp add: count_pos)
  then show "0 < bchDigitCount n" by simp
  have b: "2 ^ k \<le> n" "n < 2 * 2 ^ k" using count_bounds [of n] assms k by auto
  then have "n div 2 ^ k = 1" by (simp add: div_pos_geq)
  then show "bit n (bchDigitCount n - 1)" by (simp add: k bit_iff_odd)
qed

lemma js_shl_plain:
  assumes "0 \<le> a" "push_bit k a < 2 ^ 31" "k < 32"
  shows "js_shl a k = push_bit k a"
proof -
  have "a \<le> push_bit k a" using assms(1) by (simp add: push_bit_eq_mult mult_le_cancel_left1)
  then have "to_int32 a = a" using assms by (intro to_int32_id) auto
  moreover have "to_int32 (push_bit k a) = push_bit k a"
    using assms \<open>a \<le> push_bit k a\<close> by (intro to_int32_id) auto
  ultimately show ?thesis using assms(3) by (simp add: js_shl_less)
qed

lemma bch_step:
  assumes "0 < g" "0 \<le> d" "d < 2 ^ 31" "g < 2 ^ 31" "bchDigitCount g \<le> bchDigitCount d"
  defines "s \<equiv> bchDigitCount d - bchDigitCount g"
  shows "js_shl g s = push_bit s g" "0 \<le> d XOR push_bit s g" "d XOR push_bit s g < d"
proof -
  obtain c where c: "bchDigitCount g = Suc c"
    using count_top_bit(1) [of g] assms by (cases "bchDigitCount g") auto
  obtain k where k: "bchDigitCount d = Suc k"
    using assms(5) c by (cases "bchDigitCount d") auto
  have d0: "0 < d" using k assms(2) by (cases "d = 0") auto
  have s: "s + c = k" using assms(5) by (simp add: s_def c k)
  have g: "2 ^ c \<le> g" "g < 2 ^ Suc c" using count_bounds [of g] assms c by auto
  have dk: "2 ^ k \<le> d" "d < 2 ^ Suc k" using count_bounds [of d] assms k d0 by auto
  have pg: "push_bit s g < 2 ^ Suc k" "0 \<le> push_bit s g"
    using g assms(1) by (simp_all add: push_bit_eq_mult power_add flip: s)
  have "(2::int) ^ k < 2 ^ 31" using dk assms(3) by simp
  then have "k < 31" by (simp only: power_strict_increasing_iff)
  then have "(2::int) ^ Suc k \<le> 2 ^ 31" by (intro power_increasing) auto
  then show "js_shl g s = push_bit s g"
    using pg assms(1) s \<open>k < 31\<close> by (intro js_shl_plain) auto
  have "bit d k" using count_top_bit(2) [of d] d0 assms(3) k by simp
  moreover have "bit (push_bit s g) k"
    using count_top_bit(2) [of g] assms c s by (auto simp: bit_push_bit_iff)
  ultimately have "0 \<le> d XOR push_bit s g \<and> d XOR push_bit s g < 2 ^ k"
    using dk pg assms(2) by (intro xor_top_bit) auto
  then show "0 \<le> d XOR push_bit s g" "d XOR push_bit s g < d" using dk by auto
qed

lemma bch_reduce_remainder:
  assumes "0 < g" "g < 2 ^ 31" "0 \<le> d" "d < 2 ^ 31"
  shows "\<exists>r. bch_reduce d g = Some r \<and> 0 \<le> r \<and> bchDigitCount r < bchDigitCount g
    \<and> gf2_multiple g (d XOR r) \<and> r < 2 ^ 31"
  using assms
proof (induction "nat d" arbitrary: d rule: less_induct)
  case less
  show ?case
  proof (cases "bchDigitCount g \<le> bchDigitCount d")
    case True
    define s where "s = bchDigitCount d - bchDigitCount g"
    let ?e = "d XOR push_bit s g"
    note step = bch_step [OF less(2,4,5,3) True, folded s_def]
    then obtain r where r: "bch_reduce ?e g = Some r" "0 \<le> r" "bchDigitCount r < bchDigitCount g"
        "gf2_multiple g (?e XOR r)" "r < 2 ^ 31"
      using less(1) [of ?e] less(2-5) by auto
    have "gf2_multiple g ((?e XOR r) XOR push_bit s g)"
      using r(4) by (rule gf2_multiple.add)
    moreover have "(?e XOR r) XOR push_bit s g = d XOR r"
      by (rule bit_eqI) (auto simp: bit_xor_iff)
    ultimately show ?thesis
      using r True step by (subst bch_reduce.simps) (simp add: s_def)
  next
    case False
    then show ?thesis using less(3-5)
      by (subst bch_reduce.simps) (simp add: gf2_multiple.zero)
  qed
qed

lemma bchEncode_remainder:
  assumes "0 < g" "g < 2 ^ 31" "0 \<le> data" "push_bit (bchDigitCount g - 1) data < 2 ^ 31"
  shows "\<exists>r. bchEncode data g = Some r \<and> 0 \<le> r \<and> r < 2 ^ (bchDigitCount g - 1)
    \<and> gf2_multiple g (push_bit (bchDigitCount g - 1) data XOR r)"
proof -
  let ?k = "bchDigitCount g - 1"
  have "bchDigitCount g \<le> 31"
    using count_top_bit(2) [of g] assms(1,2) bit_take_bit_iff [of 31 g "bchDigitCount g - 1"]
    by (auto simp: take_bit_int_eq_self)
  then have shl: "js_shl data ?k = push_bit ?k data" using assms by (intro js_shl_plain) auto
  obtain r where r: "bch_reduce (push_bit ?k data) g = Some r" "0 \<le> r" "r < 2 ^ 31"
      "bchDigitCount r < bchDigitCount g" "gf2_multiple g (push_bit ?k data XOR r)"
    using bch_reduce_remainder [of g "push_bit ?k data"] assms by auto
  then have "r < 2 ^ ?k" using count_le [of r ?k] by auto
  with r show ?thesis unfolding bchEncode_def shl by blast
qed

section \<open>Format and version words\<close>

fun weight :: "nat \<Rightarrow> int \<Rightarrow> nat" where
  "weight 0 x = 0"
| "weight (Suc n) x = (if odd x then Suc (weight n (x div 2)) else weight n (x div 2))"

definition distance :: "nat \<Rightarrow> int \<Rightarrow> int \<Rightarrow> nat" where
  "distance n x y = weight n (x XOR y)"

lemma weight_eq: "weight n x = card {k. k < n \<and> bit x k}"
proof (induction n arbitrary: x)
  case (Suc n)
  have "{k. k < Suc n \<and> bit x k}
      = (if odd x then {0} else {}) \<union> Suc ` {k. k < n \<and> bit (x div 2) k}"
    by (auto simp: image_iff less_Suc_eq_0_disj bit_0 bit_Suc)
  then show ?case
    by (simp add: Suc card_image card_insert_if)
qed simp

lemma G15_value: "G15 = 0x537" and G18_value: "G18 = 0x1f25" and G15_MASK_value: "G15_MASK = 0x5412"
  by (simp_all add: G15_def G18_def G15_MASK_def)

lemma count_G15: "bchDigitCount G15 = 11" and count_G18: "bchDigitCount G18 = 13"
  by code_simp+

lemma EC_LEVEL_BITS_range: "0 \<le> EC_LEVEL_BITS l \<and> EC_LEVEL_BITS l \<le> 1"
  by (cases l) (simp_all add: EC_LEVEL_BITS_def)

lemma or_disjoint:
  fixes r :: int
  assumes "0 \<le> r" "r < 2 ^ k"
  shows "push_bit k a OR r = push_bit k a XOR r"
proof (rule bit_eqI)
  fix j
  have "take_bit k r = r" using assms by (simp only: take_bit_int_eq_self_iff)
  then have "\<not> bit r j" if "k \<le> j"
    using that by (metis bit_take_bit_iff linorder_not_le)
  then show "bit (push_bit k a OR r) j = bit (push_bit k a XOR r) j"
    by (auto simp: bit_or_iff bit_xor_iff bit_push_bit_iff)
qed

text \<open>The words, in the order of the masks: the values of table C.1 and D.1 of ISO 18004.\<close>

definition format_words :: "ec_level \<Rightarrow> int list" where
  "format_words l = (case l of
     L \<Rightarrow> [30660, 29427, 32170, 30877, 26159, 25368, 27713, 26998]
   | M \<Rightarrow> [21522, 20773, 24188, 23371, 17913, 16590, 20375, 19104])"

definition version_words :: "int list" where
  "version_words = [31892, 34236, 39577, 42195]"

lemma formatBits_values:
  "map (formatBits L) [0, 1, 2, 3, 4, 5, 6, 7] = map Some (format_words L)"
  "map (formatBits M) [0, 1, 2, 3, 4, 5, 6, 7] = map Some (format_words M)"
  by code_simp+

lemma versionBits_values: "map versionBits [7, 8, 9, 10] = map Some version_words"
  by code_simp

fun all_apart :: "nat \<Rightarrow> nat \<Rightarrow> int list \<Rightarrow> bool" where
  "all_apart n d [] = True"
| "all_apart n d (x # xs) = (list_all (\<lambda>y. d \<le> distance n x y) xs \<and> all_apart n d xs)"

lemma format_words_apart: "all_apart 15 7 (format_words L @ format_words M)"
  by code_simp

lemma version_words_apart: "all_apart 18 8 version_words"
  by code_simp

end
