(* ===== verification/Qr_Field.thy ===== *)
theory Qr_Field
  imports Prelude
begin

text \<open>
  The arithmetic of GF(256) of the QR encoder (\<open>freenetic-qrcode.js\<close>): the exponent and
  logarithm tables, filled by the loop of \<open>initGF256\<close>, and the product \<open>gmul\<close> read from
  them.  The lemmas show that the tables describe a cyclic group of order 255 and that
  \<open>gmul\<close> and exclusive or make the bytes a field; the codes of the later theories rest on the
  field laws only, through the locale \<open>byte_field\<close>.

  A JavaScript array is a map from indices to values; a missing entry reads as
  \<open>undefined\<close>, which the only consumer of \<open>gmul\<close>, the operator \<open>^=\<close>, turns into 0.
\<close>

section \<open>Tables\<close>

record gf_tables =
  exp_table :: "int \<rightharpoonup> int"
  log_table :: "int \<rightharpoonup> int"

definition gf_step :: "int \<Rightarrow> int" where
  "gf_step g = (let g' = push_bit 1 g in if g' AND 0x100 \<noteq> 0 then g' XOR 0x11d else g')"

definition gf_fill :: "gf_tables \<times> int \<Rightarrow> int \<Rightarrow> gf_tables \<times> int" where
  "gf_fill = (\<lambda>(t, g) i.
     (t\<lparr>exp_table := (exp_table t)(i \<mapsto> g), log_table := (log_table t)(g \<mapsto> i)\<rparr>, gf_step g))"

definition gf_wrap :: "gf_tables \<Rightarrow> int \<Rightarrow> gf_tables" where
  "gf_wrap t i = t\<lparr>exp_table := (exp_table t)(i := exp_table t (i - 255))\<rparr>"

definition initGF256 :: gf_tables where
  "initGF256 =
     foldl gf_wrap
       (fst (foldl gf_fill (\<lparr>exp_table = Map.empty, log_table = Map.empty\<rparr>, 1) [0..254]))
       [255..511]"

definition gmul :: "int \<Rightarrow> int \<Rightarrow> int" where
  "gmul a b =
     (if a = 0 \<or> b = 0 then 0
      else case (log_table initGF256 a, log_table initGF256 b) of
             (Some i, Some j) \<Rightarrow>
               (case exp_table initGF256 (i + j) of Some v \<Rightarrow> v | None \<Rightarrow> 0)
           | _ \<Rightarrow> 0)"

definition EXP_TABLE :: "int \<Rightarrow> int" where
  "EXP_TABLE i = (case exp_table initGF256 i of Some v \<Rightarrow> v | None \<Rightarrow> 0)"

section \<open>The powers of the generator\<close>

definition is_byte :: "int \<Rightarrow> bool" where
  "is_byte b \<longleftrightarrow> 0 \<le> b \<and> b < 256"

definition gf_pow :: "nat \<Rightarrow> int" where
  "gf_pow i = (gf_step ^^ i) 1"

fun gf_orbit :: "int list \<Rightarrow> int \<Rightarrow> int list" where
  "gf_orbit [] g = []"
| "gf_orbit (i # is) g = g # gf_orbit is (gf_step g)"

lemma is_byte_take_bit: "is_byte b \<longleftrightarrow> take_bit 8 b = b"
  by (simp add: is_byte_def take_bit_int_eq_self_iff)

lemma is_byte_xor [intro, simp]: "is_byte a \<Longrightarrow> is_byte b \<Longrightarrow> is_byte (a XOR b)"
  by (simp add: is_byte_take_bit)

lemma is_byte_0 [simp]: "is_byte 0"
  by (simp add: is_byte_def)

lemma is_byte_1 [simp]: "is_byte 1"
  by (simp add: is_byte_def)

lemma byte_bit_high: "is_byte b \<Longrightarrow> 8 \<le> k \<Longrightarrow> \<not> bit b k"
  by (metis bit_take_bit_iff is_byte_take_bit linorder_not_le)

lemma and_pow2_iff: "x AND 2 ^ k \<noteq> 0 \<longleftrightarrow> bit x k" for x :: int
  by (simp add: bit_iff_and_push_bit_not_eq_0 [of x k])

lemma gf_step_alt: "gf_step g = push_bit 1 g XOR (if bit g 7 then 0x11d else 0)"
proof -
  have "push_bit 1 g AND 0x100 \<noteq> 0 \<longleftrightarrow> bit (push_bit 1 g) 8"
    using and_pow2_iff [of "push_bit 1 g" 8] by simp
  also have "\<dots> \<longleftrightarrow> bit g 7"
    unfolding bit_push_bit_iff by simp
  finally show ?thesis by (simp add: gf_step_def Let_def)
qed

lemma gf_step_xor: "gf_step (a XOR b) = gf_step a XOR gf_step b"
  by (auto simp: gf_step_alt push_bit_xor bit_xor_iff ac_simps)

lemma gf_step_0 [simp]: "gf_step 0 = 0"
  by (simp add: gf_step_alt)

lemma is_byte_upto: "is_byte b \<longleftrightarrow> b \<in> set [0..255]"
  by (auto simp: is_byte_def)

lemma gf_step_byte:
  assumes "is_byte b"
  shows "is_byte (gf_step b)"
proof -
  have "list_all (\<lambda>b. 0 \<le> gf_step b \<and> gf_step b \<le> 255) [0..255]" by code_simp
  moreover have "b \<in> {0..255}" using assms by (simp add: is_byte_def)
  ultimately have "0 \<le> gf_step b \<and> gf_step b \<le> 255" by (simp add: list_all_iff)
  then show ?thesis by (simp add: is_byte_def)
qed

lemma gf_pow_0 [simp]: "gf_pow 0 = 1"
  by (simp add: gf_pow_def)

lemma gf_pow_Suc: "gf_pow (Suc i) = gf_step (gf_pow i)"
  by (simp add: gf_pow_def)

lemma gf_pow_add: "(gf_step ^^ i) (gf_pow j) = gf_pow (i + j)"
  by (simp add: gf_pow_def funpow_add)

lemma gf_steps_xor: "(gf_step ^^ i) (a XOR b) = (gf_step ^^ i) a XOR (gf_step ^^ i) b"
  by (induction i) (simp_all add: gf_step_xor)

lemma gf_steps_0 [simp]: "(gf_step ^^ i) 0 = 0"
  by (induction i) simp_all

lemma gf_steps_byte: "is_byte b \<Longrightarrow> is_byte ((gf_step ^^ i) b)"
  by (induction i) (simp_all add: gf_step_byte)

lemma gf_pow_byte [simp]: "is_byte (gf_pow i)"
  by (simp add: gf_pow_def gf_steps_byte)

lemma gf_orbit_nth:
  "gf_orbit is g = map (\<lambda>i. (gf_step ^^ i) g) [0..<length is]"
proof (induction "is" arbitrary: g)
  case (Cons i "is")
  then show ?case
    by (simp add: map_upt_Suc funpow_Suc_right del: funpow.simps upt_Suc)
qed simp

lemma gf_orbit_pow: "gf_orbit [0..254] 1 = map gf_pow [0..<255]"
  by (simp add: gf_orbit_nth gf_pow_def)

lemma gf_orbit_sorted: "sort (gf_orbit [0..254] 1) = [1..255]"
  by code_simp

lemma gf_pow_set: "gf_pow ` {..<255} = {1..255}"
proof -
  have "set (sort (gf_orbit [0..254] 1)) = {1..255}"
    by (simp only: gf_orbit_sorted set_upto)
  then show ?thesis by (simp add: gf_orbit_pow atLeast_upt)
qed

lemma gf_pow_inj: "inj_on gf_pow {..<255}"
proof -
  have "distinct (sort (gf_orbit [0..254] 1))"
    by (simp only: gf_orbit_sorted distinct_upto)
  then show ?thesis by (simp add: gf_orbit_pow distinct_map atLeast_upt)
qed

lemma gf_pow_255: "gf_pow 255 = 1"
proof -
  have "gf_orbit [0..255] 1 ! 255 = 1" by code_simp
  then show ?thesis by (simp add: gf_orbit_nth gf_pow_def)
qed

lemma gf_pow_mod: "gf_pow (i mod 255) = gf_pow i"
proof -
  have "gf_pow (255 * k + j) = gf_pow j" for k j
  proof (induction k)
    case (Suc k)
    have "gf_pow (255 * Suc k + j) = (gf_step ^^ (255 * k + j)) (gf_pow 255)"
      by (simp add: gf_pow_add algebra_simps)
    also have "\<dots> = gf_pow (255 * k + j)"
      by (simp only: gf_pow_255) (simp add: gf_pow_def)
    finally show ?case using Suc by simp
  qed simp
  then show ?thesis by (metis mult_div_mod_eq)
qed

lemma gf_pow_not_0 [simp]: "gf_pow i \<noteq> 0"
proof -
  have "gf_pow (i mod 255) \<in> gf_pow ` {..<255}" by (intro imageI) simp
  then show ?thesis by (simp only: gf_pow_set gf_pow_mod) auto
qed

lemma byte_power: "is_byte b \<Longrightarrow> b \<noteq> 0 \<Longrightarrow> \<exists>i < 255. b = gf_pow i"
proof -
  assume "is_byte b" "b \<noteq> 0"
  then have "b \<in> {1..255}" by (auto simp: is_byte_def)
  then show ?thesis unfolding gf_pow_set [symmetric] by auto
qed

section \<open>The tables hold the powers\<close>

lemma gf_fill_prefix:
  assumes "n \<le> 255"
  defines "s \<equiv> foldl gf_fill (\<lparr>exp_table = Map.empty, log_table = Map.empty\<rparr>, 1) [0..int n - 1]"
  shows "snd s = gf_pow n
    \<and> exp_table (fst s) = (\<lambda>i. if 0 \<le> i \<and> i < int n then Some (gf_pow (nat i)) else None)
    \<and> (\<forall>i < n. log_table (fst s) (gf_pow i) = Some (int i))"
  using assms(1) unfolding s_def
proof (induction n)
  case (Suc n)
  let ?s = "foldl gf_fill (\<lparr>exp_table = Map.empty, log_table = Map.empty\<rparr>, 1) [0..int n - 1]"
  obtain t g where s: "?s = (t, g)" by fastforce
  have step: "[0..int (Suc n) - 1] = [0..int n - 1] @ [int n]"
    using upto_rec2 [of 0 "int n"] by simp
  have fresh: "gf_pow i \<noteq> gf_pow n" if "i < n" for i
    using that Suc.prems inj_onD [OF gf_pow_inj, of i n] by fastforce
  have "g = gf_pow n"
    and "exp_table t = (\<lambda>i. if 0 \<le> i \<and> i < int n then Some (gf_pow (nat i)) else None)"
    and "\<forall>i < n. log_table t (gf_pow i) = Some (int i)"
    using Suc s by auto
  then show ?case
    unfolding step foldl_append s
    by (auto simp: gf_fill_def gf_pow_Suc fun_eq_iff less_Suc_eq dest: fresh)
qed (simp add: fun_eq_iff)

lemma gf_wrap_prefix:
  assumes "m \<le> 257" "exp_table t = (\<lambda>i. if 0 \<le> i \<and> i < 255 then Some (gf_pow (nat i)) else None)"
  defines "u \<equiv> foldl gf_wrap t [255..254 + int m]"
  shows "exp_table u = (\<lambda>i. if 0 \<le> i \<and> i < 255 + int m then Some (gf_pow (nat i)) else None)
    \<and> log_table u = log_table t"
  using assms(1) unfolding u_def
proof (induction m)
  case (Suc m)
  have step: "[255..254 + int (Suc m)] = [255..254 + int m] @ [255 + int m]"
    using upto_rec2 [of 255 "255 + int m"] by simp
  have "gf_pow (nat (255 + int m)) = gf_pow m"
    by (metis gf_pow_mod mod_add_self1 nat_int of_nat_add of_nat_numeral)
  moreover define w where "w = foldl gf_wrap t [255..254 + int m]"
  moreover have "exp_table w = (\<lambda>i. if 0 \<le> i \<and> i < 255 + int m then Some (gf_pow (nat i)) else None)"
    and "log_table w = log_table t"
    using Suc by (auto simp: w_def)
  ultimately show ?case
    unfolding step foldl_append by (auto simp: gf_wrap_def fun_eq_iff simp flip: w_def)
qed (simp add: assms(2))

lemma initGF256_tables:
  "exp_table initGF256 = (\<lambda>i. if 0 \<le> i \<and> i < 512 then Some (gf_pow (nat i)) else None)"
  "i < 255 \<Longrightarrow> log_table initGF256 (gf_pow i) = Some (int i)"
  using gf_wrap_prefix [of 257] gf_fill_prefix [of 255] by (auto simp: initGF256_def)

lemma EXP_TABLE_pow: "0 \<le> i \<Longrightarrow> i < 512 \<Longrightarrow> EXP_TABLE i = gf_pow (nat i)"
  by (simp add: EXP_TABLE_def initGF256_tables)

section \<open>The product\<close>

lemma gmul_0 [simp]: "gmul 0 b = 0" "gmul a 0 = 0"
  by (simp_all add: gmul_def)

lemma gmul_pow [simp]: "gmul (gf_pow i) (gf_pow j) = gf_pow (i + j)"
proof -
  define i' j' where "i' = i mod 255" and "j' = j mod 255"
  have ij: "i' < 255" "j' < 255" by (simp_all add: i'_def j'_def)
  then have "gmul (gf_pow i') (gf_pow j') = gf_pow (i' + j')"
    by (simp add: gmul_def initGF256_tables nat_add_distrib)
  moreover have "gf_pow (i' + j') = gf_pow (i + j)"
    by (metis gf_pow_mod i'_def j'_def mod_add_eq)
  ultimately show ?thesis by (simp add: i'_def j'_def gf_pow_mod)
qed

lemma gmul_steps: "is_byte b \<Longrightarrow> gmul (gf_pow i) b = (gf_step ^^ i) b"
  using byte_power [of b] by (cases "b = 0") (auto simp: gf_pow_add)

lemma gmul_byte [simp]: "is_byte a \<Longrightarrow> is_byte b \<Longrightarrow> is_byte (gmul a b)"
  using byte_power [of a] by (cases "a = 0") (auto simp: gmul_steps gf_steps_byte)

lemma gmul_comm: "is_byte a \<Longrightarrow> is_byte b \<Longrightarrow> gmul a b = gmul b a"
  using byte_power [of a] byte_power [of b]
  by (cases "a = 0"; cases "b = 0") (auto simp: add.commute)

lemma gmul_assoc:
  "is_byte a \<Longrightarrow> is_byte b \<Longrightarrow> is_byte c \<Longrightarrow> gmul (gmul a b) c = gmul a (gmul b c)"
  using byte_power [of a] byte_power [of b] byte_power [of c]
  by (cases "a = 0"; cases "b = 0"; cases "c = 0") (auto simp: add.assoc)

lemma gmul_1 [simp]: "is_byte a \<Longrightarrow> gmul 1 a = a" "is_byte a \<Longrightarrow> gmul a 1 = a"
  using gmul_steps [of a 0] gmul_comm [of a 1] by simp_all

lemma gmul_xor:
  "is_byte a \<Longrightarrow> is_byte b \<Longrightarrow> is_byte c \<Longrightarrow> gmul a (b XOR c) = gmul a b XOR gmul a c"
  using byte_power [of a] by (cases "a = 0") (auto simp: gmul_steps gf_steps_xor)

lemma gmul_inverse:
  assumes "is_byte a" "a \<noteq> 0"
  shows "\<exists>b. is_byte b \<and> gmul a b = 1"
proof -
  obtain i where "i < 255" "a = gf_pow i" using byte_power assms by blast
  then have "gmul a (gf_pow (255 - i)) = 1" by (simp add: gf_pow_255)
  then show ?thesis using gf_pow_byte by blast
qed

lemma gmul_eq_0: "is_byte a \<Longrightarrow> is_byte b \<Longrightarrow> gmul a b = 0 \<longleftrightarrow> a = 0 \<or> b = 0"
  using byte_power [of a] byte_power [of b] by (cases "a = 0"; cases "b = 0") auto

end
