(* ===== verification/Qr_Code.thy ===== *)
theory Qr_Code
  imports Qr_Field
begin

text \<open>
  The Reed-Solomon code of the QR encoder (\<open>generatorPolynomial\<close> and \<open>rsEncode\<close> of
  \<open>freenetic-qrcode.js\<close>).  A block followed by its check symbols is a polynomial that
  vanishes at the first powers of the generator of the field: that is what a decoder tests,
  and it is what the lemmas prove of the in-place division the code performs.
\<close>

section \<open>Polynomials over a byte field\<close>

text \<open>The coefficients are listed from the highest power, as the arrays of the code.\<close>

definition poly_eval :: "(int \<Rightarrow> int \<Rightarrow> int) \<Rightarrow> int list \<Rightarrow> int \<Rightarrow> int" where
  "poly_eval mul xs x = foldl (\<lambda>acc c. mul acc x XOR c) 0 xs"

definition xor_list :: "int list \<Rightarrow> int list \<Rightarrow> int list" where
  "xor_list xs ys = map2 (XOR) xs ys"

abbreviation bytes :: "int list \<Rightarrow> bool" where
  "bytes xs \<equiv> list_all is_byte xs"

locale byte_field =
  fixes mul :: "int \<Rightarrow> int \<Rightarrow> int"
  assumes mul_byte: "is_byte a \<Longrightarrow> is_byte b \<Longrightarrow> is_byte (mul a b)"
    and mul_comm: "is_byte a \<Longrightarrow> is_byte b \<Longrightarrow> mul a b = mul b a"
    and mul_assoc: "is_byte a \<Longrightarrow> is_byte b \<Longrightarrow> is_byte c \<Longrightarrow> mul (mul a b) c = mul a (mul b c)"
    and mul_one: "is_byte a \<Longrightarrow> mul 1 a = a"
    and mul_zero: "mul 0 a = 0"
    and mul_xor: "is_byte a \<Longrightarrow> is_byte b \<Longrightarrow> is_byte c \<Longrightarrow> mul a (b XOR c) = mul a b XOR mul a c"
begin

lemma xor_mul: "is_byte a \<Longrightarrow> is_byte b \<Longrightarrow> is_byte c \<Longrightarrow> mul (b XOR c) a = mul b a XOR mul c a"
  by (metis is_byte_xor mul_comm mul_xor)

lemma eval_Nil: "poly_eval mul [] x = 0"
  by (simp add: poly_eval_def)

lemma eval_snoc: "poly_eval mul (xs @ [c]) x = mul (poly_eval mul xs x) x XOR c"
  by (simp add: poly_eval_def)

lemma eval_byte: "is_byte x \<Longrightarrow> bytes xs \<Longrightarrow> is_byte (poly_eval mul xs x)"
  by (induction xs rule: rev_induct) (auto simp: eval_Nil eval_snoc mul_byte)

lemma eval_zeros: "poly_eval mul (replicate n 0) x = 0"
  by (induction n) (simp_all add: eval_Nil eval_snoc mul_zero flip: replicate_append_same)

lemma eval_zeros_append: "poly_eval mul (replicate n 0 @ xs) x = poly_eval mul xs x"
  using eval_zeros [of n x] by (simp add: poly_eval_def)

lemma eval_xor:
  "length xs = length ys \<Longrightarrow> bytes xs \<Longrightarrow> bytes ys \<Longrightarrow> is_byte x \<Longrightarrow>
   poly_eval mul (xor_list xs ys) x = poly_eval mul xs x XOR poly_eval mul ys x"
proof (induction xs arbitrary: ys rule: rev_induct)
  case (snoc a xs)
  then obtain b zs where ys: "ys = zs @ [b]"
    by (metis length_0_conv rev_exhaust snoc_eq_iff_butlast)
  with snoc.prems have IH:
    "poly_eval mul (xor_list xs zs) x = poly_eval mul xs x XOR poly_eval mul zs x"
    by (intro snoc.IH) auto
  have snoc_xor: "xor_list (xs @ [a]) (zs @ [b]) = xor_list xs zs @ [a XOR b]"
    using snoc.prems ys by (simp add: xor_list_def)
  have "poly_eval mul (xor_list (xs @ [a]) ys) x
      = mul (poly_eval mul xs x XOR poly_eval mul zs x) x XOR (a XOR b)"
    unfolding ys snoc_xor eval_snoc IH by simp
  also have "\<dots> = (mul (poly_eval mul xs x) x XOR mul (poly_eval mul zs x) x) XOR (a XOR b)"
    using snoc.prems ys by (simp add: xor_mul eval_byte)
  finally show ?case by (simp add: ys eval_snoc ac_simps)
qed (simp add: eval_Nil xor_list_def)

lemma eval_scale:
  "bytes xs \<Longrightarrow> is_byte x \<Longrightarrow> is_byte c \<Longrightarrow>
   poly_eval mul (map (mul c) xs) x = mul c (poly_eval mul xs x)"
proof (induction xs rule: rev_induct)
  case Nil
  then show ?case using mul_comm [of c 0] by (simp add: eval_Nil mul_zero)
next
  case (snoc a xs)
  then show ?case
    by (simp add: eval_snoc eval_byte mul_xor mul_byte mul_assoc)
qed

lemma eval_shift_zero:
  "poly_eval mul xs x = 0 \<Longrightarrow> poly_eval mul (xs @ replicate n 0) x = 0"
  by (induction n)
    (simp_all add: eval_snoc mul_zero flip: replicate_append_same append_assoc)

lemma eval_append:
  assumes "bytes xs" "bytes ys" "is_byte x"
  shows "poly_eval mul (xs @ ys) x
    = poly_eval mul (xs @ replicate (length ys) 0) x XOR poly_eval mul ys x"
proof -
  have "xs @ ys = xor_list (xs @ replicate (length ys) 0) (replicate (length xs) 0 @ ys)"
    by (rule nth_equalityI) (auto simp: xor_list_def nth_append)
  then have "poly_eval mul (xs @ ys) x
    = poly_eval mul (xor_list (xs @ replicate (length ys) 0) (replicate (length xs) 0 @ ys)) x"
    by simp
  also have "\<dots> = poly_eval mul (xs @ replicate (length ys) 0) x XOR poly_eval mul ys x"
    using assms by (subst eval_xor) (auto simp: eval_zeros_append list_all_iff)
  finally show ?thesis .
qed

end

interpretation gf: byte_field gmul
  by unfold_locales (auto simp: gmul_assoc gmul_xor intro: gmul_comm)

section \<open>The operations\<close>

text \<open>\<open>xs[i] ^= v\<close>: past the end the array grows, and the missing entries read as 0.\<close>

definition xor_at :: "int list \<Rightarrow> nat \<Rightarrow> int \<Rightarrow> int list" where
  "xor_at xs i v =
     (if i < length xs then xs[i := xs ! i XOR v]
      else xs @ replicate (i - length xs) 0 @ [v])"

definition times_root :: "int list \<Rightarrow> nat \<Rightarrow> int list" where
  "times_root poly i =
     foldl (\<lambda>next j. xor_at (xor_at next j (gmul (poly ! j) 1)) (j + 1)
                       (gmul (poly ! j) (EXP_TABLE (int i))))
       (replicate (length poly + 1) 0) [0..<length poly]"

definition generatorPolynomial :: "nat \<Rightarrow> int list" where
  "generatorPolynomial ecCount = foldl times_root [1] [0..<ecCount]"

definition rs_step :: "int list \<Rightarrow> int list \<Rightarrow> nat \<Rightarrow> int list" where
  "rs_step gen msg i =
     (let coef = msg ! i
      in if coef = 0 then msg
         else foldl (\<lambda>m j. xor_at m (i + j) (gmul coef (gen ! j))) msg [0..<length gen])"

definition rsEncode :: "int list \<Rightarrow> nat \<Rightarrow> int list" where
  "rsEncode dataBytes ecCount =
     (let gen = generatorPolynomial ecCount;
          msg = foldl (rs_step gen) (dataBytes @ replicate ecCount 0) [0..<length dataBytes]
      in drop (length dataBytes) msg)"

section \<open>What the loops compute\<close>

lemma xor_at_in: "i < length xs \<Longrightarrow> xor_at xs i v = xs[i := xs ! i XOR v]"
  by (simp add: xor_at_def)

lemma xor_at_fold:
  fixes f :: "nat \<Rightarrow> int"
  assumes "i + n \<le> length msg"
  defines "r \<equiv> foldl (\<lambda>m j. xor_at m (i + j) (f j)) msg [0..<n]"
  shows "length r = length msg
    \<and> (\<forall>k < length msg. r ! k = (if i \<le> k \<and> k < i + n then msg ! k XOR f (k - i) else msg ! k))"
  using assms(1) unfolding r_def
proof (induction n)
  case (Suc n)
  then show ?case
    by (auto simp: xor_at_in nth_list_update)
qed simp

lemma times_root_fold:
  fixes e :: int
  assumes "n \<le> length poly"
  defines "r \<equiv> foldl (\<lambda>next j. xor_at (xor_at next j (gmul (poly ! j) 1)) (j + 1)
                       (gmul (poly ! j) e)) (replicate (length poly + 1) 0) [0..<n]"
  shows "length r = length poly + 1
    \<and> (\<forall>k \<le> length poly. r ! k = (if k < n then gmul (poly ! k) 1 else 0)
                               XOR (if 0 < k \<and> k \<le> n then gmul (poly ! (k - 1)) e else 0))"
  using assms(1) unfolding r_def
proof (induction n)
  case 0
  show ?case by (auto simp: nth_Cons' simp flip: replicate_Suc)
next
  case (Suc n)
  define s where "s = foldl (\<lambda>next j. xor_at (xor_at next j (gmul (poly ! j) 1)) (j + 1)
                       (gmul (poly ! j) e)) (replicate (length poly + 1) 0) [0..<n]"
  have len: "length s = length poly + 1"
    and nth: "\<And>k. k \<le> length poly \<Longrightarrow> s ! k = (if k < n then gmul (poly ! k) 1 else 0)
                               XOR (if 0 < k \<and> k \<le> n then gmul (poly ! (k - 1)) e else 0)"
    using Suc by (simp_all add: s_def)
  have n: "n < length s" "Suc n < length s" using Suc.prems len by auto
  have "foldl (\<lambda>next j. xor_at (xor_at next j (gmul (poly ! j) 1)) (j + 1)
                (gmul (poly ! j) e)) (replicate (length poly + 1) 0) [0..<Suc n]
    = (s[n := s ! n XOR gmul (poly ! n) 1])[Suc n := s ! Suc n XOR gmul (poly ! n) e]"
    using n by (simp add: s_def xor_at_in del: replicate.simps)
  then show ?case
    using n len by (auto simp: nth_list_update nth ac_simps simp del: upt_Suc)
qed

lemma times_root_eq:
  assumes "bytes poly" "i < 512"
  shows "times_root poly i = xor_list (poly @ [0]) (0 # map (gmul (gf_pow i)) poly)"
proof (rule nth_equalityI)
  note fold = times_root_fold [of "length poly" poly "EXP_TABLE (int i)"]
  show len: "length (times_root poly i) = length (xor_list (poly @ [0]) (0 # map (gmul (gf_pow i)) poly))"
    using fold by (simp add: times_root_def xor_list_def)
  fix k assume "k < length (times_root poly i)"
  then have k: "k \<le> length poly" by (simp add: len xor_list_def)
  have byte: "is_byte (poly ! j)" if "j < length poly" for j
    using assms(1) that by (auto simp: list_all_length)
  show "times_root poly i ! k = xor_list (poly @ [0]) (0 # map (gmul (gf_pow i)) poly) ! k"
    using k fold byte assms(2)
    by (cases k) (auto simp: times_root_def xor_list_def nth_append EXP_TABLE_pow gmul_comm
        dest: spec [of _ k])
qed

lemma length_times_root [simp]: "length (times_root poly i) = Suc (length poly)"
  using times_root_fold [of "length poly" poly "EXP_TABLE (int i)"] by (simp add: times_root_def)

lemma bytes_xor_list: "bytes xs \<Longrightarrow> bytes ys \<Longrightarrow> bytes (xor_list xs ys)"
  by (auto simp: xor_list_def list_all_length)

lemma bytes_times_root: "bytes poly \<Longrightarrow> i < 512 \<Longrightarrow> bytes (times_root poly i)"
  by (simp add: times_root_eq) (intro bytes_xor_list; auto simp: list_all_iff)

lemma gen_prefix:
  assumes "n \<le> 512"
  shows "bytes (generatorPolynomial n) \<and> length (generatorPolynomial n) = Suc n
    \<and> hd (generatorPolynomial n) = 1
    \<and> (\<forall>i < n. poly_eval gmul (generatorPolynomial n) (gf_pow i) = 0)"
  using assms
proof (induction n)
  case 0
  show ?case by (simp add: generatorPolynomial_def)
next
  case (Suc n)
  let ?g = "generatorPolynomial n"
  have IH: "bytes ?g" "length ?g = Suc n" "hd ?g = 1"
      "\<And>i. i < n \<Longrightarrow> poly_eval gmul ?g (gf_pow i) = 0"
    using Suc by auto
  have step: "generatorPolynomial (Suc n) = times_root ?g n"
    by (simp add: generatorPolynomial_def)
  have eq: "times_root ?g n = xor_list (?g @ [0]) (0 # map (gmul (gf_pow n)) ?g)"
    using IH Suc.prems by (intro times_root_eq) auto
  have ev: "poly_eval gmul (times_root ?g n) x
      = gmul (poly_eval gmul ?g x) x XOR gmul (gf_pow n) (poly_eval gmul ?g x)"
    if "is_byte x" for x
    using that IH gf.eval_zeros_append [of 1 "map (gmul (gf_pow n)) ?g" x]
    by (simp add: eq gf.eval_xor gf.eval_snoc gf.eval_scale list_all_iff)
  have "poly_eval gmul (times_root ?g n) (gf_pow i) = 0" if "i < Suc n" for i
    using that IH ev [of "gf_pow i"]
    by (cases "i = n") (auto simp: gf.eval_byte gmul_comm)
  moreover have "hd (times_root ?g n) = 1"
    unfolding eq using IH by (cases ?g) (auto simp: xor_list_def)
  moreover have "bytes (times_root ?g n)"
    using IH Suc.prems by (intro bytes_times_root) auto
  ultimately show ?case using IH unfolding step by auto
qed

lemmas generator_facts =
  gen_prefix [THEN conjunct1]
  gen_prefix [THEN conjunct2, THEN conjunct1]
  gen_prefix [THEN conjunct2, THEN conjunct2, THEN conjunct1]
  gen_prefix [THEN conjunct2, THEN conjunct2, THEN conjunct2, rule_format]

text \<open>One step of the division adds a multiple of the generator at position \<open>i\<close>, which clears
  the coefficient there and keeps the value at every root of the generator.\<close>

lemma rs_step_eq:
  assumes "i + length gen \<le> length msg" "bytes msg" "bytes gen" "gen \<noteq> []"
  shows "rs_step gen msg i
    = xor_list msg (replicate i 0 @ map (gmul (msg ! i)) gen @ replicate (length msg - i - length gen) 0)"
proof (cases "msg ! i = 0")
  case True
  then show ?thesis using assms(1)
    by (intro nth_equalityI) (auto simp: rs_step_def xor_list_def nth_append)
next
  case False
  note fold = xor_at_fold [of i "length gen" msg "\<lambda>j. gmul (msg ! i) (gen ! j)"]
  show ?thesis using False assms(1) fold
    by (intro nth_equalityI) (auto simp: rs_step_def xor_list_def nth_append Let_def)
qed

lemma rs_step_inv:
  assumes "i + length gen \<le> length msg" "bytes msg" "bytes gen" "gen \<noteq> []" "hd gen = 1"
  shows "length (rs_step gen msg i) = length msg" "bytes (rs_step gen msg i)"
    "k < i \<Longrightarrow> rs_step gen msg i ! k = msg ! k" "rs_step gen msg i ! i = 0"
    "is_byte x \<Longrightarrow> poly_eval gmul gen x = 0 \<Longrightarrow>
       poly_eval gmul (rs_step gen msg i) x = poly_eval gmul msg x"
proof -
  let ?d = "replicate i 0 @ map (gmul (msg ! i)) gen @ replicate (length msg - i - length gen) 0"
  note eq = rs_step_eq [OF assms(1-4)]
  have i: "i < length msg" using assms(1,4) by (cases gen) auto
  have c: "is_byte (msg ! i)" using assms(2) i by (auto simp: list_all_length)
  then have d: "bytes ?d" using assms(3) by (auto simp: list_all_iff)
  have len: "length ?d = length msg" using assms(1) by simp
  show "length (rs_step gen msg i) = length msg" using len by (simp add: eq xor_list_def)
  show "bytes (rs_step gen msg i)" unfolding eq using assms(2) d by (rule bytes_xor_list)
  show "rs_step gen msg i ! k = msg ! k" if "k < i"
    using that i len by (simp add: eq xor_list_def nth_append)
  show "rs_step gen msg i ! i = 0"
    unfolding eq using i len c assms(4,5) by (cases gen) (auto simp: xor_list_def nth_append)
  assume x: "is_byte x" "poly_eval gmul gen x = 0"
  then have "poly_eval gmul (map (gmul (msg ! i)) gen) x = 0"
    using c assms(3) by (simp add: gf.eval_scale)
  then have "poly_eval gmul ?d x = 0"
    by (simp add: gf.eval_zeros_append gf.eval_shift_zero)
  then show "poly_eval gmul (rs_step gen msg i) x = poly_eval gmul msg x"
    using x d len assms(2) by (simp add: eq gf.eval_xor del: append_assoc)
qed

lemma rs_loop:
  assumes "m \<le> length dataBytes" "bytes dataBytes" "ecCount \<le> 512"
  defines "gen \<equiv> generatorPolynomial ecCount"
  defines "msg \<equiv> foldl (rs_step gen) (dataBytes @ replicate ecCount 0) [0..<m]"
  shows "length msg = length dataBytes + ecCount \<and> bytes msg
    \<and> (\<forall>k < m. msg ! k = 0)
    \<and> (\<forall>i < ecCount. poly_eval gmul msg (gf_pow i)
          = poly_eval gmul (dataBytes @ replicate ecCount 0) (gf_pow i))"
  using assms(1) unfolding msg_def
proof (induction m)
  case 0
  then show ?case using assms(2) by (auto simp: list_all_iff)
next
  case (Suc m)
  note gen = generator_facts [OF assms(3), folded gen_def]
  let ?msg = "foldl (rs_step gen) (dataBytes @ replicate ecCount 0) [0..<m]"
  have fit: "m + length gen \<le> length ?msg" "bytes ?msg" "bytes gen" "gen \<noteq> []" "hd gen = 1"
    using Suc gen by auto
  show ?case
    using Suc gen(4) rs_step_inv [OF fit]
    by (auto simp: less_Suc_eq)
qed

lemma length_rsEncode:
  "bytes dataBytes \<Longrightarrow> ecCount \<le> 512 \<Longrightarrow> length (rsEncode dataBytes ecCount) = ecCount"
  using rs_loop [of "length dataBytes" dataBytes ecCount] by (simp add: rsEncode_def)

lemma bytes_rsEncode:
  "bytes dataBytes \<Longrightarrow> ecCount \<le> 512 \<Longrightarrow> bytes (rsEncode dataBytes ecCount)"
  using rs_loop [of "length dataBytes" dataBytes ecCount]
  by (simp add: rsEncode_def list_all_iff) (meson in_set_dropD)

lemma rsEncode_root:
  assumes "bytes dataBytes" "ecCount \<le> 512" "i < ecCount"
  shows "poly_eval gmul (dataBytes @ rsEncode dataBytes ecCount) (gf_pow i) = 0"
proof -
  define msg where "msg = foldl (rs_step (generatorPolynomial ecCount))
    (dataBytes @ replicate ecCount 0) [0..<length dataBytes]"
  let ?n = "length dataBytes" and ?c = "rsEncode dataBytes ecCount" and ?x = "gf_pow i"
  note loop = rs_loop [OF order_refl assms(1,2), folded msg_def]
  have c: "?c = drop ?n msg" by (simp add: rsEncode_def msg_def)
  have "take ?n msg = replicate ?n 0"
    using loop by (intro nth_equalityI) auto
  then have "msg = replicate ?n 0 @ ?c"
    by (metis c append_take_drop_id)
  then have "poly_eval gmul ?c ?x = poly_eval gmul (dataBytes @ replicate ecCount 0) ?x"
    using loop assms(3) by (metis gf.eval_zeros_append)
  moreover have "poly_eval gmul (dataBytes @ ?c) ?x
      = poly_eval gmul (dataBytes @ replicate ecCount 0) ?x XOR poly_eval gmul ?c ?x"
    using gf.eval_append [of dataBytes ?c ?x] assms
    by (simp add: length_rsEncode bytes_rsEncode)
  ultimately show ?thesis by simp
qed

end
