(* ===== verification/Bits.thy ===== *)
theory Bits
  imports Prelude
begin

text \<open>
  Numbers as lists of bits, most significant first: what a bit stream, an octet and a netmask
  have in common.
\<close>

definition num_bits :: "int \<Rightarrow> nat \<Rightarrow> bool list" where
  "num_bits num len = map (\<lambda>i. bit num (len - i - 1)) [0..<len]"

lemma length_num_bits [simp]: "length (num_bits num len) = len"
  by (simp add: num_bits_def)

lemma nth_num_bits: "i < len \<Longrightarrow> num_bits num len ! i = bit num (len - i - 1)"
  by (simp add: num_bits_def)

lemma byte_bits_nth: "k < 8 \<Longrightarrow> num_bits b 8 ! k = bit b (7 - k)"
  by (simp add: nth_num_bits)

lemma concat_bits_nth:
  "k < 8 * length xs \<Longrightarrow>
   concat (map (\<lambda>x. num_bits x 8) xs) ! k = bit (xs ! (k div 8)) (7 - k mod 8)"
proof (induction xs arbitrary: k)
  case (Cons x xs)
  show ?case
  proof (cases "k < 8")
    case True
    then show ?thesis by (simp add: nth_append byte_bits_nth)
  next
    case False
    then have "k div 8 = Suc ((k - 8) div 8)" "k mod 8 = (k - 8) mod 8"
      by (simp_all add: le_div_geq le_mod_geq)
    then show ?thesis using False Cons by (simp add: nth_append)
  qed
qed simp

lemma length_concat_bits [simp]: "length (concat (map (\<lambda>x. num_bits x 8) xs)) = 8 * length xs"
  by (induction xs) auto

definition bits_num :: "bool list \<Rightarrow> nat" where
  "bits_num = foldl (\<lambda>a b. 2 * a + of_bool b) 0"

lemma bits_num_snoc: "bits_num (bs @ [b]) = 2 * bits_num bs + of_bool b"
  by (simp add: bits_num_def)

lemma num_bits_Suc: "num_bits num (Suc n) = num_bits (num div 2) n @ [odd num]"
  by (rule nth_equalityI)
    (auto simp: nth_num_bits nth_append less_Suc_eq bit_0 Suc_diff_Suc simp flip: bit_Suc)

lemma bits_num_num_bits: "0 \<le> num \<Longrightarrow> num < 2 ^ n \<Longrightarrow> int (bits_num (num_bits num n)) = num"
proof (induction n arbitrary: num)
  case 0
  then show ?case by (simp add: num_bits_def bits_num_def)
next
  case (Suc n)
  then have "int (bits_num (num_bits (num div 2) n)) = num div 2" by simp
  then show ?case by (simp add: num_bits_Suc bits_num_snoc)
qed

end
