(* ===== verification/Qr_Data.thy ===== *)
theory Qr_Data
  imports Qr_Bch Qr_Code Bits
begin

text \<open>
  From text to data codewords (\<open>BitBuffer\<close>, \<open>utf8Bytes\<close>, \<open>capacityBytes\<close>,
  \<open>pickVersion\<close>, \<open>buildDataCodewords\<close> and \<open>interleave\<close> of \<open>freenetic-qrcode.js\<close>).
  The buffer refines the list of the bits written so far (\<open>buf_rep\<close>); on that abstraction
  the codewords of a byte string decode to the string again.
\<close>

section \<open>The bit buffer\<close>

record bit_buffer =
  buf_bytes :: "int list"
  buf_length :: nat

definition new_buffer :: bit_buffer where
  "new_buffer = \<lparr>buf_bytes = [], buf_length = 0\<rparr>"

definition putBit :: "bit_buffer \<Rightarrow> bool \<Rightarrow> bit_buffer" where
  "putBit buf b =
     (let idx = buf_length buf div 8;
          bs = (if length (buf_bytes buf) \<le> idx then buf_bytes buf @ [0] else buf_bytes buf);
          bs' = (if b then bs[idx := bs ! idx OR drop_bit (buf_length buf mod 8) 0x80] else bs)
      in \<lparr>buf_bytes = bs', buf_length = buf_length buf + 1\<rparr>)"

definition put :: "bit_buffer \<Rightarrow> int \<Rightarrow> nat \<Rightarrow> bit_buffer" where
  "put buf num len =
     foldl (\<lambda>b i. putBit b (js_ushr num (len - i - 1) AND 1 = 1)) buf [0..<len]"

section \<open>The buffer as a list of bits\<close>

definition buf_rep :: "bit_buffer \<Rightarrow> bool list \<Rightarrow> bool" where
  "buf_rep buf bs \<longleftrightarrow>
     buf_length buf = length bs \<and> length (buf_bytes buf) = (length bs + 7) div 8
     \<and> bytes (buf_bytes buf)
     \<and> (\<forall>k < 8 * length (buf_bytes buf).
          bit (buf_bytes buf ! (k div 8)) (7 - k mod 8) = (k < length bs \<and> bs ! k))"

lemma buf_rep_new: "buf_rep new_buffer []"
  by (simp add: buf_rep_def new_buffer_def)

lemma bit_mask: "m < 8 \<Longrightarrow> bit (drop_bit m (0x80::int)) j \<longleftrightarrow> m + j = 7"
proof -
  have "(0x80::int) = push_bit 7 1" by simp
  then have "bit (drop_bit m (0x80::int)) j \<longleftrightarrow> bit (push_bit 7 (1::int)) (m + j)"
    by (simp only: bit_drop_bit_eq comp_def)
  also have "\<dots> \<longleftrightarrow> m + j = 7"
    unfolding bit_push_bit_iff by (auto simp: bit_1_iff)
  finally show ?thesis .
qed

lemma byte_or_mask: "is_byte b \<Longrightarrow> is_byte (b OR drop_bit m 0x80)"
proof -
  assume b: "is_byte b"
  have "(0x80::int) div 2 ^ m \<le> 0x80" "0 \<le> (0x80::int) div 2 ^ m"
    using zdiv_mono2 [of "0x80" 1 "2 ^ m"] by (simp_all add: pos_imp_zdiv_nonneg_iff)
  then have "is_byte (drop_bit m 0x80)" by (simp add: is_byte_def drop_bit_eq_div)
  with b show ?thesis by (simp add: is_byte_take_bit)
qed

lemma buf_rep_putBit:
  assumes "buf_rep buf bs"
  shows "buf_rep (putBit buf b) (bs @ [b])"
proof -
  let ?n = "length bs" and ?idx = "length bs div 8" and ?m = "length bs mod 8"
  define xs where "xs = (if length (buf_bytes buf) \<le> ?idx then buf_bytes buf @ [0] else buf_bytes buf)"
  have rep: "buf_length buf = ?n" "length (buf_bytes buf) = (?n + 7) div 8" "bytes (buf_bytes buf)"
    and bits: "\<And>k. k < 8 * length (buf_bytes buf) \<Longrightarrow>
      bit (buf_bytes buf ! (k div 8)) (7 - k mod 8) = (k < ?n \<and> bs ! k)"
    using assms by (auto simp: buf_rep_def)
  have len: "length xs = (?n + 8) div 8" using rep(2) by (auto simp: xs_def)
  have idx: "?idx < length xs" unfolding len by linarith
  have byte: "bytes xs" using rep(3) by (simp add: xs_def)
  have bits': "bit (xs ! (k div 8)) (7 - k mod 8) = (k < ?n \<and> bs ! k)" if "k < 8 * length xs" for k
  proof (cases "k < 8 * length (buf_bytes buf)")
    case True
    then have "k div 8 < length (buf_bytes buf)" by (simp add: less_mult_imp_div_less mult.commute)
    then show ?thesis using True bits by (simp add: xs_def nth_append)
  next
    case False
    then have app: "length (buf_bytes buf) \<le> ?idx" using that by (auto simp: xs_def split: if_splits)
    then have "k div 8 = length (buf_bytes buf)" using False that by (simp add: xs_def)
    moreover have "\<not> k < ?n" using False rep(2) by linarith
    ultimately show ?thesis using app by (simp add: xs_def nth_append)
  qed
  show ?thesis
  proof (cases b)
    case False
    then have "putBit buf b = \<lparr>buf_bytes = xs, buf_length = ?n + 1\<rparr>"
      by (simp add: putBit_def rep(1) xs_def Let_def)
    then show ?thesis using False len byte bits'
      by (auto simp: buf_rep_def nth_append less_Suc_eq)
  next
    case True
    let ?ys = "xs[?idx := xs ! ?idx OR drop_bit ?m 0x80]"
    have put: "putBit buf b = \<lparr>buf_bytes = ?ys, buf_length = ?n + 1\<rparr>"
      using True by (simp add: putBit_def rep(1) xs_def Let_def)
    have "is_byte (xs ! ?idx)" using byte idx by (auto simp: list_all_length)
    then have "bytes ?ys" using byte idx
      by (auto simp: list_all_length nth_list_update byte_or_mask)
    moreover have "bit (?ys ! (k div 8)) (7 - k mod 8) = (k < Suc ?n \<and> (bs @ [b]) ! k)"
      if k: "k < 8 * length xs" for k
    proof -
      have "?m + (7 - k mod 8) = 7 \<longleftrightarrow> k mod 8 = ?m"
        using mod_less_divisor [of 8 k] by linarith
      moreover have "k = ?n \<longleftrightarrow> k div 8 = ?idx \<and> k mod 8 = ?m"
        by (metis div_mult_mod_eq)
      ultimately have "k = ?n \<longleftrightarrow> k div 8 = ?idx \<and> ?m + (7 - k mod 8) = 7"
        by simp
      then show ?thesis
        using bits' [OF k] idx True k
        by (auto simp: nth_list_update bit_or_iff bit_mask nth_append less_Suc_eq)
    qed
    ultimately show ?thesis using len by (auto simp: put buf_rep_def)
  qed
qed

lemma put_bit_test: "0 \<le> num \<Longrightarrow> num < 2 ^ 32 \<Longrightarrow> k < 32 \<Longrightarrow> js_ushr num k AND 1 = 1 \<longleftrightarrow> bit num k"
  by (simp add: js_ushr_less to_uint32_id and_one_eq odd_iff_mod_2_eq_one [symmetric] bit_iff_odd_drop_bit)

lemma buf_rep_put:
  assumes "buf_rep buf bs" "0 \<le> num" "num < 2 ^ 32" "len \<le> 32"
  shows "buf_rep (put buf num len) (bs @ num_bits num len)"
proof -
  have "buf_rep (foldl (\<lambda>b i. putBit b (js_ushr num (len - i - 1) AND 1 = 1)) buf [0..<k])
          (bs @ map (\<lambda>i. bit num (len - i - 1)) [0..<k])" if "k \<le> len" for k
    using that
  proof (induction k)
    case (Suc k)
    then show ?case
      using buf_rep_putBit [of _ _ "bit num (len - k - 1)"] assms(2-4)
      by (simp add: put_bit_test flip: append_assoc)
  qed (simp add: assms(1))
  then show ?thesis by (simp add: put_def num_bits_def)
qed

lemma buf_rep_puts:
  "buf_rep buf bs \<Longrightarrow> bytes xs \<Longrightarrow>
   buf_rep (foldl (\<lambda>b x. put b x 8) buf xs) (bs @ concat (map (\<lambda>x. num_bits x 8) xs))"
proof (induction xs arbitrary: buf bs)
  case (Cons x xs)
  then have "buf_rep (put buf x 8) (bs @ num_bits x 8)"
    by (intro buf_rep_put) (auto simp: is_byte_def)
  from Cons.IH [OF this] Cons.prems show ?case by simp
qed simp

text \<open>A buffer of whole bytes is determined by its bits.\<close>

lemma buf_rep_bits:
  assumes "buf_rep buf bs" "8 dvd length bs"
  shows "concat (map (\<lambda>x. num_bits x 8) (buf_bytes buf)) = bs"
proof (rule nth_equalityI)
  have "8 * length (buf_bytes buf) = length bs" using assms by (auto simp: buf_rep_def)
  then show "length (concat (map (\<lambda>x. num_bits x 8) (buf_bytes buf))) = length bs" by simp
  fix k assume "k < length (concat (map (\<lambda>x. num_bits x 8) (buf_bytes buf)))"
  then show "concat (map (\<lambda>x. num_bits x 8) (buf_bytes buf)) ! k = bs ! k"
    using assms \<open>8 * length (buf_bytes buf) = length bs\<close>
    by (simp add: concat_bits_nth buf_rep_def)
qed

section \<open>Versions and capacities\<close>

text \<open>The number of blocks, the codewords of a block and the data codewords among them.\<close>

definition RS_BLOCKS :: "ec_level \<Rightarrow> (nat \<times> nat \<times> nat) list list" where
  "RS_BLOCKS l = (case l of
     L \<Rightarrow> [
       [(1, 26, 19)],
       [(1, 44, 34)],
       [(1, 70, 55)],
       [(1, 100, 80)],
       [(1, 134, 108)],
       [(2, 86, 68)],
       [(2, 98, 78)],
       [(2, 121, 97)],
       [(2, 146, 116)],
       [(2, 86, 68), (2, 87, 69)]]
   | M \<Rightarrow> [
       [(1, 26, 16)],
       [(1, 44, 28)],
       [(1, 70, 44)],
       [(2, 50, 32)],
       [(2, 67, 43)],
       [(4, 43, 27)],
       [(4, 49, 31)],
       [(2, 60, 38), (2, 61, 39)],
       [(3, 58, 36), (2, 59, 37)],
       [(4, 69, 43), (1, 70, 44)]])"

text \<open>The callers stay within the versions 1 to 10 of the table.\<close>

definition capacityBytes :: "nat \<Rightarrow> ec_level \<Rightarrow> nat" where
  "capacityBytes version ecLevel =
     foldl (\<lambda>sum (count, _, data). sum + count * data) 0 (RS_BLOCKS ecLevel ! (version - 1))"

definition count_bits :: "nat \<Rightarrow> nat" where
  "count_bits version = (if version \<le> 9 then 8 else 16)"

definition fits :: "nat \<Rightarrow> ec_level \<times> nat \<Rightarrow> bool" where
  "fits byteLength = (\<lambda>(ecLevel, version).
     4 + count_bits version + 8 * byteLength + 4 \<le> capacityBytes version ecLevel * 8)"

definition pickVersion :: "nat \<Rightarrow> (ec_level \<times> nat) option" where
  "pickVersion byteLength = find (fits byteLength) (List.product [M, L] [1..<11])"

section \<open>Data codewords\<close>

partial_function (option) align_buffer :: "bit_buffer \<Rightarrow> bit_buffer option" where
  "align_buffer buf = (if buf_length buf mod 8 \<noteq> 0 then align_buffer (putBit buf False) else Some buf)"

partial_function (option) pad_buffer :: "nat \<Rightarrow> bit_buffer \<Rightarrow> nat \<Rightarrow> bit_buffer option" where
  "pad_buffer capBytes buf i =
     (if length (buf_bytes buf) < capBytes
      then pad_buffer capBytes (put buf ([0xec, 0x11] ! (i mod 2)) 8) (i + 1)
      else Some buf)"

declare align_buffer.simps [code] pad_buffer.simps [code]

definition buildDataCodewords :: "int list \<Rightarrow> nat \<Rightarrow> ec_level \<Rightarrow> int list option" where
  "buildDataCodewords bs version ecLevel =
     (let buf = put (put new_buffer 4 4) (int (length bs)) (count_bits version);
          buf = foldl (\<lambda>b x. put b x 8) buf bs;
          capBytes = capacityBytes version ecLevel;
          buf = (if buf_length buf + 4 \<le> capBytes * 8 then put buf 0 4 else buf)
      in case align_buffer buf of
           None \<Rightarrow> None
         | Some buf \<Rightarrow> map_option buf_bytes (pad_buffer capBytes buf 0))"

section \<open>What a reader gets back\<close>

fun read_bytes :: "nat \<Rightarrow> bool list \<Rightarrow> int list" where
  "read_bytes 0 bs = []"
| "read_bytes (Suc n) bs = int (bits_num (take 8 bs)) # read_bytes n (drop 8 bs)"

definition decode_codewords :: "nat \<Rightarrow> int list \<Rightarrow> int list option" where
  "decode_codewords version cw =
     (let bs = concat (map (\<lambda>x. num_bits x 8) cw); c = count_bits version
      in if bits_num (take 4 bs) = 4
         then Some (read_bytes (bits_num (take c (drop 4 bs))) (drop (4 + c) bs))
         else None)"

lemma read_bytes_bits:
  "bytes xs \<Longrightarrow> read_bytes (length xs) (concat (map (\<lambda>x. num_bits x 8) xs) @ rest) = xs"
  by (induction xs) (auto simp: is_byte_def bits_num_num_bits)

lemma align_gap: "(8::nat) dvd n + (8 - n mod 8) mod 8"
proof -
  have "(n + (8 - n mod 8) mod 8) mod 8 = (n mod 8 + (8 - n mod 8)) mod 8"
    by (simp only: mod_add_right_eq mod_add_left_eq)
  also have "n mod 8 + (8 - n mod 8) = 8"
    using mod_less_divisor [of 8 n] by linarith
  finally show ?thesis by (simp add: mod_eq_0_iff_dvd)
qed

lemma align_buffer_rep:
  assumes "buf_rep buf bs" "8 dvd length bs + m" "m < 8"
  shows "\<exists>buf'. align_buffer buf = Some buf' \<and> buf_rep buf' (bs @ replicate m False)"
  using assms
proof (induction m arbitrary: buf bs)
  case 0
  then show ?case by (subst align_buffer.simps) (simp add: buf_rep_def mod_eq_0_iff_dvd)
next
  case (Suc m)
  have "buf_length buf mod 8 \<noteq> 0"
    using Suc.prems by (auto simp: buf_rep_def) presburger
  moreover have "\<exists>buf'. align_buffer (putBit buf False) = Some buf'
      \<and> buf_rep buf' ((bs @ [False]) @ replicate m False)"
    using Suc.prems by (intro Suc.IH buf_rep_putBit) auto
  ultimately show ?case by (subst align_buffer.simps) simp
qed

lemma pad_buffer_rep:
  assumes "buf_rep buf bs" "8 dvd length bs"
  shows "\<exists>buf' ps. pad_buffer capBytes buf i = Some buf' \<and> buf_rep buf' (bs @ ps)
    \<and> 8 dvd length (bs @ ps)
    \<and> length (buf_bytes buf') = max capBytes (length (buf_bytes buf))"
  using assms
proof (induction "capBytes - length (buf_bytes buf)" arbitrary: buf bs i)
  case 0
  then show ?case
    by (subst pad_buffer.simps) (auto intro!: exI [of _ "[]"])
next
  case (Suc n)
  let ?p = "[0xec, 0x11::int] ! (i mod 2)"
  let ?buf = "put buf ?p 8"
  have "i mod 2 = 0 \<or> i mod 2 = 1" by auto
  then have "0 \<le> ?p \<and> ?p < 2 ^ 32" by auto
  then have rep: "buf_rep ?buf (bs @ num_bits ?p 8)"
    using Suc.prems by (intro buf_rep_put) auto
  have len: "length (buf_bytes ?buf) = Suc (length (buf_bytes buf))"
    using rep Suc.prems by (auto simp: buf_rep_def)
  have "n = capBytes - length (buf_bytes ?buf)" using Suc.hyps(2) len by simp
  moreover have "8 dvd length (bs @ num_bits ?p 8)" using Suc.prems by simp
  ultimately obtain buf' ps where "pad_buffer capBytes ?buf (i + 1) = Some buf'"
      "buf_rep buf' ((bs @ num_bits ?p 8) @ ps)" "8 dvd length ((bs @ num_bits ?p 8) @ ps)"
      "length (buf_bytes buf') = max capBytes (length (buf_bytes ?buf))"
    using Suc.hyps(1) [OF _ rep] by blast
  then show ?case using Suc.hyps(2) len
    by (subst pad_buffer.simps) (auto intro!: exI [of _ "num_bits ?p 8 @ ps"])
qed

text \<open>The capacities of the table, and the length that the header can announce.\<close>

lemma capacity_values:
  "capacityBytes 1 M = 16" "capacityBytes 1 L = 19"
  "capacityBytes 2 M = 28" "capacityBytes 2 L = 34"
  "capacityBytes 3 M = 44" "capacityBytes 3 L = 55"
  "capacityBytes 4 M = 64" "capacityBytes 4 L = 80"
  "capacityBytes 5 M = 86" "capacityBytes 5 L = 108"
  "capacityBytes 6 M = 108" "capacityBytes 6 L = 136"
  "capacityBytes 7 M = 124" "capacityBytes 7 L = 156"
  "capacityBytes 8 M = 154" "capacityBytes 8 L = 194"
  "capacityBytes 9 M = 182" "capacityBytes 9 L = 232"
  "capacityBytes 10 M = 216" "capacityBytes 10 L = 274"
  by code_simp+

lemma version_cases:
  assumes "1 \<le> v" "v \<le> (10::nat)"
  shows "v = 1 \<or> v = 2 \<or> v = 3 \<or> v = 4 \<or> v = 5 \<or> v = 6 \<or> v = 7 \<or> v = 8 \<or> v = 9 \<or> v = 10"
  using assms by arith

lemma capacity_range:
  assumes "1 \<le> v" "v \<le> 10"
  shows "capacityBytes v l \<le> 274" "v \<le> 9 \<Longrightarrow> capacityBytes v l \<le> 232"
  using version_cases [OF assms] by (cases l; elim disjE; simp add: capacity_values [simplified])+

lemma buildDataCodewords_bits:
  assumes "bytes bs" "fits (length bs) (ecLevel, version)" "1 \<le> version" "version \<le> 10"
  shows "\<exists>cw ps. buildDataCodewords bs version ecLevel = Some cw
    \<and> length cw = capacityBytes version ecLevel \<and> bytes cw
    \<and> concat (map (\<lambda>x. num_bits x 8) cw) =
        num_bits 4 4 @ num_bits (int (length bs)) (count_bits version)
        @ concat (map (\<lambda>x. num_bits x 8) bs) @ ps"
proof -
  let ?c = "count_bits version" and ?cap = "capacityBytes version ecLevel"
  have "length bs \<le> ?cap" using assms(2) by (simp add: fits_def)
  then have small: "int (length bs) < 2 ^ 32"
    using capacity_range(1) [OF assms(3,4), of ecLevel] by simp
  define h where "h = num_bits 4 4 @ num_bits (int (length bs)) ?c
        @ concat (map (\<lambda>x. num_bits x 8) bs)"
  define b where "b = foldl (\<lambda>b x. put b x 8) (put (put new_buffer 4 4) (int (length bs)) ?c) bs"
  have "buf_rep (put (put new_buffer 4 4) (int (length bs)) ?c)
      (([] @ num_bits 4 4) @ num_bits (int (length bs)) ?c)"
    using small by (intro buf_rep_put buf_rep_new) (auto simp: count_bits_def)
  from buf_rep_puts [OF this assms(1)] have rb: "buf_rep b h" by (simp add: b_def h_def)
  have len: "length h + 4 \<le> ?cap * 8" using assms(2) by (simp add: h_def fits_def algebra_simps)
  have rt: "buf_rep (put b 0 4) (h @ num_bits 0 4)" using rb by (intro buf_rep_put) auto
  define m where "m = (8 - length (h @ num_bits 0 4) mod 8) mod 8"
  have "m < 8" "8 dvd length (h @ num_bits 0 4) + m"
    unfolding m_def by (simp_all only: align_gap)
  then obtain a where a: "align_buffer (put b 0 4) = Some a"
      "buf_rep a ((h @ num_bits 0 4) @ replicate m False)"
    using align_buffer_rep [OF rt] by blast
  moreover have dvd: "8 dvd length ((h @ num_bits 0 4) @ replicate m False)"
    using \<open>8 dvd _\<close> by (simp add: add.assoc)
  ultimately obtain p ps where p: "pad_buffer ?cap a 0 = Some p"
      "buf_rep p (((h @ num_bits 0 4) @ replicate m False) @ ps)"
      "8 dvd length (((h @ num_bits 0 4) @ replicate m False) @ ps)"
      "length (buf_bytes p) = max ?cap (length (buf_bytes a))"
    using pad_buffer_rep by blast
  have "length (buf_bytes a) \<le> ?cap"
  proof -
    obtain q where q: "length ((h @ num_bits 0 4) @ replicate m False) = 8 * q"
      using dvd by (rule dvdE)
    then have h: "length h + (4 + m) = 8 * q" by simp
    then have "length (buf_bytes a) = (8 * q + 7) div 8"
      using a(2) unfolding buf_rep_def q by simp
    then have "length (buf_bytes a) = q" by simp
    then show ?thesis using h len \<open>m < 8\<close> by arith
  qed
  then have "length (buf_bytes p) = ?cap" using p(4) by simp
  moreover have "buildDataCodewords bs version ecLevel = Some (buf_bytes p)"
    using rb len a(1) p(1) by (simp add: buildDataCodewords_def Let_def buf_rep_def flip: b_def)
  moreover have "bytes (buf_bytes p)" using p(2) by (simp add: buf_rep_def)
  moreover have "concat (map (\<lambda>x. num_bits x 8) (buf_bytes p)) =
      h @ num_bits 0 4 @ replicate m False @ ps"
    using buf_rep_bits [OF p(2,3)] by simp
  ultimately show ?thesis by (auto simp: h_def)
qed

lemma length_field:
  assumes "fits n (ecLevel, version)" "1 \<le> version" "version \<le> 10"
  shows "n < 2 ^ count_bits version"
proof (cases "version \<le> 9")
  case True
  then have "8 * n + 16 \<le> 232 * 8"
    using assms capacity_range(2) [of version ecLevel] by (simp add: fits_def count_bits_def)
  then show ?thesis using True by (simp add: count_bits_def)
next
  case False
  then have "8 * n + 24 \<le> 274 * 8"
    using assms capacity_range(1) [of version ecLevel] by (simp add: fits_def count_bits_def)
  then show ?thesis using False by (simp add: count_bits_def)
qed

lemma decode_buildDataCodewords:
  assumes "bytes bs" "fits (length bs) (ecLevel, version)" "1 \<le> version" "version \<le> 10"
  shows "\<exists>cw. buildDataCodewords bs version ecLevel = Some cw
    \<and> length cw = capacityBytes version ecLevel \<and> bytes cw
    \<and> decode_codewords version cw = Some bs"
proof -
  let ?c = "count_bits version"
  obtain cw ps where cw: "buildDataCodewords bs version ecLevel = Some cw"
      "length cw = capacityBytes version ecLevel" "bytes cw"
      "concat (map (\<lambda>x. num_bits x 8) cw) =
        num_bits 4 4 @ num_bits (int (length bs)) ?c @ concat (map (\<lambda>x. num_bits x 8) bs) @ ps"
    using buildDataCodewords_bits [OF assms] by blast
  have four: "bits_num (num_bits 4 4) = 4"
    using bits_num_num_bits [of 4 4] by simp
  have len: "bits_num (num_bits (int (length bs)) ?c) = length bs"
  proof -
    have "int (length bs) < int (2 ^ ?c)"
      using length_field [OF assms(2-4)] by (simp only: of_nat_less_iff)
    then show ?thesis using bits_num_num_bits [of "int (length bs)" ?c] by simp
  qed
  have "decode_codewords version cw = Some bs"
    by (simp add: decode_codewords_def cw(4) four len read_bytes_bits [OF assms(1)])
  with cw show ?thesis by blast
qed

section \<open>The choice of the version\<close>

lemma product_versions: "(l, v) \<in> set (List.product [M, L] [1..<11]) \<longleftrightarrow> 1 \<le> v \<and> v \<le> 10"
  by (cases l) auto

lemma pickVersion_Some:
  assumes "pickVersion n = Some (l, v)"
  shows "1 \<le> v \<and> v \<le> 10 \<and> fits n (l, v)"
proof -
  have "(l, v) \<in> set (List.product [M, L] [1..<11])" "fits n (l, v)"
    using assms unfolding pickVersion_def find_Some_iff by (metis nth_mem)+
  then show ?thesis unfolding product_versions by simp
qed

lemma fits_table:
  "fits n (M, v) \<longleftrightarrow> 8 + count_bits v + 8 * n \<le> 8 * capacityBytes v M"
  "fits n (L, v) \<longleftrightarrow> 8 + count_bits v + 8 * n \<le> 8 * capacityBytes v L"
  by (auto simp: fits_def)

lemma pickVersion_None: "pickVersion n = None \<longleftrightarrow> 271 < n"
proof -
  have "pickVersion n = None \<longleftrightarrow> (\<forall>p \<in> set (List.product [M, L] [1..<11]). \<not> fits n p)"
    unfolding pickVersion_def find_None_iff by blast
  also have "\<dots> \<longleftrightarrow> (\<forall>l v. 1 \<le> v \<longrightarrow> v \<le> 10 \<longrightarrow> \<not> fits n (l, v))"
    using product_versions by (metis surj_pair)
  also have "\<dots> \<longleftrightarrow> 271 < n"
  proof
    assume "\<forall>l v. 1 \<le> v \<longrightarrow> v \<le> 10 \<longrightarrow> \<not> fits n (l, v)"
    then have "\<not> fits n (L, 10)" by simp
    then show "271 < n" by (simp add: fits_table count_bits_def capacity_values)
  next
    assume n: "271 < n"
    have "\<not> fits n (l, v)" if v: "1 \<le> v" "v \<le> 10" for l v
      using n capacity_range [OF v, of l]
      by (cases "v \<le> 9") (auto simp: fits_def count_bits_def)
    then show "\<forall>l v. 1 \<le> v \<longrightarrow> v \<le> 10 \<longrightarrow> \<not> fits n (l, v)" by blast
  qed
  finally show ?thesis .
qed

lemma pickVersion_first:
  assumes "pickVersion n = Some (l, v)"
  shows "(l = L \<longrightarrow> 213 < n) \<and> (\<forall>w. 1 \<le> w \<and> w < v \<longrightarrow> \<not> fits n (l, w))"
proof -
  let ?ps = "List.product [M, L] [1..<11]"
  obtain i where i: "i < length ?ps" "?ps ! i = (l, v)" "\<And>j. j < i \<Longrightarrow> \<not> fits n (?ps ! j)"
    using assms unfolding pickVersion_def find_Some_iff by metis
  have nth: "?ps ! j = (if j < 10 then (M, j + 1) else (L, j - 9))" if "j < 20" for j
  proof -
    have "?ps ! j = ([M, L] ! (j div 10), [1..<11] ! (j mod 10))"
      using that product_nth [of j "[M, L]" "[1..<11::nat]"] by simp
    moreover have "j div 10 = (if j < 10 then 0 else 1)" "j mod 10 = (if j < 10 then j else j - 10)"
      using that by (auto simp: le_mod_geq)
    ultimately show ?thesis using that by auto
  qed
  have i20: "i < 20" using i(1) by simp
  have "l = L \<Longrightarrow> \<not> fits n (M, 10)"
    using i(2) i(3) [of 9] nth [OF i20] nth [of 9] by (auto split: if_splits)
  then have "l = L \<Longrightarrow> 213 < n" by (auto simp: fits_table count_bits_def capacity_values)
  moreover have "\<not> fits n (l, w)" if w: "1 \<le> w" "w < v" for w
  proof (cases "i < 10")
    case True
    then show ?thesis using w i(2) i(3) [of "w - 1"] nth [OF i20] nth [of "w - 1"] by auto
  next
    case False
    then show ?thesis using w i(2) i(3) [of "w + 9"] nth [OF i20] nth [of "w + 9"] i20 by auto
  qed
  ultimately show ?thesis by blast
qed

section \<open>Text to bytes\<close>

text \<open>
  \<open>unescape(encodeURIComponent(str))\<close>: the UTF-16 units of the text are read as code points,
  each becomes its UTF-8 bytes, and a surrogate without its partner makes
  \<open>encodeURIComponent\<close> throw a \<open>URIError\<close> (\<open>None\<close>).
\<close>

fun code_points :: "int list \<Rightarrow> int list option" where
  "code_points [] = Some []"
| "code_points (u # us) =
     (if 0xD800 \<le> u \<and> u \<le> 0xDBFF
      then (case us of
              v # vs \<Rightarrow>
                if 0xDC00 \<le> v \<and> v \<le> 0xDFFF
                then map_option ((#) (0x10000 + (u - 0xD800) * 1024 + (v - 0xDC00))) (code_points vs)
                else None
            | [] \<Rightarrow> None)
      else if 0xDC00 \<le> u \<and> u \<le> 0xDFFF then None
      else map_option ((#) u) (code_points us))"

definition utf8_char :: "int \<Rightarrow> int list" where
  "utf8_char c =
     (if c < 0x80 then [c]
      else if c < 0x800 then [0xC0 + c div 64, 0x80 + c mod 64]
      else if c < 0x10000 then [0xE0 + c div 4096, 0x80 + c div 64 mod 64, 0x80 + c mod 64]
      else [0xF0 + c div 262144, 0x80 + c div 4096 mod 64, 0x80 + c div 64 mod 64, 0x80 + c mod 64])"

definition utf8Bytes :: "int list \<Rightarrow> int list option" where
  "utf8Bytes str = map_option (\<lambda>cs. concat (map utf8_char cs)) (code_points str)"

definition utf16 :: "int list \<Rightarrow> bool" where
  "utf16 str \<longleftrightarrow> (\<forall>u \<in> set str. 0 \<le> u \<and> u < 0x10000)"

lemma code_points_range:
  "utf16 str \<Longrightarrow> code_points str = Some cs \<Longrightarrow> \<forall>c \<in> set cs. 0 \<le> c \<and> c < 0x110000"
proof (induction str arbitrary: cs rule: code_points.induct)
  case (2 u us)
  have "utf16 us" using "2.prems" by (simp add: utf16_def)
  moreover have "utf16 vs" if "us = v # vs" for v vs using that \<open>utf16 us\<close> by (simp add: utf16_def)
  ultimately show ?case using "2.prems" "2.IH"
    by (auto simp: utf16_def split: if_splits list.splits)
qed simp

lemma utf8_char_bytes: "0 \<le> c \<Longrightarrow> c < 0x110000 \<Longrightarrow> bytes (utf8_char c)"
  by (auto simp: utf8_char_def is_byte_def pos_imp_zdiv_nonneg_iff)

lemma bytes_utf8:
  assumes "utf16 str" "utf8Bytes str = Some bs"
  shows "bytes bs"
proof -
  obtain cs where cs: "code_points str = Some cs" "bs = concat (map utf8_char cs)"
    using assms(2) by (auto simp: utf8Bytes_def)
  with code_points_range [OF assms(1)] have "\<forall>c \<in> set cs. 0 \<le> c \<and> c < 0x110000" by simp
  then show ?thesis unfolding cs(2)
    by (induction cs) (auto dest: utf8_char_bytes)
qed

section \<open>Interleaving\<close>

text \<open>The two loop nests of the function are the same loop, over the data and over the check
  blocks: one symbol of every block that is long enough, for every position.\<close>

definition max_length :: "'a list list \<Rightarrow> nat" where
  "max_length blocks = foldl max 0 (map length blocks)"

definition column :: "'a list list \<Rightarrow> nat \<Rightarrow> 'a list" where
  "column blocks i = concat (map (\<lambda>block. if i < length block then [block ! i] else []) blocks)"

definition weave :: "'a list list \<Rightarrow> 'a list" where
  "weave blocks = concat (map (column blocks) [0..<max_length blocks])"

definition interleave :: "int list list \<Rightarrow> int list list \<Rightarrow> int list" where
  "interleave dataBlocks ecBlocks = weave dataBlocks @ weave ecBlocks"

lemma foldl_max_ge:
  fixes m :: nat
  shows "x \<in> insert m (set xs) \<Longrightarrow> x \<le> foldl max m xs"
proof (induction xs arbitrary: m x)
  case (Cons y xs)
  have "max m y \<le> foldl max (max m y) xs" by (rule Cons.IH) simp
  with Cons show ?case by auto
qed simp

lemma max_length_ge: "block \<in> set blocks \<Longrightarrow> length block \<le> max_length blocks"
  unfolding max_length_def by (rule foldl_max_ge) auto

text \<open>Tag every symbol with the number of its block.  The tags depend on the lengths only, so a
  reader knows them, and the symbols with one tag are the block, in order.\<close>

definition tagged :: "nat \<Rightarrow> 'a list list \<Rightarrow> (nat \<times> 'a) list list" where
  "tagged n blocks = map2 (\<lambda>k b. map (Pair k) b) [n..<n + length blocks] blocks"

lemma tagged_Nil [simp]: "tagged n [] = []"
  by (simp add: tagged_def)

lemma tagged_Cons [simp]: "tagged n (b # blocks) = map (Pair n) b # tagged (Suc n) blocks"
  by (simp add: tagged_def upt_conv_Cons del: upt_Suc)

lemma length_tagged: "map length (tagged n blocks) = map length blocks"
  by (induction blocks arbitrary: n) auto

lemma column_tagged: "map snd (column (tagged n blocks) i) = column blocks i"
  by (induction blocks arbitrary: n) (auto simp: column_def)

lemma weave_tagged: "map snd (weave (tagged n blocks)) = weave blocks"
  by (simp add: weave_def map_concat comp_def column_tagged max_length_def length_tagged)

lemma tags_of_lengths:
  "map length blocks = map length blocks' \<Longrightarrow>
   map fst (weave (tagged n blocks)) = map fst (weave (tagged n blocks'))"
proof -
  assume len: "map length blocks = map length blocks'"
  have "map fst (column (tagged n blocks) i) = map fst (column (tagged n blocks') i)" for i
    using len
  proof (induction blocks arbitrary: n blocks')
    case (Cons b blocks)
    then obtain c cs where c: "blocks' = c # cs" "length b = length c" "map length blocks = map length cs"
      by (cases blocks') auto
    have "map fst (column (tagged (Suc n) blocks) i) = map fst (column (tagged (Suc n) cs) i)"
      using c(3) by (rule Cons.IH)
    then show ?case using c by (simp add: column_def)
  qed (simp add: column_def)
  then show ?thesis
    using len by (simp add: weave_def map_concat comp_def max_length_def length_tagged)
qed

lemma column_filter_low:
  "k < n \<Longrightarrow> filter (\<lambda>p. fst p = k) (column (tagged n blocks) i) = []"
  by (induction blocks arbitrary: n) (auto simp: column_def)

lemma column_filter:
  "k < length blocks \<Longrightarrow> filter (\<lambda>p. fst p = n + k) (column (tagged n blocks) i)
     = (if i < length (blocks ! k) then [(n + k, blocks ! k ! i)] else [])"
proof (induction blocks arbitrary: n k)
  case (Cons b blocks)
  show ?case
  proof (cases k)
    case 0
    then show ?thesis using column_filter_low [of n "Suc n" blocks i]
      by (simp add: column_def)
  next
    case (Suc j)
    then have "filter (\<lambda>p. fst p = Suc n + j) (column (tagged (Suc n) blocks) i)
        = (if i < length (blocks ! j) then [(Suc n + j, blocks ! j ! i)] else [])"
      using Cons.prems by (intro Cons.IH) simp
    then show ?thesis using Suc by (simp add: column_def)
  qed
qed simp

lemma concat_singletons:
  "length b \<le> m \<Longrightarrow> concat (map (\<lambda>i. if i < length b then [f (b ! i)] else []) [0..<m]) = map f b"
proof -
  assume "length b \<le> m"
  then have split: "[0..<m] = [0..<length b] @ [length b..<m]" by (metis le0 upt_add_eq_append le_add_diff_inverse)
  have "concat (map (\<lambda>i. if i < length b then [f (b ! i)] else []) [0..<length b]) = map f b"
  proof -
    have "map (\<lambda>i. if i < length b then [f (b ! i)] else []) [0..<length b]
        = map (\<lambda>i. [f (b ! i)]) [0..<length b]"
      by (rule map_cong) auto
    then have "concat (map (\<lambda>i. if i < length b then [f (b ! i)] else []) [0..<length b])
        = map (\<lambda>i. f (b ! i)) [0..<length b]"
      by (simp only: concat_map_singleton)
    also have "\<dots> = map f b" by (rule nth_equalityI) simp_all
    finally show ?thesis .
  qed
  moreover have "concat (map (\<lambda>i. if i < length b then [f (b ! i)] else []) [length b..<m]) = []"
    by simp
  ultimately show ?thesis by (simp only: split map_append concat_append append_Nil2)
qed

lemma weave_block:
  assumes "k < length blocks"
  shows "map snd (filter (\<lambda>p. fst p = k) (weave (tagged 0 blocks))) = blocks ! k"
proof -
  have "max_length (tagged 0 blocks) = max_length blocks"
    by (simp add: max_length_def length_tagged)
  moreover have "length (blocks ! k) \<le> max_length blocks"
    using assms by (intro max_length_ge) simp
  ultimately show ?thesis
    using column_filter [OF assms, of 0, unfolded add_0] concat_singletons [of "blocks ! k" "max_length blocks" "Pair k"]
    by (simp add: weave_def filter_concat comp_def)
qed

lemma length_weave: "length (weave blocks) = sum_list (map length blocks)"
proof -
  have "sum_list (map (\<lambda>i. length (column blocks i)) [0..<m]) = sum_list (map length blocks)"
    if "\<forall>b \<in> set blocks. length b \<le> m" for m
    using that
  proof (induction blocks)
    case (Cons b blocks)
    have "length (concat (map (\<lambda>i. if i < length b then [b ! i] else []) [0..<m])) = length b"
      using concat_singletons [of b m "\<lambda>x. x"] Cons.prems by simp
    then have "sum_list (map (\<lambda>i. length (if i < length b then [b ! i] else [])) [0..<m]) = length b"
      by (simp only: length_concat map_map comp_def)
    moreover have "length (column (b # blocks) i)
        = length (if i < length b then [b ! i] else []) + length (column blocks i)" for i
      by (simp add: column_def)
    ultimately show ?case using Cons by (simp only: sum_list_addf) simp
  qed (simp add: column_def)
  then show ?thesis by (simp add: weave_def length_concat comp_def max_length_ge)
qed

end
