(* ===== verification/Qr_Matrix.thy ===== *)
theory Qr_Matrix
  imports Qr_Data
begin

text \<open>
  The module matrix of a QR symbol (\<open>buildMatrix\<close> of \<open>freenetic-qrcode.js\<close>): the two
  square arrays are maps from coordinates, \<open>null\<close> is a coordinate that is not in the map.
  The function patterns are placed first and reserve their modules; the codewords then fill
  the other modules along the zigzag of the standard, masked by pattern 0.
\<close>

section \<open>The grid\<close>

record grid =
  matrix :: "int \<times> int \<rightharpoonup> bool"
  reserved :: "int \<times> int \<Rightarrow> bool"

definition blank :: grid where
  "blank = \<lparr>matrix = Map.empty, reserved = (\<lambda>_. False)\<rparr>"

text \<open>Every function module is written and reserved at the same time.\<close>

definition set_module :: "grid \<Rightarrow> (int \<times> int) \<times> bool \<Rightarrow> grid" where
  "set_module g = (\<lambda>(p, dark).
     g\<lparr>matrix := (matrix g)(p \<mapsto> dark), reserved := (reserved g)(p := True)\<rparr>)"

definition module_count :: "nat \<Rightarrow> int" where
  "module_count version = int version * 4 + 17"

section \<open>Function patterns\<close>

definition finder_dark :: "int \<Rightarrow> int \<Rightarrow> bool" where
  "finder_dark r c \<longleftrightarrow>
     (0 \<le> r \<and> r \<le> 6 \<and> (c = 0 \<or> c = 6)) \<or> (0 \<le> c \<and> c \<le> 6 \<and> (r = 0 \<or> r = 6))
     \<or> (2 \<le> r \<and> r \<le> 4 \<and> 2 \<le> c \<and> c \<le> 4)"

definition placeFinder :: "int \<Rightarrow> int \<Rightarrow> int \<Rightarrow> grid \<Rightarrow> grid" where
  "placeFinder moduleCount row col g =
     foldl (\<lambda>g r. foldl (\<lambda>g c.
         if row + r \<le> -1 \<or> moduleCount \<le> row + r \<or> col + c \<le> -1 \<or> moduleCount \<le> col + c then g
         else set_module g ((row + r, col + c), finder_dark r c)) g [-1..7]) g [-1..7]"

definition ALIGNMENT_POSITIONS :: "nat \<Rightarrow> int list option" where
  "ALIGNMENT_POSITIONS version = map_of [
     (2, [6, 18]), (3, [6, 22]), (4, [6, 26]), (5, [6, 30]), (6, [6, 34]),
     (7, [6, 22, 38]), (8, [6, 24, 42]), (9, [6, 26, 46]), (10, [6, 28, 50])] version"

definition alignment_dark :: "int \<Rightarrow> int \<Rightarrow> bool" where
  "alignment_dark r c \<longleftrightarrow> r = -2 \<or> r = 2 \<or> c = -2 \<or> c = 2 \<or> (r = 0 \<and> c = 0)"

definition place_alignment :: "int \<Rightarrow> int \<Rightarrow> grid \<Rightarrow> grid" where
  "place_alignment row col g =
     foldl (\<lambda>g r. foldl (\<lambda>g c. set_module g ((row + r, col + c), alignment_dark r c)) g [-2..2])
       g [-2..2]"

definition place_alignments :: "nat \<Rightarrow> grid \<Rightarrow> grid" where
  "place_alignments version g =
     (case ALIGNMENT_POSITIONS version of
        None \<Rightarrow> g
      | Some positions \<Rightarrow>
          foldl (\<lambda>g row. foldl (\<lambda>g col.
              if matrix g (row, col) \<noteq> None then g else place_alignment row col g) g positions)
            g positions)"

definition place_timing :: "int \<Rightarrow> grid \<Rightarrow> grid" where
  "place_timing moduleCount g =
     (let g = foldl (\<lambda>g r. if matrix g (r, 6) \<noteq> None then g
                else set_module g ((r, 6), r mod 2 = 0)) g [8..moduleCount - 9]
      in foldl (\<lambda>g c. if matrix g (6, c) \<noteq> None then g
                else set_module g ((6, c), c mod 2 = 0)) g [8..moduleCount - 9])"

definition format_column :: "int \<Rightarrow> int \<Rightarrow> int \<times> int" where
  "format_column moduleCount i =
     (if i < 6 then (i, 8) else if i < 8 then (i + 1, 8) else (moduleCount - 15 + i, 8))"

definition format_row :: "int \<Rightarrow> int \<Rightarrow> int \<times> int" where
  "format_row moduleCount i =
     (if i < 8 then (8, moduleCount - i - 1) else if i < 9 then (8, 15 - i - 1 + 1)
      else (8, 15 - i - 1))"

definition place_format :: "int \<Rightarrow> int \<Rightarrow> grid \<Rightarrow> grid" where
  "place_format moduleCount fBits g =
     (let g = set_module g ((moduleCount - 8, 8), True);
          g = foldl (\<lambda>g i. set_module g (format_column moduleCount i, bit fBits (nat i))) g [0..14]
      in foldl (\<lambda>g i. set_module g (format_row moduleCount i, bit fBits (nat i))) g [0..14])"

definition place_version :: "int \<Rightarrow> int \<Rightarrow> grid \<Rightarrow> grid" where
  "place_version moduleCount vBits g =
     foldl (\<lambda>g i. let r = i div 3; c = i mod 3 + moduleCount - 8 - 3; dark = bit vBits (nat i)
                  in set_module (set_module g ((r, c), dark)) ((c, r), dark)) g [0..17]"

text \<open>Everything before the data: \<open>None\<close> when a division of the format or version words does not
  return, which the lemmas exclude.\<close>

definition function_patterns :: "nat \<Rightarrow> ec_level \<Rightarrow> grid option" where
  "function_patterns version ecLevel =
     (let n = module_count version;
          g = placeFinder n 0 0 blank;
          g = placeFinder n 0 (n - 7) g;
          g = placeFinder n (n - 7) 0 g;
          g = place_timing n (place_alignments version g)
      in case formatBits ecLevel 0 of
           None \<Rightarrow> None
         | Some fBits \<Rightarrow>
             let g = place_format n fBits g
             in if 7 \<le> version
                then map_option (\<lambda>vBits. place_version n vBits g) (versionBits (int version))
                else Some g)"

section \<open>Data placement\<close>

record placement = grid +
  inc :: int
  row :: int
  bitIndex :: int
  byteIndex :: nat

definition place_cell :: "int list \<Rightarrow> placement \<Rightarrow> int \<times> int \<Rightarrow> placement" where
  "place_cell codewords s = (\<lambda>(r, cc).
     if reserved s (r, cc) then s
     else
       let dark = (byteIndex s < length codewords
                   \<and> js_ushr (codewords ! byteIndex s) (nat (bitIndex s)) AND 1 = 1);
           dark = (if (r + cc) mod 2 = 0 then \<not> dark else dark);
           s = s\<lparr>matrix := (matrix s)((r, cc) \<mapsto> dark), bitIndex := bitIndex s - 1\<rparr>
       in if bitIndex s = -1 then s\<lparr>byteIndex := byteIndex s + 1, bitIndex := 7\<rparr> else s)"

partial_function (option) place_column :: "int \<Rightarrow> int list \<Rightarrow> int \<Rightarrow> placement \<Rightarrow> placement option" where
  "place_column moduleCount codewords col s =
     (let s = foldl (place_cell codewords) s [(row s, col - 0), (row s, col - 1)];
          s' = s\<lparr>row := row s + inc s\<rparr>
      in if row s' < 0 \<or> moduleCount \<le> row s'
         then Some (s'\<lparr>row := row s' - inc s', inc := - inc s'\<rparr>)
         else place_column moduleCount codewords col s')"

declare place_column.simps [code]

function place_columns :: "int \<Rightarrow> int list \<Rightarrow> int \<Rightarrow> placement \<Rightarrow> placement option" where
  "place_columns moduleCount codewords col s =
     (if 0 < col
      then let col' = (if col = 6 then col - 1 else col)
           in case place_column moduleCount codewords col' s of
                None \<Rightarrow> None
              | Some s' \<Rightarrow> place_columns moduleCount codewords (col' - 2) s'
      else Some s)"
  by pat_completeness auto
termination
  by (relation "measure (\<lambda>(n, cw, col, s). nat col)") auto

declare place_columns.simps [simp del]

definition buildMatrix :: "nat \<Rightarrow> ec_level \<Rightarrow> int list \<Rightarrow> (int \<times> int \<rightharpoonup> bool) option" where
  "buildMatrix version ecLevel codewords =
     (let n = module_count version
      in case function_patterns version ecLevel of
           None \<Rightarrow> None
         | Some g \<Rightarrow>
             map_option matrix (place_columns n codewords (n - 1)
               \<lparr>matrix = matrix g, reserved = reserved g, inc = -1, row = n - 1,
                bitIndex = 7, byteIndex = 0\<rparr>))"

end
