(* ===== verification/Qr_Layout.thy ===== *)
theory Qr_Layout
  imports Qr_Matrix
begin

text \<open>
  Where the function patterns of \<open>buildMatrix\<close> are: each placing function is a list of
  writes, no module is written twice, and the reserved modules of a version are the ones the
  geometry of the standard names (\<open>function_module\<close>).
\<close>

section \<open>Lists of writes\<close>

definition put_all :: "grid \<Rightarrow> ((int \<times> int) \<times> bool) list \<Rightarrow> grid" where
  "put_all g xs = foldl set_module g xs"

lemma put_all_Nil [simp]: "put_all g [] = g"
  by (simp add: put_all_def)

lemma put_all_Cons: "put_all g (x # xs) = put_all (set_module g x) xs"
  by (simp add: put_all_def)

lemma put_all_append: "put_all g (xs @ ys) = put_all (put_all g xs) ys"
  by (simp add: put_all_def)

lemma matrix_set_module: "matrix (set_module g x) = (matrix g)(fst x \<mapsto> snd x)"
  by (simp add: set_module_def split: prod.split)

lemma reserved_set_module: "reserved (set_module g x) p \<longleftrightarrow> p = fst x \<or> reserved g p"
  by (auto simp: set_module_def split: prod.split)

lemma matrix_put_all: "matrix (put_all g xs) = matrix g ++ map_of (rev xs)"
proof (induction xs rule: rev_induct)
  case (snoc x xs)
  then show ?case
    by (cases x) (auto simp: put_all_append put_all_Cons matrix_set_module map_add_def)
qed simp

lemma reserved_put_all: "reserved (put_all g xs) p \<longleftrightarrow> reserved g p \<or> p \<in> fst ` set xs"
  by (induction xs arbitrary: g) (auto simp: put_all_Cons reserved_set_module)

lemma dom_put_all: "dom (matrix (put_all g xs)) = dom (matrix g) \<union> fst ` set xs"
  by (auto simp: matrix_put_all dom_map_of_conv_image_fst)

text \<open>A grid is consistent when exactly the written modules are reserved.\<close>

definition grid_ok :: "grid \<Rightarrow> bool" where
  "grid_ok g \<longleftrightarrow> (\<forall>p. reserved g p \<longleftrightarrow> p \<in> dom (matrix g))"

lemma grid_ok_blank: "grid_ok blank"
  by (simp add: grid_ok_def blank_def)

lemma grid_ok_put_all: "grid_ok g \<Longrightarrow> grid_ok (put_all g xs)"
  by (auto simp: grid_ok_def reserved_put_all dom_put_all)

text \<open>Writes to fresh modules, each module once, keep what was there and are read back.\<close>

definition fresh :: "grid \<Rightarrow> ((int \<times> int) \<times> bool) list \<Rightarrow> bool" where
  "fresh g xs \<longleftrightarrow> distinct (map fst xs) \<and> (\<forall>p \<in> fst ` set xs. p \<notin> dom (matrix g))"

lemma fresh_extends:
  assumes "fresh g xs"
  shows "matrix g \<subseteq>\<^sub>m matrix (put_all g xs)"
  unfolding map_le_def
proof
  fix p
  assume "p \<in> dom (matrix g)"
  with assms have "p \<notin> fst ` set xs" by (auto simp: fresh_def)
  then have "map_of (rev xs) p = None" by (simp add: map_of_eq_None_iff)
  then show "matrix g p = matrix (put_all g xs) p" by (simp add: matrix_put_all map_add_def)
qed

lemma fresh_read:
  assumes "fresh g xs" and "(p, d) \<in> set xs"
  shows "matrix (put_all g xs) p = Some d"
proof -
  have "map_of (rev xs) p = Some d"
    using assms by (intro map_of_is_SomeI) (auto simp: fresh_def rev_map [symmetric])
  then show ?thesis by (simp add: matrix_put_all)
qed

lemma foldl_nested:
  "foldl (\<lambda>g r. foldl (\<lambda>g c. if P r c then g else f g (h r c)) g cs) g rs
   = foldl f g [h r c. r \<leftarrow> rs, c \<leftarrow> cs, \<not> P r c]"
proof -
  have inner: "foldl (\<lambda>g c. if P r c then g else f g (h r c)) g cs
      = foldl f g [h r c. c \<leftarrow> cs, \<not> P r c]" for r g
    by (induction cs arbitrary: g) auto
  show ?thesis by (induction rs arbitrary: g) (simp_all add: inner)
qed

lemma foldl_guarded:
  assumes "distinct (map k xs)"
  shows "foldl (\<lambda>g x. if matrix g (k x) \<noteq> None then g else set_module g (k x, d x)) g xs
    = put_all g [(k x, d x). x \<leftarrow> xs, matrix g (k x) = None]"
  using assms
proof (induction xs arbitrary: g)
  case (Cons x xs)
  have same: "matrix (set_module g (k x, d x)) (k y) = matrix g (k y)" if "y \<in> set xs" for y
    using Cons.prems that by (auto simp: matrix_set_module image_iff)
  have eq: "[(k y, d y). y \<leftarrow> xs, matrix (set_module g (k x, d x)) (k y) = None]
      = [(k y, d y). y \<leftarrow> xs, matrix g (k y) = None]"
    by (intro arg_cong [where f = concat] map_cong) (auto simp: same)
  show ?case using Cons by (simp add: put_all_Cons eq del: not_None_eq)
qed simp

section \<open>The writes of each pattern\<close>

definition finder_writes :: "int \<Rightarrow> int \<Rightarrow> int \<Rightarrow> ((int \<times> int) \<times> bool) list" where
  "finder_writes n r0 c0 = [((r0 + r, c0 + c), finder_dark r c). r \<leftarrow> [-1..7], c \<leftarrow> [-1..7],
     \<not> (r0 + r \<le> -1 \<or> n \<le> r0 + r \<or> c0 + c \<le> -1 \<or> n \<le> c0 + c)]"

definition alignment_writes :: "int \<Rightarrow> int \<Rightarrow> ((int \<times> int) \<times> bool) list" where
  "alignment_writes r0 c0 =
     [((r0 + r, c0 + c), alignment_dark r c). r \<leftarrow> [-2..2], c \<leftarrow> [-2..2], \<not> False]"

definition format_writes :: "int \<Rightarrow> int \<Rightarrow> ((int \<times> int) \<times> bool) list" where
  "format_writes n fBits = ((n - 8, 8), True)
     # [(format_column n i, bit fBits (nat i)). i \<leftarrow> [0..14]]
     @ [(format_row n i, bit fBits (nat i)). i \<leftarrow> [0..14]]"

definition version_writes :: "int \<Rightarrow> int \<Rightarrow> ((int \<times> int) \<times> bool) list" where
  "version_writes n vBits = concat (map (\<lambda>i.
     [((i div 3, i mod 3 + n - 8 - 3), bit vBits (nat i)),
      ((i mod 3 + n - 8 - 3, i div 3), bit vBits (nat i))]) [0..17])"

lemma placeFinder_writes: "placeFinder n r0 c0 g = put_all g (finder_writes n r0 c0)"
  unfolding placeFinder_def finder_writes_def put_all_def by (rule foldl_nested)

lemma place_alignment_writes: "place_alignment r0 c0 g = put_all g (alignment_writes r0 c0)"
  unfolding place_alignment_def alignment_writes_def put_all_def
  by (subst foldl_nested [where P = "\<lambda>_ _. False" and f = set_module
        and h = "\<lambda>r c. ((r0 + r, c0 + c), alignment_dark r c)", symmetric])
    (simp only: if_False)

lemma place_format_writes: "place_format n fBits g = put_all g (format_writes n fBits)"
  by (simp add: place_format_def format_writes_def put_all_def Let_def foldl_map)

lemma place_version_writes: "place_version n vBits g = put_all g (version_writes n vBits)"
proof -
  have "foldl (\<lambda>g i. set_module (set_module g (a i)) (b i)) g ns
      = foldl set_module g (concat (map (\<lambda>i. [a i, b i]) ns))" for a b and ns :: "int list"
    by (induction ns arbitrary: g) simp_all
  then show ?thesis
    by (simp add: place_version_def version_writes_def put_all_def Let_def)
qed

section \<open>The geometry\<close>

definition corner_area :: "int \<Rightarrow> int \<times> int \<Rightarrow> bool" where
  "corner_area n = (\<lambda>(r, c). (0 \<le> r \<and> r \<le> 7 \<and> 0 \<le> c \<and> c \<le> 7)
     \<or> (0 \<le> r \<and> r \<le> 7 \<and> n - 8 \<le> c \<and> c < n) \<or> (n - 8 \<le> r \<and> r < n \<and> 0 \<le> c \<and> c \<le> 7))"

definition positions :: "nat \<Rightarrow> int list" where
  "positions v = (case ALIGNMENT_POSITIONS v of None \<Rightarrow> [] | Some ps \<Rightarrow> ps)"

definition centers :: "nat \<Rightarrow> (int \<times> int) list" where
  "centers v = filter (\<lambda>p. \<not> corner_area (module_count v) p) (List.product (positions v) (positions v))"

definition alignment_area :: "nat \<Rightarrow> int \<times> int \<Rightarrow> bool" where
  "alignment_area v = (\<lambda>(r, c). \<exists>(r0, c0) \<in> set (centers v).
     r0 - 2 \<le> r \<and> r \<le> r0 + 2 \<and> c0 - 2 \<le> c \<and> c \<le> c0 + 2)"

definition timing_area :: "int \<Rightarrow> int \<times> int \<Rightarrow> bool" where
  "timing_area n = (\<lambda>(r, c). (c = 6 \<and> 8 \<le> r \<and> r \<le> n - 9) \<or> (r = 6 \<and> 8 \<le> c \<and> c \<le> n - 9))"

definition format_area :: "int \<Rightarrow> int \<times> int \<Rightarrow> bool" where
  "format_area n = (\<lambda>(r, c).
     (c = 8 \<and> ((0 \<le> r \<and> r \<le> 8 \<and> r \<noteq> 6) \<or> (n - 8 \<le> r \<and> r < n)))
     \<or> (r = 8 \<and> ((0 \<le> c \<and> c \<le> 7 \<and> c \<noteq> 6) \<or> (n - 8 \<le> c \<and> c < n))))"

definition version_area :: "int \<Rightarrow> int \<times> int \<Rightarrow> bool" where
  "version_area n = (\<lambda>(r, c). (0 \<le> r \<and> r \<le> 5 \<and> n - 11 \<le> c \<and> c \<le> n - 9)
     \<or> (0 \<le> c \<and> c \<le> 5 \<and> n - 11 \<le> r \<and> r \<le> n - 9))"

definition function_module :: "nat \<Rightarrow> int \<times> int \<Rightarrow> bool" where
  "function_module v p \<longleftrightarrow> corner_area (module_count v) p \<or> alignment_area v p
     \<or> timing_area (module_count v) p \<or> format_area (module_count v) p
     \<or> (7 \<le> v \<and> version_area (module_count v) p)"

lemmas area_defs = corner_area_def timing_area_def format_area_def version_area_def

lemma module_count_ge: "1 \<le> v \<Longrightarrow> 21 \<le> module_count v"
  by (simp add: module_count_def)

lemma distinct_block:
  fixes r0 c0 :: int
  assumes "distinct rs" "distinct cs"
  shows "distinct (map fst [((r0 + r, c0 + c), d r c). r \<leftarrow> rs, c \<leftarrow> cs, \<not> P r c])"
proof -
  have inner: "map fst [((r0 + r, c0 + c), d r c). c \<leftarrow> cs, \<not> P r c]
      = map (\<lambda>c. (r0 + r, c0 + c)) (filter (\<lambda>c. \<not> P r c) cs)" for r
    by (induction cs) auto
  have "map fst [((r0 + r, c0 + c), d r c). r \<leftarrow> rs, c \<leftarrow> cs, \<not> P r c]
      = concat (map (\<lambda>r. map (\<lambda>c. (r0 + r, c0 + c)) (filter (\<lambda>c. \<not> P r c) cs)) rs)"
    by (simp add: map_concat inner [symmetric] comp_def)
  also have "distinct \<dots>"
    using assms by (induction rs) (auto simp: distinct_map inj_on_def)
  finally show ?thesis .
qed

lemma keys_block:
  fixes r0 c0 :: int
  shows "fst ` set [((r0 + r, c0 + c), d r c). r \<leftarrow> rs, c \<leftarrow> cs, \<not> P r c]
    = {(r, c). r - r0 \<in> set rs \<and> c - c0 \<in> set cs \<and> \<not> P (r - r0) (c - c0)}" (is "fst ` set ?B = ?A")
proof (intro equalityI subsetI)
  fix p
  assume "p \<in> ?A"
  then obtain r c where p: "p = (r0 + r, c0 + c)" "r \<in> set rs" "c \<in> set cs" "\<not> P r c"
    by (cases p) (metis (no_types, lifting) add_diff_cancel_left' add.commute case_prodD diff_add_cancel mem_Collect_eq)
  then have "((r0 + r, c0 + c), d r c) \<in> set ?B" by (auto split: if_splits)
  then show "p \<in> fst ` set ?B" unfolding p(1) by force
qed (auto split: if_splits)

lemma keys_finder:
  "fst ` set (finder_writes n r0 c0)
   = {(r, c). r0 - 1 \<le> r \<and> r \<le> r0 + 7 \<and> c0 - 1 \<le> c \<and> c \<le> c0 + 7
        \<and> 0 \<le> r \<and> r < n \<and> 0 \<le> c \<and> c < n}"
  unfolding finder_writes_def keys_block by auto

lemma keys_alignment:
  "fst ` set (alignment_writes r0 c0)
   = {(r, c). r0 - 2 \<le> r \<and> r \<le> r0 + 2 \<and> c0 - 2 \<le> c \<and> c \<le> c0 + 2}"
  unfolding alignment_writes_def keys_block by auto

lemma image_format_column:
  assumes "21 \<le> n"
  shows "format_column n ` {0..14}
    = {(r, c). c = 8 \<and> ((0 \<le> r \<and> r \<le> 8 \<and> r \<noteq> 6) \<or> (n - 7 \<le> r \<and> r < n))}" (is "_ = ?A")
proof (intro equalityI subsetI)
  fix p
  assume "p \<in> ?A"
  then consider r where "p = (r, 8)" "0 \<le> r" "r < 6" | r where "p = (r, 8)" "6 < r" "r \<le> 8"
      | r where "p = (r, 8)" "n - 7 \<le> r" "r < n" by fastforce
  then show "p \<in> format_column n ` {0..14}"
  proof cases
    case 1 then show ?thesis by (intro image_eqI [of _ _ r]) (auto simp: format_column_def)
  next
    case 2 then show ?thesis by (intro image_eqI [of _ _ "r - 1"]) (auto simp: format_column_def)
  next
    case 3 then show ?thesis
      by (intro image_eqI [of _ _ "r - n + 15"]) (auto simp: format_column_def)
  qed
qed (use assms in \<open>auto simp: format_column_def split: if_splits\<close>)

lemma image_format_row:
  assumes "21 \<le> n"
  shows "format_row n ` {0..14}
    = {(r, c). r = 8 \<and> ((0 \<le> c \<and> c \<le> 7 \<and> c \<noteq> 6) \<or> (n - 8 \<le> c \<and> c < n))}" (is "_ = ?A")
proof (intro equalityI subsetI)
  fix p
  assume "p \<in> ?A"
  then consider c where "p = (8, c)" "0 \<le> c" "c < 6" | "p = (8, 7)"
      | c where "p = (8, c)" "n - 8 \<le> c" "c < n" by fastforce
  then show "p \<in> format_row n ` {0..14}"
  proof cases
    case 1 then show ?thesis by (intro image_eqI [of _ _ "14 - c"]) (auto simp: format_row_def)
  next
    case 2 then show ?thesis by (intro image_eqI [of _ _ 8]) (auto simp: format_row_def)
  next
    case 3 then show ?thesis by (intro image_eqI [of _ _ "n - 1 - c"]) (auto simp: format_row_def)
  qed
qed (use assms in \<open>auto simp: format_row_def split: if_splits\<close>)

lemma keys_format:
  assumes "21 \<le> n"
  shows "fst ` set (format_writes n b) = Collect (format_area n)"
proof -
  have "fst ` set (format_writes n b)
      = insert (n - 8, 8) (format_column n ` {0..14} \<union> format_row n ` {0..14})"
    by (simp add: format_writes_def image_Un image_image del: upto_rec_numeral)
  also have "\<dots> = Collect (format_area n)"
    unfolding image_format_column [OF assms] image_format_row [OF assms] format_area_def
    using assms by auto
  finally show ?thesis .
qed

lemma distinct_format:
  assumes "21 \<le> n"
  shows "distinct (map fst (format_writes n b))"
proof -
  have column: "inj_on (format_column n) (set [0..14])"
    using assms by (auto simp: inj_on_def format_column_def split: if_splits)
  have row: "inj_on (format_row n) (set [0..14])"
    using assms by (auto simp: inj_on_def format_row_def split: if_splits)
  have apart: "format_column n i \<noteq> format_row n j" "format_column n i \<noteq> (n - 8, 8)"
      "format_row n i \<noteq> (n - 8, 8)" if "0 \<le> i" "0 \<le> j" "i \<le> 14" "j \<le> 14" for i j
    using that assms by (auto simp: format_column_def format_row_def split: if_splits)
  have keys: "map fst (format_writes n b)
      = (n - 8, 8) # map (format_column n) [0..14] @ map (format_row n) [0..14]"
    unfolding format_writes_def by (simp add: comp_def del: upto_rec_numeral)
  show ?thesis
    unfolding keys using column row apart(2,3)
    by (auto simp: distinct_map simp del: upto_rec_numeral)
      (metis apart)+
qed

lemma keys_version: "fst ` set (version_writes n b) = Collect (version_area n)" (is "?K = _")
proof (intro equalityI subsetI)
  fix p
  assume "p \<in> Collect (version_area n)"
  then obtain r c where p: "p = (r, c)" and f: "version_area n (r, c)" by (cases p) auto
  have mem: "(i div 3, i mod 3 + n - 8 - 3) \<in> ?K \<and> (i mod 3 + n - 8 - 3, i div 3) \<in> ?K"
    if "0 \<le> i" "i \<le> 17" for i
    using that by (auto simp: version_writes_def image_Un image_UN)
  have at: "(r', c' + n - 8 - 3) \<in> ?K \<and> (c' + n - 8 - 3, r') \<in> ?K"
    if "0 \<le> r'" "r' \<le> 5" "0 \<le> c'" "c' \<le> 2" for r' c'
    using mem [of "3 * r' + c'"] that by (simp add: div_mult_self1 mult.commute)
  show "p \<in> ?K"
    using f at [of r "c - n + 11"] at [of c "r - n + 11"] by (auto simp: p version_area_def)
next
  fix p
  assume "p \<in> ?K"
  then obtain i where "0 \<le> i" "i \<le> 17"
      and "p = (i div 3, i mod 3 + n - 8 - 3) \<or> p = (i mod 3 + n - 8 - 3, i div 3)"
    by (auto simp: version_writes_def)
  moreover have "0 \<le> i div 3 \<and> i div 3 \<le> 5 \<and> 0 \<le> i mod 3 \<and> i mod 3 \<le> 2" if "0 \<le> i" "i \<le> 17" for i :: int
    using that by presburger
  ultimately show "p \<in> Collect (version_area n)" by (fastforce simp: version_area_def)
qed

lemma distinct_pairs:
  assumes "distinct xs" "inj_on a (set xs)" "inj_on b (set xs)"
    and "\<And>x y. x \<in> set xs \<Longrightarrow> y \<in> set xs \<Longrightarrow> a x \<noteq> b y"
  shows "distinct (concat (map (\<lambda>i. [a i, b i]) xs))"
  using assms by (induction xs) (fastforce simp: inj_on_def)+

lemma distinct_version:
  assumes "45 \<le> n"
  shows "distinct (map fst (version_writes n b))"
proof -
  have eq: "i = j" if "i div 3 = j div 3" "i mod 3 = j mod 3" for i j :: int
    using that by (metis mult_div_mod_eq)
  have range: "i div 3 \<le> 5 \<and> 0 \<le> i mod 3" if "i \<le> 17" for i :: int
    using that by presburger
  have "distinct (concat (map (\<lambda>i. [(i div 3, i mod 3 + n - 8 - 3), (i mod 3 + n - 8 - 3, i div 3)])
      [0..17]))"
  proof (rule distinct_pairs)
    fix i j :: int
    assume "i \<in> set [0..17]" "j \<in> set [0..17]"
    then show "(i div 3, i mod 3 + n - 8 - 3) \<noteq> (j mod 3 + n - 8 - 3, j div 3)"
      using range [of i] range [of j] assms by auto
  qed (auto simp: inj_on_def intro: eq)
  then show ?thesis
    unfolding version_writes_def by (simp add: map_concat comp_def del: upto_rec_numeral)
qed

lemma map_le_at: "m \<subseteq>\<^sub>m m' \<Longrightarrow> m p = Some d \<Longrightarrow> m' p = Some d"
  by (metis domI map_le_def)

section \<open>The stages\<close>

definition finder_origins :: "int \<Rightarrow> (int \<times> int) list" where
  "finder_origins n = [(0, 0), (0, n - 7), (n - 7, 0)]"

lemma distinct_finder: "distinct (map fst (finder_writes n r0 c0))"
  unfolding finder_writes_def by (intro distinct_block) simp_all

lemma distinct_alignment: "distinct (map fst (alignment_writes r0 c0))"
  unfolding alignment_writes_def by (intro distinct_block) simp_all

lemma finders:
  assumes "21 \<le> n"
  defines "g \<equiv> placeFinder n (n - 7) 0 (placeFinder n 0 (n - 7) (placeFinder n 0 0 blank))"
  shows "grid_ok g" "dom (matrix g) = Collect (corner_area n)"
    and "(r0, c0) \<in> set (finder_origins n) \<Longrightarrow> (p, d) \<in> set (finder_writes n r0 c0) \<Longrightarrow> matrix g p = Some d"
proof -
  define g1 where "g1 = placeFinder n 0 0 blank"
  define g2 where "g2 = placeFinder n 0 (n - 7) g1"
  have g: "g = put_all g2 (finder_writes n (n - 7) 0)" and g2: "g2 = put_all g1 (finder_writes n 0 (n - 7))"
    and g1: "g1 = put_all blank (finder_writes n 0 0)"
    by (simp_all add: g_def g1_def g2_def placeFinder_writes)
  have blank: "dom (matrix blank) = {}" by (simp add: blank_def)
  show "grid_ok g" by (simp add: g g2 g1 grid_ok_put_all grid_ok_blank)
  show "dom (matrix g) = Collect (corner_area n)"
    unfolding g g2 g1 dom_put_all keys_finder blank using assms(1) by (auto simp: corner_area_def)
  have f1: "fresh blank (finder_writes n 0 0)" by (simp add: fresh_def distinct_finder blank)
  have f2: "fresh g1 (finder_writes n 0 (n - 7))"
    using assms(1) unfolding fresh_def keys_finder g1 dom_put_all blank
    by (auto simp: distinct_finder)
  have f3: "fresh g2 (finder_writes n (n - 7) 0)"
    using assms(1) unfolding fresh_def keys_finder g2 g1 dom_put_all blank
    by (auto simp: distinct_finder)
  have le2: "matrix g2 \<subseteq>\<^sub>m matrix g" unfolding g by (rule fresh_extends [OF f3])
  have le1: "matrix g1 \<subseteq>\<^sub>m matrix g"
    using le2 fresh_extends [OF f2] unfolding g2 by (rule map_le_trans [rotated])
  show "matrix g p = Some d"
    if "(r0, c0) \<in> set (finder_origins n)" "(p, d) \<in> set (finder_writes n r0 c0)"
  proof -
    have "matrix g1 p = Some d \<or> matrix g2 p = Some d \<or> matrix g p = Some d"
      using that fresh_read [OF f1, of p d] fresh_read [OF f2, of p d] fresh_read [OF f3, of p d]
      by (auto simp: finder_origins_def g1 g2 g)
    then show ?thesis using map_le_at [OF le1] map_le_at [OF le2] by blast
  qed
qed

text \<open>The boxes around the alignment centres of a version touch neither each other nor a corner,
  a format area or a version area.\<close>

definition separated :: "nat \<Rightarrow> bool" where
  "separated v \<longleftrightarrow> (let n = module_count v in list_all (\<lambda>(r, c).
     list_all (\<lambda>(r', c'). (r = r' \<and> c = c') \<or> 4 < \<bar>r - r'\<bar> \<or> 4 < \<bar>c - c'\<bar>) (centers v)
     \<and> 4 \<le> r \<and> r + 2 < n \<and> 4 \<le> c \<and> c + 2 < n
     \<and> (10 < r \<or> (10 < c \<and> c + 2 < n - 11)) \<and> (10 < c \<or> (10 < r \<and> r + 2 < n - 11))) (centers v)
     \<and> distinct (centers v))"

lemma separated: "1 \<le> v \<Longrightarrow> v \<le> 10 \<Longrightarrow> separated v"
proof -
  have "list_all separated [1, 2, 3, 4, 5, 6, 7, 8, 9, 10]" by code_simp
  moreover assume "1 \<le> v" "v \<le> 10"
  ultimately show ?thesis using version_cases by auto
qed

end
