(* ===== verification/Qr_Patterns.thy ===== *)
theory Qr_Patterns
  imports Qr_Layout
begin

text \<open>
  The function patterns of a symbol, stage by stage: \<open>function_patterns\<close> returns a grid whose
  reserved modules are \<open>function_module\<close>, with every pattern intact and both copies of the
  format word and of the version word in place.
\<close>

section \<open>Alignment patterns\<close>

definition far :: "int \<times> int \<Rightarrow> int \<times> int \<Rightarrow> bool" where
  "far = (\<lambda>(r, c) (r', c'). 4 < \<bar>r - r'\<bar> \<or> 4 < \<bar>c - c'\<bar>)"

definition boxes :: "(int \<times> int) list \<Rightarrow> ((int \<times> int) \<times> bool) list" where
  "boxes qs = concat (map (\<lambda>(r, c). alignment_writes r c) qs)"

lemma boxes_Cons: "boxes (q # qs) = alignment_writes (fst q) (snd q) @ boxes qs"
  by (simp add: boxes_def split: prod.split)

lemma place_boxes: "foldl (\<lambda>g (r, c). place_alignment r c g) g qs = put_all g (boxes qs)"
  by (induction qs arbitrary: g)
    (auto simp: boxes_def put_all_append place_alignment_writes)

lemma keys_boxes:
  "fst ` set (boxes qs)
   = {(r, c). \<exists>(r0, c0) \<in> set qs. r0 - 2 \<le> r \<and> r \<le> r0 + 2 \<and> c0 - 2 \<le> c \<and> c \<le> c0 + 2}"
  by (induction qs) (auto simp: boxes_Cons image_Un keys_alignment, simp add: boxes_def)

lemma distinct_boxes:
  assumes "distinct qs" "\<And>p q. p \<in> set qs \<Longrightarrow> q \<in> set qs \<Longrightarrow> p = q \<or> far p q"
  shows "distinct (map fst (boxes qs))"
  using assms
proof (induction qs)
  case Nil
  then show ?case by (simp add: boxes_def)
next
  case (Cons q qs)
  have "far q p" if "p \<in> set qs" for p using Cons.prems(2) [of q p] Cons.prems(1) that by auto
  then have "fst ` set (alignment_writes (fst q) (snd q)) \<inter> fst ` set (boxes qs) = {}"
    unfolding keys_alignment keys_boxes by (fastforce simp: far_def)
  with Cons show ?case by (simp add: boxes_Cons distinct_alignment)
qed

lemma near_box: "p \<in> fst ` set (boxes qs) \<Longrightarrow> \<exists>q \<in> set qs. \<not> far q p"
  unfolding keys_boxes by (force simp: far_def)

text \<open>The guard of the code, \<open>matrix[row][col] !== null\<close>, drops exactly the centres in a
  corner, because the boxes already placed do not reach the other centres.\<close>

lemma guarded_boxes:
  assumes "\<And>p q. p \<in> set ps \<Longrightarrow> q \<in> set ps \<Longrightarrow> p = q \<or> p \<in> dom (matrix g) \<or> q \<in> dom (matrix g) \<or> far p q"
    and "distinct ps"
  shows "foldl (\<lambda>g (r, c). if matrix g (r, c) \<noteq> None then g else place_alignment r c g) g ps
    = put_all g (boxes (filter (\<lambda>p. p \<notin> dom (matrix g)) ps))"
  using assms
proof (induction ps rule: rev_induct)
  case Nil
  then show ?case by (simp add: boxes_def)
next
  case (snoc p ps)
  let ?qs = "filter (\<lambda>p. p \<notin> dom (matrix g)) ps"
  have IH: "foldl (\<lambda>g (r, c). if matrix g (r, c) \<noteq> None then g else place_alignment r c g) g ps
      = put_all g (boxes ?qs)"
  proof (rule snoc.IH)
    show "p = q \<or> p \<in> dom (matrix g) \<or> q \<in> dom (matrix g) \<or> far p q"
      if "p \<in> set ps" "q \<in> set ps" for p q
      using snoc.prems(1) [of p q] that by simp
    show "distinct ps" using snoc.prems(2) by simp
  qed
  have out: "far q p" if "q \<in> set ?qs" "p \<notin> dom (matrix g)" for q
    using snoc.prems(1) [of q p] snoc.prems(2) that by (auto simp del: not_None_eq)
  have "matrix (put_all g (boxes ?qs)) p \<noteq> None \<longleftrightarrow> p \<in> dom (matrix g)"
  proof -
    have "p \<in> fst ` set (boxes ?qs) \<Longrightarrow> p \<in> dom (matrix g)"
      using out near_box [of p ?qs] by blast
    then have "p \<in> dom (matrix (put_all g (boxes ?qs))) \<longleftrightarrow> p \<in> dom (matrix g)"
      unfolding dom_put_all by blast
    then show ?thesis by (simp only: domIff)
  qed
  moreover obtain r c where p: "p = (r, c)" by (cases p)
  moreover have "boxes (filter (\<lambda>p. p \<notin> dom (matrix g)) (ps @ [p]))
      = boxes ?qs @ (if p \<in> dom (matrix g) then [] else alignment_writes r c)"
    by (simp add: boxes_def p)
  ultimately show ?case
    unfolding foldl_append IH p by (simp add: put_all_append place_alignment_writes del: not_None_eq)
qed

lemma foldl_product:
  "foldl (\<lambda>g r. foldl (\<lambda>g c. f g r c) g cs) g rs = foldl (\<lambda>g (r, c). f g r c) g (List.product rs cs)"
proof -
  have "foldl (\<lambda>g (r, c). f g r c) g (map (Pair r) cs) = foldl (\<lambda>g c. f g r c) g cs" for g r
    by (induction cs arbitrary: g) simp_all
  then show ?thesis by (induction rs arbitrary: g) simp_all
qed

lemma centers_separated:
  assumes "1 \<le> v" "v \<le> 10"
  shows "distinct (centers v)" "p \<in> set (centers v) \<Longrightarrow> q \<in> set (centers v) \<Longrightarrow> p = q \<or> far p q"
    and "(r, c) \<in> set (centers v) \<Longrightarrow> 4 \<le> r \<and> r + 2 < module_count v \<and> 4 \<le> c \<and> c + 2 < module_count v
      \<and> (10 < r \<or> (10 < c \<and> c + 2 < module_count v - 11))
      \<and> (10 < c \<or> (10 < r \<and> r + 2 < module_count v - 11))"
  using separated [OF assms] by (fastforce simp: separated_def Let_def list_all_iff far_def)+

lemma place_alignments_boxes:
  assumes "1 \<le> v" "v \<le> 10" "dom (matrix g) = Collect (corner_area (module_count v))"
  shows "place_alignments v g = put_all g (boxes (centers v))"
proof (cases "ALIGNMENT_POSITIONS v")
  case None
  then show ?thesis by (simp add: place_alignments_def centers_def positions_def boxes_def)
next
  case (Some ps)
  have ps: "positions v = ps" by (simp add: positions_def Some)
  have "distinct ps" using assms(1,2) Some version_cases [OF assms(1,2)]
    by (auto simp: ALIGNMENT_POSITIONS_def)
  then have d: "distinct (List.product ps ps)" by (simp add: distinct_product)
  have eq: "filter (\<lambda>p. p \<notin> dom (matrix g)) (List.product ps ps) = centers v"
    unfolding centers_def ps assms(3) by simp
  show ?thesis
    unfolding place_alignments_def Some option.case foldl_product eq [symmetric]
  proof (rule guarded_boxes [OF _ d])
    fix p q
    assume "p \<in> set (List.product ps ps)" "q \<in> set (List.product ps ps)"
    then show "p = q \<or> p \<in> dom (matrix g) \<or> q \<in> dom (matrix g) \<or> far p q"
      using centers_separated(2) [OF assms(1,2), of p q] unfolding eq [symmetric] by auto
  qed
qed

lemma fresh_boxes:
  assumes "1 \<le> v" "v \<le> 10" "dom (matrix g) = Collect (corner_area (module_count v))"
  shows "fresh g (boxes (centers v))"
  unfolding fresh_def
proof (intro conjI ballI)
  show "distinct (map fst (boxes (centers v)))"
    using centers_separated(1,2) [OF assms(1,2)] by (rule distinct_boxes)
  fix p
  assume "p \<in> fst ` set (boxes (centers v))"
  then obtain r c r0 c0 where "p = (r, c)" "(r0, c0) \<in> set (centers v)"
      "r0 - 2 \<le> r" "r \<le> r0 + 2" "c0 - 2 \<le> c" "c \<le> c0 + 2"
    unfolding keys_boxes by auto
  then show "p \<notin> dom (matrix g)"
    using centers_separated(3) [OF assms(1,2), of r0 c0] unfolding assms(3) corner_area_def
    by simp linarith
qed

section \<open>Timing patterns\<close>

definition timing_writes :: "int \<Rightarrow> grid \<Rightarrow> ((int \<times> int) \<times> bool) list" where
  "timing_writes n g = [((r, 6), r mod 2 = 0). r \<leftarrow> [8..n - 9], matrix g (r, 6) = None]
     @ [((6, c), c mod 2 = 0). c \<leftarrow> [8..n - 9], matrix g (6, c) = None]"

lemma place_timing_writes: "place_timing n g = put_all g (timing_writes n g)"
proof -
  define h where "h = put_all g [((r, 6), r mod 2 = 0). r \<leftarrow> [8..n - 9], matrix g (r, 6) = None]"
  have "foldl (\<lambda>g r. if matrix g (r, 6) \<noteq> None then g else set_module g ((r, 6), r mod 2 = 0)) g [8..n - 9] = h"
    unfolding h_def by (rule foldl_guarded) (simp add: distinct_map inj_on_def)
  moreover have "foldl (\<lambda>g c. if matrix g (6, c) \<noteq> None then g else set_module g ((6, c), c mod 2 = 0)) h [8..n - 9]
      = put_all h [((6, c), c mod 2 = 0). c \<leftarrow> [8..n - 9], matrix h (6, c) = None]"
    by (rule foldl_guarded) (simp add: distinct_map inj_on_def)
  moreover have "matrix h (6, c) = matrix g (6, c)" if "8 \<le> c" for c
  proof -
    have "(6, c) \<notin> fst ` set [((r, 6), r mod 2 = 0). r \<leftarrow> [8..n - 9], matrix g (r, 6) = None]"
      using that by (auto split: if_splits)
    then have "map_of (rev [((r, 6), r mod 2 = 0). r \<leftarrow> [8..n - 9], matrix g (r, 6) = None]) (6, c) = None"
      by (simp only: map_of_eq_None_iff set_rev not_False_eq_True)
    then show ?thesis unfolding h_def matrix_put_all by (simp add: map_add_def)
  qed
  then have "[((6::int, c), c mod 2 = 0). c \<leftarrow> [8..n - 9], matrix h (6, c) = None]
      = [((6, c), c mod 2 = 0). c \<leftarrow> [8..n - 9], matrix g (6, c) = None]"
    by (intro arg_cong [where f = concat] map_cong) auto
  ultimately show ?thesis
    by (simp only: place_timing_def timing_writes_def Let_def put_all_append h_def [symmetric])
qed

lemma keys_timing:
  "fst ` set (timing_writes n g) = Collect (timing_area n) - dom (matrix g)"
  by (auto simp: timing_writes_def timing_area_def image_Un image_iff split: if_splits)

lemma fresh_timing: "fresh g (timing_writes n g)"
proof -
  have d: "distinct (map fst [(k x, d x). x \<leftarrow> xs, matrix g (k x) = None])"
    if "distinct (map k xs)" for k d and xs :: "int list"
    using that by (induction xs) (auto split: if_splits)
  have "fst ` set [((r, 6), r mod 2 = 0). r \<leftarrow> [8..n - 9], matrix g (r, 6) = None]
      \<inter> fst ` set [((6, c), c mod 2 = 0). c \<leftarrow> [8..n - 9], matrix g (6, c) = None] = {}"
    by (auto split: if_splits)
  moreover have "distinct (map (\<lambda>r. (r, 6::int)) [8..n - 9])" "distinct (map (Pair (6::int)) [8..n - 9])"
    by (simp_all add: distinct_map inj_on_def)
  ultimately have "distinct (map fst (timing_writes n g))"
    unfolding timing_writes_def map_append distinct_append set_map by (intro conjI d)
  then show ?thesis by (simp add: fresh_def keys_timing)
qed

section \<open>The whole\<close>

text \<open>What a grid of a version and a level holds.\<close>

definition pattern_grid :: "nat \<Rightarrow> ec_level \<Rightarrow> grid \<Rightarrow> bool" where
  "pattern_grid v l g \<longleftrightarrow> grid_ok g \<and> dom (matrix g) = Collect (function_module v)
    \<and> (\<forall>(r0, c0) \<in> set (finder_origins (module_count v)).
         \<forall>(p, d) \<in> set (finder_writes (module_count v) r0 c0). matrix g p = Some d)
    \<and> (\<forall>(p, d) \<in> set (boxes (centers v)). matrix g p = Some d)
    \<and> (\<forall>p. timing_area (module_count v) p \<longrightarrow> \<not> alignment_area v p \<longrightarrow>
         matrix g p = Some (even (fst p + snd p)))
    \<and> (\<forall>fBits. formatBits l 0 = Some fBits \<longrightarrow>
         (\<forall>(p, d) \<in> set (format_writes (module_count v) fBits). matrix g p = Some d))
    \<and> (\<forall>vBits. 7 \<le> v \<longrightarrow> versionBits (int v) = Some vBits \<longrightarrow>
         (\<forall>(p, d) \<in> set (version_writes (module_count v) vBits). matrix g p = Some d))"

lemma timing_read:
  assumes "(p, d) \<in> set (timing_writes n g)"
  shows "d = even (fst p + snd p)"
  using assms by (auto simp: timing_writes_def even_iff_mod_2_eq_zero [symmetric] split: if_splits)

lemma function_patterns_grid:
  assumes "1 \<le> v" "v \<le> 10" and fBits: "formatBits l 0 = Some fBits"
    and vBits: "7 \<le> v \<Longrightarrow> versionBits (int v) = Some vBits"
  shows "\<exists>g. function_patterns v l = Some g \<and> pattern_grid v l g"
proof -
  let ?n = "module_count v"
  have n: "21 \<le> ?n" using assms(1) by (rule module_count_ge)
  have n7: "45 \<le> ?n" if "7 \<le> v" using that by (simp add: module_count_def)
  define g1 where "g1 = placeFinder ?n (?n - 7) 0 (placeFinder ?n 0 (?n - 7) (placeFinder ?n 0 0 blank))"
  define g2 where "g2 = put_all g1 (boxes (centers v))"
  define g3 where "g3 = put_all g2 (timing_writes ?n g2)"
  define g4 where "g4 = put_all g3 (format_writes ?n fBits)"
  define g5 where "g5 = (if 7 \<le> v then put_all g4 (version_writes ?n vBits) else g4)"
  note fin = finders [OF n, folded g1_def]
  have g: "function_patterns v l = Some g5"
    using assms(1,2) fBits vBits
    by (simp add: function_patterns_def Let_def g1_def [symmetric] place_alignments_boxes fin(2)
        place_timing_writes place_format_writes place_version_writes g2_def g3_def g4_def g5_def)
  have d2: "dom (matrix g2) = {p. corner_area ?n p \<or> alignment_area v p}"
    unfolding g2_def dom_put_all keys_boxes fin(2) by (auto simp: alignment_area_def)
  have d3: "dom (matrix g3) = {p. corner_area ?n p \<or> alignment_area v p \<or> timing_area ?n p}"
    unfolding g3_def dom_put_all keys_timing d2 by auto
  have d4: "dom (matrix g4) = {p. corner_area ?n p \<or> alignment_area v p \<or> timing_area ?n p \<or> format_area ?n p}"
    unfolding g4_def dom_put_all keys_format [OF n] d3 by auto
  have d5: "dom (matrix g5) = Collect (function_module v)"
    by (auto simp: g5_def dom_put_all keys_version d4 function_module_def)
  have al: "\<not> format_area ?n p" "7 \<le> v \<Longrightarrow> \<not> version_area ?n p" if "alignment_area v p" for p
    using that centers_separated(3) [OF assms(1,2)] n n7
    by (auto simp: alignment_area_def format_area_def version_area_def) fastforce+
  have f2: "fresh g1 (boxes (centers v))" by (rule fresh_boxes [OF assms(1,2) fin(2)])
  have f4: "fresh g3 (format_writes ?n fBits)"
    unfolding fresh_def keys_format [OF n] d3
    using n al(1) by (auto simp: distinct_format area_defs)
  have f5: "fresh g4 (version_writes ?n vBits)" if "7 \<le> v"
    unfolding fresh_def keys_version d4
    using n7 [OF that] al(2) that by (auto simp: distinct_version area_defs)
  have le5: "matrix g4 \<subseteq>\<^sub>m matrix g5" using fresh_extends [OF f5] by (simp add: g5_def)
  have le4: "matrix g3 \<subseteq>\<^sub>m matrix g5"
    using map_le_trans [OF fresh_extends [OF f4, folded g4_def] le5] .
  have le3: "matrix g2 \<subseteq>\<^sub>m matrix g5"
    using map_le_trans [OF fresh_extends [OF fresh_timing [of g2 ?n], folded g3_def] le4] .
  have le2: "matrix g1 \<subseteq>\<^sub>m matrix g5"
    using map_le_trans [OF fresh_extends [OF f2, folded g2_def] le3] .
  have "pattern_grid v l g5"
    unfolding pattern_grid_def
  proof (intro conjI allI impI ballI)
    show "grid_ok g5"
      using fin(1) by (simp add: g5_def g4_def g3_def g2_def grid_ok_put_all)
    show "dom (matrix g5) = Collect (function_module v)" by (rule d5)
    show "case w of (p, d) \<Rightarrow> matrix g5 p = Some d" if "w \<in> set (boxes (centers v))" for w
      using that map_le_at [OF le3] fresh_read [OF f2] by (auto simp: g2_def)
    show "matrix g5 p = Some (even (fst p + snd p))" if "timing_area ?n p" "\<not> alignment_area v p" for p
    proof -
      have "p \<notin> dom (matrix g2)" using that n by (auto simp: d2 area_defs)
      with that have "p \<in> fst ` set (timing_writes ?n g2)" unfolding keys_timing by simp
      then obtain d where d: "(p, d) \<in> set (timing_writes ?n g2)" by auto
      show ?thesis
        using map_le_at [OF le4] fresh_read [OF fresh_timing d] timing_read [OF d] by (simp add: g3_def)
    qed
    show "case w of (p, d) \<Rightarrow> matrix g5 p = Some d"
      if "formatBits l 0 = Some b" "w \<in> set (format_writes ?n b)" for w b
      using that fBits map_le_at [OF le5] fresh_read [OF f4] by (auto simp: g4_def)
    show "case w of (p, d) \<Rightarrow> matrix g5 p = Some d"
      if "7 \<le> v" "versionBits (int v) = Some b" "w \<in> set (version_writes ?n b)" for w b
      using that vBits fresh_read [OF f5] by (auto simp: g5_def)
    show "case q of (r0, c0) \<Rightarrow> \<forall>(p, d) \<in> set (finder_writes ?n r0 c0). matrix g5 p = Some d"
      if "q \<in> set (finder_origins ?n)" for q
      using that fin(3) map_le_at [OF le2] by (auto split: prod.split)
  qed
  with g show ?thesis by blast
qed

end
