(* ===== verification/Qr_Zigzag.thy ===== *)
theory Qr_Zigzag
  imports Qr_Patterns
begin

text \<open>
  The data placement of \<open>buildMatrix\<close>: the nested loops visit the columns in pairs from the
  right, alternately upwards and downwards, skipping column 6 (\<open>zig\<close>); the \<open>k\<close>-th module that
  is not reserved holds bit \<open>k\<close> of the codewords under the mask.
\<close>

section \<open>The order of the visits\<close>

definition sweep :: "int \<Rightarrow> int list \<Rightarrow> (int \<times> int) list" where
  "sweep col rs = concat (map (\<lambda>r. [(r, col), (r, col - 1)]) rs)"

function zig :: "int \<Rightarrow> int \<Rightarrow> bool \<Rightarrow> (int \<times> int) list" where
  "zig n col up =
     (if 0 < col
      then let col' = (if col = 6 then col - 1 else col)
           in sweep col' (if up then rev [0..n - 1] else [0..n - 1]) @ zig n (col' - 2) (\<not> up)
      else [])"
  by pat_completeness auto
termination
  by (relation "measure (\<lambda>(n, col, up). nat col)") auto

declare zig.simps [simp del]

lemma zig_0 [simp]: "col \<le> 0 \<Longrightarrow> zig n col up = []"
  by (simp add: zig.simps)

lemma set_sweep: "set (sweep col rs) = set rs \<times> {col - 1, col}"
  by (auto simp: sweep_def)

lemma distinct_sweep: "distinct rs \<Longrightarrow> distinct (sweep col rs)"
  unfolding sweep_def by (rule distinct_pairs) (simp_all add: inj_on_def)

text \<open>The columns at which a pair can start: even ones down to 6, then odd ones.\<close>

definition zig_start :: "int \<Rightarrow> bool" where
  "zig_start col \<longleftrightarrow> (even col \<and> 6 \<le> col) \<or> (odd col \<and> -1 \<le> col \<and> col < 6)"

lemma zig_start_step:
  "zig_start col \<Longrightarrow> 0 < col \<Longrightarrow> zig_start ((if col = 6 then col - 1 else col) - 2)"
  unfolding zig_start_def by presburger

lemma zig_cells:
  assumes "zig_start col"
  shows "set (zig n col up) = {0..n - 1} \<times> ({0..col} - {6}) \<and> distinct (zig n col up)"
  using assms
proof (induction n col up rule: zig.induct)
  case (1 n col up)
  show ?case
  proof (cases "0 < col")
    case True
    let ?col = "if col = 6 then col - 1 else col"
    let ?rs = "if up then rev [0..n - 1] else [0..n - 1]"
    have IH: "set (zig n (?col - 2) (\<not> up)) = {0..n - 1} \<times> ({0..?col - 2} - {6})
        \<and> distinct (zig n (?col - 2) (\<not> up))"
      using 1 True zig_start_step by simp
    have z: "zig n col up = sweep ?col ?rs @ zig n (?col - 2) (\<not> up)"
      using True by (simp add: zig.simps [of n col])
    have cols: "{0..col} - {6} = {?col - 1, ?col} \<union> ({0..?col - 2} - {6})"
      using 1(2) True by (auto simp: zig_start_def)
    have "set ?rs = {0..n - 1}" "distinct ?rs" by auto
    with IH show ?thesis
      unfolding z set_append distinct_append set_sweep cols by (auto intro!: distinct_sweep)
  next
    case False
    moreover have "{0..col} - {6} = {}"
      using 1(2) False unfolding zig_start_def by (cases "col = 0") auto
    ultimately show ?thesis by simp
  qed
qed

section \<open>The loops visit the list\<close>

lemma place_cell_update:
  "place_cell cw (s\<lparr>row := x\<rparr>) p = place_cell cw s p\<lparr>row := x\<rparr>"
  "place_cell cw (s\<lparr>inc := y\<rparr>) p = place_cell cw s p\<lparr>inc := y\<rparr>"
  by (auto simp: place_cell_def Let_def split: prod.split)

lemma foldl_place_update:
  "foldl (place_cell cw) (s\<lparr>row := x\<rparr>) ps = foldl (place_cell cw) s ps\<lparr>row := x\<rparr>"
  "foldl (place_cell cw) (s\<lparr>inc := y\<rparr>) ps = foldl (place_cell cw) s ps\<lparr>inc := y\<rparr>"
  by (induction ps arbitrary: s) (simp_all add: place_cell_update)

lemma place_cell_row [simp]: "row (place_cell cw s p) = row s" "inc (place_cell cw s p) = inc s"
  by (simp_all add: place_cell_def Let_def split: prod.split)

lemma foldl_place_row [simp]:
  "row (foldl (place_cell cw) s ps) = row s" "inc (foldl (place_cell cw) s ps) = inc s"
  by (induction ps arbitrary: s) simp_all

lemma place_column_down:
  assumes "0 \<le> row s" "row s < n" "inc s = 1"
  shows "place_column n cw col s
    = Some (foldl (place_cell cw) s (sweep col [row s..n - 1])\<lparr>row := n - 1, inc := -1\<rparr>)"
  using assms
proof (induction "nat (n - row s)" arbitrary: s)
  case (Suc k)
  define t where "t = foldl (place_cell cw) s [(row s, col), (row s, col - 1)]"
  have t: "row t = row s" "inc t = inc s" unfolding t_def by (simp_all only: foldl_place_row)
  have step: "place_column n cw col s
      = (if n \<le> row s + 1 then Some (t\<lparr>row := row s, inc := -1\<rparr>)
         else place_column n cw col (t\<lparr>row := row s + 1\<rparr>))"
    using Suc.prems t
    by (subst place_column.simps) (simp add: t_def [symmetric] Let_def del: foldl.simps)
  have list: "sweep col [row s..n - 1]
      = [(row s, col), (row s, col - 1)] @ sweep col [row s + 1..n - 1]"
    using Suc.prems by (simp add: upto_rec1 [of "row s"] sweep_def)
  show ?case
  proof (cases "n \<le> row s + 1")
    case True
    with Suc.prems have "row s = n - 1" by simp
    then show ?thesis unfolding step list foldl_append t_def [symmetric] by (simp add: sweep_def)
  next
    case False
    let ?t = "t\<lparr>row := row s + 1\<rparr>"
    have "place_column n cw col ?t
        = Some (foldl (place_cell cw) ?t (sweep col [row ?t..n - 1])\<lparr>row := n - 1, inc := -1\<rparr>)"
      using Suc.hyps(2) Suc.prems False t by (intro Suc.hyps(1)) auto
    with False show ?thesis
      unfolding step list foldl_append t_def [symmetric] by (simp add: foldl_place_update)
  qed
qed simp

lemma place_column_up:
  assumes "0 \<le> row s" "row s < n" "inc s = -1"
  shows "place_column n cw col s
    = Some (foldl (place_cell cw) s (sweep col (rev [0..row s]))\<lparr>row := 0, inc := 1\<rparr>)"
  using assms
proof (induction "nat (row s)" arbitrary: s)
  case 0
  then have r: "row s = 0" by simp
  then show ?case
    using 0 by (subst place_column.simps) (simp add: Let_def sweep_def)
next
  case (Suc k)
  define t where "t = foldl (place_cell cw) s [(row s, col), (row s, col - 1)]"
  have t: "row t = row s" "inc t = inc s" unfolding t_def by (simp_all only: foldl_place_row)
  let ?t = "t\<lparr>row := row s - 1\<rparr>"
  have step: "place_column n cw col s = place_column n cw col ?t"
    using Suc t
    by (subst place_column.simps) (simp add: t_def [symmetric] Let_def del: foldl.simps)
  have list: "sweep col (rev [0..row s])
      = [(row s, col), (row s, col - 1)] @ sweep col (rev [0..row s - 1])"
    using Suc.prems by (simp add: upto_rec2 [of 0 "row s"] sweep_def)
  have "place_column n cw col ?t
      = Some (foldl (place_cell cw) ?t (sweep col (rev [0..row ?t]))\<lparr>row := 0, inc := 1\<rparr>)"
    using Suc.hyps(2) Suc.prems t by (intro Suc.hyps(1)) auto
  then show ?case
    unfolding step list foldl_append t_def [symmetric] by (simp add: foldl_place_update)
qed

lemma place_columns_zig:
  assumes "0 < n" "if up then inc s = -1 \<and> row s = n - 1 else inc s = 1 \<and> row s = 0"
  shows "\<exists>y x. place_columns n cw col s
    = Some (foldl (place_cell cw) s (zig n col up)\<lparr>row := x, inc := y\<rparr>)"
  using assms
proof (induction n col up arbitrary: s rule: zig.induct)
  case (1 n col up)
  show ?case
  proof (cases "0 < col")
    case False
    then show ?thesis
      by (intro exI [of _ "inc s"] exI [of _ "row s"]) (simp add: place_columns.simps [of _ _ col])
  next
    case True
    let ?col = "if col = 6 then col - 1 else col"
    let ?rs = "if up then rev [0..n - 1] else [0..n - 1]"
    define t where "t = foldl (place_cell cw) s (sweep ?col ?rs)
        \<lparr>row := (if up then 0 else n - 1), inc := (if up then 1 else -1)\<rparr>"
    have "place_column n cw ?col s = Some t"
      using 1(2,3) place_column_up [of s n cw ?col] place_column_down [of s n cw ?col]
      by (cases up) (simp_all add: t_def)
    then have step: "place_columns n cw col s = place_columns n cw (?col - 2) t"
      using True by (simp add: place_columns.simps [of _ _ col])
    have "\<exists>y x. place_columns n cw (?col - 2) t
        = Some (foldl (place_cell cw) t (zig n (?col - 2) (\<not> up))\<lparr>row := x, inc := y\<rparr>)"
      using True 1(2) by (intro 1(1)) (simp_all add: t_def)
    moreover have "zig n col up = sweep ?col ?rs @ zig n (?col - 2) (\<not> up)"
      using True by (simp add: zig.simps [of n col])
    ultimately show ?thesis
      unfolding step by (auto simp: t_def foldl_place_update simp del: foldl.simps)
  qed
qed

section \<open>What the cells hold\<close>

definition data_bit :: "int list \<Rightarrow> nat \<Rightarrow> bool" where
  "data_bit cw k \<longleftrightarrow> k div 8 < length cw \<and> bit (cw ! (k div 8)) (7 - k mod 8)"

definition masked :: "int \<times> int \<Rightarrow> bool \<Rightarrow> bool" where
  "masked p d \<longleftrightarrow> d \<noteq> even (fst p + snd p)"

lemma masked_masked [simp]: "masked p (masked p d) = d"
  by (auto simp: masked_def)

lemma place_cell_data:
  assumes "bytes cw" "bitIndex s = 7 - int (k mod 8)" "byteIndex s = k div 8" "\<not> reserved s p"
  shows "matrix (place_cell cw s p) = (matrix s)(p \<mapsto> masked p (data_bit cw k))"
    and "bitIndex (place_cell cw s p) = 7 - int (Suc k mod 8)" "byteIndex (place_cell cw s p) = Suc k div 8"
proof -
  have nat: "nat (7 - int (k mod 8)) = 7 - k mod 8" by simp
  have "(js_ushr (cw ! (k div 8)) (7 - k mod 8) AND 1 = 1) = bit (cw ! (k div 8)) (7 - k mod 8)"
    if "k div 8 < length cw"
  proof -
    have "is_byte (cw ! (k div 8))" using assms(1) nth_mem [OF that] by (auto simp: list_all_iff)
    then show ?thesis by (intro put_bit_test) (auto simp: is_byte_def)
  qed
  then have d: "(byteIndex s < length cw \<and> js_ushr (cw ! byteIndex s) (nat (bitIndex s)) AND 1 = 1)
      = data_bit cw k"
    unfolding data_bit_def assms(2,3) nat by blast
  show "matrix (place_cell cw s p) = (matrix s)(p \<mapsto> masked p (data_bit cw k))"
    using assms(4) unfolding place_cell_def masked_def
    by (cases p) (auto simp: Let_def d even_iff_mod_2_eq_zero [symmetric])
  have wrap: "bitIndex s - 1 = -1 \<longleftrightarrow> k mod 8 = 7" unfolding assms(2) by auto
  show "bitIndex (place_cell cw s p) = 7 - int (Suc k mod 8)" "byteIndex (place_cell cw s p) = Suc k div 8"
    using assms(4) wrap unfolding place_cell_def
    by (cases p; auto simp: Let_def assms(2,3) mod_Suc div_Suc)+
qed

lemma place_cell_reserved [simp]: "reserved (place_cell cw s p) = reserved s"
  by (simp add: place_cell_def Let_def split: prod.split)

lemma place_cell_skip: "reserved s p \<Longrightarrow> place_cell cw s p = s"
  by (cases p) (simp add: place_cell_def)

lemma foldl_place_cell:
  assumes "bytes cw" "distinct ps" "bitIndex s = 7 - int (k mod 8)" "byteIndex s = k div 8"
  defines "cells \<equiv> filter (\<lambda>p. \<not> reserved s p) ps"
  shows "(\<forall>p. p \<notin> set cells \<longrightarrow> matrix (foldl (place_cell cw) s ps) p = matrix s p)
    \<and> (\<forall>i < length cells. matrix (foldl (place_cell cw) s ps) (cells ! i)
         = Some (masked (cells ! i) (data_bit cw (k + i))))"
  using assms(2-4) unfolding cells_def
proof (induction ps arbitrary: s k)
  case (Cons p ps)
  show ?case
  proof (cases "reserved s p")
    case True
    with Cons show ?thesis by (simp add: place_cell_skip)
  next
    case False
    let ?t = "place_cell cw s p"
    note data = place_cell_data [OF assms(1) Cons.prems(2,3) False]
    have IH: "(\<forall>q. q \<notin> set (filter (\<lambda>p. \<not> reserved ?t p) ps) \<longrightarrow> matrix (foldl (place_cell cw) ?t ps) q = matrix ?t q)
      \<and> (\<forall>i < length (filter (\<lambda>p. \<not> reserved ?t p) ps).
           matrix (foldl (place_cell cw) ?t ps) (filter (\<lambda>p. \<not> reserved ?t p) ps ! i)
           = Some (masked (filter (\<lambda>p. \<not> reserved ?t p) ps ! i) (data_bit cw (Suc k + i))))"
      using Cons.prems(1) data(2,3) by (intro Cons.IH) simp_all
    have "matrix (foldl (place_cell cw) ?t ps) p = Some (masked p (data_bit cw k))"
      using conjunct1 [OF IH, rule_format, of p] Cons.prems(1) data(1) by simp
    then show ?thesis
      using IH Cons.prems(1) False data(1)
      by (auto simp: nth_Cons split: nat.split)
  qed
qed simp

section \<open>The cells of a version\<close>

definition data_cells :: "nat \<Rightarrow> (int \<times> int) list" where
  "data_cells v = filter (\<lambda>p. \<not> function_module v p) (zig (module_count v) (module_count v - 1) True)"

lemma zig_start_module_count: "1 \<le> v \<Longrightarrow> zig_start (module_count v - 1)"
  by (simp add: zig_start_def module_count_def)

lemma data_cells_set:
  assumes "1 \<le> v"
  defines "n \<equiv> module_count v"
  shows "set (data_cells v) = {p \<in> {0..n - 1} \<times> {0..n - 1}. \<not> function_module v p}"
    and "distinct (data_cells v)"
proof -
  note z = zig_cells [OF zig_start_module_count [OF assms(1)], of n True, folded n_def]
  have "function_module v (r, 6)" if "0 \<le> r" "r < n" for r
    using that by (auto simp: function_module_def area_defs n_def)
  then show "set (data_cells v) = {p \<in> {0..n - 1} \<times> {0..n - 1}. \<not> function_module v p}"
    using z by (auto simp: data_cells_def n_def [symmetric])
  show "distinct (data_cells v)" using z by (simp add: data_cells_def n_def [symmetric])
qed

text \<open>How many modules of the square the function patterns take, column 6 apart.\<close>

definition box_count :: "nat \<Rightarrow> nat" where
  "box_count v = (\<Sum>(r, c) \<leftarrow> centers v. (if r = 6 then 4 else 5) * (if c = 6 then 4 else 5))"

lemma box_minus:
  fixes a :: int
  shows "card ({a - 2..a + 2} - {6}) \<le> (if a = 6 then 4 else 5)"
proof (cases "a = 6")
  case True
  then have "{a - 2..a + 2} - {6} = {4, 5, 7, 8}" by auto
  with True show ?thesis by simp
next
  case False
  have "card ({a - 2..a + 2} - {6}) \<le> card {a - 2..a + 2}" by (intro card_mono) auto
  with False show ?thesis by simp
qed

lemma card_boxes:
  "card (\<Union>(r, c) \<in> set qs. ({r - 2..r + 2} - {6}) \<times> ({c - 2..c + 2} - {6::int}))
   \<le> (\<Sum>(r::int, c) \<leftarrow> qs. (if r = 6 then 4 else 5) * (if c = 6 then 4 else 5))"
proof (induction qs)
  case (Cons q qs)
  let ?B = "\<lambda>(r, c). ({r - 2..r + 2} - {6}) \<times> ({c - 2..c + 2} - {6::int})"
  have "card (?B q) \<le> (case q of (r, c) \<Rightarrow> (if r = 6 then 4 else 5) * (if c = 6 then 4 else 5))"
    by (cases q) (simp only: prod.case card_cartesian_product mult_le_mono box_minus)
  moreover have "card (\<Union> (?B ` set (q # qs))) \<le> card (?B q) + card (\<Union> (?B ` set qs))"
    using card_Un_le [of "?B q" "\<Union> (?B ` set qs)"] by simp
  ultimately show ?case using Cons by simp
qed simp

end
