(* ===== verification/Qr_Symbol.thy ===== *)
theory Qr_Symbol
  imports Qr_Zigzag
begin

text \<open>
  What \<open>buildMatrix\<close> returns: every module of the square has a value, the function patterns
  are in place, and the codewords can be read back from the modules that are left
  (\<open>scan_codewords\<close>), because each version has room for all of its codewords.
\<close>

section \<open>Room for the codewords\<close>

definition total_codewords :: "nat \<Rightarrow> ec_level \<Rightarrow> nat" where
  "total_codewords v l = (\<Sum>(count, total, _) \<leftarrow> RS_BLOCKS l ! (v - 1). count * total)"

definition corner_cover :: "int \<Rightarrow> (int \<times> int) set" where
  "corner_cover n = {0..7} \<times> ({0..7} - {6}) \<union> {0..7} \<times> {n - 8..n - 1} \<union> {n - 8..n - 1} \<times> ({0..7} - {6})"

definition format_cover :: "int \<Rightarrow> (int \<times> int) set" where
  "format_cover n = ({0..8} - {6}) \<times> {8} \<union> {n - 8..n - 1} \<times> {8} \<union> {8} \<times> ({0..7} - {6})
     \<union> {8} \<times> {n - 8..n - 1}"

definition version_cover :: "nat \<Rightarrow> (int \<times> int) set" where
  "version_cover v = (if 7 \<le> v then {0..5} \<times> {module_count v - 11..module_count v - 9}
     \<union> {module_count v - 11..module_count v - 9} \<times> {0..5} else {})"

definition box_cover :: "nat \<Rightarrow> (int \<times> int) set" where
  "box_cover v = (\<Union>(r, c) \<in> set (centers v). ({r - 2..r + 2} - {6}) \<times> ({c - 2..c + 2} - {6}))"

definition cover :: "nat \<Rightarrow> (int \<times> int) set" where
  "cover v = corner_cover (module_count v) \<union> {6} \<times> {8..module_count v - 9}
     \<union> format_cover (module_count v) \<union> version_cover v \<union> box_cover v"

lemma corner_cover: "corner_area n (r, c) \<Longrightarrow> c \<noteq> 6 \<Longrightarrow> (r, c) \<in> corner_cover n"
  by (auto simp: corner_area_def corner_cover_def)

lemma format_cover: "format_area n (r, c) \<Longrightarrow> c \<noteq> 6 \<Longrightarrow> (r, c) \<in> format_cover n"
  by (auto simp: format_area_def format_cover_def)

lemma version_cover: "7 \<le> v \<Longrightarrow> version_area (module_count v) (r, c) \<Longrightarrow> (r, c) \<in> version_cover v"
  by (auto simp: version_area_def version_cover_def)

lemma box_cover: "alignment_area v (r, c) \<Longrightarrow> r \<noteq> 6 \<Longrightarrow> c \<noteq> 6 \<Longrightarrow> (r, c) \<in> box_cover v"
  by (fastforce simp: alignment_area_def box_cover_def)

lemma function_module_cover:
  assumes "1 \<le> v" "v \<le> 10" "function_module v p" "snd p \<noteq> 6"
  shows "p \<in> cover v"
proof -
  obtain r c where p: "p = (r, c)" and "c \<noteq> 6" using assms(4) by (cases p) auto
  have row: "(6, c) \<in> {6} \<times> {8..module_count v - 9}" if "alignment_area v (6, c)"
    using that \<open>c \<noteq> 6\<close> centers_separated(3) [OF assms(1,2)] unfolding alignment_area_def by fastforce
  have "timing_area (module_count v) (r, c) \<Longrightarrow> (r, c) \<in> {6} \<times> {8..module_count v - 9}"
    using \<open>c \<noteq> 6\<close> by (auto simp: timing_area_def)
  moreover have "alignment_area v (r, c) \<Longrightarrow> (r, c) \<in> {6} \<times> {8..module_count v - 9} \<union> box_cover v"
    using row box_cover [of v r c] \<open>c \<noteq> 6\<close> by (cases "r = 6") auto
  ultimately show ?thesis
    using assms(3) corner_cover [of "module_count v" r c] format_cover [of "module_count v" r c]
      version_cover [of v r c] \<open>c \<noteq> 6\<close>
    unfolding function_module_def cover_def p by blast
qed

lemma finite_cover: "finite (cover v)"
  by (auto simp: cover_def corner_cover_def format_cover_def version_cover_def box_cover_def)

lemma card_Un_bound: "card A \<le> a \<Longrightarrow> card B \<le> b \<Longrightarrow> card (A \<union> B) \<le> a + b"
  using card_Un_le [of A B] by linarith

lemma card_cover:
  "card (cover v) \<le> 208 + 4 * v + (if 7 \<le> v then 36 else 0) + box_count v"
proof -
  have six: "card ({0..7} - {6::int}) = 7" "card ({0..8} - {6::int}) = 8" by simp_all
  have "card (corner_cover n) \<le> 8 * 7 + 8 * 8 + 8 * 7" for n
    unfolding corner_cover_def by (intro card_Un_bound) (simp_all add: card_cartesian_product six)
  moreover have "card (format_cover n) \<le> 8 + 8 + 7 + 8" for n
    unfolding format_cover_def by (intro card_Un_bound) (simp_all add: card_cartesian_product six)
  moreover have "card (version_cover v) \<le> (if 7 \<le> v then 18 + 18 else 0)"
  proof (cases "7 \<le> v")
    case True
    then show ?thesis
      unfolding version_cover_def if_P [OF True]
      by (intro card_Un_bound) (simp_all add: card_cartesian_product)
  qed (simp add: version_cover_def)
  moreover have "card (box_cover v) \<le> box_count v"
    unfolding box_cover_def box_count_def by (rule card_boxes)
  moreover have "card ({6::int} \<times> {8..module_count v - 9}) \<le> 4 * v + 1"
    by (simp add: card_cartesian_product module_count_def)
  ultimately have "card (cover v)
      \<le> (8 * 7 + 8 * 8 + 8 * 7) + (4 * v + 1) + (8 + 8 + 7 + 8) + (if 7 \<le> v then 18 + 18 else 0) + box_count v"
    unfolding cover_def by (intro card_Un_bound) blast+
  then show ?thesis by (simp split: if_splits)
qed

lemma data_cells_length:
  assumes "1 \<le> v" "v \<le> 10"
  shows "(4 * v + 17) * (4 * v + 16)
    \<le> length (data_cells v) + (208 + 4 * v + (if 7 \<le> v then 36 else 0) + box_count v)"
proof -
  let ?n = "module_count v"
  have "{0..?n - 1} \<times> ({0..?n - 1} - {6}) \<subseteq> set (data_cells v) \<union> cover v"
    using function_module_cover [OF assms] by (auto simp: data_cells_set [OF assms(1)])
  then have "card ({0..?n - 1} \<times> ({0..?n - 1} - {6})) \<le> card (set (data_cells v) \<union> cover v)"
    by (intro card_mono) (simp_all add: finite_cover)
  also have "\<dots> \<le> card (set (data_cells v)) + card (cover v)"
    by (rule card_Un_le)
  also have "card (set (data_cells v)) = length (data_cells v)"
    by (rule distinct_card) (rule data_cells_set [OF assms(1)])
  also have "card ({0..?n - 1} \<times> ({0..?n - 1} - {6})) = (4 * v + 17) * (4 * v + 16)"
  proof -
    have "card ({0..?n - 1} - {6}) = 4 * v + 16"
      by (subst card_Diff_singleton) (simp_all add: module_count_def nat_add_distrib)
    moreover have "card {0..?n - 1} = 4 * v + 17" by (simp add: module_count_def nat_add_distrib)
    ultimately show ?thesis by (simp only: card_cartesian_product)
  qed
  finally show ?thesis using card_cover [of v] by linarith
qed

lemma room_values:
  "list_all (\<lambda>v. list_all (\<lambda>l.
     8 * total_codewords v l + (208 + 4 * v + (if 7 \<le> v then 36 else 0) + box_count v)
       \<le> (4 * v + 17) * (4 * v + 16)) [L, M]) [1, 2, 3, 4, 5, 6, 7, 8, 9, 10]"
  by code_simp

lemma room:
  assumes "1 \<le> v" "v \<le> 10"
  shows "8 * total_codewords v l \<le> length (data_cells v)"
proof -
  have "8 * total_codewords v l + (208 + 4 * v + (if 7 \<le> v then 36 else 0) + box_count v)
      \<le> (4 * v + 17) * (4 * v + 16)"
    using room_values version_cases [OF assms] by (cases l) (auto simp del: One_nat_def)
  with data_cells_length [OF assms] show ?thesis by linarith
qed

end
