(* ===== verification/Qr_Encode.thy ===== *)
theory Qr_Encode
  imports Qr_Symbol
begin

text \<open>
  The entry points of \<open>freenetic-qrcode.js\<close>, \<open>encode\<close> and \<open>renderToCanvas\<close>, and a reader
  of the symbol: \<open>scan\<close> undoes the mask, the interleaving and the framing, and what it reads is
  the text that was encoded.
\<close>

section \<open>The matrix\<close>

definition square :: "nat \<Rightarrow> (int \<times> int) set" where
  "square v = {0..module_count v - 1} \<times> {0..module_count v - 1}"

lemma function_module_square:
  assumes "1 \<le> v" "v \<le> 10" "function_module v p"
  shows "p \<in> square v"
proof -
  have n: "21 \<le> module_count v" using assms(1) by (rule module_count_ge)
  have "alignment_area v p \<Longrightarrow> p \<in> square v"
    using centers_separated(3) [OF assms(1,2)] by (fastforce simp: alignment_area_def square_def)
  moreover have "7 \<le> v \<Longrightarrow> version_area (module_count v) p \<Longrightarrow> p \<in> square v"
    using n by (auto simp: version_area_def square_def module_count_def)
  moreover have "corner_area (module_count v) p \<or> timing_area (module_count v) p
      \<or> format_area (module_count v) p \<Longrightarrow> p \<in> square v"
    using n by (auto simp: area_defs square_def)
  ultimately show ?thesis using assms(3) by (auto simp: function_module_def)
qed

lemma pattern_grid_reserved:
  assumes "pattern_grid v l g"
  shows "reserved g p \<longleftrightarrow> function_module v p" "p \<in> dom (matrix g) \<longleftrightarrow> function_module v p"
  using assms [unfolded pattern_grid_def grid_ok_def, THEN conjunct1, THEN spec, of p]
    assms [unfolded pattern_grid_def, THEN conjunct2, THEN conjunct1] by simp_all

lemma versionBits_some: "7 \<le> v \<Longrightarrow> v \<le> 10 \<Longrightarrow> \<exists>b. versionBits (int v) = Some b"
proof -
  assume "7 \<le> v" "v \<le> 10"
  then have "v = 7 \<or> v = 8 \<or> v = 9 \<or> v = 10" by arith
  then show ?thesis using versionBits_values by auto
qed

lemma function_patterns_some:
  assumes "1 \<le> v" "v \<le> 10"
  shows "\<exists>g. function_patterns v l = Some g \<and> pattern_grid v l g"
proof -
  obtain f where f: "formatBits l 0 = Some f" using formatBits_values by (cases l) auto
  show ?thesis
  proof (cases "7 \<le> v")
    case True
    with assms(2) obtain b where "versionBits (int v) = Some b" using versionBits_some by blast
    with f show ?thesis by (intro function_patterns_grid [OF assms])
  qed (use f in \<open>simp add: function_patterns_grid [OF assms]\<close>)
qed

lemma buildMatrix_cells:
  assumes "1 \<le> v" "v \<le> 10" "bytes cw"
  shows "\<exists>g m. buildMatrix v l cw = Some m \<and> pattern_grid v l g \<and> dom m = square v
    \<and> (\<forall>p. function_module v p \<longrightarrow> m p = matrix g p)
    \<and> (\<forall>i < length (data_cells v). m (data_cells v ! i)
         = Some (masked (data_cells v ! i) (data_bit cw i)))"
proof -
  let ?n = "module_count v"
  obtain g where g: "function_patterns v l = Some g" and pat: "pattern_grid v l g"
    using function_patterns_some [OF assms(1,2)] by blast
  define s where "s = \<lparr>matrix = matrix g, reserved = reserved g, inc = -1, row = ?n - 1,
      bitIndex = 7, byteIndex = 0\<rparr>"
  define ps where "ps = zig ?n (?n - 1) True"
  have n: "0 < ?n" using module_count_ge [OF assms(1)] by simp
  obtain x y where cols: "place_columns ?n cw (?n - 1) s
      = Some (foldl (place_cell cw) s ps\<lparr>row := x, inc := y\<rparr>)"
    using place_columns_zig [of ?n True s cw "?n - 1"] n by (auto simp: s_def ps_def)
  define m where "m = matrix (foldl (place_cell cw) s ps)"
  have m: "buildMatrix v l cw = Some m"
    using cols by (simp add: buildMatrix_def Let_def g s_def [symmetric] m_def)
  have res: "reserved s p \<longleftrightarrow> function_module v p" for p
    using pattern_grid_reserved(1) [OF pat] by (simp add: s_def)
  have cells: "filter (\<lambda>p. \<not> reserved s p) ps = data_cells v"
    by (simp add: res data_cells_def ps_def)
  have d: "distinct ps"
    using zig_cells [OF zig_start_module_count [OF assms(1)]] by (simp add: ps_def)
  have placed: "(\<forall>p. p \<notin> set (data_cells v) \<longrightarrow> m p = matrix g p)
    \<and> (\<forall>i < length (data_cells v). m (data_cells v ! i)
         = Some (masked (data_cells v ! i) (data_bit cw i)))"
    using foldl_place_cell [OF assms(3) d, of s 0] unfolding cells m_def
    by (simp add: s_def)
  have set: "set (data_cells v) = {p \<in> square v. \<not> function_module v p}"
    unfolding square_def by (rule data_cells_set [OF assms(1)])
  have "m p \<noteq> None \<longleftrightarrow> p \<in> square v" for p
  proof (cases "p \<in> set (data_cells v)")
    case True
    then obtain i where "i < length (data_cells v)" "p = data_cells v ! i" by (metis in_set_conv_nth)
    with placed True show ?thesis by (simp add: set)
  next
    case False
    then have "m p \<noteq> None \<longleftrightarrow> function_module v p"
      using conjunct1 [OF placed, rule_format, of p] pattern_grid_reserved(2) [OF pat, of p]
      by (simp only: domIff) simp
    then show ?thesis using False function_module_square [OF assms(1,2), of p] by (auto simp: set)
  qed
  then have "dom m = square v" by (auto simp: dom_def)
  moreover have "\<forall>p. function_module v p \<longrightarrow> m p = matrix g p"
    using placed by (auto simp: set)
  ultimately show ?thesis using m pat placed by blast
qed

section \<open>Reading the codewords back\<close>

definition scan_codewords :: "nat \<Rightarrow> nat \<Rightarrow> (int \<times> int \<rightharpoonup> bool) \<Rightarrow> int list" where
  "scan_codewords v count m =
     read_bytes count (map (\<lambda>p. masked p (m p = Some True)) (data_cells v))"

lemma data_bits:
  assumes "bytes cw" "8 * length cw \<le> n"
  shows "map (data_bit cw) [0..<n]
    = concat (map (\<lambda>x. num_bits x 8) cw) @ replicate (n - 8 * length cw) False"
proof (rule nth_equalityI)
  fix k
  assume "k < length (map (data_bit cw) [0..<n])"
  then have k: "k < n" by simp
  show "map (data_bit cw) [0..<n] ! k
    = (concat (map (\<lambda>x. num_bits x 8) cw) @ replicate (n - 8 * length cw) False) ! k"
  proof (cases "k < 8 * length cw")
    case True
    then have "concat (map (\<lambda>x. num_bits x 8) cw) ! k = bit (cw ! (k div 8)) (7 - k mod 8)"
      by (rule concat_bits_nth)
    with True k show ?thesis by (simp add: nth_append data_bit_def) linarith
  next
    case False
    moreover from False have "\<not> k div 8 < length cw" by linarith
    ultimately show ?thesis using k by (simp add: nth_append data_bit_def)
  qed
qed (use assms in simp)

lemma scan_buildMatrix:
  assumes "1 \<le> v" "v \<le> 10" "bytes cw" "length cw = total_codewords v l" "buildMatrix v l cw = Some m"
  shows "scan_codewords v (total_codewords v l) m = cw"
proof -
  have cells: "\<forall>i < length (data_cells v). m (data_cells v ! i)
         = Some (masked (data_cells v ! i) (data_bit cw i))"
    using buildMatrix_cells [OF assms(1-3), of l] assms(5) by auto
  have "map (\<lambda>p. masked p (m p = Some True)) (data_cells v) = map (data_bit cw) [0..<length (data_cells v)]"
    using cells by (intro nth_equalityI) auto
  also have "\<dots> = concat (map (\<lambda>x. num_bits x 8) cw)
      @ replicate (length (data_cells v) - 8 * length cw) False"
    using room [OF assms(1,2), of l] assms(3,4) by (intro data_bits) simp_all
  finally show ?thesis
    unfolding scan_codewords_def assms(4) [symmetric] by (simp add: read_bytes_bits [OF assms(3)])
qed

section \<open>Blocks\<close>

record block_split =
  offset :: nat
  dataBlocks :: "int list list"
  ecBlocks :: "int list list"

definition add_block :: "int list \<Rightarrow> nat \<Rightarrow> nat \<Rightarrow> block_split \<Rightarrow> block_split" where
  "add_block dataCodewords dataLen ecCount s =
     (let block = take dataLen (drop (offset s) dataCodewords)
      in \<lparr>offset = offset s + dataLen, dataBlocks = dataBlocks s @ [block],
          ecBlocks = ecBlocks s @ [rsEncode block ecCount]\<rparr>)"

definition split_blocks :: "int list \<Rightarrow> (nat \<times> nat \<times> nat) list \<Rightarrow> block_split" where
  "split_blocks dataCodewords groups =
     foldl (\<lambda>s (count, totalLen, dataLen).
         foldl (\<lambda>s i. add_block dataCodewords dataLen (totalLen - dataLen) s) s [0..<count])
       \<lparr>offset = 0, dataBlocks = [], ecBlocks = []\<rparr> groups"

text \<open>The data length and the number of check symbols of every block of a version.\<close>

definition block_lengths :: "(nat \<times> nat \<times> nat) list \<Rightarrow> (nat \<times> nat) list" where
  "block_lengths groups =
     concat (map (\<lambda>(count, total, data). replicate count (data, total - data)) groups)"

lemma split_blocks_lengths:
  "split_blocks cw groups = foldl (\<lambda>s (d, e). add_block cw d e s)
     \<lparr>offset = 0, dataBlocks = [], ecBlocks = []\<rparr> (block_lengths groups)"
proof -
  have inner: "foldl (\<lambda>s i. add_block cw d e s) s [0..<n]
      = foldl (\<lambda>s (d, e). add_block cw d e s) s (replicate n (d, e))" for d e s n
  proof (induction n)
    case (Suc n)
    have "replicate (Suc n) (d, e) = replicate n (d, e) @ [(d, e)]" by (simp add: replicate_append_same)
    with Suc show ?case by simp
  qed simp
  have "foldl (\<lambda>s (count, totalLen, dataLen).
        foldl (\<lambda>s i. add_block cw dataLen (totalLen - dataLen) s) s [0..<count]) s groups
      = foldl (\<lambda>s (d, e). add_block cw d e s) s (block_lengths groups)" for s
    by (induction groups arbitrary: s) (auto simp: block_lengths_def inner)
  then show ?thesis by (simp add: split_blocks_def)
qed

lemma add_blocks:
  assumes "offset s + sum_list (map fst ls) \<le> length cw" "bytes cw" "\<forall>(d, e) \<in> set ls. e \<le> 512"
  defines "t \<equiv> foldl (\<lambda>s (d, e). add_block cw d e s) s ls"
  shows "\<exists>bs. dataBlocks t = dataBlocks s @ bs
    \<and> concat bs = take (sum_list (map fst ls)) (drop (offset s) cw)
    \<and> map length bs = map fst ls \<and> list_all bytes bs
    \<and> ecBlocks t = ecBlocks s @ map2 rsEncode bs (map snd ls)"
  using assms(1,3) unfolding t_def
proof (induction ls arbitrary: s)
  case (Cons q ls)
  obtain d e where q: "q = (d, e)" by (cases q)
  define b where "b = take d (drop (offset s) cw)"
  have add: "add_block cw d e s = \<lparr>offset = offset s + d, dataBlocks = dataBlocks s @ [b],
      ecBlocks = ecBlocks s @ [rsEncode b e]\<rparr>"
    by (simp add: add_block_def Let_def b_def)
  obtain bs where bs: "dataBlocks (foldl (\<lambda>s (d, e). add_block cw d e s) (add_block cw d e s) ls)
        = (dataBlocks s @ [b]) @ bs"
      "concat bs = take (sum_list (map fst ls)) (drop (offset s + d) cw)"
      "map length bs = map fst ls" "list_all bytes bs"
      "ecBlocks (foldl (\<lambda>s (d, e). add_block cw d e s) (add_block cw d e s) ls)
        = (ecBlocks s @ [rsEncode b e]) @ map2 rsEncode bs (map snd ls)"
    using Cons.IH [of "add_block cw d e s"] Cons.prems unfolding add q by auto
  have "length b = d" using Cons.prems(1) by (simp add: b_def q)
  moreover have "bytes b"
    using assms(2) by (auto simp: b_def list_all_iff dest!: in_set_takeD in_set_dropD)
  moreover have "b @ concat bs = take (d + sum_list (map fst ls)) (drop (offset s) cw)"
    by (simp add: b_def bs(2) take_add add.commute)
  ultimately show ?case
    using bs by (intro exI [of _ "b # bs"]) (simp add: q)
qed simp

lemma group_values:
  "list_all (\<lambda>v. list_all (\<lambda>l. let ls = block_lengths (RS_BLOCKS l ! (v - 1)) in
     sum_list (map fst ls) = capacityBytes v l
     \<and> sum_list (map fst ls) + sum_list (map snd ls) = total_codewords v l
     \<and> list_all (\<lambda>(d, e). e \<le> 512) ls) [L, M]) [1, 2, 3, 4, 5, 6, 7, 8, 9, 10]"
  by code_simp

lemma group_facts:
  fixes l :: ec_level
  assumes "1 \<le> v" "v \<le> 10"
  defines "ls \<equiv> block_lengths (RS_BLOCKS l ! (v - 1))"
  shows "sum_list (map fst ls) = capacityBytes v l"
    and "sum_list (map fst ls) + sum_list (map snd ls) = total_codewords v l"
    and "\<forall>(d, e) \<in> set ls. e \<le> 512"
proof -
  have "list_all (\<lambda>l. let ls = block_lengths (RS_BLOCKS l ! (v - 1)) in
     sum_list (map fst ls) = capacityBytes v l
     \<and> sum_list (map fst ls) + sum_list (map snd ls) = total_codewords v l
     \<and> list_all (\<lambda>(d, e). e \<le> 512) ls) [L, M]"
    using group_values version_cases [OF assms(1,2)]
    unfolding list_all_iff by (metis list.set_intros(1) list.set_intros(2))
  then show "sum_list (map fst ls) = capacityBytes v l"
    and "sum_list (map fst ls) + sum_list (map snd ls) = total_codewords v l"
    and "\<forall>(d, e) \<in> set ls. e \<le> 512"
    unfolding ls_def by (cases l; simp add: Let_def list_all_iff)+
qed

section \<open>The entry point\<close>

text \<open>The outer option is \<open>None\<close> when a loop does not return, which the lemmas exclude;
  \<open>Inr None\<close> is the result \<open>null\<close>.\<close>

datatype encode_error = URIError

type_synonym symbol = "int \<times> (int \<times> int \<rightharpoonup> bool)"

definition encode :: "int list \<Rightarrow> (encode_error + symbol option) option" where
  "encode text =
     (case utf8Bytes text of
        None \<Rightarrow> Some (Inl URIError)
      | Some bs \<Rightarrow>
          (case pickVersion (length bs) of
             None \<Rightarrow> Some (Inr None)
           | Some (ecLevel, version) \<Rightarrow>
               (case buildDataCodewords bs version ecLevel of
                  None \<Rightarrow> None
                | Some dataCodewords \<Rightarrow>
                    (let s = split_blocks dataCodewords (RS_BLOCKS ecLevel ! (version - 1))
                     in map_option (\<lambda>m. Inr (Some (module_count version, m)))
                          (buildMatrix version ecLevel (interleave (dataBlocks s) (ecBlocks s)))))))"

section \<open>Reading a symbol\<close>

definition symbol_version :: "int \<Rightarrow> nat" where
  "symbol_version n = nat ((n - 17) div 4)"

definition format_level :: "symbol \<Rightarrow> ec_level option" where
  "format_level = (\<lambda>(n, m). find (\<lambda>l. \<exists>b. formatBits l 0 = Some b
     \<and> (\<forall>i \<in> set [0..14]. m (format_column n i) = Some (bit b (nat i)))) [L, M])"

text \<open>The position in the stream of every symbol of block \<open>k\<close> follows from the lengths.\<close>

definition unweave :: "nat list \<Rightarrow> int list \<Rightarrow> int list list" where
  "unweave lens cw = (let tags = map fst (weave (tagged 0 (map (\<lambda>n. replicate n ()) lens)))
     in map (\<lambda>k. map snd (filter (\<lambda>p. fst p = k) (zip tags cw))) [0..<length lens])"

definition scan :: "symbol \<Rightarrow> int list option" where
  "scan = (\<lambda>(n, m). case format_level (n, m) of
        None \<Rightarrow> None
      | Some l \<Rightarrow>
          (let v = symbol_version n;
               lens = map fst (block_lengths (RS_BLOCKS l ! (v - 1)));
               cw = take (sum_list lens) (scan_codewords v (total_codewords v l) m)
           in decode_codewords v (concat (unweave lens cw))))"

lemma unweave_weave: "unweave (map length bs) (weave bs) = bs"
proof (rule nth_equalityI)
  fix k
  assume "k < length (unweave (map length bs) (weave bs))"
  then have k: "k < length bs" by (simp add: unweave_def Let_def)
  have "map fst (weave (tagged 0 (map (\<lambda>n. replicate n ()) (map length bs)))) = map fst (weave (tagged 0 bs))"
  proof -
    have "map length (map (\<lambda>n. replicate n ()) (map length bs)) = map length bs" by simp
    then show ?thesis
      by (metis (mono_tags, lifting) tags_of_lengths length_tagged map_map map_snd_zip)
  qed
  then have "zip (map fst (weave (tagged 0 (map (\<lambda>n. replicate n ()) (map length bs))))) (weave bs)
      = weave (tagged 0 bs)"
    using weave_tagged [of 0 bs] zip_map_fst_snd [of "weave (tagged 0 bs)"] by simp
  then show "unweave (map length bs) (weave bs) ! k = bs ! k"
    using weave_block [OF k] k by (simp add: unweave_def Let_def)
qed (simp add: unweave_def Let_def)

lemma format_values: "formatBits L 0 = Some 30660" "formatBits M 0 = Some 21522"
  using formatBits_values by (simp_all add: format_words_def)

lemma pattern_grid_format:
  assumes "pattern_grid v l g" "formatBits l 0 = Some b" "(p, d) \<in> set (format_writes (module_count v) b)"
  shows "matrix g p = Some d"
  using assms(1) [unfolded pattern_grid_def, THEN conjunct2, THEN conjunct2, THEN conjunct2, THEN conjunct2,
      THEN conjunct2, THEN conjunct1] assms(2,3) by blast

lemma format_cells:
  assumes "1 \<le> v" "pattern_grid v l g" "\<forall>p. function_module v p \<longrightarrow> m p = matrix g p"
    and "formatBits l 0 = Some b" "0 \<le> i" "i \<le> 14"
  shows "m (format_column (module_count v) i) = Some (bit b (nat i))"
    and "m (format_row (module_count v) i) = Some (bit b (nat i))"
proof -
  let ?n = "module_count v"
  have w: "(format_column ?n i, bit b (nat i)) \<in> set (format_writes ?n b)"
      "(format_row ?n i, bit b (nat i)) \<in> set (format_writes ?n b)"
    using assms(5,6) by (auto simp: format_writes_def simp del: upto_rec_numeral)
  then have "format_area ?n (format_column ?n i)" "format_area ?n (format_row ?n i)"
    using keys_format [OF module_count_ge [OF assms(1)], of b] by force+
  then have "m (format_column ?n i) = matrix g (format_column ?n i)"
      "m (format_row ?n i) = matrix g (format_row ?n i)"
    using assms(3) unfolding function_module_def by blast+
  with w show "m (format_column ?n i) = Some (bit b (nat i))" "m (format_row ?n i) = Some (bit b (nat i))"
    using pattern_grid_format [OF assms(2,4)] by auto
qed

lemma format_level_grid:
  assumes "1 \<le> v" "pattern_grid v l g" "\<forall>p. function_module v p \<longrightarrow> m p = matrix g p"
  shows "format_level (module_count v, m) = Some l"
proof -
  let ?P = "\<lambda>l. \<exists>b. formatBits l 0 = Some b
     \<and> (\<forall>i \<in> set [0..14]. m (format_column (module_count v) i) = Some (bit b (nat i)))"
  have l: "?P l" using format_cells(1) [OF assms] format_values by (cases l) auto
  have "\<not> ?P L" if "l = M"
  proof -
    have "m (format_column (module_count v) 1) = Some True"
      using format_cells(1) [OF assms, of 21522 1] format_values that by simp
    then have "\<exists>i \<in> set [0..14]. m (format_column (module_count v) i) \<noteq> Some (bit (30660::int) (nat i))"
      by (intro bexI [of _ 1]) simp_all
    then show ?thesis using format_values(1) by auto
  qed
  then show ?thesis
    unfolding format_level_def prod.case find.simps using l by (cases l) auto
qed

section \<open>The round trip\<close>

lemma split_blocks_facts:
  fixes l :: ec_level
  assumes "1 \<le> v" "v \<le> 10" "length cw = capacityBytes v l" "bytes cw"
  defines "ls \<equiv> block_lengths (RS_BLOCKS l ! (v - 1))" and "s \<equiv> split_blocks cw (RS_BLOCKS l ! (v - 1))"
  shows "concat (dataBlocks s) = cw" "map length (dataBlocks s) = map fst ls"
    and "ecBlocks s = map2 rsEncode (dataBlocks s) (map snd ls)" "map length (ecBlocks s) = map snd ls"
    and "list_all bytes (dataBlocks s)" "list_all bytes (ecBlocks s)"
proof -
  note groups = group_facts [OF assms(1,2), of l, folded ls_def]
  have "\<exists>bs. dataBlocks s = [] @ bs \<and> concat bs = take (sum_list (map fst ls)) (drop 0 cw)
    \<and> map length bs = map fst ls \<and> list_all bytes bs \<and> ecBlocks s = [] @ map2 rsEncode bs (map snd ls)"
    using add_blocks [of "\<lparr>offset = 0, dataBlocks = [], ecBlocks = []\<rparr>" ls cw] groups assms(3,4)
    unfolding s_def split_blocks_lengths ls_def [symmetric] by simp
  then show ds: "concat (dataBlocks s) = cw" "map length (dataBlocks s) = map fst ls"
      "ecBlocks s = map2 rsEncode (dataBlocks s) (map snd ls)" "list_all bytes (dataBlocks s)"
    using groups(1) assms(3) by auto
  have len: "length (dataBlocks s) = length ls" using ds(2) by (metis length_map)
  have "length (rsEncode (dataBlocks s ! k) (snd (ls ! k))) = snd (ls ! k)
      \<and> bytes (rsEncode (dataBlocks s ! k) (snd (ls ! k)))" if "k < length ls" for k
  proof -
    have "bytes (dataBlocks s ! k)" "snd (ls ! k) \<le> 512"
      using that ds(4) groups(3) len by (auto simp: list_all_length split_beta)
    then show ?thesis by (intro conjI length_rsEncode bytes_rsEncode)
  qed
  then show "map length (ecBlocks s) = map snd ls" "list_all bytes (ecBlocks s)"
    unfolding ds(3) using len by (auto simp: list_all_length intro!: nth_equalityI)
qed

lemma bytes_weave: "list_all bytes xs \<Longrightarrow> bytes (weave xs)"
  by (auto simp: weave_def column_def list_all_iff split: if_splits)

lemma encode_symbol:
  assumes "utf16 text" "utf8Bytes text = Some bs" "length bs \<le> 271"
  shows "\<exists>v m. encode text = Some (Inr (Some (module_count v, m))) \<and> dom m = square v
    \<and> scan (module_count v, m) = Some bs"
proof -
  obtain l v where pick: "pickVersion (length bs) = Some (l, v)"
    using pickVersion_None [of "length bs"] assms(3) by fastforce
  note pv = pickVersion_Some [OF pick]
  then have v: "1 \<le> v" "v \<le> 10" by auto
  obtain cw where cw: "buildDataCodewords bs v l = Some cw" "length cw = capacityBytes v l" "bytes cw"
      "decode_codewords v cw = Some bs"
    using decode_buildDataCodewords [OF bytes_utf8 [OF assms(1,2)]] pv by blast
  define ls where "ls = block_lengths (RS_BLOCKS l ! (v - 1))"
  define s where "s = split_blocks cw (RS_BLOCKS l ! (v - 1))"
  note groups = group_facts [OF v, of l, folded ls_def]
  note split = split_blocks_facts [OF v cw(2,3), folded ls_def s_def]
  define all where "all = interleave (dataBlocks s) (ecBlocks s)"
  have all: "bytes all" "length all = total_codewords v l"
    using split groups(2) bytes_weave by (simp_all add: all_def interleave_def length_weave)
  obtain g m where m: "buildMatrix v l all = Some m" "pattern_grid v l g"
      "\<forall>p. function_module v p \<longrightarrow> m p = matrix g p" "dom m = square v"
    using buildMatrix_cells [OF v all(1), of l] by blast
  have "encode text = Some (Inr (Some (module_count v, m)))"
    using assms(2) pick cw(1) m(1)
    by (simp add: encode_def Let_def s_def [unfolded One_nat_def, symmetric] all_def [symmetric])
  moreover have "scan (module_count v, m) = Some bs"
  proof -
    have ver: "symbol_version (module_count v) = v" by (simp add: symbol_version_def module_count_def)
    have "take (sum_list (map fst ls)) all = weave (dataBlocks s)"
      using split(2) by (simp add: all_def interleave_def length_weave)
    then show ?thesis
      using unweave_weave [of "dataBlocks s"] split(1,2) cw(4)
      by (simp add: scan_def format_level_grid [OF v(1) m(2,3)] ver Let_def
          ls_def [unfolded One_nat_def, symmetric] scan_buildMatrix [OF v all m(1)])
  qed
  ultimately show ?thesis using m(4) by blast
qed

lemma encode_scan:
  assumes "utf16 text" "utf8Bytes text = Some bs" "length bs \<le> 271"
  shows "\<exists>n m. encode text = Some (Inr (Some (n, m))) \<and> scan (n, m) = Some bs"
  using encode_symbol [OF assms] by blast

lemma finder_cells:
  assumes "1 \<le> v" "pattern_grid v l g" "\<forall>p. function_module v p \<longrightarrow> m p = matrix g p"
    and "-1 \<le> r" "r \<le> 7" "-1 \<le> c" "c \<le> 7" "(r0, c0) \<in> set (finder_origins (module_count v))" "(r0 + r, c0 + c) \<in> square v"
  shows "m (r0 + r, c0 + c) = Some (finder_dark r c)"
proof -
  let ?n = "module_count v"
  have n: "21 \<le> ?n" using assms(1) by (rule module_count_ge)
  have "((r0 + r, c0 + c), finder_dark r c) \<in> set (finder_writes ?n r0 c0)"
    using assms(4-9) n by (auto simp: finder_writes_def square_def simp del: upto_rec_numeral)
  then have "matrix g (r0 + r, c0 + c) = Some (finder_dark r c)"
    using assms(2) [unfolded pattern_grid_def, THEN conjunct2, THEN conjunct2, THEN conjunct1] assms(8) by blast
  moreover from this have "function_module v (r0 + r, c0 + c)"
    using pattern_grid_reserved(2) [OF assms(2)] by blast
  ultimately show ?thesis using assms(3) by simp
qed

text \<open>The patterns as squares around their centres: \<open>ring\<close> is the distance from the centre.\<close>

definition ring :: "int \<Rightarrow> int \<Rightarrow> int" where
  "ring r c = max \<bar>r\<bar> \<bar>c\<bar>"

lemma ring_le: "ring r c \<le> k \<longleftrightarrow> - k \<le> r \<and> r \<le> k \<and> - k \<le> c \<and> c \<le> k"
  by (auto simp: ring_def)

lemma finder_ring: "ring r c \<le> 4 \<Longrightarrow> finder_dark (r + 3) (c + 3) \<longleftrightarrow> ring r c \<noteq> 2 \<and> ring r c \<noteq> 4"
  unfolding ring_def finder_dark_def max_def abs_if by presburger

lemma alignment_ring: "ring r c \<le> 2 \<Longrightarrow> alignment_dark r c \<longleftrightarrow> ring r c \<noteq> 1"
  unfolding ring_def alignment_dark_def max_def abs_if by presburger

lemma box_cell: "(r0, c0) \<in> set qs \<Longrightarrow> ring r c \<le> 2 \<Longrightarrow> ((r0 + r, c0 + c), alignment_dark r c) \<in> set (boxes qs)"
  unfolding ring_le by (auto simp: boxes_def alignment_writes_def simp del: upto_rec_numeral
      intro!: bexI [of _ "(r0, c0)"] bexI [of _ r] image_eqI [of _ _ c])

text \<open>An alignment pattern on a timing line is centred on it, at an even place.\<close>

lemma centers_timing:
  assumes "1 \<le> v" "v \<le> 10" "(r0, c0) \<in> set (centers v)"
  shows "(r0 < 9 \<longrightarrow> r0 = 6 \<and> even c0) \<and> (c0 < 9 \<longrightarrow> c0 = 6 \<and> even r0)"
proof -
  have "list_all (\<lambda>v. list_all (\<lambda>(r0, c0). (r0 < 9 \<longrightarrow> r0 = 6 \<and> even c0) \<and> (c0 < 9 \<longrightarrow> c0 = 6 \<and> even r0)) (centers v))
      [1, 2, 3, 4, 5, 6, 7, 8, 9, 10]" by code_simp
  then show ?thesis using version_cases [OF assms(1,2)] assms(3) by (fastforce simp: list_all_iff)
qed

lemma timing_cells:
  assumes "1 \<le> v" "v \<le> 10" "pattern_grid v l g" "8 \<le> i" "i \<le> module_count v - 9"
  shows "matrix g (6, i) = Some (even i) \<and> matrix g (i, 6) = Some (even i)"
proof -
  note grid = assms(3) [unfolded pattern_grid_def]
  have boxes: "\<forall>(p, d) \<in> set (boxes (centers v)). matrix g p = Some d" using grid by blast
  have free: "matrix g p = Some (even (fst p + snd p))" if "timing_area (module_count v) p" "\<not> alignment_area v p" for p
    using grid that by blast
  have box: "matrix g (r0 + r, c0 + c) = Some (ring r c \<noteq> 1)" if "(r0, c0) \<in> set (centers v)" "ring r c \<le> 2" for r0 c0 r c
  proof -
    have "matrix g (r0 + r, c0 + c) = Some (alignment_dark r c)" using boxes box_cell [OF that] by blast
    then show ?thesis by (simp only: alignment_ring [OF that(2)])
  qed
  have line: "ring 0 k \<noteq> 1 \<longleftrightarrow> even k" "ring k 0 \<noteq> 1 \<longleftrightarrow> even k" if "-2 \<le> k" "k \<le> 2" for k
  proof -
    have "k = -2 \<or> k = -1 \<or> k = 0 \<or> k = 1 \<or> k = 2" using that by presburger
    then show "ring 0 k \<noteq> 1 \<longleftrightarrow> even k" "ring k 0 \<noteq> 1 \<longleftrightarrow> even k" by (auto simp: ring_def)
  qed
  have "matrix g (6, i) = Some (even i)"
  proof (cases "alignment_area v (6, i)")
    case True
    then obtain r0 c0 where c: "(r0, c0) \<in> set (centers v)" "r0 - 2 \<le> 6" "c0 - 2 \<le> i" "i \<le> c0 + 2"
      by (auto simp: alignment_area_def)
    then have e: "r0 = 6" "even c0" using centers_timing [OF assms(1,2) c(1)] by auto
    show ?thesis using box [OF c(1), of 0 "i - c0"] line(1) [of "i - c0"] c(3,4) e by (simp add: ring_le)
  qed (use free [of "(6, i)"] assms(4,5) in \<open>simp add: timing_area_def\<close>)
  moreover have "matrix g (i, 6) = Some (even i)"
  proof (cases "alignment_area v (i, 6)")
    case True
    then obtain r0 c0 where c: "(r0, c0) \<in> set (centers v)" "c0 - 2 \<le> 6" "r0 - 2 \<le> i" "i \<le> r0 + 2"
      by (auto simp: alignment_area_def)
    then have e: "c0 = 6" "even r0" using centers_timing [OF assms(1,2) c(1)] by auto
    show ?thesis using box [OF c(1), of "i - r0" 0] line(2) [of "i - r0"] c(3,4) e by (simp add: ring_le)
  qed (use free [of "(i, 6)"] assms(4,5) in \<open>simp add: timing_area_def\<close>)
  ultimately show ?thesis by blast
qed

text \<open>What a symbol looks like, but for its data: finder patterns with their light border, alignment
  patterns, timing lines, the dark module, and both copies of the format and version words.\<close>

definition patterns_intact :: "nat \<Rightarrow> ec_level \<Rightarrow> (int \<times> int \<rightharpoonup> bool) \<Rightarrow> bool" where
  "patterns_intact v l m \<longleftrightarrow>
     (\<forall>(r0, c0) \<in> {(3, 3), (3, module_count v - 4), (module_count v - 4, 3)}. \<forall>r c.
         ring r c \<le> 4 \<and> (r0 + r, c0 + c) \<in> square v \<longrightarrow> m (r0 + r, c0 + c) = Some (ring r c \<noteq> 2 \<and> ring r c \<noteq> 4))
     \<and> (\<forall>(r0, c0) \<in> set (centers v). \<forall>r c. ring r c \<le> 2 \<longrightarrow> m (r0 + r, c0 + c) = Some (ring r c \<noteq> 1))
     \<and> (\<forall>i. 8 \<le> i \<and> i \<le> module_count v - 9 \<longrightarrow> m (6, i) = Some (even i) \<and> m (i, 6) = Some (even i))
     \<and> m (module_count v - 8, 8) = Some True
     \<and> (\<forall>b i. formatBits l 0 = Some b \<and> 0 \<le> i \<and> i \<le> 14 \<longrightarrow>
         m (format_column (module_count v) i) = Some (bit b (nat i))
         \<and> m (format_row (module_count v) i) = Some (bit b (nat i)))
     \<and> (\<forall>b i. 7 \<le> v \<and> versionBits (int v) = Some b \<and> 0 \<le> i \<and> i \<le> 17 \<longrightarrow>
         m (i div 3, module_count v - 11 + i mod 3) = Some (bit b (nat i))
         \<and> m (module_count v - 11 + i mod 3, i div 3) = Some (bit b (nat i)))"

lemma pattern_grid_intact:
  assumes "1 \<le> v" "v \<le> 10" "pattern_grid v l g" "\<forall>p. function_module v p \<longrightarrow> m p = matrix g p"
  shows "patterns_intact v l m"
  unfolding patterns_intact_def
proof (intro conjI)
  let ?n = "module_count v"
  note grid = assms(3) [unfolded pattern_grid_def]
  have keep: "m p = Some d" if "matrix g p = Some d" for p d
    using that assms(4) pattern_grid_reserved(2) [OF assms(3), of p] by (metis domI)
  have finder: "m (r0 + 3 + r, c0 + 3 + c) = Some (ring r c \<noteq> 2 \<and> ring r c \<noteq> 4)"
    if "(r0, c0) \<in> set (finder_origins ?n)" "ring r c \<le> 4" "(r0 + 3 + r, c0 + 3 + c) \<in> square v" for r0 c0 r c
    using finder_cells [OF assms(1,3,4), of "r + 3" "c + 3" r0 c0] that(2) finder_ring [OF that(2)] that(1,3)
    by (simp add: ring_le add.assoc add.commute [of 3])
  then show "\<forall>(r0, c0) \<in> {(3, 3), (3, ?n - 4), (?n - 4, 3)}. \<forall>r c.
      ring r c \<le> 4 \<and> (r0 + r, c0 + c) \<in> square v \<longrightarrow> m (r0 + r, c0 + c) = Some (ring r c \<noteq> 2 \<and> ring r c \<noteq> 4)"
    using finder [of 0 0] finder [of 0 "?n - 7"] finder [of "?n - 7" 0] by (simp add: finder_origins_def)
  have boxes: "\<forall>(p, d) \<in> set (boxes (centers v)). matrix g p = Some d" using grid by blast
  have "m (r0 + r, c0 + c) = Some (ring r c \<noteq> 1)" if "(r0, c0) \<in> set (centers v)" "ring r c \<le> 2" for r0 c0 r c
  proof -
    have "matrix g (r0 + r, c0 + c) = Some (alignment_dark r c)" using boxes box_cell [OF that] by blast
    then show ?thesis unfolding alignment_ring [OF that(2)] by (rule keep)
  qed
  then show "\<forall>(r0, c0) \<in> set (centers v). \<forall>r c. ring r c \<le> 2 \<longrightarrow> m (r0 + r, c0 + c) = Some (ring r c \<noteq> 1)"
    by blast
  show "\<forall>i. 8 \<le> i \<and> i \<le> ?n - 9 \<longrightarrow> m (6, i) = Some (even i) \<and> m (i, 6) = Some (even i)"
    using timing_cells [OF assms(1-3)] keep by blast
  obtain fb where fb: "formatBits l 0 = Some fb" using formatBits_values by (cases l) auto
  then have "matrix g (?n - 8, 8) = Some True" using grid by (simp add: format_writes_def del: upto_rec_numeral)
  then show "m (?n - 8, 8) = Some True" by (rule keep)
  show "\<forall>b i. formatBits l 0 = Some b \<and> 0 \<le> i \<and> i \<le> 14 \<longrightarrow>
      m (format_column ?n i) = Some (bit b (nat i)) \<and> m (format_row ?n i) = Some (bit b (nat i))"
    using format_cells [OF assms(1,3,4)] by blast
  have "matrix g (i div 3, ?n - 11 + i mod 3) = Some (bit b (nat i)) \<and> matrix g (?n - 11 + i mod 3, i div 3) = Some (bit b (nat i))"
    if "7 \<le> v" "versionBits (int v) = Some b" "0 \<le> i" "i \<le> 17" for b i
  proof -
    have "\<forall>(p, d) \<in> set (version_writes ?n b). matrix g p = Some d" using grid that(1,2) by blast
    then have "\<forall>i \<in> set [0..17]. matrix g (i div 3, i mod 3 + ?n - 8 - 3) = Some (bit b (nat i))
        \<and> matrix g (i mod 3 + ?n - 8 - 3, i div 3) = Some (bit b (nat i))"
      by (simp add: version_writes_def del: upto_rec_numeral)
    moreover have eq: "?n - 11 + i mod 3 = i mod 3 + ?n - 8 - 3" by simp
    ultimately show ?thesis unfolding eq using that(3,4) by (simp del: upto_rec_numeral)
  qed
  then show "\<forall>b i. 7 \<le> v \<and> versionBits (int v) = Some b \<and> 0 \<le> i \<and> i \<le> 17 \<longrightarrow>
      m (i div 3, ?n - 11 + i mod 3) = Some (bit b (nat i)) \<and> m (?n - 11 + i mod 3, i div 3) = Some (bit b (nat i))"
    using keep by blast
qed

lemma buildMatrix_facts:
  assumes "1 \<le> v" "v \<le> 10" "bytes cw" "length cw = total_codewords v l"
  shows "\<exists>m. buildMatrix v l cw = Some m \<and> dom m = square v \<and> patterns_intact v l m
    \<and> scan_codewords v (total_codewords v l) m = cw"
proof -
  obtain g m where m: "buildMatrix v l cw = Some m" "pattern_grid v l g"
      "\<forall>p. function_module v p \<longrightarrow> m p = matrix g p" "dom m = square v"
    using buildMatrix_cells [OF assms(1-3), of l] by blast
  show ?thesis
    using m(1,4) pattern_grid_intact [OF assms(1,2) m(2,3)] scan_buildMatrix [OF assms m(1)] by blast
qed

end
