(* ===== verification/Qr_Canvas.thy ===== *)
theory Qr_Canvas
  imports Qr_Encode
begin

text \<open>
  Drawing a symbol (\<open>renderToCanvas\<close> of \<open>freenetic-qrcode.js\<close>).  The drawing context is the
  list of the rectangles that were filled, each with the style at that moment; \<open>pixel\<close> reads the
  colour of a point of the bitmap.  The canvas that the caller hands over can already hold
  drawings.
\<close>

record canvas =
  canvas_width :: int
  canvas_height :: int
  fillStyle :: string
  painted :: "(string \<times> int \<times> int \<times> int \<times> int) list"

definition fillRect :: "int \<Rightarrow> int \<Rightarrow> int \<Rightarrow> int \<Rightarrow> canvas \<Rightarrow> canvas" where
  "fillRect x y w h cv = cv\<lparr>painted := painted cv @ [(fillStyle cv, x, y, w, h)]\<rparr>"

definition quiet :: int where
  "quiet = 4"

definition draw_symbol :: "symbol \<Rightarrow> int \<Rightarrow> canvas \<Rightarrow> canvas" where
  "draw_symbol = (\<lambda>(n, m) cellSize cv.
     let size = n + quiet * 2;
         cv = cv\<lparr>canvas_width := size * cellSize, canvas_height := size * cellSize\<rparr>;
         cv = fillRect 0 0 (canvas_width cv) (canvas_height cv) (cv\<lparr>fillStyle := ''#fff''\<rparr>);
         cv = cv\<lparr>fillStyle := ''#000''\<rparr>
     in foldl (\<lambda>cv r. foldl (\<lambda>cv c.
            if m (r, c) = Some True
            then fillRect ((c + quiet) * cellSize) ((r + quiet) * cellSize) cellSize cellSize cv
            else cv) cv [0..n - 1]) cv [0..n - 1])"

text \<open>\<open>cellSize\<close> is optional and 0 is falsy: both mean 6.\<close>

definition cell_size :: "int option \<Rightarrow> int" where
  "cell_size s = (case s of None \<Rightarrow> 6 | Some c \<Rightarrow> if c = 0 then 6 else c)"

definition renderToCanvas ::
    "canvas \<Rightarrow> int list \<Rightarrow> int option \<Rightarrow> (encode_error + bool \<times> canvas) option" where
  "renderToCanvas cv text cellSize = map_option (\<lambda>r. case r of
       Inl e \<Rightarrow> Inl e
     | Inr None \<Rightarrow> Inr (False, cv)
     | Inr (Some symb) \<Rightarrow> Inr (True, draw_symbol symb (cell_size cellSize) cv)) (encode text)"

section \<open>Pixels\<close>

definition covers :: "int \<times> int \<times> int \<times> int \<Rightarrow> int \<Rightarrow> int \<Rightarrow> bool" where
  "covers = (\<lambda>(rx, ry, w, h) x y. rx \<le> x \<and> x < rx + w \<and> ry \<le> y \<and> y < ry + h)"

definition pixel :: "canvas \<Rightarrow> int \<Rightarrow> int \<Rightarrow> string option" where
  "pixel cv x y = foldl (\<lambda>col (style, rect). if covers rect x y then Some style else col) None (painted cv)"

definition dark_rects :: "symbol \<Rightarrow> int \<Rightarrow> (int \<times> int \<times> int \<times> int) list" where
  "dark_rects = (\<lambda>(n, m) cs. [((c + quiet) * cs, (r + quiet) * cs, cs, cs).
     r \<leftarrow> [0..n - 1], c \<leftarrow> [0..n - 1], m (r, c) = Some True])"

lemma foldl_fill:
  "foldl (\<lambda>cv (x, y, w, h). fillRect x y w h cv) cv rects
   = cv\<lparr>painted := painted cv @ map (Pair (fillStyle cv)) rects\<rparr>"
  by (induction rects arbitrary: cv) (auto simp: fillRect_def)

lemma draw_symbol_painted:
  "painted (draw_symbol (n, m) cs cv)
   = painted cv @ [(''#fff'', 0, 0, (n + 8) * cs, (n + 8) * cs)] @ map (Pair ''#000'') (dark_rects (n, m) cs)"
proof -
  have inner: "foldl (\<lambda>cv c. if m (r, c) = Some True
        then fillRect ((c + quiet) * cs) ((r + quiet) * cs) cs cs cv else cv) cv ls
      = foldl (\<lambda>cv (x, y, w, h). fillRect x y w h cv) cv
          [((c + quiet) * cs, (r + quiet) * cs, cs, cs). c \<leftarrow> ls, m (r, c) = Some True]" for cv ls r
    by (induction ls arbitrary: cv) auto
  have "foldl (\<lambda>cv r. foldl (\<lambda>cv c. if m (r, c) = Some True
        then fillRect ((c + quiet) * cs) ((r + quiet) * cs) cs cs cv else cv) cv ls) cv ks
      = foldl (\<lambda>cv (x, y, w, h). fillRect x y w h cv) cv
          [((c + quiet) * cs, (r + quiet) * cs, cs, cs). r \<leftarrow> ks, c \<leftarrow> ls, m (r, c) = Some True]" for cv ks ls
    by (induction ks arbitrary: cv) (simp_all add: inner)
  then show ?thesis
    by (simp add: draw_symbol_def dark_rects_def Let_def foldl_fill) (simp add: fillRect_def quiet_def)
qed

lemma pixel_black:
  "foldl (\<lambda>col (style, rect). if covers rect x y then Some style else col) col (map (Pair s) rects)
   = (if \<exists>rect \<in> set rects. covers rect x y then Some s else col)"
  by (induction rects arbitrary: col) auto

lemma covers_cell:
  assumes "0 < cs"
  shows "covers ((c + quiet) * cs, (r + quiet) * cs, cs, cs) x y \<longleftrightarrow> c = x div cs - quiet \<and> r = y div cs - quiet"
proof -
  have eq: "k * cs \<le> z \<and> z < k * cs + cs \<longleftrightarrow> k = z div cs" for k z :: int
  proof
    assume "k * cs \<le> z \<and> z < k * cs + cs"
    then show "k = z div cs"
      using assms by (intro int_div_pos_eq [symmetric, of _ _ _ "z - k * cs"]) (auto simp: mult.commute)
  next
    assume "k = z div cs"
    then show "k * cs \<le> z \<and> z < k * cs + cs"
      using assms pos_mod_bound [of cs z] pos_mod_sign [of cs z] by (simp add: minus_mod_eq_div_mult [symmetric])
  qed
  show ?thesis
    unfolding covers_def prod.case using eq [of "c + quiet" x] eq [of "r + quiet" y] by auto
qed

lemma draw_symbol_pixel:
  assumes "0 < cs" "0 \<le> x" "x < (n + 8) * cs" "0 \<le> y" "y < (n + 8) * cs" "dom m \<subseteq> {0..n - 1} \<times> {0..n - 1}"
  shows "pixel (draw_symbol (n, m) cs cv) x y
    = Some (if m (y div cs - 4, x div cs - 4) = Some True then ''#000'' else ''#fff'')"
proof -
  have "(\<exists>rect \<in> set (dark_rects (n, m) cs). covers rect x y)
      \<longleftrightarrow> (\<exists>r \<in> {0..n - 1}. \<exists>c \<in> {0..n - 1}. m (r, c) = Some True \<and> c = x div cs - quiet \<and> r = y div cs - quiet)"
    by (auto simp: dark_rects_def covers_cell [OF assms(1)] split: if_splits)
  also have "\<dots> \<longleftrightarrow> m (y div cs - 4, x div cs - 4) = Some True"
    using assms(6) by (auto simp: quiet_def)
  finally have black: "(\<exists>rect \<in> set (dark_rects (n, m) cs). covers rect x y)
      \<longleftrightarrow> m (y div cs - 4, x div cs - 4) = Some True" .
  have "covers (0, 0, (n + 8) * cs, (n + 8) * cs) x y" using assms(2-5) by (simp add: covers_def)
  then show ?thesis by (simp add: pixel_def draw_symbol_painted pixel_black black)
qed

lemma draw_symbol_size:
  "canvas_width (draw_symbol (n, m) cs cv) = (n + 8) * cs"
  "canvas_height (draw_symbol (n, m) cs cv) = (n + 8) * cs"
proof -
  have keep: "canvas_width (foldl (\<lambda>cv r. foldl (\<lambda>cv c. if m (r, c) = Some True
        then fillRect (f c) (f r) cs cs cv else cv) cv ls) cv ks) = canvas_width cv
    \<and> canvas_height (foldl (\<lambda>cv r. foldl (\<lambda>cv c. if m (r, c) = Some True
        then fillRect (f c) (f r) cs cs cv else cv) cv ls) cv ks) = canvas_height cv" for f ls ks cv
  proof (induction ks arbitrary: cv)
    case (Cons k ks)
    have "canvas_width (foldl (\<lambda>cv c. if m (k, c) = Some True then fillRect (f c) (f k) cs cs cv else cv) cv ls)
        = canvas_width cv
      \<and> canvas_height (foldl (\<lambda>cv c. if m (k, c) = Some True then fillRect (f c) (f k) cs cs cv else cv) cv ls)
        = canvas_height cv"
      by (induction ls arbitrary: cv) (auto simp: fillRect_def)
    with Cons show ?case by simp
  qed simp
  show "canvas_width (draw_symbol (n, m) cs cv) = (n + 8) * cs"
       "canvas_height (draw_symbol (n, m) cs cv) = (n + 8) * cs"
    by (simp_all add: draw_symbol_def Let_def keep [of "\<lambda>i. (i + quiet) * cs"]) (simp_all add: fillRect_def quiet_def)
qed

end
