(* ===== verification/Qr_Properties.thy ===== *)
theory Qr_Properties
  imports Qr_Canvas
begin

text \<open>
  The properties of the QR encoder, over the lemmas of the \<open>Qr\<close> theories.  The witnesses
  encode the two bytes of \<open>Hi\<close>.
\<close>

section \<open>Reference definitions\<close>

text \<open>Multiplication in the field by shifts and additions, with no tables: the Russian-peasant
  scheme, modulo the polynomial \<open>0x11d\<close>.\<close>

fun peasant :: "nat \<Rightarrow> int \<Rightarrow> int \<Rightarrow> int" where
  "peasant 0 a b = 0"
| "peasant (Suc k) a b = (if odd b then a else 0) XOR peasant k (gf_step a) (b div 2)"

lemma gmul_two:
  assumes "is_byte a"
  shows "gmul a 2 = gf_step a"
proof -
  have two: "gf_pow 1 = 2" by (simp add: gf_pow_def gf_step_def)
  have "gmul a 2 = gmul 2 a" using assms by (intro gmul_comm) (simp_all add: is_byte_def)
  also have "\<dots> = gf_step a" using gmul_steps [OF assms, of 1] by (simp add: two [symmetric])
  finally show ?thesis .
qed

lemma gmul_double:
  assumes "is_byte a" "is_byte b" "b < 128"
  shows "gmul a (2 * b) = gmul (gf_step a) b"
proof -
  have two: "is_byte 2" by (simp add: is_byte_def)
  have "gmul 2 b = 2 * b"
    using gmul_two [OF assms(2)] gmul_comm [OF two assms(2)] assms(2,3)
    by (simp add: gf_step_alt is_byte_def bit_iff_odd)
  then have "gmul a (2 * b) = gmul a (gmul 2 b)" by simp
  also have "\<dots> = gmul (gmul a 2) b" using gmul_assoc [OF assms(1) two assms(2)] by simp
  finally show ?thesis by (simp add: gmul_two [OF assms(1)])
qed

lemma gmul_peasant_bits:
  assumes "is_byte a" "0 \<le> b" "b < 2 ^ k" "k \<le> 8"
  shows "gmul a b = peasant k a b"
  using assms
proof (induction k arbitrary: a b)
  case (Suc k)
  have half: "0 \<le> b div 2" "b div 2 < 2 ^ k" using Suc.prems by auto
  have small: "b div 2 < 128"
  proof -
    have "(2::int) ^ k \<le> 2 ^ 7" using Suc.prems(4) by (intro power_increasing) auto
    with half show ?thesis by simp
  qed
  have low: "is_byte (of_bool (odd b))" by (simp add: is_byte_def)
  have high: "is_byte (2 * (b div 2))" "is_byte (b div 2)" using half small by (simp_all add: is_byte_def)
  have "b = of_bool (odd b) XOR (2 * (b div 2))"
    by (cases "odd b") (simp_all add: one_xor_eq)
  then have "gmul a b = gmul a (of_bool (odd b)) XOR gmul a (2 * (b div 2))"
    using gmul_xor [OF Suc.prems(1) low high(1)] by metis
  also have "gmul a (of_bool (odd b)) = (if odd b then a else 0)" using Suc.prems(1) by simp
  also have "gmul a (2 * (b div 2)) = gmul (gf_step a) (b div 2)"
    using Suc.prems(1) high(2) small by (rule gmul_double)
  also have "\<dots> = peasant k (gf_step a) (b div 2)"
    using Suc half by (intro Suc.IH) (simp_all add: gf_step_byte)
  finally show ?case by simp
next
  case 0
  then have "b = 0" by simp
  then show ?case by simp
qed

section \<open>The field and the codes\<close>

text \<open>The table-driven product of \<open>gmul\<close> is the product of the field GF(256) modulo
  \<open>0x11d\<close>, computed by shifts and additions, for all bytes.\<close>

theorem gmul_is_field_product:
  assumes "is_byte a" "is_byte b"
  shows "gmul a b = peasant 8 a b"
  using assms gmul_peasant_bits [of a b 8] by (simp add: is_byte_def)

theorem gmul_is_field_product_witness: "gmul 0x57 0x83 = peasant 8 0x57 0x83"
  using gmul_is_field_product [of "0x57" "0x83"] by (simp add: is_byte_def)

text \<open>C3: the check symbols that \<open>rsEncode\<close> appends make the block vanish at the first
  \<open>ecCount\<close> powers of the generator of the field, so all syndromes a decoder computes are
  zero, and there are exactly \<open>ecCount\<close> of them, all bytes.\<close>

theorem rsEncode_syndromes:
  assumes "bytes dataBytes" "ecCount \<le> 512"
  shows "length (rsEncode dataBytes ecCount) = ecCount \<and> bytes (rsEncode dataBytes ecCount)
    \<and> list_all (\<lambda>i. poly_eval gmul (dataBytes @ rsEncode dataBytes ecCount) (gf_pow i) = 0) [0..<ecCount]"
  using assms by (intro conjI length_rsEncode bytes_rsEncode) (auto simp: list_all_iff rsEncode_root)

theorem rsEncode_syndromes_witness:
  "list_all (\<lambda>i. poly_eval gmul ([64, 36] @ rsEncode [64, 36] 3) (gf_pow i) = 0) [0..<3]"
proof -
  have "bytes [64, 36]" by (simp add: is_byte_def)
  then show ?thesis using rsEncode_syndromes [of "[64, 36]" 3] by simp
qed

text \<open>\<open>bchEncode\<close> returns for every data word that fits, and what it returns is the
  remainder that makes data and remainder together a multiple of the generator over GF(2).\<close>

theorem bchEncode_codeword:
  assumes "0 < g" "g < 2 ^ 31" "0 \<le> data" "push_bit (bchDigitCount g - 1) data < 2 ^ 31"
  shows "\<exists>r. bchEncode data g = Some r \<and> 0 \<le> r \<and> r < 2 ^ (bchDigitCount g - 1)
    \<and> gf2_multiple g (push_bit (bchDigitCount g - 1) data XOR r)"
  using assms by (rule bchEncode_remainder)

theorem bchEncode_codeword_witness:
  "\<exists>r. bchEncode 7 G18 = Some r \<and> gf2_multiple G18 (push_bit 12 7 XOR r)"
proof -
  have "bchDigitCount G18 - 1 = 12" by code_simp
  moreover have "0 < G18" "G18 < 2 ^ 31" by code_simp+
  ultimately show ?thesis using bchEncode_codeword [of G18 7] by auto
qed

text \<open>The sixteen format words differ pairwise in at least seven of their fifteen bits, and
  the four version words in at least eight of eighteen, so a reader corrects three errors.\<close>

theorem format_version_distance:
  "all_apart 15 7 (map (the \<circ> formatBits L) [0, 1, 2, 3, 4, 5, 6, 7]
     @ map (the \<circ> formatBits M) [0, 1, 2, 3, 4, 5, 6, 7])
   \<and> all_apart 18 8 (map (the \<circ> versionBits) [7, 8, 9, 10])"
proof -
  have "map (the \<circ> f) xs = ys" if "map f xs = map Some ys" for f :: "int \<Rightarrow> int option" and xs ys
    using that by (metis (no_types, lifting) list.map_comp list.map_id map_map option.sel comp_def id_def list.map_cong0)
  then show ?thesis
    using format_words_apart version_words_apart formatBits_values versionBits_values by metis
qed

section \<open>The bit stream\<close>

text \<open>C4: \<open>BitBuffer.put\<close> refines appending to a list of bits: the buffer that represents
  \<open>bs\<close> represents, after the call, \<open>bs\<close> followed by the low bits of the number, most
  significant first (at most 32 of them, the width of the shift), with the byte array of exactly the length needed.\<close>

theorem put_refines_append:
  assumes "buf_rep buf bs" "0 \<le> num" "num < 2 ^ 32" "len \<le> 32"
  shows "buf_rep (put buf num len) (bs @ num_bits num len)"
  using assms by (rule buf_rep_put)

theorem put_refines_append_witness: "buf_rep (put (put new_buffer 4 4) 5 8) (num_bits 4 4 @ num_bits 5 8)"
proof -
  have "buf_rep (put new_buffer 4 4) ([] @ num_bits 4 4)"
    by (rule put_refines_append [OF buf_rep_new]) simp_all
  then show ?thesis using put_refines_append [of "put new_buffer 4 4" "num_bits 4 4" 5 8] by simp
qed

text \<open>The data codewords of a text fill the capacity of the version exactly, and a reader of
  the mode, the count and the bytes gets the text back, whatever the terminator and the padding.\<close>

theorem data_codewords_roundtrip:
  assumes "bytes bs" "fits (length bs) (l, v)" "1 \<le> v" "v \<le> 10"
  shows "\<exists>cw. buildDataCodewords bs v l = Some cw \<and> length cw = capacityBytes v l \<and> bytes cw
    \<and> decode_codewords v cw = Some bs"
  using assms by (rule decode_buildDataCodewords)

theorem data_codewords_roundtrip_witness:
  "\<exists>cw. buildDataCodewords [72, 105] 1 M = Some cw \<and> length cw = 16 \<and> decode_codewords 1 cw = Some [72, 105]"
proof -
  have "fits (length [72, 105::int]) (M, 1)" by code_simp
  then show ?thesis
    using data_codewords_roundtrip [of "[72, 105]" M 1] capacity_values(1) by (auto simp: is_byte_def)
qed

text \<open>C5: \<open>pickVersion\<close> returns a version and a level in which the text fits, the lowest version
  of its level, and level L only when no version fits at level M; it returns \<open>null\<close> exactly
  above 271 bytes.\<close>

theorem pickVersion_smallest:
  "case pickVersion n of
     None \<Rightarrow> 271 < n
   | Some (l, v) \<Rightarrow> n \<le> 271 \<and> fits n (l, v) \<and> 1 \<le> v \<and> v \<le> 10 \<and> (l = L \<longleftrightarrow> 213 < n)
       \<and> list_all (\<lambda>w. \<not> fits n (l, w)) [1..<v]"
proof (cases "pickVersion n")
  case (Some p)
  then obtain l v where p: "pickVersion n = Some (l, v)" by (cases p) auto
  have "\<not> 271 < n" using pickVersion_None [of n] p by simp
  moreover have "213 < n \<Longrightarrow> l = L"
  proof (rule ccontr)
    assume "213 < n" "l \<noteq> L"
    then have "fits n (M, v)" "1 \<le> v" "v \<le> 10" using pickVersion_Some [OF p] by (cases l; auto)+
    with \<open>213 < n\<close> capacity_values version_cases [of v] show False
      by (auto simp: fits_def count_bits_def)
  qed
  ultimately show ?thesis
    using pickVersion_Some [OF p] pickVersion_first [OF p] p by (auto simp: list_all_iff)
qed (use pickVersion_None [of n] in simp)

text \<open>Interleaving loses nothing: from the lengths of the blocks alone a reader takes the
  interleaved stream apart into the blocks.\<close>

theorem interleave_recoverable:
  "unweave (map length ds) (take (sum_list (map length ds)) (interleave ds es)) = ds
   \<and> unweave (map length es) (drop (sum_list (map length ds)) (interleave ds es)) = es"
  by (simp add: interleave_def length_weave unweave_weave)

section \<open>The symbol\<close>

text \<open>C2: \<open>buildMatrix\<close> leaves no module of the square without a value and writes nothing
  outside it; every function pattern is intact (\<open>patterns_intact\<close>): the three finder patterns with
  their light border, the alignment patterns, both timing lines, the dark module, both copies of the
  format word for the level and mask 0, and from version 7 on both copies of the version word; and
  every codeword can be read back from the data modules.\<close>

theorem buildMatrix_complete:
  assumes "1 \<le> v" "v \<le> 10" "bytes cw" "length cw = total_codewords v l"
  shows "\<exists>m. buildMatrix v l cw = Some m \<and> dom m = square v \<and> patterns_intact v l m
    \<and> scan_codewords v (total_codewords v l) m = cw"
  by (rule buildMatrix_facts [OF assms])

theorem buildMatrix_complete_witness:
  "\<exists>m. buildMatrix 1 M (replicate 26 0x5a) = Some m \<and> dom m = square 1
     \<and> scan_codewords 1 26 m = replicate 26 0x5a"
proof -
  have "total_codewords 1 M = 26" by code_simp
  moreover have "bytes (replicate 26 0x5a)" by (simp add: list_all_iff is_byte_def)
  ultimately show ?thesis
    using buildMatrix_complete [of 1 "replicate 26 0x5a" M] by auto
qed

text \<open>C1: every text of at most 271 UTF-8 bytes is encoded, and scanning the symbol gives its
  bytes back.\<close>

theorem encode_roundtrip:
  assumes "utf16 text" "utf8Bytes text = Some bs" "length bs \<le> 271"
  shows "\<exists>n m. encode text = Some (Inr (Some (n, m))) \<and> scan (n, m) = Some bs"
  using assms by (rule encode_scan)

theorem encode_roundtrip_witness:
  "\<exists>n m. encode [72, 105, 0xe9] = Some (Inr (Some (n, m))) \<and> scan (n, m) = Some [72, 105, 0xc3, 0xa9]"
proof -
  have "utf8Bytes [72, 105, 0xe9] = Some [72, 105, 0xc3, 0xa9]" by code_simp
  moreover have "utf16 [72, 105, 0xe9]" by code_simp
  ultimately show ?thesis using encode_roundtrip [of "[72, 105, 0xe9]"] by simp
qed

text \<open>C6: \<open>encode\<close> returns on every string: it throws \<open>URIError\<close> exactly on a lone
  surrogate and returns \<open>null\<close> exactly above 271 bytes.\<close>

theorem encode_errors:
  assumes "utf16 text"
  shows "encode text \<noteq> None
    \<and> (encode text = Some (Inl URIError) \<longleftrightarrow> utf8Bytes text = None)
    \<and> (encode text = Some (Inr None) \<longleftrightarrow> (case utf8Bytes text of None \<Rightarrow> False | Some bs \<Rightarrow> 271 < length bs))"
proof (cases "utf8Bytes text")
  case (Some bs)
  then show ?thesis
  proof (cases "271 < length bs")
    case True
    then have "pickVersion (length bs) = None" by (simp add: pickVersion_None)
    with Some True show ?thesis by (simp add: encode_def)
  next
    case False
    then show ?thesis using encode_scan [OF assms Some] Some by auto
  qed
qed (simp add: encode_def)

theorem encode_errors_witness:
  "encode [72, 0xd800] = Some (Inl URIError)"
proof -
  have "utf8Bytes [72, 0xd800] = None" by code_simp
  moreover have "utf16 [72, 0xd800]" by code_simp
  ultimately show ?thesis using encode_errors [of "[72, 0xd800]"] by simp
qed

text \<open>\<open>renderToCanvas\<close> draws the symbol: a pixel of the canvas is black exactly when the
  module it falls in, with a quiet zone of four modules around the square, is dark, and white
  otherwise, whatever was drawn before.\<close>

theorem renderToCanvas_pixel:
  assumes "utf16 text" "utf8Bytes text = Some bs" "length bs \<le> 271" "0 < cs"
  shows "\<exists>n m cv'. encode text = Some (Inr (Some (n, m)))
    \<and> renderToCanvas cv text (Some cs) = Some (Inr (True, cv'))
    \<and> canvas_width cv' = (n + 8) * cs \<and> canvas_height cv' = (n + 8) * cs
    \<and> (\<forall>x y. 0 \<le> x \<and> x < canvas_width cv' \<and> 0 \<le> y \<and> y < canvas_height cv' \<longrightarrow>
         pixel cv' x y = Some (if m (y div cs - 4, x div cs - 4) = Some True then ''#000'' else ''#fff''))"
proof -
  obtain v m where e: "encode text = Some (Inr (Some (module_count v, m)))" and d: "dom m = square v"
    using encode_symbol [OF assms(1-3)] by blast
  let ?cv = "draw_symbol (module_count v, m) cs cv"
  have r: "renderToCanvas cv text (Some cs) = Some (Inr (True, ?cv))"
    using assms(4) by (simp add: renderToCanvas_def e cell_size_def)
  have "dom m \<subseteq> {0..module_count v - 1} \<times> {0..module_count v - 1}" by (simp add: d square_def)
  note px = draw_symbol_pixel [OF assms(4) _ _ _ _ this, of _ _ cv]
  show ?thesis
    using e r px by (intro exI [of _ "module_count v"] exI [of _ m] exI [of _ ?cv])
      (simp add: draw_symbol_size)
qed

theorem renderToCanvas_pixel_witness:
  "\<exists>cv'. renderToCanvas \<lparr>canvas_width = 0, canvas_height = 0, fillStyle = [], painted = []\<rparr> [72, 105] (Some 3)
     = Some (Inr (True, cv'))"
proof -
  have "utf8Bytes [72, 105] = Some [72, 105]" "utf16 [72, 105]" by code_simp+
  moreover have "length [72, 105::int] \<le> 271" "(0::int) < 3" by simp_all
  ultimately show ?thesis
    using renderToCanvas_pixel [of "[72, 105]" "[72, 105]" 3
      "\<lparr>canvas_width = 0, canvas_height = 0, fillStyle = [], painted = []\<rparr>"] by blast
qed

end
