(* ===== verification/Js_Value.thy ===== *)
theory Js_Value
  imports Complex_Main Prelude
begin

text \<open>
  The values that cross the interfaces of the sources: JSON answers, configuration options,
  arguments whose type the code tests or converts.  A finite number is a \<open>rat\<close>, which is the
  number of the language for the numerals of at most 15 significant digits that occur here; the
  overflow to an infinity is kept.  An object is the list of its properties in insertion order.
\<close>

section \<open>Numbers\<close>

datatype jsnum = NaN | Inf bool | Num rat

definition num_of_int :: "int \<Rightarrow> jsnum" where
  "num_of_int n = Num (of_int n)"

definition too_large :: "rat \<Rightarrow> bool" where
  "too_large q \<longleftrightarrow> 2 ^ 1024 \<le> \<bar>q\<bar>"

lemma too_large_code [code]: "too_large q \<longleftrightarrow> 179769313486231590772930519078902473361797697894230657273430081157732675805500963132708477322407536021120113879871393357658789768814416622492847430639474124377767893424865485276302219601246094119453082952085005768838150682342462881473913110540827237163350510684586298239947245938479716304835356329624224137216 \<le> \<bar>q\<bar>"
  by (simp add: too_large_def)

text \<open>\<open>Number.isInteger\<close>, \<open>Number.isFinite\<close> and the comparisons, which are false on \<open>NaN\<close>.\<close>

definition is_integer :: "jsnum \<Rightarrow> bool" where
  "is_integer n = (case n of Num q \<Rightarrow> of_int \<lfloor>q\<rfloor> = q | _ \<Rightarrow> False)"

definition is_finite :: "jsnum \<Rightarrow> bool" where
  "is_finite n = (case n of Num q \<Rightarrow> True | _ \<Rightarrow> False)"

definition num_le :: "jsnum \<Rightarrow> jsnum \<Rightarrow> bool" where
  "num_le a b = (case (a, b) of
       (Num p, Num q) \<Rightarrow> p \<le> q
     | (NaN, _) \<Rightarrow> False | (_, NaN) \<Rightarrow> False
     | (Inf p, Num q) \<Rightarrow> \<not> p | (Num p, Inf q) \<Rightarrow> q | (Inf p, Inf q) \<Rightarrow> p \<longrightarrow> q)"

definition num_less :: "jsnum \<Rightarrow> jsnum \<Rightarrow> bool" where
  "num_less a b \<longleftrightarrow> a \<noteq> NaN \<and> b \<noteq> NaN \<and> \<not> num_le b a"

text \<open>The integer part of a finite number; the code applies it to integers only.\<close>

definition int_of :: "jsnum \<Rightarrow> int" where
  "int_of n = (case n of Num q \<Rightarrow> \<lfloor>q\<rfloor> | _ \<Rightarrow> 0)"

lemma is_integer_int [simp]: "is_integer (num_of_int n)" "is_integer (Num (of_int n))"
  by (simp_all add: is_integer_def num_of_int_def)

lemma int_of_int [simp]: "int_of (num_of_int n) = n" "int_of (Num (of_int n)) = n"
  by (simp_all add: int_of_def num_of_int_def)

lemma num_le_int [simp]: "num_le (num_of_int a) (num_of_int b) \<longleftrightarrow> a \<le> b"
  by (simp add: num_le_def num_of_int_def)

lemma num_less_int [simp]: "num_less (num_of_int a) (num_of_int b) \<longleftrightarrow> a < b"
  by (simp add: num_less_def num_le_def num_of_int_def not_le)

lemma is_integer_cases: "is_integer n \<Longrightarrow> n = num_of_int (int_of n)"
  by (cases n) (simp_all only: is_integer_def num_of_int_def int_of_def jsnum.case)

section \<open>\<open>Number\<close> on strings\<close>

text \<open>A decimal literal without sign: digits, a fraction, an exponent.\<close>

definition exponent :: "string \<Rightarrow> int option" where
  "exponent s = (case s of
      [] \<Rightarrow> Some 0
    | c # t \<Rightarrow>
        if c = CHR ''e'' \<or> c = CHR ''E''
        then (let u = (if starts_with ''-'' t \<or> starts_with ''+'' t then tl t else t)
              in if all_digits u
                 then Some (if starts_with ''-'' t then - num_val 10 u else num_val 10 u) else None)
        else None)"

definition scale10 :: "int \<Rightarrow> rat \<Rightarrow> rat" where
  "scale10 e q = (if 0 \<le> e then q * 10 ^ nat e else q / 10 ^ nat (- e))"

definition decimal_literal :: "string \<Rightarrow> rat option" where
  "decimal_literal s =
     (let ip = takeWhile is_digit s; r = dropWhile is_digit s; point = starts_with ''.'' r;
          fp = (if point then takeWhile is_digit (tl r) else []);
          r' = (if point then dropWhile is_digit (tl r) else r)
      in if ip = [] \<and> fp = [] then None
         else map_option (\<lambda>e. scale10 (e - int (length fp)) (of_int (num_val 10 (ip @ fp)))) (exponent r'))"

definition clamp :: "rat \<Rightarrow> jsnum" where
  "clamp q = (if too_large q then Inf (0 < q) else Num q)"

definition unsigned_literal :: "string \<Rightarrow> jsnum" where
  "unsigned_literal s =
     (if s = ''Infinity'' then Inf True
      else case decimal_literal s of None \<Rightarrow> NaN | Some q \<Rightarrow> clamp q)"

definition negate :: "jsnum \<Rightarrow> jsnum" where
  "negate n = (case n of NaN \<Rightarrow> NaN | Inf p \<Rightarrow> Inf (\<not> p) | Num q \<Rightarrow> Num (- q))"

definition radix_literal :: "int \<Rightarrow> string \<Rightarrow> jsnum" where
  "radix_literal b s =
     (if s \<noteq> [] \<and> list_all (\<lambda>c. digit_val c < b) s then clamp (of_int (num_val b s)) else NaN)"

definition number_of_str :: "string \<Rightarrow> jsnum" where
  "number_of_str s0 =
     (let s = trim s0; p = lower (take 2 s)
      in if s = [] then Num 0
         else if p = ''0x'' then radix_literal 16 (drop 2 s)
         else if p = ''0o'' then radix_literal 8 (drop 2 s)
         else if p = ''0b'' then radix_literal 2 (drop 2 s)
         else if hd s = CHR ''-'' then negate (unsigned_literal (tl s))
         else if hd s = CHR ''+'' then unsigned_literal (tl s)
         else unsigned_literal s)"

lemma digits_no_ws: "list_all is_digit s \<Longrightarrow> \<forall>c \<in> set s. \<not> is_ws c"
  by (auto simp: list_all_iff is_digit_def is_ws_def)

lemma trim_digits [simp]: "list_all is_digit s \<Longrightarrow> trim s = s"
  by (intro trim_id digits_no_ws)

lemma decimal_literal_digits:
  assumes "all_digits s"
  shows "decimal_literal s = Some (of_int (num_val 10 s))"
proof -
  have span: "takeWhile is_digit s = s" "dropWhile is_digit s = []"
    using assms by (auto simp: all_digits_def list_all_iff takeWhile_eq_all_conv)
  have "s \<noteq> []" using assms by (simp add: all_digits_def)
  then show ?thesis
    unfolding decimal_literal_def span by (simp add: Let_def exponent_def scale10_def)
qed

lemma lower_digit: "is_digit c \<Longrightarrow> lower_char c = c"
  by (auto simp: lower_char_def is_digit_def is_upper_def)

lemma digits_bound:
  assumes "all_digits s"
  shows "num_val 10 s < 10 ^ length s"
  using assms digit_val_digit by (intro num_val_less) (fastforce simp: all_digits_def list_all_iff)+

lemma number_of_all_digits:
  assumes "all_digits s"
  shows "number_of_str s = clamp (of_int (num_val 10 s))"
proof -
  have ds: "list_all is_digit s" "s \<noteq> []" using assms by (simp_all add: all_digits_def)
  then have "s \<noteq> ''Infinity''" by (auto simp: is_digit_def cc_def)
  then have u: "unsigned_literal s = clamp (of_int (num_val 10 s))"
    by (simp add: unsigned_literal_def decimal_literal_digits [OF assms])
  have all: "is_digit c" if "c \<in> set s" for c using ds(1) that by (simp add: list_all_iff)
  then have low: "lower (take 2 s) = take 2 s"
    unfolding lower_def by (intro map_idI lower_digit) (auto dest: in_set_takeD)
  have "\<not> is_digit (CHR ''x'')" "\<not> is_digit (CHR ''o'')" "\<not> is_digit (CHR ''b'')"
    by (simp_all add: is_digit_def cc_def)
  then have "take 2 s \<noteq> ''0x''" "take 2 s \<noteq> ''0o''" "take 2 s \<noteq> ''0b''"
    using all in_set_takeD [of _ 2 s] by (metis list.set_intros)+
  moreover have "hd s \<noteq> CHR ''-''" "hd s \<noteq> CHR ''+''"
    using all [OF hd_in_set [OF ds(2)]] by (auto simp: is_digit_def cc_def)
  ultimately show ?thesis
    using ds u by (simp add: number_of_str_def Let_def low)
qed

lemma number_of_digits:
  assumes "all_digits s" "length s \<le> 300"
  shows "number_of_str s = num_of_int (num_val 10 s)"
proof -
  have "num_val 10 s < 10 ^ length s" using assms(1) by (rule digits_bound)
  also have "(10::int) ^ length s \<le> 10 ^ 300" using assms(2) by (intro power_increasing) auto
  also have "\<dots> < 2 ^ 1024" by simp
  finally have "of_int (num_val 10 s) < (of_int (2 ^ 1024) :: rat)" by (simp only: of_int_less_iff)
  moreover have "0 \<le> num_val 10 s" using assms(1) by (rule num_val_digits_nonneg)
  ultimately have "\<not> too_large (of_int (num_val 10 s))"
    unfolding too_large_def by simp
  then show ?thesis by (simp add: number_of_all_digits [OF assms(1)] clamp_def num_of_int_def)
qed

section \<open>Values\<close>

datatype jsval =
    JUndef | JNull | JBool bool | JNum jsnum | JStr string
  | JArr "jsval list" | JObj "(string \<times> jsval) list"

definition truthy :: "jsval \<Rightarrow> bool" where
  "truthy v = (case v of
      JUndef \<Rightarrow> False | JNull \<Rightarrow> False | JBool b \<Rightarrow> b
    | JNum n \<Rightarrow> n \<noteq> NaN \<and> n \<noteq> Num 0 | JStr s \<Rightarrow> s \<noteq> [] | _ \<Rightarrow> True)"

text \<open>\<open>a || b\<close>, \<open>a && b\<close> and the test \<open>v == null\<close>.\<close>

definition or_else :: "jsval \<Rightarrow> jsval \<Rightarrow> jsval" where
  "or_else a b = (if truthy a then a else b)"

definition and_then :: "jsval \<Rightarrow> jsval \<Rightarrow> jsval" where
  "and_then a b = (if truthy a then b else a)"

definition nullish :: "jsval \<Rightarrow> bool" where
  "nullish v \<longleftrightarrow> v = JUndef \<or> v = JNull"

text \<open>The property \<open>v[k]\<close>; the code reads properties of objects only, after a test or a
  default, so the value of a read that would throw is not used.\<close>

definition field :: "jsval \<Rightarrow> string \<Rightarrow> jsval" where
  "field v k = (case v of JObj ps \<Rightarrow> (case map_of ps k of Some w \<Rightarrow> w | None \<Rightarrow> JUndef) | _ \<Rightarrow> JUndef)"

definition is_array :: "jsval \<Rightarrow> bool" where
  "is_array v = (case v of JArr xs \<Rightarrow> True | _ \<Rightarrow> False)"

definition is_string :: "jsval \<Rightarrow> bool" where
  "is_string v = (case v of JStr s \<Rightarrow> True | _ \<Rightarrow> False)"

definition elements :: "jsval \<Rightarrow> jsval list" where
  "elements v = (case v of JArr xs \<Rightarrow> xs | _ \<Rightarrow> [])"

section \<open>Conversions\<close>

text \<open>Integers print in full below \<open>10 ^ 21\<close>; a fraction prints its first 17 digits.\<close>

fun frac_digits :: "nat \<Rightarrow> rat \<Rightarrow> string" where
  "frac_digits 0 q = []"
| "frac_digits (Suc n) q =
     (if q = 0 then []
      else let d = \<lfloor>q * 10\<rfloor> in digit_char d # frac_digits n (q * 10 - of_int d))"

definition num_str :: "jsnum \<Rightarrow> string" where
  "num_str n = (case n of
      NaN \<Rightarrow> ''NaN''
    | Inf p \<Rightarrow> if p then ''Infinity'' else ''-Infinity''
    | Num q \<Rightarrow> (let a = \<bar>q\<bar>; i = \<lfloor>a\<rfloor>
                in (if q < 0 then ''-'' else []) @ dec i
                   @ (if of_int i = a then [] else CHR ''.'' # frac_digits 17 (a - of_int i))))"

fun to_str :: "jsval \<Rightarrow> string" where
  "to_str JUndef = ''undefined''"
| "to_str JNull = ''null''"
| "to_str (JBool b) = (if b then ''true'' else ''false'')"
| "to_str (JNum n) = num_str n"
| "to_str (JStr s) = s"
| "to_str (JArr xs) = join '','' (map (\<lambda>x. if nullish x then [] else to_str x) xs)"
| "to_str (JObj ps) = ''[object Object]''"

definition to_number :: "jsval \<Rightarrow> jsnum" where
  "to_number v = (case v of
      JUndef \<Rightarrow> NaN | JNull \<Rightarrow> Num 0 | JBool b \<Rightarrow> Num (if b then 1 else 0)
    | JNum n \<Rightarrow> n | JStr s \<Rightarrow> number_of_str s | JArr xs \<Rightarrow> number_of_str (to_str v) | JObj ps \<Rightarrow> NaN)"

text \<open>\<open>String(v || '')\<close>, the usual first step of a validator.\<close>

definition arg_str :: "jsval \<Rightarrow> string" where
  "arg_str v = to_str (or_else v (JStr []))"

lemma num_str_int: "0 \<le> n \<Longrightarrow> num_str (num_of_int n) = dec n"
  by (simp add: num_str_def num_of_int_def Let_def)

lemma arg_str_JStr [simp]: "arg_str (JStr s) = s"
  by (simp add: arg_str_def or_else_def truthy_def)

lemma to_number_simps [simp]:
  "to_number (JNum n) = n" "to_number (JStr s) = number_of_str s"
  by (simp_all add: to_number_def)

lemma nullish_simps [simp]:
  "nullish JUndef" "nullish JNull" "\<not> nullish (JStr s)" "\<not> nullish (JNum n)" "\<not> nullish (JArr xs)"
  "\<not> nullish (JObj ps)" "\<not> nullish (JBool b)"
  by (simp_all add: nullish_def)

end
