(* ===== verification/Net_Address.thy ===== *)
theory Net_Address
  imports Js_Value
begin

text \<open>
  The address functions of \<open>freenetic-network.js\<close>: validators, the parser and the printer of
  IPv6 addresses, and the network of an address and a prefix length.
\<close>

section \<open>IPv4\<close>

definition validIPv4 :: "jsval \<Rightarrow> bool" where
  "validIPv4 address =
     (let octets = split_on CHR ''.'' (arg_str address)
      in length octets = 4
         \<and> list_all (\<lambda>octet. all_digits octet \<and> length octet \<le> 3
             \<and> num_le (Num 0) (number_of_str octet) \<and> num_le (number_of_str octet) (Num 255)) octets)"

definition pad_start :: "nat \<Rightarrow> char \<Rightarrow> string \<Rightarrow> string" where
  "pad_start n c s = replicate (n - length s) c @ s"

definition ones_zeros :: "string \<Rightarrow> bool" where
  "ones_zeros s = (let r = dropWhile (\<lambda>c. c = CHR ''1'') s
                   in length r < length s \<and> list_all (\<lambda>c. c = CHR ''0'') r)"

definition validIPv4Netmask :: "jsval \<Rightarrow> bool" where
  "validIPv4Netmask netmask =
     (if \<not> validIPv4 netmask then False
      else ones_zeros (concat (map (\<lambda>octet.
             pad_start 8 CHR ''0'' (base_str 2 (int_of (number_of_str octet))))
           (split_on CHR ''.'' (to_str netmask)))))"

definition ipv4NetworkCidr :: "jsval \<Rightarrow> jsval \<Rightarrow> string option" where
  "ipv4NetworkCidr address prefix0 =
     (let octets = map number_of_str (split_on CHR ''.'' (arg_str address));
          prefix = to_number prefix0
      in if length octets \<noteq> 4
            \<or> list_ex (\<lambda>v. \<not> is_integer v \<or> num_less v (Num 0) \<or> num_less (Num 255) v) octets
            \<or> \<not> is_integer prefix \<or> num_less prefix (Num 0) \<or> num_less (Num 32) prefix
         then None
         else
           let o0 = int_of (octets ! 0); o1 = int_of (octets ! 1);
               o2 = int_of (octets ! 2); o3 = int_of (octets ! 3); p = int_of prefix;
               val = to_uint32 (js_or (js_or (js_or (js_shl o0 24) (js_shl o1 16)) (js_shl o2 8)) o3);
               m = (if p = 0 then 0 else to_uint32 (js_shl 0xffffffff (nat (32 - p))));
               network = to_uint32 (js_and val m)
           in Some (join ''.'' (map dec [js_ushr network 24, js_ushr network 16 AND 255,
                       js_ushr network 8 AND 255, network AND 255])
                    @ ''/'' @ dec p))"

section \<open>IPv6\<close>

text \<open>\<open>s.split(sep)\<close> for a string \<open>sep\<close> that is not empty, and the number of matches of
  \<open>/::/g\<close>.\<close>

lemma index_of_str_bound: "index_of_str p s = Some i \<Longrightarrow> i + length p \<le> length s"
proof (induction s arbitrary: i)
  case (Cons x s)
  then show ?case
    by (auto simp: starts_with_iff split: if_splits) (metis le_add1 length_Cons length_append)
qed (auto split: if_splits)

function split_str :: "string \<Rightarrow> string \<Rightarrow> string list" where
  "split_str sep s =
     (if sep = [] then map (\<lambda>c. [c]) s
      else case index_of_str sep s of
         None \<Rightarrow> [s]
       | Some i \<Rightarrow> take i s # split_str sep (drop (i + length sep) s))"
  by pat_completeness auto
termination
proof (relation "measure (\<lambda>(sep, s). length s)", goal_cases)
  case (2 sep s i)
  then have "i + length sep \<le> length s" by (intro index_of_str_bound)
  with 2 show ?case by (cases sep) auto
qed simp

declare split_str.simps [simp del]

fun count_pairs :: "string \<Rightarrow> nat" where
  "count_pairs (a # b # s) =
     (if a = CHR '':'' \<and> b = CHR '':'' then Suc (count_pairs s) else count_pairs (b # s))"
| "count_pairs s = 0"

definition hex_group :: "string \<Rightarrow> bool" where
  "hex_group g \<longleftrightarrow> 1 \<le> length g \<and> length g \<le> 4 \<and> list_all is_lxdigit g"

definition parseHalf :: "string \<Rightarrow> int list option" where
  "parseHalf val =
     (if val = [] then Some []
      else let groups = split_on CHR '':'' val
           in if list_ex (\<lambda>g. \<not> hex_group g) groups then None
              else Some (map (num_val 16) groups))"

text \<open>A trailing dotted quad is rewritten to two groups first.\<close>

definition ipv4_tail :: "string \<Rightarrow> string option" where
  "ipv4_tail address =
     (if CHR ''.'' \<in> set address
      then case last_index_of CHR '':'' address of
             None \<Rightarrow> None
           | Some split \<Rightarrow>
               let tail = drop (split + 1) address;
                   octets = map (int_of \<circ> number_of_str) (split_on CHR ''.'' tail)
               in if \<not> validIPv4 (JStr tail) then None
                  else Some (take (split + 1) address @ hex (js_or (js_shl (octets ! 0) 8) (octets ! 1))
                             @ '':'' @ hex (js_or (js_shl (octets ! 2) 8) (octets ! 3)))
      else Some address)"

definition parseIpv6Words :: "jsval \<Rightarrow> int list option" where
  "parseIpv6Words address0 =
     (case ipv4_tail (lower (hd (split_on CHR ''%'' (arg_str address0)))) of
        None \<Rightarrow> None
      | Some address \<Rightarrow>
          if address = [] \<or> 1 < count_pairs address
             \<or> list_ex (\<lambda>c. \<not> (is_lxdigit c \<or> c = CHR '':'')) address
          then None
          else
            let halves = split_str ''::'' address
            in case (parseHalf (halves ! 0), parseHalf (if 1 < length halves then halves ! 1 else [])) of
                 (Some left, Some right) \<Rightarrow>
                   let missing = 8 - int (length left) - int (length right)
                   in if (length halves = 1 \<and> missing \<noteq> 0) \<or> (length halves = 2 \<and> missing < 1) then None
                      else Some (left @ replicate (nat missing) 0 @ right)
               | _ \<Rightarrow> None)"

definition zone_char :: "char \<Rightarrow> bool" where
  "zone_char c \<longleftrightarrow> is_alnum c \<or> c \<in> {CHR ''_'', CHR ''.'', CHR ''-''}"

definition splitIpv6 :: "jsval \<Rightarrow> bool option \<Rightarrow> (string \<times> string option) option" where
  "splitIpv6 value0 prefixMode =
     (let val = trim (arg_str value0); slash = index_of CHR ''/'' val;
          rest = (case slash of None \<Rightarrow> [] | Some i \<Rightarrow> drop (i + 1) val);
          prefix = (case slash of None \<Rightarrow> None | Some i \<Rightarrow> Some (drop (i + 1) val));
          addr = (case slash of None \<Rightarrow> val | Some i \<Rightarrow> take i val)
      in if slash \<noteq> None \<and> CHR ''/'' \<in> set rest then None
         else if (prefixMode = Some True \<and> prefix = None) \<or> (prefixMode = Some False \<and> prefix \<noteq> None) then None
         else if (case prefix of None \<Rightarrow> False
                  | Some p \<Rightarrow> \<not> all_digits p \<or> num_less (Num 128) (number_of_str p)) then None
         else case index_of CHR ''%'' addr of
                None \<Rightarrow> if parseIpv6Words (JStr addr) \<noteq> None then Some (addr, prefix) else None
              | Some percent \<Rightarrow>
                  let zone = drop (percent + 1) addr; addr = take percent addr
                  in if zone = [] \<or> \<not> list_all zone_char zone then None
                     else if parseIpv6Words (JStr addr) \<noteq> None then Some (addr, prefix) else None)"

definition validIPv6 :: "jsval \<Rightarrow> bool option \<Rightarrow> bool" where
  "validIPv6 val prefixMode \<longleftrightarrow> splitIpv6 val prefixMode \<noteq> None"

definition validAddress :: "jsval \<Rightarrow> string \<Rightarrow> bool \<Rightarrow> bool" where
  "validAddress value0 family allowPrefix =
     (let val = trim (arg_str value0)
      in if family = ''ipv4''
         then let parts = split_on CHR ''/'' val
              in if length parts = 1 then validIPv4 (JStr (parts ! 0))
                 else allowPrefix \<and> length parts = 2 \<and> validIPv4 (JStr (parts ! 0))
                      \<and> all_digits (parts ! 1) \<and> num_le (number_of_str (parts ! 1)) (Num 32)
         else validIPv6 (JStr val) (if allowPrefix then None else Some False))"

text \<open>\<open>/^(\d+)(?:-(\d+))?$/\<close>: the two groups.\<close>

definition port_match :: "string \<Rightarrow> (string \<times> string option) option" where
  "port_match s =
     (let a = takeWhile is_digit s; r = dropWhile is_digit s
      in if a = [] then None
         else if r = [] then Some (a, None)
         else if hd r = CHR ''-'' \<and> all_digits (tl r) then Some (a, Some (tl r)) else None)"

definition validPort :: "jsval \<Rightarrow> bool \<Rightarrow> bool" where
  "validPort value0 allowRange =
     (case port_match (trim (arg_str value0)) of
        None \<Rightarrow> False
      | Some (a, b) \<Rightarrow>
          if b \<noteq> None \<and> \<not> allowRange then False
          else let start = number_of_str a;
                   end' = (case b of None \<Rightarrow> start | Some e \<Rightarrow> number_of_str e)
               in num_le (Num 1) start \<and> num_le start (Num 65535)
                  \<and> num_le start end' \<and> num_le end' (Num 65535))"

section \<open>Printing IPv6\<close>

function run_end :: "int list \<Rightarrow> nat \<Rightarrow> nat" where
  "run_end words i = (if i < length words \<and> words ! i = 0 then run_end words (i + 1) else i)"
  by pat_completeness auto
termination
  by (relation "measure (\<lambda>(ws, i). length ws - i)") auto

declare run_end.simps [simp del]

lemma run_end_ge: "i \<le> run_end words i"
  by (induction words i rule: run_end.induct) (subst run_end.simps, auto)

lemma run_end_Suc: "i < length words \<Longrightarrow> words ! i = 0 \<Longrightarrow> i < run_end words i"
  by (subst run_end.simps) (simp add: run_end_ge less_eq_Suc_le)

function best_run :: "int list \<Rightarrow> nat \<Rightarrow> nat \<times> nat \<Rightarrow> nat \<times> nat" where
  "best_run words start best =
     (if start < length words
      then if words ! start \<noteq> 0 then best_run words (start + 1) best
           else let e = run_end words start
                in best_run words e (if snd best < e - start then (start, e - start) else best)
      else best)"
  by pat_completeness auto
termination
  by (relation "measure (\<lambda>(ws, i, b). length ws - i)") (auto dest: run_end_Suc intro!: diff_less_mono2)

declare best_run.simps [simp del]

text \<open>The start of the best run is only used when its length is at least 2, so that its initial
  value, \<open>-1\<close> in the code, does not matter.\<close>

definition formatIpv6Words :: "int list \<Rightarrow> string" where
  "formatIpv6Words words =
     (let best = best_run words 0 (0, 0); parts = map hex words
      in if snd best < 2 then join '':'' parts
         else join '':'' (take (fst best) parts) @ ''::'' @ join '':'' (drop (fst best + snd best) parts))"

definition mask_word :: "int \<Rightarrow> nat \<Rightarrow> int \<Rightarrow> int" where
  "mask_word prefix index w =
     (let keep = prefix - int index * 16
      in if keep \<le> 0 then 0
         else if keep < 16 then js_and w (js_and (js_shl 0xffff (nat (16 - keep))) 0xffff)
         else w)"

definition ipv6NetworkCidr :: "jsval \<Rightarrow> jsval \<Rightarrow> string option" where
  "ipv6NetworkCidr address prefix0 =
     (let prefix = to_number prefix0
      in case parseIpv6Words address of
           None \<Rightarrow> None
         | Some words \<Rightarrow>
             if \<not> is_integer prefix \<or> num_less prefix (Num 0) \<or> num_less (Num 128) prefix then None
             else let p = int_of prefix
                  in Some (formatIpv6Words (map2 (mask_word p) [0..<length words] words) @ ''/'' @ dec p))"

definition connectedRouteTarget :: "jsval \<Rightarrow> string option" where
  "connectedRouteTarget address =
     (if \<not> truthy address \<or> nullish (field address ''address'') \<or> nullish (field address ''mask'') then None
      else if CHR '':'' \<in> set (to_str (field address ''address''))
           then ipv6NetworkCidr (field address ''address'') (field address ''mask'')
           else ipv4NetworkCidr (field address ''address'') (field address ''mask''))"

end
