(* ===== verification/Net_Roundtrip.thy ===== *)
theory Net_Roundtrip
  imports Net_Address
begin

text \<open>
  Parsing what was printed: the eight groups of an IPv6 address come back from every text that
  \<open>formatIpv6Words\<close> prints, with or without the double colon.
\<close>

section \<open>Groups\<close>

definition word16 :: "int \<Rightarrow> bool" where
  "word16 w \<longleftrightarrow> 0 \<le> w \<and> w < 65536"

lemma hex_group_hex: "word16 w \<Longrightarrow> hex_group (hex w)"
  using base_str_len [of 16 w 4] hex_chars [of w]
  by (auto simp: hex_group_def word16_def list_all_iff Suc_le_eq)

lemma num_val_hex16: "word16 w \<Longrightarrow> num_val 16 (hex w) = w"
  by (simp add: word16_def)

lemma lxdigit_facts: "is_lxdigit c \<Longrightarrow> c \<noteq> CHR '':'' \<and> c \<noteq> CHR ''%'' \<and> c \<noteq> CHR ''.'' \<and> lower_char c = c"
  by (auto simp: is_lxdigit_def is_digit_def lower_char_def is_upper_def cc_def)

abbreviation groups :: "int list \<Rightarrow> string" where
  "groups ws \<equiv> join '':'' (map hex ws)"

lemma groups_not_Nil: "ws \<noteq> [] \<Longrightarrow> groups ws \<noteq> []"
  by (cases ws; cases "tl ws") (auto simp: join_Cons)

lemma parseHalf_groups:
  assumes "list_all word16 ws"
  shows "parseHalf (groups ws) = Some ws"
proof (cases "ws = []")
  case False
  have "\<forall>g \<in> set (map hex ws). CHR '':'' \<notin> set g"
    using assms hex_group_hex lxdigit_facts by (fastforce simp: hex_group_def list_all_iff)
  then have split: "split_on CHR '':'' (groups ws) = map hex ws" using False by (intro split_join) auto
  have "\<not> list_ex (\<lambda>g. \<not> hex_group g) (map hex ws)"
    using assms by (auto simp: list_ex_iff list_all_iff hex_group_hex)
  moreover have "map (num_val 16) (map hex ws) = ws"
    using assms by (auto simp: list_all_iff num_val_hex16 intro: map_idI)
  ultimately show ?thesis
    using groups_not_Nil [OF False] by (simp add: parseHalf_def split Let_def)
qed (simp add: parseHalf_def)

section \<open>The double colon\<close>

text \<open>Texts without two colons in a row, not ending in one.\<close>

fun tidy :: "string \<Rightarrow> bool" where
  "tidy [] = True"
| "tidy [c] = (c \<noteq> CHR '':'')"
| "tidy (a # b # s) = (\<not> (a = CHR '':'' \<and> b = CHR '':'') \<and> tidy (b # s))"

lemma tidy_digits: "list_all is_lxdigit s \<Longrightarrow> tidy s"
  by (induction s rule: tidy.induct) (auto dest: lxdigit_facts)

lemma tidy_cons: "list_all is_lxdigit g \<Longrightarrow> s \<noteq> [] \<Longrightarrow> hd s \<noteq> CHR '':'' \<Longrightarrow> tidy s \<Longrightarrow> tidy (g @ CHR '':'' # s)"
proof (induction g)
  case Nil
  then show ?case by (cases s) auto
next
  case (Cons c g)
  then show ?case by (cases g) (auto dest: lxdigit_facts)
qed

lemma hex_digits: "word16 w \<Longrightarrow> list_all is_lxdigit (hex w)"
  using hex_group_hex by (simp add: hex_group_def)

lemma hd_groups: "ws \<noteq> [] \<Longrightarrow> list_all word16 ws \<Longrightarrow> hd (groups ws) \<noteq> CHR '':''"
proof -
  assume a: "ws \<noteq> []" "list_all word16 ws"
  then obtain w vs where ws: "ws = w # vs" by (cases ws) auto
  then have "hd (groups ws) = hd (hex w)" by (cases vs) (auto simp: join_Cons)
  moreover have "is_lxdigit (hd (hex w))"
    using hex_digits [of w] a ws by (auto simp: list_all_iff)
  ultimately show ?thesis using lxdigit_facts by metis
qed

lemma tidy_groups: "list_all word16 ws \<Longrightarrow> tidy (groups ws)"
proof (induction ws)
  case (Cons w ws)
  show ?case
  proof (cases "ws = []")
    case True
    then show ?thesis using Cons by (simp add: tidy_digits hex_digits)
  next
    case False
    then have "groups (w # ws) = hex w @ CHR '':'' # groups ws" by (simp add: join_Cons)
    then show ?thesis
      using Cons False hd_groups [of ws] groups_not_Nil [of ws] by (simp add: tidy_cons hex_digits)
  qed
qed simp

lemma tidy_index: "tidy s \<Longrightarrow> index_of_str ''::'' s = None"
  by (induction s rule: tidy.induct) auto

lemma tidy_count: "tidy s \<Longrightarrow> count_pairs s = 0"
  by (induction s rule: tidy.induct) auto

lemma tidy_index_append: "tidy s \<Longrightarrow> index_of_str ''::'' (s @ ''::'' @ t) = Some (length s)"
  by (induction s rule: tidy.induct) auto

lemma tidy_count_append: "tidy s \<Longrightarrow> tidy t \<Longrightarrow> count_pairs (s @ ''::'' @ t) = 1"
  by (induction s rule: tidy.induct) (auto simp: tidy_count)

lemma split_tidy: "tidy s \<Longrightarrow> split_str ''::'' s = [s]"
  by (subst split_str.simps) (simp add: tidy_index)

lemma split_tidy_append: "tidy s \<Longrightarrow> tidy t \<Longrightarrow> split_str ''::'' (s @ ''::'' @ t) = [s, t]"
  using tidy_index_append [of s t]
  by (subst split_str.simps) (simp add: split_tidy)

section \<open>The best run\<close>

lemma run_end_zeros: "i \<le> j \<Longrightarrow> j < run_end words i \<Longrightarrow> j < length words \<and> words ! j = 0"
proof (induction words i rule: run_end.induct)
  case (1 words i)
  show ?case
  proof (cases "i < length words \<and> words ! i = 0")
    case True
    then have "run_end words i = run_end words (i + 1)" by (subst run_end.simps) simp
    with 1 True show ?thesis by (cases "j = i") auto
  next
    case False
    then have "run_end words i = i" by (subst run_end.simps) auto
    with 1 show ?thesis by simp
  qed
qed

definition zero_run :: "int list \<Rightarrow> nat \<times> nat \<Rightarrow> bool" where
  "zero_run words b \<longleftrightarrow> fst b + snd b \<le> length words \<and> (\<forall>j < snd b. words ! (fst b + j) = 0)"

lemma best_run_zeros: "zero_run words b \<Longrightarrow> zero_run words (best_run words i b)"
proof (induction words i b rule: best_run.induct)
  case (1 words i b)
  let ?e = "run_end words i"
  show ?case
  proof (cases "i < length words")
    case True
    show ?thesis
    proof (cases "words ! i = 0")
      case zero: True
      have e: "i < ?e" using True zero by (rule run_end_Suc)
      then have "?e - 1 < length words" using run_end_zeros [of i "?e - 1" words] by simp
      then have "?e \<le> length words" using e by simp
      moreover have "words ! (i + j) = 0" if "j < ?e - i" for j
        using run_end_zeros [of i "i + j" words] that by simp
      ultimately have "zero_run words (i, ?e - i)"
        using run_end_ge [of i words] by (simp add: zero_run_def)
      then have "zero_run words (if snd b < ?e - i then (i, ?e - i) else b)" using 1(3) by simp
      then show ?thesis
        using 1(2) [OF True] zero True by (subst best_run.simps) (simp add: Let_def)
    next
      case False
      then show ?thesis using 1(1) [OF True False 1(3)] True by (subst best_run.simps) simp
    qed
  next
    case False
    then show ?thesis using 1(3) by (subst best_run.simps) simp
  qed
qed

lemma zero_run_split:
  assumes "zero_run words (b, n)"
  shows "words = take b words @ replicate n 0 @ drop (b + n) words"
proof -
  have "take n (drop b words) = replicate n 0"
    using assms by (intro nth_equalityI) (auto simp: zero_run_def)
  then show ?thesis by (metis append_take_drop_id drop_drop add.commute)
qed

section \<open>The round trip\<close>

lemma plain_text:
  assumes "list_all (\<lambda>c. is_lxdigit c \<or> c = CHR '':'') s"
  shows "ipv4_tail (lower (hd (split_on CHR ''%'' s))) = Some s"
    and "\<not> list_ex (\<lambda>c. \<not> (is_lxdigit c \<or> c = CHR '':'')) s"
proof -
  have "c \<noteq> CHR ''%'' \<and> c \<noteq> CHR ''.'' \<and> lower_char c = c" if "c \<in> set s" for c
  proof -
    have "lower_char CHR '':'' = CHR '':''" by (simp add: lower_char_def is_upper_def cc_def)
    with assms that lxdigit_facts show ?thesis by (auto simp: list_all_iff)
  qed
  then have "CHR ''%'' \<notin> set s" "CHR ''.'' \<notin> set s" "lower s = s"
    by (auto simp: lower_def intro!: map_idI)
  then show "ipv4_tail (lower (hd (split_on CHR ''%'' s))) = Some s"
    by (simp add: split_on_no_sep ipv4_tail_def)
  show "\<not> list_ex (\<lambda>c. \<not> (is_lxdigit c \<or> c = CHR '':'')) s"
    using assms by (auto simp: list_ex_iff list_all_iff)
qed

lemma groups_chars: "list_all word16 ws \<Longrightarrow> list_all (\<lambda>c. is_lxdigit c \<or> c = CHR '':'') (groups ws)"
proof (induction ws)
  case (Cons w ws)
  then show ?case
    using hex_digits [of w] by (cases "ws = []") (auto simp: join_Cons list_all_iff)
qed simp

lemma parse_format:
  assumes "length ws = 8" "list_all word16 ws"
  shows "parseIpv6Words (JStr (formatIpv6Words ws)) = Some ws"
proof -
  obtain b n where best: "best_run ws 0 (0, 0) = (b, n)" by fastforce
  have "zero_run ws (b, n)" using best_run_zeros [of ws "(0, 0)" 0] best by (simp add: zero_run_def)
  note split = zero_run_split [OF this]
  show ?thesis
  proof (cases "n < 2")
    case True
    then have f: "formatIpv6Words ws = groups ws" by (simp add: formatIpv6Words_def best Let_def)
    have "ws \<noteq> []" using assms(1) by auto
    then show ?thesis
      using assms(1) parseHalf_groups [OF assms(2)] groups_not_Nil tidy_groups [OF assms(2)]
        plain_text [OF groups_chars [OF assms(2)]]
      by (simp add: parseIpv6Words_def f tidy_count split_tidy Let_def parseHalf_def)
  next
    case False
    define l where "l = take b ws"
    define r where "r = drop (b + n) ws"
    have ws: "ws = l @ replicate n 0 @ r" using split by (simp add: l_def r_def)
    have w: "list_all word16 l" "list_all word16 r" using assms(2) by (subst (asm) ws; simp)+
    have f: "formatIpv6Words ws = groups l @ ''::'' @ groups r"
      using False by (simp add: formatIpv6Words_def best Let_def take_map drop_map l_def r_def)
    have "length l + n + length r = 8" using assms(1) by (subst (asm) ws) simp
    then have missing: "8 - int (length l) - int (length r) = int n" by linarith
    have chars: "list_all (\<lambda>c. is_lxdigit c \<or> c = CHR '':'') (groups l @ ''::'' @ groups r)"
      using groups_chars [OF w(1)] groups_chars [OF w(2)] by simp
    have "parseIpv6Words (JStr (formatIpv6Words ws)) = Some (l @ replicate (nat (int n)) 0 @ r)"
      using plain_text [OF chars] tidy_count_append [OF tidy_groups [OF w(1)] tidy_groups [OF w(2)]]
        split_tidy_append [OF tidy_groups [OF w(1)] tidy_groups [OF w(2)]] False
        parseHalf_groups [OF w(1)] parseHalf_groups [OF w(2)]
      by (simp add: parseIpv6Words_def f Let_def missing)
    with ws show ?thesis by simp
  qed
qed

end
