(* ===== verification/Net_Properties.thy ===== *)
theory Net_Properties
  imports Net_Cidr Bits
begin

text \<open>
  Netmasks, ports, the IPv6 network, and the properties of the address functions.
\<close>

section \<open>Netmasks\<close>

lemma octet_bits_table:
  "list_all (\<lambda>x. pad_start 8 CHR ''0'' (base_str 2 x)
     = map (\<lambda>b. if b then CHR ''1'' else CHR ''0'') (num_bits x 8)) [0..255]"
  by code_simp

abbreviation bit_chars :: "bool list \<Rightarrow> string" where
  "bit_chars \<equiv> map (\<lambda>b. if b then CHR ''1'' else CHR ''0'')"

lemma octet_bits:
  "0 \<le> x \<Longrightarrow> x \<le> 255 \<Longrightarrow> pad_start 8 CHR ''0'' (base_str 2 x) = bit_chars (num_bits x 8)"
  using octet_bits_table unfolding list_all_iff set_upto by simp

lemma octets_bits:
  assumes "ipv4 n"
  shows "concat (map (\<lambda>x. num_bits x 8) (octets n)) = num_bits n 32"
proof (rule nth_equalityI)
  fix k
  assume "k < length (concat (map (\<lambda>x. num_bits x 8) (octets n)))"
  then have k: "k < 32" by (simp add: octets_def)
  have parts: "octets n = [drop_bit 24 n, take_bit 8 (drop_bit 16 n), take_bit 8 (drop_bit 8 n), take_bit 8 n]"
    by (simp add: octets_def drop_bit_eq_div take_bit_eq_mod)
  consider "k < 8" | "8 \<le> k" "k < 16" | "16 \<le> k" "k < 24" | "24 \<le> k" by linarith
  then show "concat (map (\<lambda>x. num_bits x 8) (octets n)) ! k = num_bits n 32 ! k"
    unfolding parts
    using k by cases (auto simp: nth_append nth_num_bits bit_take_bit_iff bit_drop_bit_eq)
qed (simp add: octets_def)

text \<open>The netmask of a prefix length.\<close>

definition netmask :: "int \<Rightarrow> int" where
  "netmask p = 2 ^ 32 - 2 ^ nat (32 - p)"

lemma num_bits_netmask:
  assumes "k \<le> 32"
  shows "num_bits (2 ^ 32 - 2 ^ (32 - k)) 32 = replicate k True @ replicate (32 - k) False"
proof -
  have "(2::int) ^ 32 - 2 ^ (32 - k) = push_bit (32 - k) (mask k)"
  proof -
    have "(2::int) ^ 32 = 2 ^ (32 - k) * 2 ^ k" using assms by (simp flip: power_add)
    then show ?thesis by (simp add: push_bit_eq_mult mask_eq_exp_minus_1 algebra_simps)
  qed
  then show ?thesis
    using assms by (intro nth_equalityI) (auto simp: nth_num_bits nth_append bit_push_bit_iff bit_mask_iff)
qed

lemma num_bits_inj: "ipv4 m \<Longrightarrow> ipv4 n \<Longrightarrow> num_bits m 32 = num_bits n 32 \<Longrightarrow> m = n"
  unfolding ipv4_def by (metis bits_num_num_bits)

lemma ones_zeros_bits: "ones_zeros (bit_chars bs) \<longleftrightarrow> (\<exists>k \<ge> 1. k \<le> length bs \<and> bs = replicate k True @ replicate (length bs - k) False)"
proof
  assume a: "ones_zeros (bit_chars bs)"
  define r where "r = dropWhile (\<lambda>b. b) bs"
  have drop: "dropWhile (\<lambda>c. c = CHR ''1'') (bit_chars bs) = bit_chars r"
    unfolding r_def by (simp add: dropWhile_map comp_def)
  have "list_all (\<lambda>c. c = CHR ''0'') (bit_chars r)" and len: "length r < length bs"
    using a unfolding ones_zeros_def Let_def drop by simp_all
  then have "\<forall>b \<in> set r. (if b then CHR ''1'' else CHR ''0'') = CHR ''0''" by (simp only: list_all_iff set_map ball_simps)
  then have all: "\<forall>b \<in> set r. \<not> b" by (auto split: if_splits)
  define t where "t = takeWhile (\<lambda>b. b) bs"
  have bs: "bs = t @ r" by (simp add: r_def t_def)
  have "\<forall>b \<in> set t. b" unfolding t_def by (blast dest: set_takeWhileD)
  then have t: "t = replicate (length t) True" by (intro replicate_eqI) auto
  have r: "r = replicate (length r) False" using all by (intro replicate_eqI) auto
  have "length bs = length t + length r" using bs by simp
  with len bs t r show "\<exists>k \<ge> 1. k \<le> length bs \<and> bs = replicate k True @ replicate (length bs - k) False"
    by (intro exI [of _ "length t"]) (auto simp: Suc_le_eq)
next
  assume "\<exists>k \<ge> 1. k \<le> length bs \<and> bs = replicate k True @ replicate (length bs - k) False"
  then obtain k m where k: "1 \<le> k" "bs = replicate k True @ replicate m False" by auto
  have "dropWhile (\<lambda>c. c = CHR ''1'') (bit_chars bs) = replicate m CHR ''0''"
    unfolding k(2) by (simp add: dropWhile_append)
  then show "ones_zeros (bit_chars bs)"
    using k by (simp add: ones_zeros_def Let_def list_all_iff)
qed

text \<open>The bits of a dotted quad.\<close>

lemma dotted_bits:
  assumes "ipv4 n"
  shows "concat (map (\<lambda>octet. pad_start 8 CHR ''0'' (base_str 2 (int_of (number_of_str octet)))) (map dec (octets n)))
    = bit_chars (num_bits n 32)"
proof -
  have "map (\<lambda>octet. pad_start 8 CHR ''0'' (base_str 2 (int_of (number_of_str octet)))) (map dec (octets n))
      = map (\<lambda>x. bit_chars (num_bits x 8)) (octets n)"
    unfolding map_map comp_def
    using octets_range [OF assms] by (intro map_cong) (auto simp: number_of_octet octet_bits)
  then show ?thesis by (simp only: octets_bits [OF assms, symmetric] map_concat map_map comp_def)
qed

lemma netmask_dotted:
  assumes "ipv4 n"
  shows "validIPv4Netmask (JStr (dotted n)) \<longleftrightarrow> (\<exists>p. 1 \<le> p \<and> p \<le> 32 \<and> n = netmask p)"
proof -
  have "validIPv4Netmask (JStr (dotted n)) \<longleftrightarrow> ones_zeros (bit_chars (num_bits n 32))"
    using dotted_bits [OF assms] by (simp add: validIPv4Netmask_def validIPv4_dotted [OF assms] split_dotted [OF assms])
  also have "\<dots> \<longleftrightarrow> (\<exists>k \<ge> 1. k \<le> 32 \<and> num_bits n 32 = replicate k True @ replicate (32 - k) False)"
    unfolding ones_zeros_bits by simp
  also have "\<dots> \<longleftrightarrow> (\<exists>k \<ge> 1. k \<le> 32 \<and> n = 2 ^ 32 - 2 ^ (32 - k))"
  proof -
    have "ipv4 (2 ^ 32 - 2 ^ (32 - k))" if "1 \<le> k" for k :: nat
    proof -
      have "(2::int) ^ (32 - k) \<le> 2 ^ 32" by (intro power_increasing) auto
      then show ?thesis by (simp add: ipv4_def)
    qed
    then show ?thesis using num_bits_inj [OF assms] num_bits_netmask by metis
  qed
  also have "\<dots> \<longleftrightarrow> (\<exists>p. 1 \<le> p \<and> p \<le> 32 \<and> n = netmask p)"
  proof
    assume "\<exists>k \<ge> 1. k \<le> 32 \<and> n = 2 ^ 32 - 2 ^ (32 - k)"
    then obtain k :: nat where "1 \<le> k" "k \<le> 32" "n = 2 ^ 32 - 2 ^ (32 - k)" by blast
    then show "\<exists>p. 1 \<le> p \<and> p \<le> 32 \<and> n = netmask p"
      by (intro exI [of _ "int k"]) (simp add: netmask_def nat_diff_distrib)
  next
    assume "\<exists>p. 1 \<le> p \<and> p \<le> 32 \<and> n = netmask p"
    then obtain p where "1 \<le> p" "p \<le> 32" "n = netmask p" by blast
    then show "\<exists>k \<ge> 1. k \<le> 32 \<and> n = 2 ^ 32 - 2 ^ (32 - k)"
      by (intro exI [of _ "nat p"]) (auto simp: netmask_def nat_diff_distrib)
  qed
  finally show ?thesis .
qed

section \<open>Ports\<close>

lemma digits_span: "list_all is_digit a \<Longrightarrow> \<not> is_digit c \<Longrightarrow> takeWhile is_digit (a @ c # t) = a \<and> dropWhile is_digit (a @ c # t) = c # t"
  by (induction a) auto

lemma digits_span_all: "list_all is_digit a \<Longrightarrow> takeWhile is_digit a = a \<and> dropWhile is_digit a = []"
  by (induction a) auto

lemma trim_no_ws: "list_all (\<lambda>c. is_digit c \<or> c = CHR ''-'') s \<Longrightarrow> trim s = s"
  by (rule trim_id) (auto simp: list_all_iff is_digit_def is_ws_def cc_def)

lemma dec_all_digits: "0 \<le> n \<Longrightarrow> list_all is_digit (dec n)"
  using dec_digits by (simp add: all_digits_def)

lemma port_match_dec: "0 \<le> n \<Longrightarrow> port_match (dec n) = Some (dec n, None)"
  unfolding port_match_def Let_def
  by (simp only: digits_span_all dec_all_digits base_str_not_Nil if_False if_True simp_thms)

lemma port_match_range:
  "0 \<le> a \<Longrightarrow> 0 \<le> b \<Longrightarrow> port_match (dec a @ ''-'' @ dec b) = Some (dec a, Some (dec b))"
  using dec_digits [of b]
  by (simp add: port_match_def Let_def digits_span [OF dec_all_digits])

lemma trim_dec: "0 \<le> n \<Longrightarrow> trim (dec n) = dec n"
  using dec_all_digits by simp

lemma trim_range: "0 \<le> a \<Longrightarrow> 0 \<le> b \<Longrightarrow> trim (dec a @ ''-'' @ dec b) = dec a @ ''-'' @ dec b"
  using dec_all_digits [of a] dec_all_digits [of b] by (intro trim_no_ws) (auto simp: list_all_iff)

section \<open>The IPv6 network\<close>

lemma mask_word_bits:
  assumes "word16 w" "j < 16"
  shows "bit (mask_word p i w) (15 - j) \<longleftrightarrow> 16 * int i + int j < p \<and> bit w (15 - j)"
proof -
  have ones: "bit (0xffff :: int) k \<longleftrightarrow> k < 16" for k
    using bit_mask_iff [of 16 k, where ?'a = int] by (simp add: mask_eq_exp_minus_1)
  show ?thesis
  proof (cases "0 < p - int i * 16 \<and> p - int i * 16 < 16")
    case True
    define k where "k = nat (16 - (p - int i * 16))"
    have k: "k \<le> 15 - j \<longleftrightarrow> 16 * int i + int j < p" and kk: "k < 16"
      using True assms(2) unfolding k_def by linarith+
    have "mask_word p i w = js_and w (js_and (js_shl 0xffff k) 0xffff)"
      using True by (simp add: mask_word_def Let_def k_def)
    then have "bit (mask_word p i w) (15 - j) \<longleftrightarrow> bit w (15 - j) \<and> bit (js_shl 0xffff k) (15 - j)"
      using assms(2) by (auto simp: js_and_def bit_and_iff bit_to_int32_low ones)
    also have "bit (js_shl 0xffff k) (15 - j) \<longleftrightarrow> k \<le> 15 - j"
      using assms(2) kk by (auto simp: js_shl_less bit_to_int32_low bit_push_bit_iff ones)
    finally show ?thesis using k by auto
  qed (use assms in \<open>auto simp: mask_word_def Let_def\<close>)
qed

lemma mask_word_range:
  assumes "word16 w"
  shows "word16 (mask_word p i w)"
proof -
  have w: "0 \<le> w" "take_bit 16 w = w" using assms by (simp_all add: word16_def take_bit_int_eq_self)
  have high: "bit w k \<Longrightarrow> k < 16" for k using w(2) by (metis bit_take_bit_iff)
  have "word16 (js_and w m)" for m
  proof -
    have "take_bit 16 (js_and w m) = js_and w m"
      by (rule bit_eqI) (auto simp: bit_take_bit_iff js_and_def bit_and_iff bit_to_int32 min_def dest: high split: if_splits)
    moreover have "0 \<le> take_bit 16 (js_and w m)" "take_bit 16 (js_and w m) < 2 ^ 16"
      by (rule take_bit_nonnegative, rule take_bit_int_less_exp)
    ultimately show ?thesis by (simp add: word16_def)
  qed
  then show ?thesis using assms by (auto simp: mask_word_def Let_def word16_def)
qed

section \<open>Properties\<close>

text \<open>C7: parsing an IPv6 address that was printed gives its eight groups back, whichever run of
  zeros the printer shortened.\<close>

theorem ipv6_roundtrip:
  assumes "length ws = 8" "list_all word16 ws"
  shows "parseIpv6Words (JStr (formatIpv6Words ws)) = Some ws"
  using assms by (rule parse_format)

theorem ipv6_roundtrip_witness:
  "parseIpv6Words (JStr (formatIpv6Words [0x2001, 0xdb8, 0, 0, 1, 0, 0, 0])) = Some [0x2001, 0xdb8, 0, 0, 1, 0, 0, 0]"
  by (rule ipv6_roundtrip) (simp_all add: word16_def)

text \<open>The network of an IPv6 address prints eight groups that keep exactly the first \<open>p\<close> of
  the 128 bits, and clear the others.\<close>

theorem ipv6_network:
  assumes "parseIpv6Words address = Some ws" "length ws = 8" "list_all word16 ws" "0 \<le> p" "p \<le> 128"
  shows "\<exists>ns. ipv6NetworkCidr address (JNum (num_of_int p)) = Some (formatIpv6Words ns @ ''/'' @ dec p)
    \<and> parseIpv6Words (JStr (formatIpv6Words ns)) = Some ns
    \<and> list_all (\<lambda>k. bit (ns ! (k div 16)) (15 - k mod 16) = (int k < p \<and> bit (ws ! (k div 16)) (15 - k mod 16))) [0..<128]"
proof -
  define ns where "ns = map2 (mask_word p) [0..<length ws] ws"
  have nth: "ns ! i = mask_word p i (ws ! i)" if "i < 8" for i using that assms(2) by (simp add: ns_def)
  have w: "word16 (ws ! i)" if "i < 8" for i using that assms(2,3) by (simp add: list_all_length)
  have "length ns = 8" using assms(2) by (simp add: ns_def)
  moreover from this have "list_all word16 ns"
    using nth w by (simp add: list_all_length mask_word_range)
  moreover have "ipv6NetworkCidr address (JNum (num_of_int p)) = Some (formatIpv6Words ns @ ''/'' @ dec p)"
    using assms(1,4,5) by (simp add: ipv6NetworkCidr_def ns_def)
  moreover have "bit (ns ! (k div 16)) (15 - k mod 16) = (int k < p \<and> bit (ws ! (k div 16)) (15 - k mod 16))"
    if "k < 128" for k
  proof -
    have i: "k div 16 < 8" using that by linarith
    have "16 * int (k div 16) + int (k mod 16) = int k"
      by (metis mult_div_mod_eq of_nat_add of_nat_mult of_nat_numeral)
    then show ?thesis using mask_word_bits [OF w [OF i], of "k mod 16" p "k div 16"] by (simp add: nth [OF i])
  qed
  ultimately show ?thesis by (intro exI [of _ ns]) (simp add: parse_format list_all_iff)
qed

theorem ipv6_network_witness:
  "\<exists>ns. ipv6NetworkCidr (JStr (formatIpv6Words [0xfe80, 1, 2, 3, 4, 5, 6, 7])) (JNum (num_of_int 20))
     = Some (formatIpv6Words ns @ ''/'' @ dec 20)"
proof -
  have ws: "length [0xfe80, 1, 2, 3, 4, 5, 6, 7 :: int] = 8" "list_all word16 [0xfe80, 1, 2, 3, 4, 5, 6, 7]"
    by (simp_all add: word16_def)
  show ?thesis using ipv6_network [OF parse_format [OF ws] ws, of 20] by auto
qed

text \<open>The network of a dotted quad and a prefix length is the dotted quad of the number with
  all but its first \<open>p\<close> of 32 bits cleared, although the code computes with signed 32-bit
  shifts.\<close>

theorem ipv4_network:
  assumes "ipv4 n" "0 \<le> p" "p \<le> 32"
  shows "ipv4NetworkCidr (JStr (dotted n)) (JNum (num_of_int p))
    = Some (dotted (n div 2 ^ nat (32 - p) * 2 ^ nat (32 - p)) @ ''/'' @ dec p)"
  using assms by (rule ipv4NetworkCidr_dotted)

theorem ipv4_network_witness:
  "ipv4NetworkCidr (JStr (dotted 0xc0a80a85)) (JNum (num_of_int 24)) = Some (dotted 0xc0a80a00 @ ''/24'')"
proof -
  have "dec 24 = ''24''" by code_simp
  then show ?thesis using ipv4_network [of "0xc0a80a85" 24] by (simp add: ipv4_def)
qed

text \<open>A dotted quad is accepted as a netmask exactly when it is the mask of a prefix length
  from 1 to 32: ones followed by zeros.\<close>

theorem validIPv4Netmask_iff:
  assumes "ipv4 n"
  shows "validIPv4 (JStr (dotted n)) \<and> (validIPv4Netmask (JStr (dotted n)) \<longleftrightarrow> (\<exists>p. 1 \<le> p \<and> p \<le> 32 \<and> n = netmask p))"
  using assms by (simp add: validIPv4_dotted netmask_dotted)

theorem validIPv4Netmask_iff_witness: "validIPv4Netmask (JStr (dotted 0xfffffe00))"
proof -
  have "netmask 23 = 0xfffffe00" by (simp add: netmask_def)
  then show ?thesis
    using validIPv4Netmask_iff [of "0xfffffe00"] by (auto simp: ipv4_def intro!: exI [of _ 23])
qed

text \<open>A port is accepted exactly from 1 to 65535, a range only when ranges are allowed and
  its ends are ports in order.\<close>

theorem validPort_iff:
  assumes "0 \<le> a" "a < 10 ^ 300" "0 \<le> b" "b < 10 ^ 300"
  shows "(validPort (JStr (dec a)) r \<longleftrightarrow> 1 \<le> a \<and> a \<le> 65535)
    \<and> (validPort (JStr (dec a @ ''-'' @ dec b)) r \<longleftrightarrow> r \<and> 1 \<le> a \<and> a \<le> b \<and> b \<le> 65535)"
proof -
  have n: "number_of_str (dec a) = num_of_int a" "number_of_str (dec b) = num_of_int b"
    using assms number_of_dec by blast+
  have single: "validPort (JStr (dec a)) r \<longleftrightarrow> 1 \<le> a \<and> a \<le> 65535"
    using assms(1) by (auto simp: validPort_def trim_dec port_match_dec n)
  have "validPort (JStr (dec a @ ''-'' @ dec b)) r \<longleftrightarrow> r \<and> 1 \<le> a \<and> a \<le> b \<and> b \<le> 65535"
    unfolding validPort_def arg_str_JStr trim_range [OF assms(1,3)] port_match_range [OF assms(1,3)]
    by (auto simp: n)
  with single show ?thesis ..
qed

theorem validPort_iff_witness: "validPort (JStr (dec 8000 @ ''-'' @ dec 8010)) True"
  using validPort_iff [of 8000 8010 True] by simp

end
