(* ===== verification/Uci.thy ===== *)
theory Uci
  imports Js_Value
begin

text \<open>
  The configuration store that the pages edit: LuCI's \<open>uci\<close> module, which is not part of the
  repository.  Its operations are a parameter (\<open>uci\<close>) of the definitions that use it, and what
  the code relies on is the locale \<open>uci_store\<close>: a section that was added is there with its
  type, setting an option changes this option of this section only, removing removes.  The locale
  holds for a concrete store, a list of sections, on which witnesses are evaluated.
\<close>

section \<open>The interface\<close>

record 'u uci =
  uci_get :: "'u \<Rightarrow> string \<Rightarrow> string \<Rightarrow> jsval"
  uci_sections :: "'u \<Rightarrow> string \<Rightarrow> string \<Rightarrow> jsval list"
  uci_add :: "'u \<Rightarrow> string \<Rightarrow> string \<Rightarrow> string \<Rightarrow> 'u"
  uci_set :: "'u \<Rightarrow> string \<Rightarrow> string \<Rightarrow> string \<Rightarrow> jsval \<Rightarrow> 'u"
  uci_remove :: "'u \<Rightarrow> string \<Rightarrow> string \<Rightarrow> 'u"

definition is_object :: "jsval \<Rightarrow> bool" where
  "is_object v = (case v of JObj ps \<Rightarrow> True | _ \<Rightarrow> False)"

text \<open>The names of options do not start with a dot.\<close>

definition option_name :: "string \<Rightarrow> bool" where
  "option_name k \<longleftrightarrow> k \<noteq> [] \<and> hd k \<noteq> CHR ''.''"

text \<open>Setting several options of one section, in order.\<close>

definition set_options :: "'u uci \<Rightarrow> string \<Rightarrow> string \<Rightarrow> (string \<times> jsval) list \<Rightarrow> 'u \<Rightarrow> 'u" where
  "set_options U c n kvs u = foldl (\<lambda>u (k, v). uci_set U u c n k v) u kvs"

locale uci_store =
  fixes U :: "'u uci"
  assumes get_shape: "uci_get U u c n = JNull \<or> is_object (uci_get U u c n)"
    and add_type: "uci_get U u c n = JNull \<Longrightarrow>
      is_object (uci_get U (uci_add U u c t n) c n)
      \<and> field (uci_get U (uci_add U u c t n) c n) ''.type'' = JStr t
      \<and> (\<forall>k. option_name k \<longrightarrow> field (uci_get U (uci_add U u c t n) c n) k = JUndef)"
    and add_other: "(c', n') \<noteq> (c, n) \<Longrightarrow> uci_get U (uci_add U u c t n) c' n' = uci_get U u c' n'"
    and set_option: "uci_get U u c n \<noteq> JNull \<Longrightarrow> option_name k \<Longrightarrow>
      is_object (uci_get U (uci_set U u c n k v) c n)
      \<and> (\<forall>j. field (uci_get U (uci_set U u c n k v) c n) j = (if j = k then v else field (uci_get U u c n) j))"
    and set_other: "(c', n') \<noteq> (c, n) \<Longrightarrow> uci_get U (uci_set U u c n k v) c' n' = uci_get U u c' n'"
    and remove_this: "uci_get U (uci_remove U u c n) c n = JNull"
    and remove_other: "(c', n') \<noteq> (c, n) \<Longrightarrow> uci_get U (uci_remove U u c n) c' n' = uci_get U u c' n'"
    and sections_get: "s \<in> set (uci_sections U u c t) \<Longrightarrow>
      \<exists>n. field s ''.name'' = JStr n \<and> field s ''.type'' = JStr t \<and> uci_get U u c n = s"
begin

lemma set_options_other:
  "(c', n') \<noteq> (c, n) \<Longrightarrow> uci_get U (set_options U c n kvs u) c' n' = uci_get U u c' n'"
  by (induction kvs arbitrary: u) (auto simp: set_options_def set_other)

lemma set_options_fields:
  assumes "uci_get U u c n \<noteq> JNull" "\<forall>(k, v) \<in> set kvs. option_name k"
  shows "is_object (uci_get U (set_options U c n kvs u) c n)
    \<and> field (uci_get U (set_options U c n kvs u) c n) j
      = (case map_of (rev kvs) j of Some v \<Rightarrow> v | None \<Rightarrow> field (uci_get U u c n) j)"
  using assms
proof (induction kvs arbitrary: u rule: rev_induct)
  case Nil
  then show ?case using get_shape [of u c n] by (auto simp: set_options_def)
next
  case (snoc kv kvs)
  obtain k v where kv: "kv = (k, v)" by (cases kv)
  let ?u = "set_options U c n kvs u"
  have IH: "is_object (uci_get U ?u c n)
      \<and> field (uci_get U ?u c n) j
        = (case map_of (rev kvs) j of Some v \<Rightarrow> v | None \<Rightarrow> field (uci_get U u c n) j)"
    using snoc by auto
  then have "uci_get U ?u c n \<noteq> JNull" by (auto simp: is_object_def)
  then have "is_object (uci_get U (uci_set U ?u c n k v) c n)
      \<and> field (uci_get U (uci_set U ?u c n k v) c n) j = (if j = k then v else field (uci_get U ?u c n) j)"
    using set_option [of ?u c n k v] snoc.prems(2) kv by auto
  moreover have "set_options U c n (kvs @ [kv]) u = uci_set U ?u c n k v" by (simp add: set_options_def kv)
  ultimately show ?case using IH by (simp add: kv)
qed

end

section \<open>A concrete store\<close>

type_synonym list_store = "((string \<times> string) \<times> (string \<times> jsval) list) list"

fun assoc_set :: "'k \<Rightarrow> 'v \<Rightarrow> ('k \<times> 'v) list \<Rightarrow> ('k \<times> 'v) list" where
  "assoc_set k v [] = [(k, v)]"
| "assoc_set k v (p # ps) = (if fst p = k then (k, v) # ps else p # assoc_set k v ps)"

lemma map_of_assoc_set: "map_of (assoc_set k v ps) = (map_of ps)(k \<mapsto> v)"
  by (induction ps) auto

definition list_get :: "list_store \<Rightarrow> string \<Rightarrow> string \<Rightarrow> jsval" where
  "list_get u c n = (case map_of u (c, n) of None \<Rightarrow> JNull | Some ps \<Rightarrow> JObj ps)"

definition list_uci :: "list_store uci" where
  "list_uci = \<lparr>uci_get = list_get,
     uci_sections = (\<lambda>u c t. filter (\<lambda>s. field s ''.type'' = JStr t)
        (map (\<lambda>(c', n). list_get u c' n)
          (filter (\<lambda>(c', n). c' = c \<and> field (list_get u c' n) ''.name'' = JStr n) (map fst u)))),
     uci_add = (\<lambda>u c t n. assoc_set (c, n) [(''.type'', JStr t), (''.name'', JStr n)] u),
     uci_set = (\<lambda>u c n k v. case map_of u (c, n) of None \<Rightarrow> u
                 | Some ps \<Rightarrow> assoc_set (c, n) (assoc_set k v ps) u),
     uci_remove = (\<lambda>u c n. filter (\<lambda>(p, ps). p \<noteq> (c, n)) u)\<rparr>"

lemma map_of_filter_key: "map_of (filter (\<lambda>(p, v). p \<noteq> k) u) j = (if j = k then None else map_of u j)"
  by (induction u) auto

lemma field_JObj: "field (JObj ps) k = (case map_of ps k of Some w \<Rightarrow> w | None \<Rightarrow> JUndef)"
  by (simp add: field_def)

interpretation list_store: uci_store list_uci
proof (unfold_locales, goal_cases)
  case (1 u c n)
  then show ?case by (auto simp: list_uci_def list_get_def is_object_def split: option.splits)
next
  case (2 u c n t)
  then show ?case
    by (auto simp: list_uci_def list_get_def is_object_def field_JObj map_of_assoc_set option_name_def
        split: option.splits)
next
  case (3 c' n' c n u t)
  then show ?case by (auto simp: list_uci_def list_get_def map_of_assoc_set)
next
  case (4 u c n k v)
  then show ?case
    by (auto simp: list_uci_def list_get_def is_object_def field_JObj map_of_assoc_set split: option.splits)
next
  case (5 c' n' c n u k v)
  then show ?case by (auto simp: list_uci_def list_get_def map_of_assoc_set split: option.splits)
next
  case (6 u c n)
  then show ?case by (simp add: list_uci_def list_get_def map_of_filter_key)
next
  case (7 c' n' c n u)
  then show ?case by (auto simp: list_uci_def list_get_def map_of_filter_key)
next
  case (8 s u c t)
  then show ?case by (auto simp: list_uci_def)
qed

end
