(* ===== verification/Guest_Network.thy ===== *)
theory Guest_Network
  imports Uci
begin

text \<open>
  The guest network of \<open>freenetic-network.js\<close>: named firewall rules, the guest zone and the
  guest Wi-Fi sections are owned by Freenetic (option \<open>freenetic_managed\<close>), provisioning is
  idempotent and sections of the user are left alone.  A function that throws returns the store as
  it was left, with the message of the error.
\<close>

section \<open>Ownership\<close>

definition GUEST_INPUT_RULES :: "(string \<times> (string \<times> jsval) list) list" where
  "GUEST_INPUT_RULES = [
     (''freenetic_guest_dhcp'', [
        (''name'', JStr ''Allow guest DHCP''), (''src'', JStr ''guest''), (''proto'', JStr ''udp''),
        (''dest_port'', JStr ''67''), (''target'', JStr ''ACCEPT''), (''family'', JStr ''ipv4''),
        (''freenetic_managed'', JStr ''1'')]),
     (''freenetic_guest_dns'', [
        (''name'', JStr ''Allow guest DNS''), (''src'', JStr ''guest''),
        (''proto'', JArr [JStr ''tcp'', JStr ''udp'']),
        (''dest_port'', JStr ''53''), (''target'', JStr ''ACCEPT''), (''family'', JStr ''ipv4''),
        (''freenetic_managed'', JStr ''1'')])]"

definition isManaged :: "jsval \<Rightarrow> bool" where
  "isManaged section \<longleftrightarrow> truthy section \<and> field section ''freenetic_managed'' = JStr ''1''"

definition ensureRule :: "'u uci \<Rightarrow> string \<times> (string \<times> jsval) list \<Rightarrow> 'u \<Rightarrow> 'u \<times> string option" where
  "ensureRule U = (\<lambda>(name, vals) u.
     let existing = uci_get U u ''firewall'' name
     in if nullish existing
        then (set_options U ''firewall'' name vals (uci_add U u ''firewall'' ''rule'' name), None)
        else if field existing ''.type'' \<noteq> JStr ''rule''
        then (u, Some (''firewall.'' @ name @ '' exists but is not a rule''))
        else if \<not> isManaged existing
        then (u, Some (''firewall.'' @ name @ '' exists but is not Freenetic-managed''))
        else (set_options U ''firewall'' name vals u, None))"

definition adoptLegacySection ::
    "'u uci \<Rightarrow> string \<Rightarrow> string \<Rightarrow> string \<Rightarrow> (jsval \<Rightarrow> bool) \<Rightarrow> 'u \<Rightarrow> 'u \<times> bool" where
  "adoptLegacySection U config sectionName type predicate u =
     (let section = uci_get U u config sectionName
      in if \<not> truthy section \<or> field section ''.type'' \<noteq> JStr type \<or> isManaged section \<or> \<not> predicate section
         then (u, False)
         else (uci_set U u config sectionName ''freenetic_managed'' (JStr ''1''), True))"

definition isExactLegacyGuestZone :: "jsval \<Rightarrow> bool" where
  "isExactLegacyGuestZone section \<longleftrightarrow>
     truthy section \<and> field section ''.type'' = JStr ''zone'' \<and> field section ''name'' = JStr ''guest''
     \<and> (if is_array (field section ''network'')
        then length (elements (field section ''network'')) = 1
             \<and> elements (field section ''network'') ! 0 = JStr ''guest''
        else field section ''network'' = JStr ''guest'')"

definition assertGuestFirewallOwnership :: "'u uci \<Rightarrow> 'u \<Rightarrow> string option" where
  "assertGuestFirewallOwnership U u =
     (let zone = uci_get U u ''firewall'' ''guest''
      in if \<not> nullish zone \<and> \<not> isManaged zone \<and> \<not> isExactLegacyGuestZone zone
         then Some ''firewall.guest exists but is not a Freenetic guest zone'' else None)"

section \<open>Adoption of the objects of older versions\<close>

definition legacy_wifi :: "'u uci \<Rightarrow> 'u \<Rightarrow> jsval \<Rightarrow> bool" where
  "legacy_wifi U u section =
     (let name = field section ''.name''; radio = field section ''device'';
          legacyName = (if is_string radio then JStr (''guest_'' @ to_str radio) else JStr []);
          knownRadio = (is_string radio
            \<and> list_ex (\<lambda>device. field device ''.name'' = radio) (uci_sections U u ''wireless'' ''wifi-device''))
      in \<not> isManaged section \<and> name = legacyName \<and> knownRadio
         \<and> field section ''.type'' = JStr ''wifi-iface'' \<and> field section ''mode'' = JStr ''ap''
         \<and> field section ''network'' = JStr ''guest'' \<and> field section ''isolate'' = JStr ''1'')"

definition legacy_device :: "jsval \<Rightarrow> bool" where
  "legacy_device section \<longleftrightarrow> \<not> isManaged section \<and> field section ''name'' = JStr ''br-guest''
     \<and> field section ''type'' = JStr ''bridge'' \<and> field section ''bridge_empty'' = JStr ''1''"

definition legacy_interface :: "jsval \<Rightarrow> bool" where
  "legacy_interface section \<longleftrightarrow> field section ''proto'' = JStr ''static'' \<and> field section ''device'' = JStr ''br-guest''"

definition legacy_dhcp :: "jsval \<Rightarrow> bool" where
  "legacy_dhcp section \<longleftrightarrow> field section ''interface'' = JStr ''guest''"

definition legacy_forwarding :: "jsval \<Rightarrow> bool" where
  "legacy_forwarding section \<longleftrightarrow> field section ''src'' = JStr ''guest'' \<and> field section ''dest'' = JStr ''wan''"

definition rule_value :: "(string \<times> jsval) list \<Rightarrow> string \<Rightarrow> jsval" where
  "rule_value vals k = field (JObj vals) k"

definition legacy_rule :: "(string \<times> jsval) list \<Rightarrow> jsval \<Rightarrow> bool" where
  "legacy_rule vals section \<longleftrightarrow>
     field section ''name'' = rule_value vals ''name'' \<and> field section ''src'' = rule_value vals ''src''
     \<and> to_str (or_else (field section ''dest_port'') (JStr [])) = to_str (rule_value vals ''dest_port'')
     \<and> field section ''target'' = rule_value vals ''target''
     \<and> field section ''family'' = rule_value vals ''family''"

definition adoptLegacyGuest :: "'u uci \<Rightarrow> 'u \<Rightarrow> 'u" where
  "adoptLegacyGuest U u0 =
     (let u = foldl (\<lambda>u section.
              if legacy_wifi U u section
              then uci_set U u ''wireless'' (to_str (field section ''.name'')) ''freenetic_managed'' (JStr ''1'')
              else u) u0 (uci_sections U u0 ''wireless'' ''wifi-iface'');
          u = foldl (\<lambda>u section.
              if legacy_device section
              then uci_set U u ''network'' (to_str (field section ''.name'')) ''freenetic_managed'' (JStr ''1'')
              else u) u (uci_sections U u ''network'' ''device'');
          u = fst (adoptLegacySection U ''network'' ''guest'' ''interface'' legacy_interface u);
          u = fst (adoptLegacySection U ''dhcp'' ''guest'' ''dhcp'' legacy_dhcp u);
          u = fst (adoptLegacySection U ''firewall'' ''guest'' ''zone'' isExactLegacyGuestZone u);
          u = fst (adoptLegacySection U ''firewall'' ''guest_wan_fwd'' ''forwarding'' legacy_forwarding u)
      in foldl (\<lambda>u (name, vals). fst (adoptLegacySection U ''firewall'' name ''rule'' (legacy_rule vals) u))
           u GUEST_INPUT_RULES)"

section \<open>Guest Wi-Fi and firewall\<close>

definition ensureGuestWifi :: "'u uci \<Rightarrow> string \<Rightarrow> jsval \<Rightarrow> jsval \<Rightarrow> 'u \<Rightarrow> 'u \<times> (string + string)" where
  "ensureGuestWifi U sectionName radioName networkName u =
     (let existing = uci_get U u ''wireless'' sectionName
      in if nullish existing
         then (set_options U ''wireless'' sectionName
                 [(''device'', radioName), (''mode'', JStr ''ap''), (''network'', networkName),
                  (''isolate'', JStr ''1''), (''freenetic_managed'', JStr ''1'')]
                 (uci_add U u ''wireless'' ''wifi-iface'' sectionName), Inr sectionName)
         else if field existing ''.type'' \<noteq> JStr ''wifi-iface'' \<or> \<not> isManaged existing
         then (u, Inl (''wireless.'' @ sectionName @ '' exists but is not Freenetic-managed''))
         else if field existing ''device'' \<noteq> radioName \<or> field existing ''mode'' \<noteq> JStr ''ap''
                 \<or> field existing ''network'' \<noteq> networkName
         then (u, Inl (''wireless.'' @ sectionName @ '' does not match the Freenetic guest network''))
         else (uci_set U u ''wireless'' sectionName ''isolate'' (JStr ''1''), Inr sectionName))"

text \<open>\<open>forEach\<close> with a callback that can throw.\<close>

fun for_each :: "('a \<Rightarrow> 'u \<Rightarrow> 'u \<times> string option) \<Rightarrow> 'a list \<Rightarrow> 'u \<Rightarrow> 'u \<times> string option" where
  "for_each f [] u = (u, None)"
| "for_each f (x # xs) u =
     (case f x u of (u', None) \<Rightarrow> for_each f xs u' | (u', Some e) \<Rightarrow> (u', Some e))"

definition ensureGuestFirewall :: "'u uci \<Rightarrow> 'u \<Rightarrow> 'u \<times> string option" where
  "ensureGuestFirewall U u =
     (let zone = uci_get U u ''firewall'' ''guest''
      in if nullish zone \<or> field zone ''.type'' \<noteq> JStr ''zone''
         then (u, Some ''firewall.guest zone must exist before it is secured'')
         else if \<not> isManaged zone
         then (u, Some ''firewall.guest exists but is not Freenetic-managed'')
         else for_each (ensureRule U) GUEST_INPUT_RULES
                (uci_set U u ''firewall'' ''guest'' ''input'' (JStr ''REJECT'')))"

definition removeGuestFirewallRules :: "'u uci \<Rightarrow> 'u \<Rightarrow> 'u" where
  "removeGuestFirewallRules U u =
     foldl (\<lambda>u (name, vals). if isManaged (uci_get U u ''firewall'' name)
                             then uci_remove U u ''firewall'' name else u) u GUEST_INPUT_RULES"

section \<open>What the operations keep\<close>

text \<open>A section of the user: it is there and does not carry the marker.\<close>

definition foreign :: "'u uci \<Rightarrow> 'u \<Rightarrow> string \<Rightarrow> string \<Rightarrow> bool" where
  "foreign U u c n \<longleftrightarrow> uci_get U u c n \<noteq> JNull \<and> \<not> isManaged (uci_get U u c n)"

text \<open>Two stores with the same contents.\<close>

definition same_store :: "'u uci \<Rightarrow> 'u \<Rightarrow> 'u \<Rightarrow> bool" where
  "same_store U u u' \<longleftrightarrow> (\<forall>c n. is_object (uci_get U u c n) = is_object (uci_get U u' c n)
     \<and> (\<forall>k. field (uci_get U u c n) k = field (uci_get U u' c n) k))"

text \<open>The rule as provisioning leaves it.\<close>

definition rule_secured :: "'u uci \<Rightarrow> 'u \<Rightarrow> string \<times> (string \<times> jsval) list \<Rightarrow> bool" where
  "rule_secured U u = (\<lambda>(name, vals). field (uci_get U u ''firewall'' name) ''.type'' = JStr ''rule''
     \<and> list_all (\<lambda>(k, v). field (uci_get U u ''firewall'' name) k = v) vals)"

end
