(* ===== verification/Guest_Properties.thy ===== *)
theory Guest_Properties
  imports Guest_Network
begin

text \<open>
  The guest network over any store that satisfies \<open>uci_store\<close>: sections of the user are never
  changed, provisioning secures the zone and is idempotent, removal takes only what is owned.
\<close>

lemma managed_present: "isManaged s \<Longrightarrow> s \<noteq> JNull"
  by (auto simp: isManaged_def truthy_def)

lemma rule_values:
  assumes "(name, vals) \<in> set GUEST_INPUT_RULES"
  shows "distinct (map fst vals)" "\<forall>(k, v) \<in> set vals. option_name k"
    and "map_of vals ''freenetic_managed'' = Some (JStr ''1'')" "map_of vals ''.type'' = None"
    and "name \<noteq> ''guest''"
  using assms by (auto simp: GUEST_INPUT_RULES_def option_name_def)

lemma rule_names: "distinct (map fst GUEST_INPUT_RULES)"
  by (simp add: GUEST_INPUT_RULES_def)

lemma field_not_object: "\<not> is_object s \<Longrightarrow> field s k = JUndef"
  by (cases s) (simp_all add: field_def is_object_def)

lemma object_truthy: "is_object s \<Longrightarrow> truthy s"
  by (cases s) (simp_all add: is_object_def truthy_def)

lemma map_of_rev_distinct: "distinct (map fst xs) \<Longrightarrow> map_of (rev xs) = map_of xs"
  by (simp add: map_of_inject_set rev_map [symmetric])

text \<open>The shape of a section that an older version created: it says nothing of the marker.\<close>

definition legacy_object :: "string \<Rightarrow> string \<Rightarrow> jsval \<Rightarrow> bool" where
  "legacy_object c n s \<longleftrightarrow>
     (c = ''wireless'' \<and> starts_with ''guest_'' n \<and> field s ''.type'' = JStr ''wifi-iface''
       \<and> field s ''mode'' = JStr ''ap'' \<and> field s ''network'' = JStr ''guest'' \<and> field s ''isolate'' = JStr ''1'')
   \<or> (c = ''network'' \<and> field s ''.type'' = JStr ''device'' \<and> field s ''name'' = JStr ''br-guest''
       \<and> field s ''type'' = JStr ''bridge'' \<and> field s ''bridge_empty'' = JStr ''1'')
   \<or> (c = ''network'' \<and> n = ''guest'' \<and> field s ''.type'' = JStr ''interface'' \<and> legacy_interface s)
   \<or> (c = ''dhcp'' \<and> n = ''guest'' \<and> field s ''.type'' = JStr ''dhcp'' \<and> legacy_dhcp s)
   \<or> (c = ''firewall'' \<and> n = ''guest'' \<and> field s ''.type'' = JStr ''zone'' \<and> isExactLegacyGuestZone s)
   \<or> (c = ''firewall'' \<and> n = ''guest_wan_fwd'' \<and> field s ''.type'' = JStr ''forwarding'' \<and> legacy_forwarding s)
   \<or> (c = ''firewall'' \<and> list_ex (\<lambda>(name, vals). n = name \<and> field s ''.type'' = JStr ''rule'' \<and> legacy_rule vals s)
        GUEST_INPUT_RULES)"

text \<open>\<open>t\<close> is \<open>s\<close>, or \<open>s\<close> has the shape and \<open>t\<close> differs from it in the marker only.\<close>

definition adopted :: "string \<Rightarrow> string \<Rightarrow> jsval \<Rightarrow> jsval \<Rightarrow> bool" where
  "adopted c n s t \<longleftrightarrow> t = s \<or> (legacy_object c n s \<and> is_object t \<and> field t ''freenetic_managed'' = JStr ''1''
     \<and> (\<forall>k. k \<noteq> ''freenetic_managed'' \<longrightarrow> field t k = field s k))"

lemma legacy_object_fields:
  assumes "legacy_object c n t" "truthy s = truthy t" "\<forall>k. k \<noteq> ''freenetic_managed'' \<longrightarrow> field t k = field s k"
  shows "legacy_object c n s"
proof -
  have f: "field s k = field t k" if "k \<noteq> ''freenetic_managed''" for k using assms(3) that by simp
  have "legacy_object c n s = legacy_object c n t"
    unfolding legacy_object_def legacy_interface_def legacy_dhcp_def isExactLegacyGuestZone_def
      legacy_forwarding_def legacy_rule_def assms(2)
    by (simp add: f cong: if_cong split del: if_split)
  with assms(1) show ?thesis by simp
qed

lemma legacy_object_present: "legacy_object c n s \<Longrightarrow> is_object s"
  by (rule ccontr) (auto simp: legacy_object_def field_not_object list_ex_iff)

lemma adopted_shape: "adopted c n s t \<Longrightarrow> legacy_object c n t \<Longrightarrow> legacy_object c n s"
  using legacy_object_present object_truthy unfolding adopted_def by blast

context uci_store
begin

lemma present_object: "uci_get U u c n \<noteq> JNull \<Longrightarrow> is_object (uci_get U u c n)"
  using get_shape by blast

lemma nullish_get: "nullish (uci_get U u c n) \<longleftrightarrow> uci_get U u c n = JNull"
  using get_shape [of u c n] by (auto simp: nullish_def is_object_def split: jsval.splits)

lemma managed_field: "isManaged (uci_get U u c n) \<longleftrightarrow> field (uci_get U u c n) ''freenetic_managed'' = JStr ''1''"
  using get_shape [of u c n] object_truthy [of "uci_get U u c n"]
  by (auto simp: isManaged_def field_def)

lemma set_options_values:
  assumes "uci_get U u c n \<noteq> JNull" "\<forall>(k, v) \<in> set kvs. option_name k" "distinct (map fst kvs)"
  shows "is_object (uci_get U (set_options U c n kvs u) c n)"
    and "field (uci_get U (set_options U c n kvs u) c n) j
      = (case map_of kvs j of Some v \<Rightarrow> v | None \<Rightarrow> field (uci_get U u c n) j)"
  using set_options_fields [OF assms(1,2), of j] assms(3)
  by (simp_all add: map_of_rev_distinct [OF assms(3)])

subsection \<open>One rule\<close>

lemma ensureRule_other:
  "(c, n) \<noteq> (''firewall'', fst r) \<Longrightarrow> uci_get U (fst (ensureRule U r u)) c n = uci_get U u c n"
  by (cases r) (auto simp: ensureRule_def Let_def set_options_other add_other)

lemma ensureRule_foreign:
  assumes "foreign U u c n"
  shows "uci_get U (fst (ensureRule U r u)) c n = uci_get U u c n"
proof (cases "(c, n) = (''firewall'', fst r)")
  case True
  with assms show ?thesis by (cases r) (auto simp: ensureRule_def Let_def foreign_def nullish_get)
qed (rule ensureRule_other)

lemma ensureRule_ok:
  assumes "ensureRule U r u = (u', None)" "r \<in> set GUEST_INPUT_RULES"
  shows "rule_secured U u' r" "isManaged (uci_get U u' ''firewall'' (fst r))"
proof -
  obtain name vals where r: "r = (name, vals)" by (cases r)
  note vals = rule_values [OF assms(2) [unfolded r]]
  obtain v where v: "u' = set_options U ''firewall'' name vals v" "uci_get U v ''firewall'' name \<noteq> JNull"
      "field (uci_get U v ''firewall'' name) ''.type'' = JStr ''rule''"
  proof (cases "uci_get U u ''firewall'' name = JNull")
    case True
    then have "is_object (uci_get U (uci_add U u ''firewall'' ''rule'' name) ''firewall'' name)"
      using add_type by blast
    then have "uci_get U (uci_add U u ''firewall'' ''rule'' name) ''firewall'' name \<noteq> JNull"
      by (auto simp: is_object_def)
    then show ?thesis
      using that [of "uci_add U u ''firewall'' ''rule'' name"] assms(1) add_type [OF True] True
      by (simp add: ensureRule_def r Let_def nullish_get)
  next
    case False
    then show ?thesis using that [of u] assms(1)
      by (auto simp: ensureRule_def r Let_def nullish_get split: if_splits)
  qed
  note fields = set_options_values [OF v(2) vals(2,1)]
  have "field (uci_get U u' ''firewall'' name) k = w" if "(k, w) \<in> set vals" for k w
    using fields(2) [of k] map_of_is_SomeI [OF vals(1) that] by (simp add: v(1))
  then show "rule_secured U u' r"
    using fields(2) [of "''.type''"] vals(4) v(3) by (auto simp: rule_secured_def r v(1) list_all_iff)
  show "isManaged (uci_get U u' ''firewall'' (fst r))"
    using fields(2) [of "''freenetic_managed''"] vals(3) by (simp add: r v(1) managed_field)
qed

lemma ensureRule_again:
  assumes "r \<in> set GUEST_INPUT_RULES" "rule_secured U u r" "isManaged (uci_get U u ''firewall'' (fst r))"
  shows "\<exists>u'. ensureRule U r u = (u', None) \<and> same_store U u u'"
proof -
  obtain name vals where r: "r = (name, vals)" by (cases r)
  note vals = rule_values [OF assms(1) [unfolded r]]
  let ?u = "set_options U ''firewall'' name vals u"
  have p: "uci_get U u ''firewall'' name \<noteq> JNull" using assms(3) r managed_present by simp
  note fields = set_options_values [OF p vals(2,1)]
  have same: "field (uci_get U ?u ''firewall'' name) k = field (uci_get U u ''firewall'' name) k" for k
    using fields(2) [of k] assms(2) map_of_SomeD [of vals k]
    by (auto simp: rule_secured_def r list_all_iff split: option.splits)
  have "same_store U u ?u"
    unfolding same_store_def
  proof (intro allI)
    fix c n
    show "is_object (uci_get U u c n) = is_object (uci_get U ?u c n)
      \<and> (\<forall>k. field (uci_get U u c n) k = field (uci_get U ?u c n) k)"
    proof (cases "(c, n) = (''firewall'', name)")
      case True
      then show ?thesis using fields(1) present_object [OF p] same by simp
    next
      case False
      then show ?thesis by (simp add: set_options_other [OF False])
    qed
  qed
  moreover have "ensureRule U r u = (?u, None)"
    using p assms(2,3) by (simp add: ensureRule_def r Let_def nullish_get rule_secured_def)
  ultimately show ?thesis by blast
qed

subsection \<open>The loop\<close>

lemma for_each_other:
  assumes "\<forall>r \<in> set rs. (c, n) \<noteq> (''firewall'', fst r)"
  shows "uci_get U (fst (for_each (ensureRule U) rs u)) c n = uci_get U u c n"
  using assms
proof (induction rs arbitrary: u)
  case (Cons r rs)
  have "uci_get U (fst (ensureRule U r u)) c n = uci_get U u c n"
    using Cons.prems by (intro ensureRule_other) auto
  then show ?case using Cons by (auto split: prod.split option.split)
qed simp

lemma for_each_foreign:
  "foreign U u c n \<Longrightarrow> uci_get U (fst (for_each (ensureRule U) rs u)) c n = uci_get U u c n"
proof (induction rs arbitrary: u)
  case (Cons r rs)
  have eq: "uci_get U (fst (ensureRule U r u)) c n = uci_get U u c n"
    using Cons.prems by (rule ensureRule_foreign)
  then have "foreign U (fst (ensureRule U r u)) c n" using Cons.prems by (simp add: foreign_def)
  from Cons.IH [OF this] eq show ?case by (auto split: prod.split option.split)
qed simp

lemma rule_secured_get:
  "uci_get U u ''firewall'' (fst r) = uci_get U u' ''firewall'' (fst r) \<Longrightarrow> rule_secured U u r \<longleftrightarrow> rule_secured U u' r"
  by (cases r) (simp add: rule_secured_def)

lemma for_each_ok:
  assumes "for_each (ensureRule U) rs u = (u', None)" "set rs \<subseteq> set GUEST_INPUT_RULES" "distinct (map fst rs)" "r \<in> set rs"
  shows "rule_secured U u' r \<and> isManaged (uci_get U u' ''firewall'' (fst r))"
  using assms
proof (induction rs arbitrary: u)
  case (Cons s rs)
  obtain v where v: "ensureRule U s u = (v, None)" and rest: "for_each (ensureRule U) rs v = (u', None)"
    using Cons.prems(1) by (auto split: prod.splits option.splits)
  show ?case
  proof (cases "r = s")
    case True
    have "rule_secured U v s" "isManaged (uci_get U v ''firewall'' (fst s))"
      using ensureRule_ok [OF v] Cons.prems(2) by auto
    moreover have "uci_get U u' ''firewall'' (fst s) = uci_get U v ''firewall'' (fst s)"
      using for_each_other [of rs "''firewall''" "fst s" v] rest Cons.prems(3) by force
    ultimately show ?thesis using True rule_secured_get by metis
  next
    case False
    with Cons rest show ?thesis by auto
  qed
qed simp

lemma same_store_trans: "same_store U a b \<Longrightarrow> same_store U b c \<Longrightarrow> same_store U a c"
  by (simp add: same_store_def)

lemma same_store_secured:
  "same_store U u u' \<Longrightarrow> rule_secured U u r \<Longrightarrow> rule_secured U u' r"
  by (cases r) (simp add: same_store_def rule_secured_def)

lemma same_store_managed: "same_store U u u' \<Longrightarrow> isManaged (uci_get U u c n) \<longleftrightarrow> isManaged (uci_get U u' c n)"
  unfolding managed_field same_store_def by auto

lemma for_each_again:
  assumes "set rs \<subseteq> set GUEST_INPUT_RULES" "\<forall>r \<in> set rs. rule_secured U u r \<and> isManaged (uci_get U u ''firewall'' (fst r))"
  shows "\<exists>u'. for_each (ensureRule U) rs u = (u', None) \<and> same_store U u u'"
  using assms
proof (induction rs arbitrary: u)
  case (Cons r rs)
  obtain v where v: "ensureRule U r u = (v, None)" "same_store U u v"
    using ensureRule_again [of r u] Cons.prems by auto
  have "\<forall>r \<in> set rs. rule_secured U v r \<and> isManaged (uci_get U v ''firewall'' (fst r))"
    using Cons.prems(2) same_store_secured [OF v(2)] same_store_managed [OF v(2)] by auto
  then obtain u' where "for_each (ensureRule U) rs v = (u', None)" "same_store U v u'"
    using Cons.IH [of v] Cons.prems(1) by auto
  with v show ?case using same_store_trans by fastforce
qed (simp add: same_store_def)

subsection \<open>The operations\<close>

lemma ensureGuestFirewall_foreign:
  assumes "foreign U u c n"
  shows "uci_get U (fst (ensureGuestFirewall U u)) c n = uci_get U u c n"
proof -
  let ?v = "uci_set U u ''firewall'' ''guest'' ''input'' (JStr ''REJECT'')"
  have "uci_get U ?v c n = uci_get U u c n" if "isManaged (uci_get U u ''firewall'' ''guest'')"
  proof (rule set_other)
    show "(c, n) \<noteq> (''firewall'', ''guest'')" using that assms by (auto simp: foreign_def)
  qed
  moreover from this have "uci_get U (fst (for_each (ensureRule U) GUEST_INPUT_RULES ?v)) c n = uci_get U u c n"
    if "isManaged (uci_get U u ''firewall'' ''guest'')"
    using for_each_foreign [of ?v c n GUEST_INPUT_RULES] assms that by (simp add: foreign_def)
  ultimately show ?thesis by (simp add: ensureGuestFirewall_def Let_def)
qed

lemma removeGuestFirewallRules_foreign:
  assumes "foreign U u c n"
  shows "uci_get U (removeGuestFirewallRules U u) c n = uci_get U u c n"
proof -
  have "uci_get U (foldl (\<lambda>u (name, vals). if isManaged (uci_get U u ''firewall'' name)
      then uci_remove U u ''firewall'' name else u) u rs) c n = uci_get U u c n" for rs :: "(string \<times> (string \<times> jsval) list) list"
    using assms
  proof (induction rs arbitrary: u)
    case (Cons r rs)
    obtain name vals where r: "r = (name, vals)" by (cases r)
    define v where "v = (if isManaged (uci_get U u ''firewall'' name) then uci_remove U u ''firewall'' name else u)"
    have "uci_get U v c n = uci_get U u c n"
    proof (cases "isManaged (uci_get U u ''firewall'' name)")
      case True
      with Cons.prems have "(c, n) \<noteq> (''firewall'', name)" by (auto simp: foreign_def)
      with True show ?thesis by (simp add: v_def remove_other)
    qed (simp add: v_def)
    then show ?case using Cons.IH [of v] Cons.prems by (simp add: r v_def [symmetric] foreign_def)
  qed simp
  then show ?thesis by (simp add: removeGuestFirewallRules_def)
qed

lemma ensureGuestWifi_foreign:
  assumes "foreign U u c n"
  shows "uci_get U (fst (ensureGuestWifi U name radio net u)) c n = uci_get U u c n"
proof (cases "(c, n) = (''wireless'', name)")
  case True
  with assms show ?thesis by (auto simp: ensureGuestWifi_def Let_def foreign_def nullish_get)
next
  case False
  then show ?thesis
    by (simp add: ensureGuestWifi_def Let_def set_options_other [OF False] add_other [OF False] set_other [OF False])
qed

lemma ensureGuestFirewall_ok:
  assumes "ensureGuestFirewall U u = (u', None)"
  shows "field (uci_get U u' ''firewall'' ''guest'') ''input'' = JStr ''REJECT''"
    and "list_all (rule_secured U u') GUEST_INPUT_RULES"
    and "list_all (\<lambda>r. isManaged (uci_get U u' ''firewall'' (fst r))) GUEST_INPUT_RULES"
    and "isManaged (uci_get U u' ''firewall'' ''guest'')"
    and "field (uci_get U u' ''firewall'' ''guest'') ''.type'' = JStr ''zone''"
proof -
  let ?v = "uci_set U u ''firewall'' ''guest'' ''input'' (JStr ''REJECT'')"
  have zone: "uci_get U u ''firewall'' ''guest'' \<noteq> JNull" "isManaged (uci_get U u ''firewall'' ''guest'')"
      "field (uci_get U u ''firewall'' ''guest'') ''.type'' = JStr ''zone''"
    and loop: "for_each (ensureRule U) GUEST_INPUT_RULES ?v = (u', None)"
    using assms by (auto simp: ensureGuestFirewall_def Let_def nullish_get split: if_splits)
  have "option_name ''input''" by (simp add: option_name_def)
  note set = set_option [OF zone(1) this, of "JStr ''REJECT''"]
  have same: "uci_get U u' ''firewall'' ''guest'' = uci_get U ?v ''firewall'' ''guest''"
    using for_each_other [of GUEST_INPUT_RULES "''firewall''" "''guest''" ?v] loop by (simp add: GUEST_INPUT_RULES_def)
  show "field (uci_get U u' ''firewall'' ''guest'') ''input'' = JStr ''REJECT''" using set same by simp
  show "isManaged (uci_get U u' ''firewall'' ''guest'')" using set same zone(2) by (simp add: managed_field)
  show "field (uci_get U u' ''firewall'' ''guest'') ''.type'' = JStr ''zone''" using set same zone(3) by simp
  show "list_all (rule_secured U u') GUEST_INPUT_RULES"
    "list_all (\<lambda>r. isManaged (uci_get U u' ''firewall'' (fst r))) GUEST_INPUT_RULES"
    using for_each_ok [OF loop subset_refl rule_names] by (auto simp: list_all_iff)
qed

lemma set_same: "uci_get U u c n \<noteq> JNull \<Longrightarrow> option_name k \<Longrightarrow> field (uci_get U u c n) k = v \<Longrightarrow> same_store U u (uci_set U u c n k v)"
  unfolding same_store_def
proof (intro allI)
  fix c' n'
  assume a: "uci_get U u c n \<noteq> JNull" "option_name k" "field (uci_get U u c n) k = v"
  show "is_object (uci_get U u c' n') = is_object (uci_get U (uci_set U u c n k v) c' n')
      \<and> (\<forall>j. field (uci_get U u c' n') j = field (uci_get U (uci_set U u c n k v) c' n') j)"
  proof (cases "(c', n') = (c, n)")
    case True
    then show ?thesis using set_option [OF a(1,2), of v] present_object [OF a(1)] a(3) by auto
  next
    case False
    then show ?thesis by (simp add: set_other [OF False])
  qed
qed

lemma ensureGuestFirewall_again:
  assumes "ensureGuestFirewall U u = (u', None)"
  shows "\<exists>u''. ensureGuestFirewall U u' = (u'', None) \<and> same_store U u' u''"
proof -
  note ok = ensureGuestFirewall_ok [OF assms]
  let ?v = "uci_set U u' ''firewall'' ''guest'' ''input'' (JStr ''REJECT'')"
  have p: "uci_get U u' ''firewall'' ''guest'' \<noteq> JNull" using ok(4) managed_present by blast
  have v: "same_store U u' ?v" using p ok(1) by (intro set_same) (simp_all add: option_name_def)
  have "\<forall>r \<in> set GUEST_INPUT_RULES. rule_secured U ?v r \<and> isManaged (uci_get U ?v ''firewall'' (fst r))"
    using ok(2,3) same_store_secured [OF v] same_store_managed [OF v] by (auto simp: list_all_iff)
  then obtain u'' where "for_each (ensureRule U) GUEST_INPUT_RULES ?v = (u'', None)" "same_store U ?v u''"
    using for_each_again [OF subset_refl] by blast
  then show ?thesis
    using p ok(4,5) same_store_trans [OF v] by (auto simp: ensureGuestFirewall_def Let_def nullish_get)
qed

lemma removeGuestFirewallRules_gone:
  assumes "(name, vals) \<in> set GUEST_INPUT_RULES"
  shows "\<not> isManaged (uci_get U (removeGuestFirewallRules U u) ''firewall'' name)"
proof -
  have "\<not> isManaged (uci_get U (foldl (\<lambda>u (name, vals). if isManaged (uci_get U u ''firewall'' name)
      then uci_remove U u ''firewall'' name else u) u rs) ''firewall'' name)"
    if "(name, vals) \<in> set rs \<or> \<not> isManaged (uci_get U u ''firewall'' name)"
    for rs :: "(string \<times> (string \<times> jsval) list) list"
    using that
  proof (induction rs arbitrary: u)
    case (Cons r rs)
    obtain m vs where r: "r = (m, vs)" by (cases r)
    define v where "v = (if isManaged (uci_get U u ''firewall'' m) then uci_remove U u ''firewall'' m else u)"
    have "\<not> isManaged (uci_get U v ''firewall'' name)" if "m = name \<or> \<not> isManaged (uci_get U u ''firewall'' name)"
    proof (cases "isManaged (uci_get U u ''firewall'' m) \<and> m \<noteq> name")
      case True
      then have "(''firewall'', name) \<noteq> (''firewall'', m)" by auto
      with True that show ?thesis by (simp add: v_def remove_other)
    next
      case False
      with that remove_this [of u "''firewall''" name] managed_present show ?thesis by (auto simp: v_def)
    qed
    then show ?case using Cons.IH [of v] Cons.prems by (auto simp: r v_def [symmetric])
  qed simp
  with assms show ?thesis by (auto simp: removeGuestFirewallRules_def)
qed

lemma ensureGuestWifi_ok:
  assumes "ensureGuestWifi U name radio net u = (u', Inr s)"
  shows "s = name" "field (uci_get U u' ''wireless'' name) ''isolate'' = JStr ''1''"
    and "isManaged (uci_get U u' ''wireless'' name)" "field (uci_get U u' ''wireless'' name) ''device'' = radio"
    and "field (uci_get U u' ''wireless'' name) ''mode'' = JStr ''ap''"
    and "field (uci_get U u' ''wireless'' name) ''network'' = net"
    and "field (uci_get U u' ''wireless'' name) ''.type'' = JStr ''wifi-iface''"
proof -
  let ?new = "[(''device'', radio), (''mode'', JStr ''ap''), (''network'', net),
                  (''isolate'', JStr ''1''), (''freenetic_managed'', JStr ''1'')]"
  have "s = name \<and> field (uci_get U u' ''wireless'' name) ''isolate'' = JStr ''1''
    \<and> isManaged (uci_get U u' ''wireless'' name) \<and> field (uci_get U u' ''wireless'' name) ''device'' = radio
    \<and> field (uci_get U u' ''wireless'' name) ''mode'' = JStr ''ap''
    \<and> field (uci_get U u' ''wireless'' name) ''network'' = net
    \<and> field (uci_get U u' ''wireless'' name) ''.type'' = JStr ''wifi-iface''"
  proof (cases "uci_get U u ''wireless'' name = JNull")
    case True
    let ?v = "uci_add U u ''wireless'' ''wifi-iface'' name"
    have v: "uci_get U ?v ''wireless'' name \<noteq> JNull"
      using add_type [OF True, of "''wifi-iface''"] by (auto simp: is_object_def)
    have names: "\<forall>(k, v) \<in> set ?new. option_name k" "distinct (map fst ?new)" by (simp_all add: option_name_def)
    have "u' = set_options U ''wireless'' name ?new ?v" "s = name"
      using assms True by (auto simp: ensureGuestWifi_def Let_def nullish_get)
    then show ?thesis
      using set_options_values(2) [OF v names] add_type [OF True] by (simp add: managed_field)
  next
    case False
    let ?s = "uci_get U u ''wireless'' name"
    have old: "field ?s ''.type'' = JStr ''wifi-iface''" "isManaged ?s" "field ?s ''device'' = radio"
        "field ?s ''mode'' = JStr ''ap''" "field ?s ''network'' = net" "s = name"
      and u': "u' = uci_set U u ''wireless'' name ''isolate'' (JStr ''1'')"
      using assms False unfolding ensureGuestWifi_def Let_def nullish_get by (auto split: if_splits)
    have "option_name ''isolate''" by (simp add: option_name_def)
    then have "field (uci_get U u' ''wireless'' name) j = (if j = ''isolate'' then JStr ''1'' else field ?s j)" for j
      unfolding u' using set_option [OF False] by blast
    then show ?thesis using old unfolding managed_field by simp
  qed
  then show "s = name" "field (uci_get U u' ''wireless'' name) ''isolate'' = JStr ''1''"
    "isManaged (uci_get U u' ''wireless'' name)" "field (uci_get U u' ''wireless'' name) ''device'' = radio"
    "field (uci_get U u' ''wireless'' name) ''mode'' = JStr ''ap''"
    "field (uci_get U u' ''wireless'' name) ''network'' = net"
    "field (uci_get U u' ''wireless'' name) ''.type'' = JStr ''wifi-iface''" by blast+
qed

subsection \<open>Adoption\<close>

definition adoption :: "'u \<Rightarrow> 'u \<Rightarrow> bool" where
  "adoption u u' \<longleftrightarrow> (\<forall>c n. adopted c n (uci_get U u c n) (uci_get U u' c n))"

lemma adoption_shape: "adoption u u' \<Longrightarrow> legacy_object c n (uci_get U u' c n) \<Longrightarrow> legacy_object c n (uci_get U u c n)"
  unfolding adoption_def using adopted_shape by blast

lemma mark_step:
  assumes "adoption u0 u" "legacy_object c n (uci_get U u0 c n)"
  shows "adoption u0 (uci_set U u c n ''freenetic_managed'' (JStr ''1''))"
  unfolding adoption_def
proof (intro allI)
  fix c' n'
  let ?v = "uci_set U u c n ''freenetic_managed'' (JStr ''1'')"
  have a: "adopted c' n' (uci_get U u0 c' n') (uci_get U u c' n')" using assms(1) by (simp add: adoption_def)
  show "adopted c' n' (uci_get U u0 c' n') (uci_get U ?v c' n')"
  proof (cases "(c', n') = (c, n)")
    case True
    have "is_object (uci_get U u0 c n)" using assms(2) by (rule legacy_object_present)
    then have "uci_get U u c n \<noteq> JNull" using a True by (auto simp: adopted_def is_object_def)
    then show ?thesis
      using set_option [of u c n "''freenetic_managed''" "JStr ''1''"] assms(2) a True
      by (auto simp: adopted_def option_name_def)
  next
    case False
    then show ?thesis using a by (simp add: set_other [OF False])
  qed
qed

lemma adopt_section_step:
  assumes "adoption u0 u"
    and "\<And>s. is_object s \<Longrightarrow> field s ''.type'' = JStr type \<Longrightarrow> P s \<Longrightarrow> legacy_object c n s"
  shows "adoption u0 (fst (adoptLegacySection U c n type P u))"
proof -
  let ?s = "uci_get U u c n"
  have "adoption u0 (uci_set U u c n ''freenetic_managed'' (JStr ''1''))"
    if "truthy ?s" "field ?s ''.type'' = JStr type" "P ?s"
  proof (rule mark_step [OF assms(1)])
    have "is_object ?s" using get_shape [of u c n] that(1) by (auto simp: truthy_def)
    with that(2,3) have "legacy_object c n ?s" by (intro assms(2))
    with assms(1) show "legacy_object c n (uci_get U u0 c n)" by (rule adoption_shape)
  qed
  then show ?thesis using assms(1) by (simp add: adoptLegacySection_def Let_def)
qed

lemma adopt_list_step:
  assumes "adoption u0 u" "\<forall>s \<in> set ss. \<forall>u. P u s \<longrightarrow>
      (\<exists>n. field s ''.name'' = JStr n \<and> legacy_object c n (uci_get U u0 c n))"
  shows "adoption u0 (foldl (\<lambda>u s. if P u s
      then uci_set U u c (to_str (field s ''.name'')) ''freenetic_managed'' (JStr ''1'') else u) u ss)"
  using assms
proof (induction ss arbitrary: u)
  case (Cons s ss)
  have "adoption u0 (uci_set U u c (to_str (field s ''.name'')) ''freenetic_managed'' (JStr ''1''))" if p: "P u s"
  proof -
    obtain n where "field s ''.name'' = JStr n" "legacy_object c n (uci_get U u0 c n)"
      using Cons.prems(2) p by auto
    then show ?thesis using mark_step [OF Cons.prems(1)] by simp
  qed
  then show ?case using Cons by simp
qed simp

lemma adopt_rules_step:
  assumes "adoption u0 u" "set rs \<subseteq> set GUEST_INPUT_RULES"
  shows "adoption u0 (foldl (\<lambda>u (name, vals). fst (adoptLegacySection U ''firewall'' name ''rule'' (legacy_rule vals) u)) u rs)"
  using assms
proof (induction rs arbitrary: u)
  case (Cons r rs)
  obtain name vals where r: "r = (name, vals)" by (cases r)
  have "adoption u0 (fst (adoptLegacySection U ''firewall'' name ''rule'' (legacy_rule vals) u))"
    using Cons.prems r by (intro adopt_section_step) (auto simp: legacy_object_def list_ex_iff)
  then show ?case using Cons r by simp
qed simp

lemma adoptLegacyGuest_adoption: "adoption u (adoptLegacyGuest U u)"
proof -
  have refl: "adoption u u" by (simp add: adoption_def adopted_def)
  have wifi: "\<exists>n. field s ''.name'' = JStr n \<and> legacy_object ''wireless'' n (uci_get U u ''wireless'' n)"
    if "s \<in> set (uci_sections U u ''wireless'' ''wifi-iface'')" "legacy_wifi U v s" for s v
    using that sections_get [OF that(1)]
    by (auto simp: legacy_wifi_def Let_def legacy_object_def is_string_def split: jsval.splits if_splits)
  have dev: "\<exists>n. field s ''.name'' = JStr n \<and> legacy_object ''network'' n (uci_get U u ''network'' n)"
    if a: "adoption u v" and s: "s \<in> set (uci_sections U v ''network'' ''device'')" and d: "legacy_device s" for s v
  proof -
    obtain n where n: "field s ''.name'' = JStr n" "field s ''.type'' = JStr ''device''" "uci_get U v ''network'' n = s"
      using sections_get [OF s] by auto
    then have "legacy_object ''network'' n (uci_get U v ''network'' n)"
      using d by (simp add: legacy_device_def legacy_object_def)
    with adoption_shape [OF a] n show ?thesis by blast
  qed
  note s1 = adopt_list_step [OF refl, of "uci_sections U u ''wireless'' ''wifi-iface''" "legacy_wifi U" "''wireless''"]
  define v where "v = foldl (\<lambda>u section. if legacy_wifi U u section
      then uci_set U u ''wireless'' (to_str (field section ''.name'')) ''freenetic_managed'' (JStr ''1'') else u)
      u (uci_sections U u ''wireless'' ''wifi-iface'')"
  have v: "adoption u v" unfolding v_def using wifi by (intro s1) blast
  define w where "w = foldl (\<lambda>u section. if legacy_device section
      then uci_set U u ''network'' (to_str (field section ''.name'')) ''freenetic_managed'' (JStr ''1'') else u)
      v (uci_sections U v ''network'' ''device'')"
  have w: "adoption u w"
    unfolding w_def using dev [OF v] by (intro adopt_list_step [OF v, where P = "\<lambda>_. legacy_device"]) blast
  show ?thesis
    unfolding adoptLegacyGuest_def Let_def v_def [symmetric] w_def [symmetric]
    by (intro adopt_rules_step adopt_section_step w subset_refl) (simp_all add: legacy_object_def)
qed

end

section \<open>Properties\<close>

text \<open>C8: sections of the user survive: no operation of the guest network changes or removes a
  section that is there without the marker, also when it throws half way.\<close>

theorem guest_keeps_foreign:
  assumes "uci_store U" "foreign U u c n"
  shows "uci_get U (fst (ensureGuestFirewall U u)) c n = uci_get U u c n
    \<and> uci_get U (removeGuestFirewallRules U u) c n = uci_get U u c n
    \<and> uci_get U (fst (ensureGuestWifi U name radio net u)) c n = uci_get U u c n"
  using assms by (simp add: uci_store.ensureGuestFirewall_foreign uci_store.removeGuestFirewallRules_foreign
      uci_store.ensureGuestWifi_foreign)

definition sample_store :: list_store where
  "sample_store = [
     ((''firewall'', ''guest''), [(''.type'', JStr ''zone''), (''.name'', JStr ''guest''), (''freenetic_managed'', JStr ''1'')]),
     ((''firewall'', ''freenetic_guest_dns''), [(''.type'', JStr ''rule''), (''.name'', JStr ''freenetic_guest_dns''),
        (''target'', JStr ''DROP'')])]"

theorem guest_keeps_foreign_witness:
  "uci_get list_uci (fst (ensureGuestFirewall list_uci sample_store)) ''firewall'' ''freenetic_guest_dns''
    = uci_get list_uci sample_store ''firewall'' ''freenetic_guest_dns''"
proof -
  have "foreign list_uci sample_store ''firewall'' ''freenetic_guest_dns''"
    by (simp add: foreign_def list_uci_def list_get_def sample_store_def isManaged_def field_def)
  then show ?thesis using guest_keeps_foreign [OF list_store.uci_store_axioms] by blast
qed

text \<open>C9: when provisioning returns, the guest zone rejects input and the DHCP and DNS rules are
  there with every option of the table and the marker; provisioning again succeeds and changes
  nothing.\<close>

theorem guest_firewall_provisioned:
  assumes "uci_store U" "ensureGuestFirewall U u = (u', None)"
  shows "field (uci_get U u' ''firewall'' ''guest'') ''input'' = JStr ''REJECT''
    \<and> list_all (rule_secured U u') GUEST_INPUT_RULES
    \<and> list_all (\<lambda>r. isManaged (uci_get U u' ''firewall'' (fst r))) GUEST_INPUT_RULES
    \<and> (\<exists>u''. ensureGuestFirewall U u' = (u'', None) \<and> same_store U u' u'')"
  using uci_store.ensureGuestFirewall_ok [OF assms] uci_store.ensureGuestFirewall_again [OF assms] by blast

theorem guest_firewall_provisioned_witness:
  "list_all (rule_secured list_uci (fst (ensureGuestFirewall list_uci (take 1 sample_store)))) GUEST_INPUT_RULES"
proof -
  have "snd (ensureGuestFirewall list_uci (take 1 sample_store)) = None" by code_simp
  then have "ensureGuestFirewall list_uci (take 1 sample_store)
      = (fst (ensureGuestFirewall list_uci (take 1 sample_store)), None)" by (metis prod.collapse)
  then show ?thesis using guest_firewall_provisioned [OF list_store.uci_store_axioms] by blast
qed

text \<open>Removal leaves no owned rule of the table behind.\<close>

theorem guest_rules_removed:
  assumes "uci_store U"
  shows "list_all (\<lambda>r. \<not> isManaged (uci_get U (removeGuestFirewallRules U u) ''firewall'' (fst r))) GUEST_INPUT_RULES"
  using uci_store.removeGuestFirewallRules_gone [OF assms] by (auto simp: list_all_iff)

theorem guest_rules_removed_witness:
  "list_all (\<lambda>r. \<not> isManaged (uci_get list_uci (removeGuestFirewallRules list_uci sample_store) ''firewall'' (fst r)))
     GUEST_INPUT_RULES"
  by (rule guest_rules_removed [OF list_store.uci_store_axioms])

text \<open>A guest Wi-Fi section that \<open>ensureGuestWifi\<close> accepts or creates is owned, isolates its
  clients and belongs to the given radio and network.\<close>

theorem guest_wifi_isolated:
  assumes "uci_store U" "ensureGuestWifi U name radio net u = (u', Inr s)"
  shows "s = name \<and> isManaged (uci_get U u' ''wireless'' name)
    \<and> field (uci_get U u' ''wireless'' name) ''isolate'' = JStr ''1''
    \<and> field (uci_get U u' ''wireless'' name) ''device'' = radio
    \<and> field (uci_get U u' ''wireless'' name) ''mode'' = JStr ''ap''
    \<and> field (uci_get U u' ''wireless'' name) ''network'' = net"
  using uci_store.ensureGuestWifi_ok [OF assms] by blast

theorem guest_wifi_isolated_witness:
  "field (uci_get list_uci (fst (ensureGuestWifi list_uci ''guest_radio0'' (JStr ''radio0'') (JStr ''guest'') []))
     ''wireless'' ''guest_radio0'') ''isolate'' = JStr ''1''"
proof -
  have "snd (ensureGuestWifi list_uci ''guest_radio0'' (JStr ''radio0'') (JStr ''guest'') []) = Inr ''guest_radio0''"
    by code_simp
  then have "ensureGuestWifi list_uci ''guest_radio0'' (JStr ''radio0'') (JStr ''guest'') []
      = (fst (ensureGuestWifi list_uci ''guest_radio0'' (JStr ''radio0'') (JStr ''guest'') []), Inr ''guest_radio0'')"
    by (metis prod.collapse)
  then show ?thesis using guest_wifi_isolated [OF list_store.uci_store_axioms] by blast
qed

text \<open>Adoption touches only sections of the complete old shape, and of those only the marker.\<close>

theorem adoption_is_conservative:
  assumes "uci_store U"
  shows "adopted c n (uci_get U u c n) (uci_get U (adoptLegacyGuest U u) c n)"
  using uci_store.adoptLegacyGuest_adoption [OF assms] by (simp add: uci_store.adoption_def [OF assms])

theorem adoption_is_conservative_witness:
  "uci_get list_uci (adoptLegacyGuest list_uci sample_store) ''firewall'' ''freenetic_guest_dns''
    = uci_get list_uci sample_store ''firewall'' ''freenetic_guest_dns''"
proof -
  have "\<not> legacy_object ''firewall'' ''freenetic_guest_dns''
      (uci_get list_uci sample_store ''firewall'' ''freenetic_guest_dns'')"
    by code_simp
  then show ?thesis
    using adoption_is_conservative [OF list_store.uci_store_axioms, of "''firewall''" "''freenetic_guest_dns''" sample_store]
    by (simp add: adopted_def)
qed

end
