(* ===== verification/Multiwan.thy ===== *)
theory Multiwan
  imports Js_Value
begin

text \<open>
  The Multi-WAN model (\<open>freenetic-multiwan-data.js\<close>): normalisation of the mwan3 sections and of
  the runtime answers, the choice of a route metric, the mode planner and its inverse, and the
  traffic state.  Sections and answers are JavaScript values.
\<close>

section \<open>Values of options\<close>

definition listValue :: "jsval \<Rightarrow> jsval list" where
  "listValue v = (if nullish v \<or> v = JStr [] then []
                  else if is_array v then elements v else [v])"

definition sectionName :: "jsval \<Rightarrow> jsval" where
  "sectionName section = and_then section (or_else (field section ''.name'') (field section ''name''))"

definition enabledValue :: "jsval \<Rightarrow> bool" where
  "enabledValue v \<longleftrightarrow> \<not> (v = JBool False \<or> v = JNum (Num 0) \<or> v = JStr ''0'' \<or> v = JStr ''false'')"

definition integer_text :: "string \<Rightarrow> bool" where
  "integer_text s \<longleftrightarrow> all_digits (if starts_with ''-'' s then tl s else s)"

definition numberValue :: "jsval \<Rightarrow> jsnum option" where
  "numberValue v = (if v = JStr [] \<or> nullish v \<or> \<not> integer_text (to_str v) then None
                    else Some (to_number v))"

section \<open>Normalisation\<close>

definition of_type :: "jsval \<Rightarrow> jsval \<Rightarrow> bool" where
  "of_type type section \<longleftrightarrow> truthy section
     \<and> (\<not> truthy type \<or> \<not> truthy (field section ''.type'') \<or> field section ''.type'' = type)"

text \<open>\<open>typeof v === 'object'\<close> for a value that is not null.\<close>

definition object_like :: "jsval \<Rightarrow> bool" where
  "object_like v = (case v of JArr xs \<Rightarrow> True | JObj ps \<Rightarrow> True | _ \<Rightarrow> False)"

definition properties :: "jsval \<Rightarrow> (string \<times> jsval) list" where
  "properties v = (case v of JObj ps \<Rightarrow> ps | _ \<Rightarrow> [])"

fun put_prop :: "string \<Rightarrow> jsval \<Rightarrow> (string \<times> jsval) list \<Rightarrow> (string \<times> jsval) list" where
  "put_prop k v [] = [(k, v)]"
| "put_prop k v (p # ps) = (if fst p = k then (k, v) # ps else p # put_prop k v ps)"

definition named_section :: "string \<times> jsval \<Rightarrow> jsval option" where
  "named_section = (\<lambda>(name, val).
     if \<not> truthy val \<or> \<not> object_like val \<or> is_array val then None
     else if truthy (field val ''.name'') then Some val
     else Some (JObj (put_prop ''.name'' (JStr name) (properties val))))"

definition normalizeSections :: "jsval \<Rightarrow> string \<Rightarrow> jsval list" where
  "normalizeSections source type =
     (if is_array source then filter (of_type (JStr type)) (elements source)
      else if \<not> truthy source \<or> \<not> object_like source then []
      else if is_array (field source type) then elements (field source type)
      else filter (of_type (JStr type)) (List.map_filter named_section (properties source)))"

text \<open>\<open>Object.assign({ interface: name }, value)\<close>.\<close>

definition assign :: "(string \<times> jsval) list \<Rightarrow> (string \<times> jsval) list \<Rightarrow> (string \<times> jsval) list" where
  "assign target source = foldl (\<lambda>t (k, v). put_prop k v t) target source"

definition runtime_entry :: "string \<times> jsval \<Rightarrow> jsval option" where
  "runtime_entry = (\<lambda>(name, val).
     if \<not> truthy val \<or> \<not> object_like val \<or> is_array val then None
     else Some (JObj (assign [(''interface'', JStr name)] (properties val))))"

definition normalizeRuntime :: "jsval \<Rightarrow> jsval list" where
  "normalizeRuntime source =
     (if is_array source then elements source
      else if truthy source \<and> is_array (field source ''interface'') then elements (field source ''interface'')
      else if \<not> truthy source \<or> \<not> object_like source then []
      else List.map_filter runtime_entry (properties source))"

definition normalizeMwanRuntime :: "jsval \<Rightarrow> jsval" where
  "normalizeMwanRuntime source =
     (if truthy source \<and> truthy (field source ''interfaces'') \<and> object_like (field source ''interfaces'')
      then field source ''interfaces''
      else if truthy source \<and> object_like source then source else JObj [])"

definition mwanRuntimeState :: "jsval \<Rightarrow> string option" where
  "mwanRuntimeState entry =
     (if \<not> truthy entry \<or> \<not> object_like entry then None
      else if field entry ''enabled'' \<in> {JBool False, JNum (Num 0), JStr ''0''} then Some ''disabled''
      else let status = lower (to_str (or_else (field entry ''status'') (JStr [])))
           in if status \<in> {''online'', ''offline'', ''disabled'', ''unknown''} then Some status else None)"

definition packageMap :: "jsval \<Rightarrow> jsval" where
  "packageMap source =
     (if truthy source \<and> truthy (field source ''packages'') \<and> object_like (field source ''packages'')
      then field source ''packages''
      else if truthy source \<and> object_like source then source else JObj [])"

definition packageInstalled :: "jsval \<Rightarrow> bool" where
  "packageInstalled state \<longleftrightarrow> state = JBool True \<or> state = JNum (Num 1) \<or> state = JStr ''1''
     \<or> (truthy state \<and> truthy (field state ''installed''))"

definition packageAvailable :: "jsval \<Rightarrow> bool" where
  "packageAvailable state \<longleftrightarrow> packageInstalled state \<or> (truthy state \<and> truthy (field state ''available''))"

definition findRuntime :: "jsval list \<Rightarrow> jsval \<Rightarrow> jsval" where
  "findRuntime runtime name =
     (case find (\<lambda>entry. truthy entry \<and> (field entry ''interface'' = name \<or> field entry ''name'' = name
         \<or> field entry ''l3_device'' = name \<or> field entry ''device'' = name)) runtime of
        None \<Rightarrow> JNull | Some e \<Rightarrow> e)"

definition runtimeState :: "jsval \<Rightarrow> string" where
  "runtimeState entry =
     (if \<not> truthy entry \<or> \<not> list_ex (\<lambda>p. fst p = ''up'') (properties entry) then ''unknown''
      else if field entry ''up'' \<in> {JBool True, JNum (Num 1), JStr ''1''} then ''online'' else ''offline'')"

section \<open>Route metrics\<close>

text \<open>The state of the loop: the metric of the current section and the metrics of the others.\<close>

definition metric_step :: "jsval \<Rightarrow> jsnum option \<times> jsnum list \<Rightarrow> jsval \<Rightarrow> jsnum option \<times> jsnum list" where
  "metric_step currentName = (\<lambda>(current, used) section.
     let metric = numberValue (field section ''metric'')
     in if sectionName section = currentName then (metric, used)
        else case metric of None \<Rightarrow> (current, used) | Some m \<Rightarrow> (current, m # used))"

definition metric_choices :: "jsnum list" where
  "metric_choices = map num_of_int [20, 30, 40, 50, 60, 70]"

definition nextRouteMetric :: "jsval \<Rightarrow> jsval \<Rightarrow> jsnum option" where
  "nextRouteMetric networkSource currentName =
     (let (current, used) = foldl (metric_step currentName) (None, [])
            (normalizeSections networkSource ''interface'')
      in case current of
           Some m \<Rightarrow>
             if num_le (Num 20) m \<and> num_le m (Num 70) \<and> int_of m mod 10 = 0 \<and> m \<notin> set used
             then Some m
             else find (\<lambda>m. m \<notin> set used) metric_choices
         | None \<Rightarrow> find (\<lambda>m. m \<notin> set used) metric_choices)"

section \<open>Families and modes\<close>

definition familyValue :: "jsval \<Rightarrow> jsval \<Rightarrow> jsval \<Rightarrow> string" where
  "familyValue val name proto =
     (let v = lower (to_str (or_else val (JStr [])))
      in if v = ''ipv6'' \<or> v = ''6'' then ''ipv6''
         else if v = ''ipv4'' \<or> v = ''4'' then ''ipv4''
         else if ends_with ''6'' (to_str (or_else name (JStr [])))
                 \<or> ends_with ''6v'' (lower (to_str (or_else name (JStr []))))
                 \<or> CHR ''6'' \<in> set (lower (to_str (or_else proto (JStr []))))
              then ''ipv6'' else ''ipv4'')"

record plan_member =
  member_name :: string
  member_interface :: jsval
  member_metric :: nat
  member_weight :: nat

record plan_policy =
  policy_name :: string
  policy_family :: string
  policy_members :: "plan_member list"

record mode_plan =
  plan_mode :: string
  plan_policies :: "plan_policy list"

definition modes :: "string list" where
  "modes = [''single'', ''failover'', ''balance'']"

definition uplink_enabled :: "jsval \<Rightarrow> bool" where
  "uplink_enabled uplink \<longleftrightarrow> truthy uplink \<and> field uplink ''enabled'' \<noteq> JBool False"

definition mode_code :: "string \<Rightarrow> string" where
  "mode_code mode = (if mode = ''single'' then ''s'' else if mode = ''failover'' then ''f'' else ''b'')"

definition family_of :: "jsval \<Rightarrow> string" where
  "family_of uplink = (if field uplink ''family'' = JStr ''ipv6'' then ''ipv6'' else ''ipv4'')"

definition family_policy :: "string \<Rightarrow> jsval list \<Rightarrow> string \<Rightarrow> plan_policy option" where
  "family_policy mode uplinks family =
     (let peers = filter (\<lambda>u. family_of u = family) uplinks;
          members = (if mode = ''single'' then take 1 peers else peers);
          name = ''fn_'' @ mode_code mode @ (if family = ''ipv6'' then ''6'' else ''4'')
      in if members = [] then None
         else Some \<lparr>policy_name = name, policy_family = family,
           policy_members = map2 (\<lambda>uplink index. \<lparr>member_name = name @ ''_'' @ dec (int index),
               member_interface = field uplink ''name'',
               member_metric = (if mode = ''balance'' then 1 else index + 1), member_weight = 1\<rparr>)
             members [0..<length members]\<rparr>)"

definition buildModePlan :: "jsval \<Rightarrow> jsval \<Rightarrow> mode_plan" where
  "buildModePlan mode0 uplinks0 =
     (let mode = (if mode0 \<in> set (map JStr modes) then to_str mode0 else ''failover'');
          uplinks = filter uplink_enabled (elements (or_else uplinks0 (JArr [])))
      in \<lparr>plan_mode = mode,
          plan_policies = List.map_filter (family_policy mode uplinks) [''ipv4'', ''ipv6'']\<rparr>)"

definition rule_mode :: "jsval \<Rightarrow> string option" where
  "rule_mode rule =
     (let policy = lower (to_str (or_else (and_then rule (or_else (field rule ''use_policy'') (JStr []))) (JStr [])))
      in if policy = [] then None
         else if starts_with ''fn_b'' policy \<or> policy = ''balanced'' then Some ''balance''
         else if starts_with ''fn_f'' policy \<or> policy = ''wan_wanb'' \<or> policy = ''wanb_wan'' then Some ''failover''
         else if starts_with ''fn_s'' policy \<or> policy = ''wan_only'' then Some ''single''
         else None)"

definition detectMode :: "jsval list \<Rightarrow> jsval \<Rightarrow> string" where
  "detectMode rules fallback =
     (let found = List.map_filter rule_mode rules
      in if ''balance'' \<in> set found then ''balance''
         else if ''failover'' \<in> set found then ''failover''
         else if ''single'' \<in> set found then ''single''
         else if fallback \<in> set (map JStr modes) then to_str fallback else ''single'')"

definition defaultRuleMatches :: "jsval \<Rightarrow> string \<Rightarrow> bool" where
  "defaultRuleMatches rule family =
     (let name = sectionName rule;
          destination = (if family = ''ipv6'' then ''::/0'' else ''0.0.0.0/0'');
          suffix = (if family = ''ipv6'' then ''v6'' else ''v4'')
      in truthy rule \<and> (name = JStr (''default_rule_'' @ suffix) \<or> name = JStr (''fn_default_rule_'' @ suffix)
           \<or> (field rule ''freenetic_managed'' = JStr ''1'' \<and> field rule ''dest_ip'' = JStr destination)))"

definition active_family :: "jsval list \<Rightarrow> string option" where
  "active_family uplinks =
     (let active = filter uplink_enabled uplinks
      in if list_ex (\<lambda>u. field u ''family'' = JStr ''ipv4'') active then Some ''ipv4''
         else if list_ex (\<lambda>u. field u ''family'' = JStr ''ipv6'') active then Some ''ipv6'' else None)"

definition detectDefaultMode :: "jsval list \<Rightarrow> jsval list \<Rightarrow> jsval \<Rightarrow> string" where
  "detectDefaultMode rules uplinks fallback =
     (let defaults = (case active_family uplinks of
            None \<Rightarrow> []
          | Some family \<Rightarrow> filter (\<lambda>rule. defaultRuleMatches rule family \<and> enabledValue (field rule ''enabled'')) rules)
      in detectMode defaults fallback)"

end
