(* ===== verification/Multiwan_State.thy ===== *)
theory Multiwan_State
  imports Multiwan
begin

text \<open>
  The traffic state and the complete Multi-WAN model (\<open>buildTrafficState\<close> and \<open>buildModel\<close> of
  \<open>freenetic-multiwan-data.js\<close>).  The traffic state compares uplinks by identity: an uplink is a
  pair of its position in the argument and its value.
\<close>

section \<open>Traffic state\<close>

type_synonym uplink = "nat \<times> jsval"

record traffic_state =
  ts_uplinks :: "uplink list"
  ts_primary :: "uplink option"
  ts_selected :: "uplink option"
  ts_current :: "uplink option"
  ts_fallback :: "uplink option"
  ts_backups :: "uplink list"
  ts_backupOnline :: "uplink option"
  ts_heroState :: jsval
  ts_mode :: jsval

definition uplink_name :: "uplink \<Rightarrow> jsval" where
  "uplink_name u = field (snd u) ''name''"

definition lower_field :: "string \<Rightarrow> uplink \<Rightarrow> string" where
  "lower_field k u = lower (to_str (or_else (field (snd u) k) (JStr [])))"

definition policy_interfaces :: "jsval list \<Rightarrow> jsval \<Rightarrow> jsval list" where
  "policy_interfaces policies policyName =
     (case find (\<lambda>p. truthy p \<and> field p ''name'' = policyName) policies of
        None \<Rightarrow> []
      | Some p \<Rightarrow> filter truthy
          (map (\<lambda>m. field m ''interface'') (elements (or_else (field p ''members'') (JArr [])))))"

definition has_role :: "jsval list \<Rightarrow> uplink \<Rightarrow> bool" where
  "has_role interfaces u \<longleftrightarrow> lower_field ''name'' u \<in> {''wan'', ''wanb''}
     \<or> lower_field ''scope'' u \<in> {''ethernet-port'', ''wifi-uplink'', ''modem-uplink''}
     \<or> uplink_name u \<in> set interfaces"

definition online :: "uplink \<Rightarrow> bool" where
  "online u \<longleftrightarrow> field (snd u) ''state'' = JStr ''online''"

definition or_default :: "'a list \<Rightarrow> 'a list \<Rightarrow> 'a list" where
  "or_default xs ys = (if xs = [] then ys else xs)"

definition first :: "'a list \<Rightarrow> 'a option" where
  "first xs = (case xs of [] \<Rightarrow> None | x # _ \<Rightarrow> Some x)"

definition option_list :: "'a option \<Rightarrow> 'a list" where
  "option_list x = (case x of None \<Rightarrow> [] | Some y \<Rightarrow> [y])"

definition buildTrafficState :: "jsval list \<Rightarrow> jsval \<Rightarrow> jsval list \<Rightarrow> jsval \<Rightarrow> traffic_state" where
  "buildTrafficState uplinks0 mode policies policyName =
     (let uplinks = filter (truthy \<circ> snd) (zip [0..<length uplinks0] uplinks0);
          ipv4 = filter (\<lambda>u. field (snd u) ''family'' = JStr ''ipv4'') uplinks;
          candidates = or_default ipv4 uplinks;
          interfaces = policy_interfaces policies policyName;
          scoped = or_default (filter (has_role interfaces) candidates) candidates;
          primary = (case find (\<lambda>u. lower_field ''name'' u = ''wan'') scoped of
                       Some u \<Rightarrow> Some u | None \<Rightarrow> first scoped);
          backups = filter (\<lambda>u. Some u \<noteq> primary) scoped;
          ordered = option_list primary @ backups;
          policyUplinks = (if interfaces \<noteq> []
                           then List.map_filter (\<lambda>name. find (\<lambda>u. uplink_name u = name) ordered) interfaces
                           else ordered);
          selected = (if mode = JStr ''single''
                      then (case first policyUplinks of Some u \<Rightarrow> Some u | None \<Rightarrow> primary) else primary);
          eligible = (if mode = JStr ''single'' then option_list selected else policyUplinks);
          current = find online eligible;
          heroState = (case current of Some _ \<Rightarrow> JStr ''online''
                       | None \<Rightarrow> (case selected of Some u \<Rightarrow> field (snd u) ''state'' | None \<Rightarrow> JStr ''unknown''))
      in \<lparr>ts_uplinks = ordered, ts_primary = primary, ts_selected = selected, ts_current = current,
          ts_fallback = selected, ts_backups = backups, ts_backupOnline = find online backups,
          ts_heroState = heroState, ts_mode = mode\<rparr>)"

section \<open>The model\<close>

record member =
  mb_name :: jsval
  mb_interface :: string
  mb_metric :: "jsnum option"
  mb_weight :: "jsnum option"

record uplink_model =
  um_name :: jsval
  um_label :: jsval
  um_scope :: jsval
  um_device :: jsval
  um_proto :: jsval
  um_family :: string
  um_enabled :: bool
  um_state :: string
  um_up :: bool
  um_trackMethod :: jsval
  um_trackIps :: "jsval list"
  um_tracking :: jsval
  um_initialState :: jsval
  um_members :: "member list"
  um_metric :: "jsnum option"
  um_weight :: "jsnum option"

record policy_model =
  pm_name :: jsval
  pm_label :: jsval
  pm_members :: "member list"
  pm_ruleCount :: nat
  pm_lastResort :: jsval

record multiwan_model =
  mm_ready :: bool
  mm_mwan3 :: "bool \<times> bool"
  mm_luci :: "bool \<times> bool"
  mm_uplinks :: "uplink_model list"
  mm_policies :: "policy_model list"
  mm_total :: nat
  mm_online :: nat
  mm_offline :: nat
  mm_disabled :: nat
  mm_policyCount :: nat
  mm_ruleCount :: nat

definition model_member :: "jsval \<Rightarrow> member option" where
  "model_member section =
     (let name = sectionName section
      in if \<not> truthy name then None
         else Some \<lparr>mb_name = name, mb_interface = trim (to_str (or_else (field section ''interface'') (JStr []))),
                mb_metric = numberValue (field section ''metric''),
                mb_weight = numberValue (field section ''weight'')\<rparr>)"

text \<open>\<open>memberByName[name]\<close> is the last member of that name, \<open>membersByInterface[name]\<close> the
  members of that interface in order.\<close>

definition member_by_name :: "member list \<Rightarrow> jsval \<Rightarrow> member option" where
  "member_by_name members name = find (\<lambda>m. to_str (mb_name m) = to_str name) (rev members)"

definition members_of :: "member list \<Rightarrow> jsval \<Rightarrow> member list" where
  "members_of members name = filter (\<lambda>m. mb_interface m \<noteq> [] \<and> mb_interface m = to_str name) members"

definition num_min :: "jsnum \<Rightarrow> jsnum \<Rightarrow> jsnum" where
  "num_min a b = (if num_le a b then a else b)"

definition num_add :: "jsnum \<Rightarrow> jsnum \<Rightarrow> jsnum" where
  "num_add a b = (case (a, b) of
       (Num p, Num q) \<Rightarrow> Num (p + q)
     | (Num p, c) \<Rightarrow> c | (c, Num q) \<Rightarrow> c
     | (Inf p, Inf q) \<Rightarrow> if p = q then Inf p else NaN
     | _ \<Rightarrow> NaN)"

definition any_of :: "jsval list \<Rightarrow> jsval" where
  "any_of vs = foldl or_else JUndef vs"

definition model_uplink ::
    "jsval list \<Rightarrow> jsval list \<Rightarrow> jsval \<Rightarrow> member list \<Rightarrow> jsval \<Rightarrow> uplink_model" where
  "model_uplink networkSections runtime mwanRuntime members0 section =
     (let name = sectionName section;
          network = (case find (\<lambda>item. sectionName item = name) networkSections of Some n \<Rightarrow> n | None \<Rightarrow> JObj []);
          runtimeEntry = findRuntime runtime name;
          mwanEntry = or_else (field mwanRuntime (to_str name)) JNull;
          members = members_of members0 name;
          disabled = \<not> enabledValue (field section ''enabled'');
          state = (if disabled then ''disabled''
                   else case mwanRuntimeState mwanEntry of Some s \<Rightarrow> s | None \<Rightarrow> runtimeState runtimeEntry);
          metrics = List.map_filter mb_metric members;
          weights = List.map_filter mb_weight members
      in \<lparr>um_name = or_else name (JStr []),
          um_label = any_of [field section ''label'', field section ''description'', field network ''label'',
                       name, JStr en_dash],
          um_scope = any_of [field network ''freenetic_scope'', field section ''freenetic_scope'', JStr []],
          um_device = any_of [and_then runtimeEntry
                         (or_else (field runtimeEntry ''l3_device'') (field runtimeEntry ''device'')),
                       field network ''device'', field network ''ifname'', JStr []],
          um_proto = any_of [field network ''proto'', field section ''proto'', JStr []],
          um_family = familyValue (field section ''family'') name
                        (or_else (field network ''proto'') (field section ''proto'')),
          um_enabled = (\<not> disabled), um_state = state, um_up = (state = ''online''),
          um_trackMethod = or_else (field section ''track_method'') (JStr []),
          um_trackIps = listValue (field section ''track_ip''),
          um_tracking = or_else (and_then mwanEntry (field mwanEntry ''tracking'')) (JStr []),
          um_initialState = or_else (field section ''initial_state'') (JStr []),
          um_members = members,
          um_metric = (case metrics of [] \<Rightarrow> None | m # ms \<Rightarrow> Some (foldl num_min m ms)),
          um_weight = (case weights of [] \<Rightarrow> None | w # ws \<Rightarrow> Some (foldl num_add (Num 0) (w # ws)))\<rparr>)"

definition model_policy :: "jsval list \<Rightarrow> member list \<Rightarrow> jsval \<Rightarrow> policy_model" where
  "model_policy ruleSections members section =
     (let name = sectionName section
      in \<lparr>pm_name = or_else name (JStr []),
          pm_label = any_of [field section ''label'', field section ''description'', name, JStr en_dash],
          pm_members = map (\<lambda>memberName. case member_by_name members memberName of
               Some m \<Rightarrow> m\<lparr>mb_name := memberName\<rparr>
             | None \<Rightarrow> \<lparr>mb_name = memberName, mb_interface = [], mb_metric = None, mb_weight = None\<rparr>)
             (listValue (field section ''use_member'')),
          pm_ruleCount = length (filter (\<lambda>rule.
             name \<in> set (listValue (or_else (field rule ''use_policy'') (field rule ''policy'')))) ruleSections),
          pm_lastResort = or_else (field section ''last_resort'') (JStr [])\<rparr>)"

definition buildModel :: "jsval \<Rightarrow> jsval \<Rightarrow> jsval \<Rightarrow> jsval \<Rightarrow> jsval \<Rightarrow> multiwan_model" where
  "buildModel config0 networkSource runtimeSource packageSource mwanRuntimeSource =
     (let config = or_else config0 (JObj []);
          part = (\<lambda>a b. or_else (field config a) (field config b));
          interfaceSections = normalizeSections (part ''interfaces'' ''interface'') ''interface'';
          memberSections = normalizeSections (part ''members'' ''member'') ''member'';
          policySections = normalizeSections (part ''policies'' ''policy'') ''policy'';
          ruleSections = normalizeSections (part ''rules'' ''rule'') ''rule'';
          networkSections = normalizeSections networkSource ''interface'';
          runtime = normalizeRuntime runtimeSource;
          mwanRuntime = normalizeMwanRuntime mwanRuntimeSource;
          members = List.map_filter model_member memberSections;
          uplinks = map (model_uplink networkSections runtime mwanRuntime members) interfaceSections;
          policies = map (model_policy ruleSections members) policySections;
          packages = packageMap packageSource;
          mwan3 = field packages ''mwan3''; luci = field packages ''luci-app-mwan3'';
          count = (\<lambda>s. length (filter (\<lambda>u. um_state u = s) uplinks))
      in \<lparr>mm_ready = packageInstalled mwan3,
          mm_mwan3 = (packageInstalled mwan3, packageAvailable mwan3),
          mm_luci = (packageInstalled luci, packageAvailable luci),
          mm_uplinks = uplinks, mm_policies = policies, mm_total = length uplinks,
          mm_online = count ''online'', mm_offline = count ''offline'', mm_disabled = count ''disabled'',
          mm_policyCount = length policies, mm_ruleCount = length ruleSections\<rparr>)"

end
