(* ===== verification/Multiwan_Properties.thy ===== *)
theory Multiwan_Properties
  imports Multiwan_State
begin

text \<open>
  Properties of the mode planner, the route metrics and the traffic state of Multi-WAN.
\<close>

section \<open>Route metrics\<close>

lemma metric_choices: "set metric_choices = {m. \<exists>k. m = num_of_int k \<and> 20 \<le> k \<and> k \<le> 70 \<and> k mod 10 = 0}"
proof -
  have "20 \<le> k \<and> k \<le> 70 \<and> k mod 10 = 0 \<longleftrightarrow> k \<in> {20, 30, 40, 50, 60, 70}" for k :: int
    by auto
  then show ?thesis by (auto simp: metric_choices_def)
qed

text \<open>The metrics of the other sections of a configuration.\<close>

definition other_metrics :: "jsval \<Rightarrow> jsval list \<Rightarrow> jsnum set" where
  "other_metrics currentName sections =
     {m. \<exists>s \<in> set sections. sectionName s \<noteq> currentName \<and> numberValue (field s ''metric'') = Some m}"

lemma metric_loop_used:
  "set (snd (foldl (metric_step name) (c, used) ss)) = set used \<union> other_metrics name ss"
  by (induction ss arbitrary: c used)
    (auto simp: metric_step_def Let_def other_metrics_def split: option.splits)

section \<open>The mode planner\<close>

lemma length_map_index: "length (map2 f xs [0..<length xs]) = length xs"
  by simp

lemma family_policy_facts:
  assumes "family_policy mode us family = Some p"
  defines "ms \<equiv> (if mode = ''single'' then take 1 (filter (\<lambda>u. family_of u = family) us)
                 else filter (\<lambda>u. family_of u = family) us)"
  shows "policy_name p = ''fn_'' @ mode_code mode @ (if family = ''ipv6'' then ''6'' else ''4'')"
    and "policy_family p = family" "ms \<noteq> []" "length (policy_members p) = length ms"
    and "i < length ms \<Longrightarrow> policy_members p ! i
      = \<lparr>member_name = policy_name p @ ''_'' @ dec (int i), member_interface = field (ms ! i) ''name'',
         member_metric = (if mode = ''balance'' then 1 else i + 1), member_weight = 1\<rparr>"
  using assms by (auto simp: family_policy_def Let_def split: if_splits)

lemma length_mode_code: "length (mode_code mode) = 1"
  by (simp add: mode_code_def)

lemma plan_mode_modes: "plan_mode (buildModePlan mode uplinks) \<in> set modes"
  by (auto simp: buildModePlan_def Let_def modes_def)

lemma rule_mode_policy:
  assumes "mode \<in> set modes" "family_policy mode us family = Some p"
  shows "rule_mode (JObj [(''use_policy'', JStr (policy_name p))]) = Some mode"
proof -
  have p: "policy_name p = ''fn_'' @ mode_code mode @ (if family = ''ipv6'' then ''6'' else ''4'')"
    using family_policy_facts [OF assms(2)] by blast
  have table: "rule_mode (JObj [(''use_policy'', JStr ''fn_s4'')]) = Some ''single''"
    "rule_mode (JObj [(''use_policy'', JStr ''fn_s6'')]) = Some ''single''"
    "rule_mode (JObj [(''use_policy'', JStr ''fn_f4'')]) = Some ''failover''"
    "rule_mode (JObj [(''use_policy'', JStr ''fn_f6'')]) = Some ''failover''"
    "rule_mode (JObj [(''use_policy'', JStr ''fn_b4'')]) = Some ''balance''"
    "rule_mode (JObj [(''use_policy'', JStr ''fn_b6'')]) = Some ''balance''"
    by code_simp+
  show ?thesis using assms(1) table unfolding p by (auto simp: modes_def mode_code_def)
qed

lemma map_filter_all: "\<forall>x \<in> set xs. f x = Some (g x) \<Longrightarrow> List.map_filter f xs = map g xs"
  by (induction xs) (simp_all add: List.map_filter_simps)

section \<open>Traffic state\<close>

lemma first_set: "first xs = Some x \<Longrightarrow> x \<in> set xs"
  by (cases xs) (auto simp: first_def)

lemma distinct_zip_filter: "distinct (filter P (zip [0..<length xs] xs))"
  by (intro distinct_filter distinct_zipI1) simp

section \<open>Properties\<close>

text \<open>The metric that \<open>nextRouteMetric\<close> proposes is one of 20, 30, ..., 70 and no other
  interface uses it; it proposes none only when the others use all six.\<close>

theorem nextRouteMetric_free:
  "case nextRouteMetric source name of
     Some m \<Rightarrow> num_le (Num 20) m \<and> num_le m (Num 70) \<and> int_of m mod 10 = 0
       \<and> m \<notin> other_metrics name (normalizeSections source ''interface'')
   | None \<Rightarrow> set metric_choices \<subseteq> other_metrics name (normalizeSections source ''interface'')"
proof -
  let ?ss = "normalizeSections source ''interface''"
  obtain c used where loop: "foldl (metric_step name) (None, []) ?ss = (c, used)" by fastforce
  have used: "set used = other_metrics name ?ss"
    using metric_loop_used [of name None "[]" ?ss] loop by simp
  have "case find (\<lambda>m. m \<notin> set used) metric_choices of
      Some m \<Rightarrow> num_le (Num 20) m \<and> num_le m (Num 70) \<and> int_of m mod 10 = 0 \<and> m \<notin> set used
    | None \<Rightarrow> set metric_choices \<subseteq> set used"
  proof (cases "find (\<lambda>m. m \<notin> set used) metric_choices")
    case None
    then have "set metric_choices \<subseteq> set used" by (auto simp: find_None_iff)
    then show ?thesis using None by simp
  next
    case (Some m)
    then have m: "m \<in> set metric_choices" and new: "m \<notin> set used" using find_set [OF Some] by auto
    from m have "\<exists>k. m = num_of_int k \<and> 20 \<le> k \<and> k \<le> 70 \<and> k mod 10 = 0"
      unfolding metric_choices by (simp only: mem_Collect_eq)
    then obtain k where "m = num_of_int k" "20 \<le> k" "k \<le> 70" "k mod 10 = 0" by (elim exE conjE)
    then show ?thesis using Some new by (simp add: num_of_int_def num_le_def int_of_def)
  qed
  then show ?thesis
    unfolding used [symmetric] by (auto simp: nextRouteMetric_def loop split: option.splits)
qed

text \<open>Every identifier of a plan fits the 15 characters that mwan3 allows, and a policy lists
  the enabled uplinks of its family in order: all of them with ascending metrics for failover and
  with equal metrics for balancing, and only the first one for a single uplink.\<close>

theorem mode_plan_members:
  assumes "length (elements (or_else uplinks (JArr []))) \<le> 10 ^ 9"
    and "p \<in> set (plan_policies (buildModePlan mode uplinks))"
  defines "peers \<equiv> filter (\<lambda>u. family_of u = policy_family p)
    (filter uplink_enabled (elements (or_else uplinks (JArr []))))"
  shows "length (policy_name p) \<le> 15 \<and> list_all (\<lambda>m. length (member_name m) \<le> 15) (policy_members p)
    \<and> map member_interface (policy_members p)
      = map (\<lambda>u. field u ''name'') (if plan_mode (buildModePlan mode uplinks) = ''single'' then take 1 peers else peers)
    \<and> map member_metric (policy_members p)
      = (if plan_mode (buildModePlan mode uplinks) = ''balance'' then replicate (length (policy_members p)) 1
         else [1..<Suc (length (policy_members p))])"
proof -
  define md where "md = plan_mode (buildModePlan mode uplinks)"
  define us where "us = filter uplink_enabled (elements (or_else uplinks (JArr [])))"
  have pols: "plan_policies (buildModePlan mode uplinks) = List.map_filter (family_policy md us) [''ipv4'', ''ipv6'']"
    by (simp add: buildModePlan_def Let_def md_def us_def)
  obtain family where "family_policy md us family = Some p"
    using assms(2) unfolding pols map_filter_set by blast
  note p = family_policy_facts [OF this]
  define ms where "ms = (if md = ''single'' then take 1 peers else peers)"
  have g: "peers = filter (\<lambda>u. family_of u = family) us" unfolding peers_def us_def p(2) by (rule refl)
  note p = p [folded g, folded ms_def]
  have "length us \<le> 10 ^ 9" using assms(1) unfolding us_def by (meson length_filter_le order_trans)
  then have "length peers \<le> 10 ^ 9" unfolding g by (meson length_filter_le order_trans)
  then have small: "length ms \<le> 10 ^ 9" by (auto simp: ms_def min_def)
  have name: "length (policy_name p) = 5" by (simp add: p(1) length_mode_code)
  have "length (member_name (policy_members p ! i)) \<le> 15" if "i < length ms" for i
  proof -
    have "length (dec (int i)) \<le> 9" using that small by (intro base_str_len) auto
    then show ?thesis by (simp add: p(5) [OF that] name)
  qed
  then have "list_all (\<lambda>m. length (member_name m) \<le> 15) (policy_members p)"
    by (simp add: list_all_length p(4))
  moreover have "map member_interface (policy_members p) = map (\<lambda>u. field u ''name'') ms"
    by (rule nth_equalityI) (simp_all add: p(4,5))
  moreover have "map member_metric (policy_members p)
      = (if md = ''balance'' then replicate (length (policy_members p)) 1 else [1..<Suc (length (policy_members p))])"
    by (rule nth_equalityI) (simp_all add: p(4,5) del: upt_Suc)
  ultimately show ?thesis using name by (simp add: md_def ms_def)
qed

theorem mode_plan_members_witness:
  "list_all (\<lambda>p. length (policy_name p) \<le> 15)
     (plan_policies (buildModePlan (JStr ''failover'') (JArr [JObj [(''name'', JStr ''wan'')], JObj [(''name'', JStr ''wanb'')]])))"
  using mode_plan_members [of "JArr [JObj [(''name'', JStr ''wan'')], JObj [(''name'', JStr ''wanb'')]]" _ "JStr ''failover''"]
  by (simp add: list_all_iff or_else_def truthy_def elements_def)

text \<open>The mode can be read back from the rules: rules that use the policies of a plan are
  detected as the mode of the plan.\<close>

theorem detectMode_plan:
  assumes "plan_policies (buildModePlan mode uplinks) \<noteq> []"
  shows "detectMode (map (\<lambda>p. JObj [(''use_policy'', JStr (policy_name p))]) (plan_policies (buildModePlan mode uplinks))) fallback
    = plan_mode (buildModePlan mode uplinks)"
proof -
  let ?plan = "buildModePlan mode uplinks"
  define us where "us = filter uplink_enabled (elements (or_else uplinks (JArr [])))"
  have pols: "plan_policies ?plan = List.map_filter (family_policy (plan_mode ?plan) us) [''ipv4'', ''ipv6'']"
    by (simp add: buildModePlan_def Let_def us_def)
  have "rule_mode (JObj [(''use_policy'', JStr (policy_name p))]) = Some (plan_mode ?plan)"
    if "p \<in> set (plan_policies ?plan)" for p
    using that rule_mode_policy [OF plan_mode_modes] unfolding pols map_filter_set by blast
  then have "List.map_filter rule_mode (map (\<lambda>p. JObj [(''use_policy'', JStr (policy_name p))]) (plan_policies ?plan))
      = map (\<lambda>_. plan_mode ?plan) (plan_policies ?plan)"
    by (subst map_filter_all [where g = "\<lambda>_. plan_mode ?plan"]) auto
  moreover have "set (map (\<lambda>_. plan_mode ?plan) (plan_policies ?plan)) = {plan_mode ?plan}"
    by (simp add: image_constant_conv assms)
  moreover have "plan_mode ?plan = ''single'' \<or> plan_mode ?plan = ''failover'' \<or> plan_mode ?plan = ''balance''"
    using plan_mode_modes [of mode uplinks] by (auto simp: modes_def)
  ultimately show ?thesis by (elim disjE) (simp_all add: detectMode_def Let_def del: set_map)
qed

theorem detectMode_plan_witness:
  "detectMode [JObj [(''use_policy'', JStr ''fn_b4'')]] JNull = ''balance''"
proof -
  let ?plan = "buildModePlan (JStr ''balance'') (JArr [JObj [(''name'', JStr ''wan'')]])"
  have "map policy_name (plan_policies ?plan) = [''fn_b4'']" "plan_mode ?plan = ''balance''" by code_simp+
  moreover have "map (\<lambda>p. JObj [(''use_policy'', JStr (policy_name p))]) (plan_policies ?plan)
      = map (\<lambda>n. JObj [(''use_policy'', JStr n)]) (map policy_name (plan_policies ?plan))" by simp
  ultimately show ?thesis
    using detectMode_plan [of "JStr ''balance''" "JArr [JObj [(''name'', JStr ''wan'')]]" JNull] by auto
qed

text \<open>C10: in the traffic state the primary uplink comes first and is not among its backups, the
  uplink that carries the traffic is an online uplink of the list, and with a single uplink it is
  the selected one.\<close>

theorem traffic_state_consistent:
  fixes uplinks policies :: "jsval list" and mode policyName :: jsval
  defines "t \<equiv> buildTrafficState uplinks mode policies policyName"
  shows "distinct (ts_uplinks t) \<and> ts_uplinks t = option_list (ts_primary t) @ ts_backups t
    \<and> (case ts_current t of
         None \<Rightarrow> True
       | Some u \<Rightarrow> online u \<and> u \<in> set (ts_uplinks t) \<and> uplinks ! fst u = snd u
           \<and> ts_heroState t = JStr ''online'' \<and> (mode = JStr ''single'' \<longrightarrow> ts_selected t = Some u))"
proof -
  define us where "us = filter (truthy \<circ> snd) (zip [0..<length uplinks] uplinks)"
  define cs where "cs = or_default (filter (\<lambda>u. field (snd u) ''family'' = JStr ''ipv4'') us) us"
  define ifs where "ifs = policy_interfaces policies policyName"
  define sc where "sc = or_default (filter (has_role ifs) cs) cs"
  have sub: "set sc \<subseteq> set us" by (auto simp: sc_def cs_def or_default_def split: if_splits)
  have dist: "distinct us" unfolding us_def by (rule distinct_zip_filter)
  then have dsc: "distinct sc" by (simp add: sc_def cs_def or_default_def)
  define pr where "pr = (case find (\<lambda>u. lower_field ''name'' u = ''wan'') sc of Some u \<Rightarrow> Some u | None \<Rightarrow> first sc)"
  define bs where "bs = filter (\<lambda>u. Some u \<noteq> pr) sc"
  define pu where "pu = (if ifs \<noteq> [] then List.map_filter (\<lambda>name. find (\<lambda>u. uplink_name u = name) (option_list pr @ bs)) ifs
      else option_list pr @ bs)"
  define se where "se = (if mode = JStr ''single'' then (case first pu of Some u \<Rightarrow> Some u | None \<Rightarrow> pr) else pr)"
  define cu where "cu = find online (if mode = JStr ''single'' then option_list se else pu)"
  have t: "t = \<lparr>ts_uplinks = option_list pr @ bs, ts_primary = pr, ts_selected = se, ts_current = cu,
      ts_fallback = se, ts_backups = bs, ts_backupOnline = find online bs,
      ts_heroState = (case cu of Some _ \<Rightarrow> JStr ''online''
        | None \<Rightarrow> (case se of Some u \<Rightarrow> field (snd u) ''state'' | None \<Rightarrow> JStr ''unknown'')), ts_mode = mode\<rparr>"
    unfolding t_def buildTrafficState_def Let_def cu_def se_def pu_def bs_def pr_def sc_def cs_def ifs_def us_def
    by (rule refl)
  have prim: "u \<in> set sc" if "pr = Some u" for u
    using that by (auto simp: pr_def split: option.splits dest: find_set first_set)
  have d: "distinct (option_list pr @ bs)" and sc_sub: "set (option_list pr @ bs) \<subseteq> set sc"
    using dsc prim by (auto simp: bs_def option_list_def split: option.splits)
  have pol: "set pu \<subseteq> set (option_list pr @ bs)"
    unfolding pu_def by (auto simp: map_filter_set simp del: set_append dest!: find_set split: if_splits)
  have "online u \<and> u \<in> set (option_list pr @ bs) \<and> uplinks ! fst u = snd u
      \<and> (mode = JStr ''single'' \<longrightarrow> se = Some u)" if u: "cu = Some u" for u
  proof -
    have on: "online u" and mem: "u \<in> set (if mode = JStr ''single'' then option_list se else pu)"
      using find_set [OF u [unfolded cu_def]] by auto
    then have single: "mode = JStr ''single'' \<longrightarrow> se = Some u"
      by (auto simp: option_list_def split: option.splits)
    have first: "first pu = Some v \<Longrightarrow> v \<in> set (option_list pr @ bs)" for v
      by (rule subsetD [OF pol first_set])
    have "mode = JStr ''single'' \<longrightarrow> u \<in> set (option_list pr @ bs)"
    proof
      assume "mode = JStr ''single''"
      then have "se = Some u" "se = (case first pu of Some u \<Rightarrow> Some u | None \<Rightarrow> pr)"
        using single by (simp_all add: se_def)
      then show "u \<in> set (option_list pr @ bs)"
        using first by (cases "first pu") (simp_all add: option_list_def)
    qed
    then have ord: "u \<in> set (option_list pr @ bs)" using mem pol by (auto split: if_splits)
    with sc_sub sub have "u \<in> set us" by blast
    then have "uplinks ! fst u = snd u" by (auto simp: us_def set_zip)
    then show ?thesis using on ord single by blast
  qed
  then show ?thesis using d unfolding t by (auto split: option.split)
qed

theorem traffic_state_consistent_witness:
  "ts_current (buildTrafficState [JObj [(''name'', JStr ''wanb''), (''state'', JStr ''online'')],
       JObj [(''name'', JStr ''wan''), (''state'', JStr ''offline'')]] (JStr ''failover'') [] JNull)
     = Some (0, JObj [(''name'', JStr ''wanb''), (''state'', JStr ''online'')])
   \<and> ts_heroState (buildTrafficState [JObj [(''name'', JStr ''wanb''), (''state'', JStr ''online'')],
       JObj [(''name'', JStr ''wan''), (''state'', JStr ''offline'')]] (JStr ''failover'') [] JNull) = JStr ''online''"
  (is "ts_current ?t = _ \<and> _")
proof
  show current: "ts_current ?t = Some (0, JObj [(''name'', JStr ''wanb''), (''state'', JStr ''online'')])"
    by code_simp
  show "ts_heroState ?t = JStr ''online''"
    using traffic_state_consistent [of "[JObj [(''name'', JStr ''wanb''), (''state'', JStr ''online'')],
       JObj [(''name'', JStr ''wan''), (''state'', JStr ''offline'')]]" "JStr ''failover''" "[]" JNull]
    unfolding current by simp
qed

text \<open>The summary of the model counts its uplinks by state, an uplink that the configuration
  disables is in state \<open>disabled\<close>, and the flag \<open>up\<close> says that the state is \<open>online\<close>.\<close>

theorem buildModel_summary:
  fixes config network runtime packages mwan :: jsval
  defines "m \<equiv> buildModel config network runtime packages mwan"
  shows "mm_total m = length (mm_uplinks m) \<and> mm_policyCount m = length (mm_policies m)
    \<and> mm_online m = length (filter um_up (mm_uplinks m))
    \<and> mm_online m + mm_offline m + mm_disabled m \<le> mm_total m
    \<and> list_all (\<lambda>u. um_up u = (um_state u = ''online'') \<and> (um_enabled u \<or> um_state u = ''disabled'')) (mm_uplinks m)"
proof -
  have three: "length (filter (\<lambda>u. f u = ''online'') us) + length (filter (\<lambda>u. f u = ''offline'') us)
      + length (filter (\<lambda>u. f u = ''disabled'') us) \<le> length us" for f :: "uplink_model \<Rightarrow> string" and us
    by (induction us) auto
  have up: "list_all (\<lambda>u. um_up u = (um_state u = ''online'') \<and> (um_enabled u \<or> um_state u = ''disabled'')) (mm_uplinks m)"
    by (simp add: m_def buildModel_def Let_def list_all_iff model_uplink_def)
  have online: "mm_online m = length (filter um_up (mm_uplinks m))"
  proof -
    have "mm_online m = length (filter (\<lambda>u. um_state u = ''online'') (mm_uplinks m))"
      by (simp add: m_def buildModel_def Let_def)
    also have "filter (\<lambda>u. um_state u = ''online'') (mm_uplinks m) = filter um_up (mm_uplinks m)"
      using up by (intro filter_cong) (auto simp: list_all_iff)
    finally show ?thesis .
  qed
  have counts: "mm_online m = length (filter (\<lambda>u. um_state u = ''online'') (mm_uplinks m))"
    "mm_offline m = length (filter (\<lambda>u. um_state u = ''offline'') (mm_uplinks m))"
    "mm_disabled m = length (filter (\<lambda>u. um_state u = ''disabled'') (mm_uplinks m))"
    "mm_total m = length (mm_uplinks m)" "mm_policyCount m = length (mm_policies m)"
    unfolding m_def buildModel_def Let_def by simp_all
  then have "mm_online m + mm_offline m + mm_disabled m \<le> mm_total m"
    using three [of um_state "mm_uplinks m"] by simp
  with up online counts show ?thesis by simp
qed

end
