(* ===== verification/Steps.thy ===== *)
theory Steps
  imports Main
begin

text \<open>
  The interface of the state machines: a step relation with an initial state, an invariant and a
  measure that the internal steps decrease.  The components interpret it on their own steps.
\<close>

inductive reachable :: "('s \<Rightarrow> 's \<Rightarrow> bool) \<Rightarrow> 's \<Rightarrow> 's \<Rightarrow> bool" for step s0 where
  start: "reachable step s0 s0"
| more: "reachable step s0 s \<Longrightarrow> step s t \<Longrightarrow> reachable step s0 t"

locale step_system =
  fixes step :: "'s \<Rightarrow> 's \<Rightarrow> bool" and s0 :: 's and inv :: "'s \<Rightarrow> bool"
  assumes inv_start: "inv s0"
    and inv_step: "inv s \<Longrightarrow> step s t \<Longrightarrow> inv t"
begin

lemma inv_reachable: "reachable step s0 s \<Longrightarrow> inv s"
  by (induction rule: reachable.induct) (auto intro: inv_start inv_step)

lemma inv_steps: "step\<^sup>*\<^sup>* s t \<Longrightarrow> inv s \<Longrightarrow> inv t"
  by (induction rule: rtranclp_induct) (auto intro: inv_step)

end

text \<open>Some steps are internal: the system takes them without its environment, and they end.\<close>

locale progress_system = step_system +
  fixes internal :: "'s \<Rightarrow> 's \<Rightarrow> bool" and work :: "'s \<Rightarrow> nat" and final :: "'s \<Rightarrow> bool"
  assumes internal_step: "internal s t \<Longrightarrow> step s t"
    and internal_work: "inv s \<Longrightarrow> internal s t \<Longrightarrow> work t < work s"
    and progress: "inv s \<Longrightarrow> final s \<or> (\<exists>t. internal s t)"
begin

lemma inv_internal: "internal\<^sup>*\<^sup>* s t \<Longrightarrow> inv s \<Longrightarrow> inv t"
  by (induction rule: rtranclp_induct) (auto intro: inv_step internal_step)

lemma internal_bound: "(internal ^^ n) s t \<Longrightarrow> inv s \<Longrightarrow> n + work t \<le> work s"
proof (induction n arbitrary: t)
  case (Suc n)
  then obtain u where u: "(internal ^^ n) s u" "internal u t" by auto
  then have "inv u" using inv_internal Suc.prems(2) relpowp_imp_rtranclp by fastforce
  then show ?case using internal_work [of u t] Suc.IH [OF u(1) Suc.prems(2)] u(2) by simp
qed simp

lemma settles:
  assumes "inv s"
  shows "\<exists>t. internal\<^sup>*\<^sup>* s t \<and> final t"
  using assms
proof (induction "work s" arbitrary: s rule: less_induct)
  case less
  show ?case
  proof (cases "final s")
    case False
    then obtain t where "internal s t" using progress [OF less.prems] by blast
    moreover from this have "inv t" "work t < work s"
      using less.prems inv_step internal_step internal_work by blast+
    ultimately show ?thesis using less.hyps by (meson converse_rtranclp_into_rtranclp)
  qed blast
qed

end

end
