(* ===== verification/Rpc.thy ===== *)
theory Rpc
  imports Js_Value Steps
begin

text \<open>
  The call batching of \<open>freenetic-rpc.js\<close>.  Calls of one turn are collected, a microtask sends them
  as one request, and a request that fails at the direct endpoint is sent once more to the
  dispatcher.  The promise of a call is the identifier of its message; \<open>settled\<close> records every
  call of \<open>resolve\<close> (\<open>Inr\<close>) and \<open>reject\<close> (\<open>Inl\<close>) in order.  The server and the clock are the
  environment: a fetch gets its response at some time, fails, or never gets one, and the timer ends
  the wait; the body of a response is read after that, without a timer, and may never arrive.
\<close>

section \<open>State\<close>

record rpc_env =
  ubuspath :: string
  session :: string
  fallback_url :: string

record rpc_call =
  c_object :: string
  c_method :: string
  c_id :: int
  c_message :: jsval

record flight =
  f_calls :: "rpc_call list"
  f_url :: string
  f_payload :: jsval
  f_retry :: bool
  f_reading :: bool

text \<open>\<open>f_reading\<close>: the response has arrived and \<open>r.json()\<close> is awaited.\<close>

record rpc =
  requestId :: int
  endpointPromise :: "string option"
  flushScheduled :: bool
  pendingCalls :: "rpc_call list"
  flights :: "flight list"
  settled :: "(int \<times> (string + jsval)) list"

definition rpc_init :: rpc where
  "rpc_init = \<lparr>requestId = 1, endpointPromise = None, flushScheduled = False, pendingCalls = [],
     flights = [], settled = []\<rparr>"

section \<open>Fetching\<close>

definition REQUEST_TIMEOUT_MS :: nat where
  "REQUEST_TIMEOUT_MS = 15000"

record response =
  r_ok :: bool
  r_status :: int

text \<open>A fetch whose response arrives after so many milliseconds, or never; the race with the timer, which
  is cleared when the response is there.\<close>

type_synonym answer = "(nat \<times> (string + response)) option"

definition timedFetch :: "answer \<Rightarrow> nat \<Rightarrow> string + response" where
  "timedFetch request timeoutMs =
     (let limit = (if timeoutMs = 0 then REQUEST_TIMEOUT_MS else timeoutMs)
      in case request of
           Some (t, r) \<Rightarrow> if t < limit then r else Inl ''ubus request timed out''
         | None \<Rightarrow> Inl ''ubus request timed out'')"

text \<open>\<open>fetchJson\<close> up to the call of \<open>r.json()\<close>: the error, or the response whose body is read next.\<close>

definition fetchJson :: "answer \<Rightarrow> nat \<Rightarrow> string + response" where
  "fetchJson request timeoutMs =
     (case timedFetch request timeoutMs of
        Inl e \<Rightarrow> Inl e
      | Inr r \<Rightarrow> if \<not> r_ok r then Inl (''ubus request failed (HTTP '' @ num_str (num_of_int (r_status r)) @ '')'')
                 else Inr r)"

definition sessionId :: "rpc_env \<Rightarrow> string" where
  "sessionId E = (if session E \<noteq> [] then session E else replicate 32 (CHR ''0''))"

definition selectEndpoint :: "rpc_env \<Rightarrow> rpc \<Rightarrow> string \<times> rpc" where
  "selectEndpoint E s =
     (case endpointPromise s of
        Some url \<Rightarrow> (url, s)
      | None \<Rightarrow> (let url = (if ubuspath E \<noteq> [] then ubuspath E else fallback_url E)
                in (url, s\<lparr>endpointPromise := Some url\<rparr>)))"

section \<open>Replies\<close>

definition decodeReply :: "rpc_call \<Rightarrow> jsval \<Rightarrow> string + jsval" where
  "decodeReply c msg =
     (let error = field msg ''error''
      in if truthy msg \<and> truthy error
         then (let code = (if \<not> nullish (field error ''code'')
                           then '', code '' @ to_str (field error ''code'') else []);
                   message = or_else (field error ''message'') (JStr ''JSON-RPC error'')
               in Inl (''ubus request failed (object='' @ c_object c @ '' method='' @ c_method c
                    @ '', '' @ to_str message @ code @ '')''))
         else if \<not> truthy msg \<or> \<not> is_array (field msg ''result'') then Inl ''Malformed ubus reply''
         else (let result = elements (field msg ''result'');
                   rc = (if 0 < length result then result ! 0 else JUndef);
                   data = (if 1 < length result then result ! 1 else JUndef)
               in if rc \<noteq> JNum (Num 0)
                  then Inl (''ubus error (object='' @ c_object c @ '' method='' @ c_method c
                         @ '', code '' @ to_str rc @ '')'')
                  else Inr (or_else data (JObj []))))"

text \<open>A property key is the text of the identifier; a later reply replaces an earlier one.\<close>

definition has_id :: "jsval \<Rightarrow> bool" where
  "has_id reply \<longleftrightarrow> truthy reply \<and> \<not> nullish (field reply ''id'')"

definition by_id :: "jsval list \<Rightarrow> int \<Rightarrow> jsval" where
  "by_id replies k =
     (case find (\<lambda>r. has_id r \<and> to_str (field r ''id'') = num_str (num_of_int k)) (rev replies) of
        Some r \<Rightarrow> r | None \<Rightarrow> JUndef)"

definition reply_for :: "jsval list \<Rightarrow> nat \<Rightarrow> rpc_call \<Rightarrow> jsval" where
  "reply_for replies index c =
     (if list_ex has_id replies then by_id replies (c_id c)
      else if index < length replies then replies ! index else JUndef)"

definition dispatchReplies :: "rpc_call list \<Rightarrow> jsval \<Rightarrow> (int \<times> (string + jsval)) list" where
  "dispatchReplies calls payload =
     (let replies = (if is_array payload then elements payload else [payload])
      in map2 (\<lambda>index c. (c_id c, decodeReply c (reply_for replies index c)))
           [0..<length calls] calls)"

definition reject_all :: "string \<Rightarrow> rpc_call list \<Rightarrow> (int \<times> (string + jsval)) list" where
  "reject_all e calls = map (\<lambda>c. (c_id c, Inl e)) calls"

section \<open>Operations\<close>

definition rpc_message :: "rpc_env \<Rightarrow> int \<Rightarrow> string \<Rightarrow> string \<Rightarrow> jsval \<Rightarrow> jsval" where
  "rpc_message E k object method params =
     JObj [(''jsonrpc'', JStr ''2.0''), (''id'', JNum (num_of_int k)), (''method'', JStr ''call''),
       (''params'', JArr [JStr (sessionId E), JStr object, JStr method, or_else params (JObj [])])]"

definition call :: "rpc_env \<Rightarrow> string \<Rightarrow> string \<Rightarrow> jsval \<Rightarrow> rpc \<Rightarrow> rpc" where
  "call E object method params s =
     s\<lparr>pendingCalls := pendingCalls s @ [\<lparr>c_object = object, c_method = method, c_id = requestId s,
          c_message = rpc_message E (requestId s) object method params\<rparr>],
       requestId := requestId s + 1, flushScheduled := True\<rparr>"

definition flushCalls :: "rpc_env \<Rightarrow> rpc \<Rightarrow> rpc" where
  "flushCalls E s0 =
     (let s = s0\<lparr>flushScheduled := False\<rparr>
      in if pendingCalls s = [] then s
         else (let calls = pendingCalls s; messages = map c_message calls;
                   payload = (if length messages = 1 then messages ! 0 else JArr messages);
                   (url, s) = selectEndpoint E s
               in s\<lparr>pendingCalls := [],
                    flights := flights s @ [\<lparr>f_calls = calls, f_url = url, f_payload = payload, f_retry = False, f_reading = False\<rparr>]\<rparr>))"

definition without :: "nat \<Rightarrow> 'a list \<Rightarrow> 'a list" where
  "without i xs = take i xs @ drop (Suc i) xs"

text \<open>The request of a flight fails, before its response or while its body is read: it is sent to the
  dispatcher, or its calls are rejected.\<close>

definition fetch_failed :: "rpc_env \<Rightarrow> nat \<Rightarrow> string \<Rightarrow> rpc \<Rightarrow> rpc" where
  "fetch_failed E i e s =
     (let f = flights s ! i
      in if f_retry f \<or> f_url f = fallback_url E
         then s\<lparr>flights := without i (flights s), settled := settled s @ reject_all e (f_calls f)\<rparr>
         else s\<lparr>flights := (flights s)[i := f\<lparr>f_url := fallback_url E, f_retry := True, f_reading := False\<rparr>]\<rparr>)"

text \<open>The race of a flight with its timer is over.\<close>

definition fetch_responded :: "rpc_env \<Rightarrow> nat \<Rightarrow> answer \<Rightarrow> rpc \<Rightarrow> rpc" where
  "fetch_responded E i request s =
     (case fetchJson request 0 of
        Inl e \<Rightarrow> fetch_failed E i e s
      | Inr r \<Rightarrow> s\<lparr>flights := (flights s)[i := (flights s ! i)\<lparr>f_reading := True\<rparr>]\<rparr>)"

text \<open>The body of a flight is read: \<open>r.json()\<close> rejects, or its value is dispatched.\<close>

definition body_read :: "rpc_env \<Rightarrow> nat \<Rightarrow> string + jsval \<Rightarrow> rpc \<Rightarrow> rpc" where
  "body_read E i body s =
     (let f = flights s ! i
      in case body of
           Inl e \<Rightarrow> fetch_failed E i e s
         | Inr payload \<Rightarrow> s\<lparr>flights := without i (flights s),
               endpointPromise := (if f_retry f then Some (fallback_url E) else endpointPromise s),
               settled := settled s @ dispatchReplies (f_calls f) payload\<rparr>)"

section \<open>Steps\<close>

text \<open>The client and its timers take these steps by themselves; every fetch has an outcome.\<close>

inductive rpc_timed :: "rpc_env \<Rightarrow> rpc \<Rightarrow> rpc \<Rightarrow> bool" for E where
  Flush: "flushScheduled s \<Longrightarrow> rpc_timed E s (flushCalls E s)"
| Responded: "i < length (flights s) \<Longrightarrow> \<not> f_reading (flights s ! i) \<Longrightarrow> rpc_timed E s (fetch_responded E i request s)"

text \<open>The end of a body is a step of the server alone: nothing bounds the wait for it.\<close>

inductive rpc_internal :: "rpc_env \<Rightarrow> rpc \<Rightarrow> rpc \<Rightarrow> bool" for E where
  Timed: "rpc_timed E s t \<Longrightarrow> rpc_internal E s t"
| Body: "i < length (flights s) \<Longrightarrow> f_reading (flights s ! i) \<Longrightarrow> rpc_internal E s (body_read E i body s)"

inductive rpc_step :: "rpc_env \<Rightarrow> rpc \<Rightarrow> rpc \<Rightarrow> bool" for E where
  Call: "rpc_step E s (call E object method params s)"
| Internal: "rpc_internal E s t \<Longrightarrow> rpc_step E s t"

inductive_cases rpc_timedE: "rpc_timed E s t"
inductive_cases rpc_internalE: "rpc_internal E s t"
inductive_cases rpc_stepE: "rpc_step E s t"

definition flight_ids :: "flight list \<Rightarrow> int list" where
  "flight_ids fs = concat (map (\<lambda>f. map c_id (f_calls f)) fs)"

definition rpc_ids :: "rpc \<Rightarrow> int list" where
  "rpc_ids s = map fst (settled s) @ flight_ids (flights s) @ map c_id (pendingCalls s)"

definition quiescent :: "rpc \<Rightarrow> bool" where
  "quiescent s \<longleftrightarrow> pendingCalls s = [] \<and> flights s = []"

text \<open>Nothing is left for the client to do: what is in flight waits for a body.\<close>

definition waits_for_bodies :: "rpc \<Rightarrow> bool" where
  "waits_for_bodies s \<longleftrightarrow> pendingCalls s = [] \<and> list_all f_reading (flights s)"

definition flight_work :: "flight \<Rightarrow> nat" where
  "flight_work f = (if f_retry f then 0 else 2) + (if f_reading f then 1 else 2)"

definition rpc_work :: "rpc \<Rightarrow> nat" where
  "rpc_work s = (if flushScheduled s then 5 else 0) + sum_list (map flight_work (flights s))"

end
