(* ===== verification/Rpc_Properties.thy ===== *)
theory Rpc_Properties
  imports Rpc
begin

text \<open>
  Every call of the batching client is settled exactly once, by the reply that carries its
  identifier, and a working fallback endpoint is remembered.
\<close>

section \<open>Identifiers\<close>

definition rpc_inv :: "rpc_env \<Rightarrow> rpc \<Rightarrow> bool" where
  "rpc_inv E s \<longleftrightarrow> 1 \<le> requestId s \<and> distinct (rpc_ids s) \<and> set (rpc_ids s) = {1..<requestId s}
     \<and> (pendingCalls s \<noteq> [] \<longrightarrow> flushScheduled s)
     \<and> list_all (\<lambda>f. f_calls f \<noteq> [] \<and> (f_retry f \<longrightarrow> f_url f = fallback_url E)) (flights s)"

lemma rpc_inv_init: "rpc_inv E rpc_init"
  by (simp add: rpc_inv_def rpc_init_def rpc_ids_def flight_ids_def)

lemma rpc_inv_call:
  assumes "rpc_inv E s"
  shows "rpc_inv E (call E object method params s)"
proof -
  have ids: "rpc_ids (call E object method params s) = rpc_ids s @ [requestId s]"
    by (simp add: call_def rpc_ids_def)
  have "requestId s \<notin> set (rpc_ids s)" using assms by (simp add: rpc_inv_def)
  moreover have "{1..<requestId s + 1} = insert (requestId s) {1..<requestId s}"
    using assms by (auto simp: rpc_inv_def)
  ultimately show ?thesis
    using assms unfolding rpc_inv_def ids by (simp add: call_def)
qed

lemma flight_ids_simps [simp]:
  "flight_ids [] = []" "flight_ids (f # fs) = map c_id (f_calls f) @ flight_ids fs"
  "flight_ids (fs @ gs) = flight_ids fs @ flight_ids gs"
  by (simp_all add: flight_ids_def)

lemma flush_fields:
  assumes "pendingCalls s \<noteq> []"
  shows "\<exists>url payload. flights (flushCalls E s)
      = flights s @ [\<lparr>f_calls = pendingCalls s, f_url = url, f_payload = payload, f_retry = False, f_reading = False\<rparr>]
    \<and> endpointPromise (flushCalls E s) = Some url"
    and "pendingCalls (flushCalls E s) = []" "settled (flushCalls E s) = settled s"
    "requestId (flushCalls E s) = requestId s" "\<not> flushScheduled (flushCalls E s)"
  using assms by (auto simp: flushCalls_def selectEndpoint_def Let_def split: option.split)

lemma flush_nothing: "pendingCalls s = [] \<Longrightarrow> flushCalls E s = s\<lparr>flushScheduled := False\<rparr>"
  by (simp add: flushCalls_def)

lemma rpc_inv_flush:
  assumes "rpc_inv E s"
  shows "rpc_inv E (flushCalls E s)"
proof (cases "pendingCalls s = []")
  case True
  then show ?thesis using assms by (simp add: flush_nothing rpc_inv_def rpc_ids_def)
next
  case False
  obtain url payload where fl: "flights (flushCalls E s)
      = flights s @ [\<lparr>f_calls = pendingCalls s, f_url = url, f_payload = payload, f_retry = False, f_reading = False\<rparr>]"
    using flush_fields(1) [OF False] by blast
  have "rpc_ids (flushCalls E s) = rpc_ids s"
    unfolding rpc_ids_def fl flush_fields(2,3) [OF False] by simp
  then show ?thesis
    using assms False unfolding rpc_inv_def by (simp add: fl flush_fields)
qed

lemma dispatch_ids: "map fst (dispatchReplies calls payload) = map c_id calls"
  by (rule nth_equalityI) (simp_all add: dispatchReplies_def Let_def)

lemma reject_ids: "map fst (reject_all e calls) = map c_id calls"
  by (simp add: reject_all_def)

text \<open>What an event of a flight does: it settles the calls of the flight, or changes only the url, the
  retry or the phase of the flight.\<close>

definition flight_event :: "rpc_env \<Rightarrow> nat \<Rightarrow> rpc \<Rightarrow> rpc \<Rightarrow> bool" where
  "flight_event E i s t \<longleftrightarrow> requestId t = requestId s \<and> pendingCalls t = pendingCalls s \<and> flushScheduled t = flushScheduled s
     \<and> (map fst (settled t) = map fst (settled s) @ map c_id (f_calls (flights s ! i)) \<and> flights t = without i (flights s)
       \<or> settled t = settled s \<and> (\<exists>f. flights t = (flights s)[i := f] \<and> f_calls f = f_calls (flights s ! i)
           \<and> flight_work f < flight_work (flights s ! i)
           \<and> (f_retry f \<longrightarrow> f_url f = fallback_url E \<or> f_url f = f_url (flights s ! i) \<and> f_retry (flights s ! i))))"

lemma failed_event: "flight_event E i s (fetch_failed E i e s)"
proof (cases "f_retry (flights s ! i) \<or> f_url (flights s ! i) = fallback_url E")
  case False
  let ?g = "(flights s ! i)\<lparr>f_url := fallback_url E, f_retry := True, f_reading := False\<rparr>"
  have g: "fetch_failed E i e s = s\<lparr>flights := (flights s)[i := ?g]\<rparr>" using False by (simp add: fetch_failed_def)
  show ?thesis
    unfolding flight_event_def g by (intro conjI disjI2 exI [of _ ?g]) (use False in \<open>simp_all add: flight_work_def\<close>)
qed (simp add: flight_event_def fetch_failed_def reject_ids)

lemma responded_event: "\<not> f_reading (flights s ! i) \<Longrightarrow> flight_event E i s (fetch_responded E i r s)"
proof (cases "fetchJson r 0")
  case (Inr q)
  let ?g = "(flights s ! i)\<lparr>f_reading := True\<rparr>"
  assume "\<not> f_reading (flights s ! i)"
  moreover have g: "fetch_responded E i r s = s\<lparr>flights := (flights s)[i := ?g]\<rparr>" by (simp add: fetch_responded_def Inr)
  ultimately show ?thesis
    unfolding flight_event_def g by (intro conjI disjI2 exI [of _ ?g]) (simp_all add: flight_work_def)
qed (simp add: fetch_responded_def failed_event)

lemma body_event: "flight_event E i s (body_read E i b s)"
  by (cases b) (simp add: body_read_def failed_event, simp add: body_read_def flight_event_def dispatch_ids Let_def)

lemma split_flights:
  "i < length xs \<Longrightarrow> xs = take i xs @ xs ! i # drop (Suc i) xs"
  by (rule id_take_nth_drop)

definition flight_ok :: "rpc_env \<Rightarrow> flight \<Rightarrow> bool" where
  "flight_ok E f \<longleftrightarrow> f_calls f \<noteq> [] \<and> (f_retry f \<longrightarrow> f_url f = fallback_url E)"

lemma rpc_inv_event:
  assumes inv: "rpc_inv E s" and i: "i < length (flights s)" and t: "flight_event E i s t"
  shows "rpc_inv E t \<and> rpc_work t < rpc_work s"
proof -
  obtain a f b where fs: "flights s = a @ f # b" "a = take i (flights s)" "f = flights s ! i" "b = drop (Suc i) (flights s)"
    using split_flights [OF i] by metis
  have len: "length a = i" using i fs(2) by simp
  note same = t [unfolded flight_event_def, THEN conjunct1] t [unfolded flight_event_def, THEN conjunct2, THEN conjunct1]
    t [unfolded flight_event_def, THEN conjunct2, THEN conjunct2, THEN conjunct1]
  consider (gone) "map fst (settled t) = map fst (settled s) @ map c_id (f_calls f)" "flights t = a @ b"
    | (kept) g where "settled t = settled s" "flights t = a @ g # b" "f_calls g = f_calls f" "flight_work g < flight_work f"
        "f_retry g \<longrightarrow> f_url g = fallback_url E \<or> f_url g = f_url f \<and> f_retry f"
  proof -
    have "(flights s)[i := g] = a @ g # b" for g by (simp add: fs(1) len [symmetric])
    moreover have "without i (flights s) = a @ b" by (simp add: without_def fs(2,4))
    ultimately show thesis
      using t [unfolded flight_event_def, THEN conjunct2, THEN conjunct2, THEN conjunct2] gone kept fs(3) by metis
  qed
  then show ?thesis
  proof cases
    case gone
    have "0 < flight_work f" by (simp add: flight_work_def)
    then show ?thesis using inv gone unfolding rpc_inv_def rpc_ids_def rpc_work_def same fs(1) by auto
  next
    case kept
    then show ?thesis using inv unfolding rpc_inv_def rpc_ids_def rpc_work_def same fs(1) by auto
  qed
qed

lemma rpc_work_flush:
  assumes "flushScheduled s"
  shows "rpc_work (flushCalls E s) < rpc_work s"
proof (cases "pendingCalls s = []")
  case True
  then show ?thesis using assms by (simp add: flush_nothing rpc_work_def)
next
  case False
  then show ?thesis using assms flush_fields(1,5) [OF False, of E] by (auto simp: rpc_work_def flight_work_def)
qed

lemma rpc_internal_facts: "rpc_internal E s t \<Longrightarrow> rpc_inv E s \<Longrightarrow> rpc_inv E t \<and> rpc_work t < rpc_work s"
  by (elim rpc_internalE rpc_timedE)
    (auto intro: rpc_inv_flush rpc_work_flush dest: rpc_inv_event [OF _ _ responded_event] rpc_inv_event [OF _ _ body_event])

lemma rpc_inv_step: "rpc_inv E s \<Longrightarrow> rpc_step E s t \<Longrightarrow> rpc_inv E t"
  by (elim rpc_stepE) (auto intro: rpc_inv_call dest: rpc_internal_facts)

section \<open>Progress\<close>

lemma timed_progress: "rpc_inv E s \<Longrightarrow> waits_for_bodies s \<or> (\<exists>t. rpc_timed E s t)"
proof (cases "list_all f_reading (flights s)")
  case False
  then obtain i where "i < length (flights s)" "\<not> f_reading (flights s ! i)" by (auto simp: list_all_length)
  then show ?thesis using Responded by blast
qed (auto simp: waits_for_bodies_def rpc_inv_def intro: Flush)

lemma rpc_progress: "rpc_inv E s \<Longrightarrow> quiescent s \<or> (\<exists>t. rpc_internal E s t)"
proof (cases "waits_for_bodies s")
  case True
  show ?thesis
  proof (cases "flights s")
    case (Cons f fs)
    then have "rpc_internal E s (body_read E 0 (Inl []) s)" using True by (intro Body) (auto simp: waits_for_bodies_def)
    then show ?thesis by blast
  qed (use True in \<open>simp add: waits_for_bodies_def quiescent_def\<close>)
qed (use timed_progress Timed in blast)

interpretation rpc_machine: progress_system "rpc_step E" rpc_init "rpc_inv E" "rpc_internal E" rpc_work quiescent
  for E
  by unfold_locales (fact rpc_inv_init rpc_inv_step rpc_step.Internal rpc_progress | drule (1) rpc_internal_facts, erule conjunct2)+

text \<open>The same machine when no body arrives.\<close>

interpretation rpc_silent: progress_system "rpc_step E" rpc_init "rpc_inv E" "rpc_timed E" rpc_work waits_for_bodies
  for E
proof unfold_locales
  show "rpc_work t < rpc_work s" if "rpc_inv E s" "rpc_timed E s t" for s t
    using rpc_internal_facts [OF Timed [OF that(2)] that(1)] by (rule conjunct2)
qed (auto intro: rpc_step.Internal Timed dest: timed_progress)

lemma requestId_step: "rpc_internal E s t \<Longrightarrow> requestId t = requestId s"
proof (elim rpc_internalE rpc_timedE)
  show "requestId t = requestId s" if "t = flushCalls E s" for s
    using that by (cases "pendingCalls s = []") (simp_all add: flush_nothing flush_fields)
qed (use responded_event body_event in \<open>auto simp: flight_event_def\<close>)

lemma requestId_internal: "(rpc_internal E)\<^sup>*\<^sup>* s t \<Longrightarrow> requestId t = requestId s"
  by (induction rule: rtranclp_induct) (simp_all add: requestId_step)

lemma requestId_timed: "(rpc_timed E)\<^sup>*\<^sup>* s t \<Longrightarrow> requestId t = requestId s"
  using requestId_internal rtranclp_mono [of "rpc_timed E" "rpc_internal E"] Timed by blast

lemma quiescent_ids: "rpc_inv E s \<Longrightarrow> quiescent s \<Longrightarrow>
    distinct (map fst (settled s)) \<and> set (map fst (settled s)) = {1..<requestId s}"
  by (simp add: rpc_inv_def quiescent_def rpc_ids_def)

lemma waiting_ids: "rpc_inv E s \<Longrightarrow> waits_for_bodies s \<Longrightarrow>
    {1..<requestId s} = set (map fst (settled s)) \<union> set (flight_ids (filter f_reading (flights s)))"
  by (auto simp: rpc_inv_def waits_for_bodies_def rpc_ids_def list_all_iff filter_id_conv [THEN iffD2])

text \<open>A short run with an answer in the other order, for the witnesses.\<close>

definition sample_env :: rpc_env where
  "sample_env = \<lparr>ubuspath = ''/ubus'', session = [], fallback_url = ''/cgi-bin/luci/admin/ubus''\<rparr>"

definition sample_sent :: rpc where
  "sample_sent = flushCalls sample_env (call sample_env ''system'' ''board'' JUndef rpc_init)"

definition sample_run :: rpc where
  "sample_run = fetch_responded sample_env 0 None sample_sent"

lemma sample_flights:
  "length (flights sample_sent) = 1" "\<not> f_retry (flights sample_sent ! 0)" "\<not> f_reading (flights sample_sent ! 0)"
  "f_url (flights sample_sent ! 0) = ''/ubus''"
  by (simp_all add: sample_sent_def flushCalls_def selectEndpoint_def call_def rpc_init_def Let_def sample_env_def)

lemma reachable_sent: "reachable (rpc_step sample_env) rpc_init sample_sent"
  unfolding sample_sent_def
proof (intro reachable.more [OF reachable.more [OF reachable.start]])
  let ?s = "call sample_env ''system'' ''board'' JUndef rpc_init"
  show "rpc_step sample_env rpc_init ?s" by (rule rpc_step.Call)
  show "rpc_step sample_env ?s (flushCalls sample_env ?s)"
    by (intro rpc_step.Internal Timed Flush) (simp add: call_def)
qed

lemma reachable_sample: "reachable (rpc_step sample_env) rpc_init sample_run"
  unfolding sample_run_def
  by (intro reachable.more [OF reachable_sent] rpc_step.Internal Timed Responded) (simp_all add: sample_flights)

lemma endpoint_step:
  "rpc_step E s t \<Longrightarrow> endpointPromise s = Some (fallback_url E) \<Longrightarrow> endpointPromise t = Some (fallback_url E)"
  by (elim rpc_stepE rpc_internalE rpc_timedE)
    (auto simp: call_def flushCalls_def selectEndpoint_def fetch_responded_def body_read_def fetch_failed_def Let_def split: sum.split)

lemma endpoint_steps:
  "(rpc_step E)\<^sup>*\<^sup>* s t \<Longrightarrow> endpointPromise s = Some (fallback_url E) \<Longrightarrow> endpointPromise t = Some (fallback_url E)"
  by (induction rule: rtranclp_induct) (auto intro: endpoint_step)

section \<open>Properties\<close>

text \<open>C11: in every reachable state each call that was made is in exactly one of three places, and there once:
  it waits for the next request, it is in a request in flight, or its promise is settled.  No promise is settled
  twice, none of a call that was not made, and when nothing is pending or in flight all are.\<close>

theorem rpc_settled_once:
  assumes "reachable (rpc_step E) rpc_init s"
  shows "let done = map fst (settled s); flying = flight_ids (flights s); waiting = map c_id (pendingCalls s)
    in distinct done \<and> distinct flying \<and> distinct waiting
      \<and> set done \<inter> set flying = {} \<and> set done \<inter> set waiting = {} \<and> set flying \<inter> set waiting = {}
      \<and> set done \<union> set flying \<union> set waiting = {1..<requestId s}
      \<and> (quiescent s \<longrightarrow> set done = {1..<requestId s})"
proof -
  have inv: "rpc_inv E s" using assms by (rule rpc_machine.inv_reachable)
  have ids: "distinct (rpc_ids s)" "set (rpc_ids s) = {1..<requestId s}" using inv by (simp_all add: rpc_inv_def)
  show ?thesis
    unfolding Let_def using ids quiescent_ids [OF inv] unfolding rpc_ids_def distinct_append set_append by blast
qed

theorem rpc_settled_once_witness:
  "distinct (map fst (settled sample_run)) \<and> set (map fst (settled sample_run)) \<inter> set (flight_ids (flights sample_run)) = {}"
  using rpc_settled_once [OF reachable_sample] unfolding Let_def by blast

text \<open>C12: the client itself comes to rest, whatever the network does.  From a reachable state it takes only so
  many steps by its timers and microtasks; where none is left, every call is settled or is in a request
  whose response has arrived and whose body is awaited.  For the body there is no timer, so such a call may stay
  open; if the bodies end as well, a run is bounded too, and where no step is left every call is settled, once.\<close>

theorem rpc_all_settled:
  assumes "reachable (rpc_step E) rpc_init s"
  shows "(\<forall>n t. (rpc_timed E ^^ n) s t \<longrightarrow> n \<le> rpc_work s
      \<and> ((\<forall>u. \<not> rpc_timed E t u) \<longrightarrow>
          {1..<requestId s} = set (map fst (settled t)) \<union> set (flight_ids (filter f_reading (flights t)))))
    \<and> (\<forall>n t. (rpc_internal E ^^ n) s t \<longrightarrow> n \<le> rpc_work s
      \<and> ((\<forall>u. \<not> rpc_internal E t u) \<longrightarrow>
          distinct (map fst (settled t)) \<and> set (map fst (settled t)) = {1..<requestId s}))
    \<and> (\<exists>t. (rpc_timed E)\<^sup>*\<^sup>* s t \<and> waits_for_bodies t) \<and> (\<exists>t. (rpc_internal E)\<^sup>*\<^sup>* s t \<and> quiescent t)"
proof (intro conjI allI impI)
  have inv: "rpc_inv E s" using assms by (rule rpc_machine.inv_reachable)
  show "n \<le> rpc_work s" if "(rpc_timed E ^^ n) s t" for n t
    using rpc_silent.internal_bound [OF that inv] by simp
  show "n \<le> rpc_work s" if "(rpc_internal E ^^ n) s t" for n t
    using rpc_machine.internal_bound [OF that inv] by simp
  show "{1..<requestId s} = set (map fst (settled t)) \<union> set (flight_ids (filter f_reading (flights t)))"
    if run: "(rpc_timed E ^^ n) s t" and stop: "\<forall>u. \<not> rpc_timed E t u" for n t
  proof -
    have steps: "(rpc_timed E)\<^sup>*\<^sup>* s t" using run by (rule relpowp_imp_rtranclp)
    have invt: "rpc_inv E t" by (rule rpc_silent.inv_internal [OF steps inv])
    show ?thesis using waiting_ids [OF invt] timed_progress [OF invt] stop requestId_timed [OF steps] by auto
  qed
  have last: "distinct (map fst (settled t)) \<and> set (map fst (settled t)) = {1..<requestId s}"
    if run: "(rpc_internal E ^^ n) s t" and stop: "\<forall>u. \<not> rpc_internal E t u" for n t
  proof -
    have steps: "(rpc_internal E)\<^sup>*\<^sup>* s t" using run by (rule relpowp_imp_rtranclp)
    have invt: "rpc_inv E t" by (rule rpc_machine.inv_internal [OF steps inv])
    show ?thesis using quiescent_ids [OF invt] rpc_progress [OF invt] stop requestId_internal [OF steps] by auto
  qed
  show "distinct (map fst (settled t))" if "(rpc_internal E ^^ n) s t" "\<forall>u. \<not> rpc_internal E t u" for n t
    using last [OF that] by blast
  show "set (map fst (settled t)) = {1..<requestId s}" if "(rpc_internal E ^^ n) s t" "\<forall>u. \<not> rpc_internal E t u" for n t
    using last [OF that] by blast
  show "\<exists>t. (rpc_timed E)\<^sup>*\<^sup>* s t \<and> waits_for_bodies t" by (rule rpc_silent.settles [OF inv])
  show "\<exists>t. (rpc_internal E)\<^sup>*\<^sup>* s t \<and> quiescent t" by (rule rpc_machine.settles [OF inv])
qed

theorem rpc_all_settled_witness: "\<exists>t. (rpc_internal sample_env)\<^sup>*\<^sup>* sample_run t \<and> quiescent t"
  using rpc_all_settled [OF reachable_sample] by blast

text \<open>A response whose body never comes: its call is open and the client has no step left.\<close>

definition sample_hung :: rpc where
  "sample_hung = fetch_responded sample_env 0 (Some (7, Inr \<lparr>r_ok = True, r_status = 200\<rparr>)) sample_sent"

lemma body_without_timer:
  "reachable (rpc_step sample_env) rpc_init sample_hung \<and> flight_ids (flights sample_hung) = [1]
   \<and> settled sample_hung = [] \<and> (\<nexists>t. rpc_timed sample_env sample_hung t)"
proof (intro conjI)
  show "reachable (rpc_step sample_env) rpc_init sample_hung"
    unfolding sample_hung_def
    by (intro reachable.more [OF reachable_sent] rpc_step.Internal Timed Responded) (simp_all add: sample_flights)
  have s: "flights sample_hung = [(flights sample_sent ! 0)\<lparr>f_reading := True\<rparr>]" "settled sample_hung = settled sample_sent"
    "flushScheduled sample_hung = flushScheduled sample_sent"
    using sample_flights(1) by (cases "flights sample_sent"; simp add: sample_hung_def fetch_responded_def fetchJson_def timedFetch_def REQUEST_TIMEOUT_MS_def)+
  have t: "map c_id (f_calls (flights sample_sent ! 0)) = [1]" "settled sample_sent = []" "\<not> flushScheduled sample_sent"
    by (simp_all add: sample_sent_def flushCalls_def selectEndpoint_def call_def rpc_init_def Let_def sample_env_def)
  show "flight_ids (flights sample_hung) = [1]" "settled sample_hung = []" using s t by simp_all
  show "\<nexists>t. rpc_timed sample_env sample_hung t" using s t(3) by (auto elim!: rpc_timedE)
qed

text \<open>C13: a batch may be answered in any order: each call gets the result decoded from the reply
  that carries its identifier.\<close>

theorem rpc_reply_matched:
  assumes "calls \<noteq> []" "distinct (map (\<lambda>r. to_str (field r ''id'')) replies)"
    and "\<forall>c \<in> set calls. rep c \<in> set replies \<and> has_id (rep c)
      \<and> to_str (field (rep c) ''id'') = num_str (num_of_int (c_id c))"
  shows "dispatchReplies calls (JArr replies) = map (\<lambda>c. (c_id c, decodeReply c (rep c))) calls"
proof -
  have ex: "list_ex has_id replies"
    using assms(1,3) by (auto simp: list_ex_iff neq_Nil_conv)
  have "by_id replies (c_id c) = rep c" if "c \<in> set calls" for c
  proof -
    let ?P = "\<lambda>r. has_id r \<and> to_str (field r ''id'') = num_str (num_of_int (c_id c))"
    have rep: "rep c \<in> set (rev replies)" "?P (rep c)" using assms(3) that by simp_all
    then obtain r where r: "find ?P (rev replies) = Some r"
      by (cases "find ?P (rev replies)") (auto simp: find_None_iff)
    have "r \<in> set replies" "?P r" using find_set [OF r] by auto
    then have "r = rep c" using rep assms(2) by (auto simp: distinct_map inj_on_def)
    then show ?thesis by (simp add: by_id_def r)
  qed
  then have "reply_for replies i c = rep c" if "c \<in> set calls" for c i
    using that ex by (simp add: reply_for_def)
  then show ?thesis
    by (intro nth_equalityI) (simp_all add: dispatchReplies_def Let_def is_array_def elements_def)
qed

theorem rpc_reply_matched_witness:
  "dispatchReplies
     [\<lparr>c_object = ''a'', c_method = ''m'', c_id = 7, c_message = JNull\<rparr>,
      \<lparr>c_object = ''b'', c_method = ''m'', c_id = 8, c_message = JNull\<rparr>]
     (JArr [JObj [(''id'', JNum (Num 8)), (''result'', JArr [JNum (Num 0), JStr ''y''])],
            JObj [(''id'', JNum (Num 7)), (''result'', JArr [JNum (Num 0), JStr ''x''])]])
   = [(7, Inr (JStr ''x'')), (8, Inr (JStr ''y''))]"
  (is "dispatchReplies [?a, ?b] (JArr [?q, ?p]) = _")
proof -
  have "dispatchReplies [?a, ?b] (JArr [?q, ?p])
      = map (\<lambda>c. (c_id c, decodeReply c (if c_id c = 7 then ?p else ?q))) [?a, ?b]"
  proof (rule rpc_reply_matched)
    have ids: "to_str (field ?p ''id'') = ''7''" "to_str (field ?q ''id'') = ''8''"
      by code_simp+
    have num: "num_str (num_of_int 7) = ''7''" "num_str (num_of_int 8) = ''8''" by code_simp+
    have has: "has_id ?p" "has_id ?q" by code_simp+
    show "distinct (map (\<lambda>r. to_str (field r ''id'')) [?q, ?p])" unfolding list.map ids by simp
    show "\<forall>c \<in> set [?a, ?b]. (if c_id c = 7 then ?p else ?q) \<in> set [?q, ?p]
      \<and> has_id (if c_id c = 7 then ?p else ?q)
      \<and> to_str (field (if c_id c = 7 then ?p else ?q) ''id'') = num_str (num_of_int (c_id c))"
      using ids num has by simp
  qed simp
  moreover have "decodeReply ?a ?p = Inr (JStr ''x'')" "decodeReply ?b ?q = Inr (JStr ''y'')" by code_simp+
  ultimately show ?thesis by simp
qed



end
