(* ===== verification/Conn_Core.thy ===== *)
theory Conn_Core
  imports Net_Address Uci
begin

text \<open>
  The provider helpers of \<open>freenetic-connections-core.js\<close>: lists and validators, the short names of
  UCI sections, key generation with its fallbacks, OpenVPN profiles and the helper programs.  The
  router is a parameter: \<open>ubus\<close> answers a call, \<open>fs_ops\<close> runs a program or writes a file, and an
  error is \<open>Inl\<close> of its message.  Messages are the English texts that the pages translate.
\<close>

section \<open>Constants\<close>

definition WG_PROTO :: string where "WG_PROTO = ''wireguard''"
definition AWG_PROTO :: string where "AWG_PROTO = ''amneziawg''"
definition WG_PEER_TYPE :: string where "WG_PEER_TYPE = ''wireguard_''"
definition AWG_PEER_TYPE :: string where "AWG_PEER_TYPE = ''amneziawg_''"
definition L2TP_IPSEC_PROTO :: string where "L2TP_IPSEC_PROTO = ''l2tp_ipsec''"
definition OPENVPN_PROFILE_DIR :: string where "OPENVPN_PROFILE_DIR = ''/etc/openvpn/freenetic''"
definition OPENVPN_PROFILE_HELPER :: string where
  "OPENVPN_PROFILE_HELPER = ''/usr/libexec/freenetic-openvpn-profile''"
definition OPENVPN_PROFILE_MAX :: nat where "OPENVPN_PROFILE_MAX = 512 * 1024"
definition NETWORK_RESTART_HELPER :: string where
  "NETWORK_RESTART_HELPER = ''/usr/libexec/freenetic-network-restart''"
definition IPSEC_RESTART_HELPER :: string where
  "IPSEC_RESTART_HELPER = ''/usr/libexec/freenetic-ipsec-restart''"
definition IPSEC_STATUS_HELPER :: string where
  "IPSEC_STATUS_HELPER = ''/usr/libexec/freenetic-ipsec-status''"
definition PACKAGE_STATUS_HELPER :: string where
  "PACKAGE_STATUS_HELPER = ''/usr/libexec/freenetic-package-status''"

definition L2TP_IPSEC_PACKAGES :: "string list" where
  "L2TP_IPSEC_PACKAGES = [''xl2tpd'', ''ppp-mod-pppol2tp'', ''kmod-l2tp'', ''kmod-pppol2tp'',
     ''strongswan-default'', ''luci-proto-ppp'']"

definition IKEV2_PACKAGES :: "string list" where
  "IKEV2_PACKAGES = [''strongswan-default'', ''strongswan-mod-eap-identity'',
     ''strongswan-mod-eap-mschapv2'', ''xfrm'', ''kmod-xfrm-interface'', ''luci-proto-xfrm'']"

definition OPENVPN_VARIANTS :: "string list" where
  "OPENVPN_VARIANTS = [''openvpn-openssl'', ''openvpn-mbedtls'', ''openvpn-wolfssl'', ''openvpn'']"

text \<open>\<open>Array.from(new Set(...))\<close> keeps the first occurrence of each name.\<close>

definition CONNECTION_PACKAGE_NAMES :: "string list" where
  "CONNECTION_PACKAGE_NAMES = rev (remdups (rev ([''wireguard-tools'', ''kmod-wireguard'',
     ''amneziawg-tools'', ''kmod-amneziawg'', ''luci-proto-amneziawg''] @ L2TP_IPSEC_PACKAGES
     @ IKEV2_PACKAGES @ OPENVPN_VARIANTS)))"

definition AWG_OPTIONS :: "(string \<times> string \<times> int \<times> int) list" where
  "AWG_OPTIONS = [
     (''awg_jc'', ''Jc'', 0, 65535), (''awg_jmin'', ''Jmin'', 0, 65535), (''awg_jmax'', ''Jmax'', 0, 65535),
     (''awg_s1'', ''S1'', 0, 65535), (''awg_s2'', ''S2'', 0, 65535),
     (''awg_h1'', ''H1'', 0, 4294967295), (''awg_h2'', ''H2'', 0, 4294967295),
     (''awg_h3'', ''H3'', 0, 4294967295), (''awg_h4'', ''H4'', 0, 4294967295)]"

definition EDITED_PEER_OPTIONS :: "string list" where
  "EDITED_PEER_OPTIONS = [''description'', ''disabled'', ''public_key'', ''private_key'', ''preshared_key'',
     ''allowed_ips'', ''endpoint_host'', ''endpoint_port'', ''persistent_keepalive'',
     ''route_allowed_ips'', ''freenetic_managed'']"

definition advancedPeerOptions :: "jsval \<Rightarrow> string list" where
  "advancedPeerOptions peer =
     (case or_else peer (JObj []) of
        JObj ps \<Rightarrow> filter (\<lambda>key. \<not> starts_with ''.'' key \<and> key \<notin> set EDITED_PEER_OPTIONS) (map fst ps)
      | _ \<Rightarrow> [])"

section \<open>Lists and names\<close>

definition listValue_conn :: "jsval \<Rightarrow> jsval list" where
  "listValue_conn v = (if nullish v \<or> v = JStr [] then [] else if is_array v then elements v else [v])"

definition listText :: "jsval \<Rightarrow> string" where
  "listText v = join '', '' (map (\<lambda>x. if nullish x then [] else to_str x) (listValue_conn v))"

text \<open>The parts of a string between white space.\<close>

function tokens :: "string \<Rightarrow> string list" where
  "tokens s =
     (let t = dropWhile is_ws s
      in if t = [] then [] else takeWhile (\<lambda>c. \<not> is_ws c) t # tokens (dropWhile (\<lambda>c. \<not> is_ws c) t))"
  by auto
termination
proof (relation "measure length")
  fix s t :: string
  assume t: "t = dropWhile is_ws s" "t \<noteq> []"
  then have "\<not> is_ws (hd t)" using hd_dropWhile by blast
  then have "length (dropWhile (\<lambda>c. \<not> is_ws c) t) < length t"
    using t(2) length_dropWhile_le [of "\<lambda>c. \<not> is_ws c" "tl t"] by (cases t) auto
  also have "length t \<le> length s" unfolding t(1) by (rule length_dropWhile_le)
  finally show "(dropWhile (\<lambda>c. \<not> is_ws c) t, s) \<in> measure length" by simp
qed simp

declare tokens.simps [simp del]

definition list_separator :: "char \<Rightarrow> bool" where
  "list_separator c \<longleftrightarrow> cc c = 13 \<or> cc c = 10 \<or> c = CHR '',''"

definition parseList :: "jsval \<Rightarrow> string list" where
  "parseList v = tokens (map (\<lambda>c. if list_separator c then CHR '' '' else c) (arg_str v))"

definition sectionName_conn :: "jsval \<Rightarrow> jsval" where
  "sectionName_conn section = and_then section (or_else (field section ''.name'') (field section ''name''))"

definition hash_step :: "int \<Rightarrow> char \<Rightarrow> int" where
  "hash_step hash c = to_int32 (js_shl hash 5 - hash + cc c)"

definition sectionToken :: "jsval \<Rightarrow> string" where
  "sectionToken v =
     (let hash = foldl hash_step 0 (arg_str v); token = take 7 (base_str 36 (js_ushr hash 0))
      in if token = [] then ''default'' else token)"

definition managedIpsecSection :: "string \<Rightarrow> jsval \<Rightarrow> string" where
  "managedIpsecSection prefix v = prefix @ sectionToken v"

definition ipsecSection :: "'u uci \<Rightarrow> 'u \<Rightarrow> string \<Rightarrow> string \<Rightarrow> jsval \<Rightarrow> jsval" where
  "ipsecSection U u config type name =
     (case find (\<lambda>s. sectionName_conn s = name) (uci_sections U u config type) of Some s \<Rightarrow> s | None \<Rightarrow> JNull)"

definition ipsecList :: "jsval \<Rightarrow> string \<Rightarrow> jsval list" where
  "ipsecList section option = listValue_conn (and_then section (field section option))"

section \<open>Validators\<close>

definition bracket_match :: "string \<Rightarrow> (string \<times> string) option" where
  "bracket_match v =
     (if \<not> starts_with ''['' v then None
      else let h = takeWhile (\<lambda>c. c \<noteq> CHR '']'') (tl v); r = dropWhile (\<lambda>c. c \<noteq> CHR '']'') (tl v)
           in if h = [] \<or> r = [] then None
              else if tl r = [] then Some (h, [])
              else if hd (tl r) = CHR '':'' \<and> all_digits (tl (tl r)) then Some (h, tl (tl r)) else None)"

definition parseEndpoint :: "jsval \<Rightarrow> string \<times> string" where
  "parseEndpoint v0 =
     (let v = trim (arg_str v0)
      in if v = [] then ([], [])
         else case bracket_match v of
             Some m \<Rightarrow> m
           | None \<Rightarrow> (case last_index_of CHR '':'' v of
                 None \<Rightarrow> (v, [])
               | Some colon \<Rightarrow> if all_digits (drop (Suc colon) v)
                   then (take colon v, drop (Suc colon) v) else (v, [])))"

definition key_char :: "char \<Rightarrow> bool" where
  "key_char c \<longleftrightarrow> is_alnum c \<or> c = CHR ''+'' \<or> c = CHR ''/''"

definition KEY_RE :: "string \<Rightarrow> bool" where
  "KEY_RE s \<longleftrightarrow> length s = 44 \<and> list_all key_char (take 43 s) \<and> s ! 43 = CHR ''=''"

definition host_char :: "char \<Rightarrow> bool" where
  "host_char c \<longleftrightarrow> is_alnum c \<or> c \<in> set ''._:[]%~-''"

definition HOST_RE :: "string \<Rightarrow> bool" where
  "HOST_RE s \<longleftrightarrow> s \<noteq> [] \<and> list_all host_char s"

definition validSecret :: "jsval \<Rightarrow> bool \<Rightarrow> bool" where
  "validSecret v optional =
     (let s = arg_str v
      in optional \<and> s = [] \<or> 0 < length s \<and> length s \<le> 4096
         \<and> list_all (\<lambda>c. cc c \<noteq> 0 \<and> cc c \<noteq> 13 \<and> cc c \<noteq> 10 \<and> cc c \<noteq> 34 \<and> cc c \<noteq> 92) s)"

definition validAddress_conn :: "jsval \<Rightarrow> bool" where
  "validAddress_conn v =
     (let s = trim (arg_str v)
      in if CHR '':'' \<in> set s then validAddress (JStr s) ''ipv6'' True else validAddress (JStr s) ''ipv4'' True)"

definition validSelector :: "jsval \<Rightarrow> bool" where
  "validSelector v = (let s = trim (arg_str v) in if s = [] then False else validAddress_conn (JStr s))"

definition validHost :: "jsval \<Rightarrow> bool" where
  "validHost v = (let s = trim (arg_str v) in s = [] \<or> HOST_RE s)"

definition validPort_conn :: "jsval \<Rightarrow> bool \<Rightarrow> bool" where
  "validPort_conn v optional =
     (let s = trim (arg_str v)
      in optional \<and> s = [] \<or> all_digits s \<and> num_less (Num 0) (number_of_str s) \<and> num_le (number_of_str s) (Num 65535))"

definition validServer :: "jsval \<Rightarrow> bool" where
  "validServer v =
     (let (host, port) = parseEndpoint v
      in host \<noteq> [] \<and> validHost (JStr host) \<and> validPort_conn (JStr port) True)"

definition validKey :: "jsval \<Rightarrow> bool \<Rightarrow> bool" where
  "validKey v optional = (let s = trim (arg_str v) in optional \<and> s = [] \<or> s = ''generate'' \<or> KEY_RE s)"

definition validNumber :: "jsval \<Rightarrow> jsnum \<Rightarrow> jsnum \<Rightarrow> bool" where
  "validNumber v low high =
     (let s = trim (arg_str v)
      in s = [] \<or> all_digits s \<and> num_le low (number_of_str s) \<and> num_le (number_of_str s) high)"

definition ipsecProtocolLabel :: "string \<Rightarrow> string" where
  "ipsecProtocolLabel protocol = (if protocol = L2TP_IPSEC_PROTO then ''L2TP/IPsec'' else ''IKEv2/IPsec'')"

definition shortKey :: "jsval \<Rightarrow> string" where
  "shortKey v = (let s = arg_str v
     in if s \<noteq> [] then take 8 s @ ellipsis @ drop (length s - 6) s else en_dash)"

section \<open>Status and keys\<close>

type_synonym ubus = "string \<Rightarrow> string \<Rightarrow> jsval \<Rightarrow> string + jsval"

definition or_catch :: "'e + 'a \<Rightarrow> 'e + 'a \<Rightarrow> 'e + 'a" where
  "or_catch a b = (case a of Inl _ \<Rightarrow> b | Inr x \<Rightarrow> Inr x)"

definition and_next :: "'e + 'a \<Rightarrow> ('a \<Rightarrow> 'e + 'b) \<Rightarrow> 'e + 'b" where
  "and_next a f = (case a of Inl e \<Rightarrow> Inl e | Inr x \<Rightarrow> f x)"

text \<open>\<open>+v || 0\<close>\<close>

definition number_or_zero :: "jsval \<Rightarrow> jsval" where
  "number_or_zero v = or_else (JNum (to_number v)) (JNum (Num 0))"

definition dump_peer :: "jsval \<Rightarrow> (string \<times> jsval) option" where
  "dump_peer peer =
     (if \<not> truthy peer \<or> \<not> truthy (field peer ''public_key'') then None
      else Some (to_str (field peer ''public_key''), JObj [
        (''last_handshake'', number_or_zero (field peer ''latest_handshake'')),
        (''rx_bytes'', number_or_zero (field peer ''transfer_rx'')),
        (''tx_bytes'', number_or_zero (field peer ''transfer_tx'')),
        (''endpoint'', or_else (field peer ''endpoint'') (JStr []))]))"

definition dump_device :: "jsval \<Rightarrow> jsval" where
  "dump_device device0 =
     (let device = or_else device0 (JObj []);
          entries = List.map_filter dump_peer (elements (or_else (field device ''peers'') (JArr [])))
      in JObj [
        (''private_key'', or_else (field device ''private_key'') (JStr [])),
        (''listen_port'', or_else (field device ''listen_port'') (JStr [])),
        (''fwmark'', or_else (field device ''fwmark'') (JStr [])),
        (''peers'', JObj (foldl (\<lambda>ps (k, v). assoc_set k v ps) [] entries))])"

definition normalizeDumpStatus :: "jsval \<Rightarrow> (string \<times> jsval) list" where
  "normalizeDumpStatus data =
     (case or_else data (JObj []) of JObj ps \<Rightarrow> map (\<lambda>(name, device). (name, dump_device device)) ps | _ \<Rightarrow> [])"

definition object_properties :: "jsval \<Rightarrow> (string \<times> jsval) list" where
  "object_properties v = (case v of JObj ps \<Rightarrow> ps | _ \<Rightarrow> [])"

text \<open>One source of the status: is it available, and its devices.\<close>

definition status_source :: "(jsval \<Rightarrow> (string \<times> jsval) list) \<Rightarrow> string + jsval \<Rightarrow> bool \<times> (string \<times> jsval) list" where
  "status_source f r = (case r of Inl _ \<Rightarrow> (False, []) | Inr data \<Rightarrow> (True, f data))"

definition getWireGuardStatus :: "ubus \<Rightarrow> bool \<times> (string \<times> jsval) list" where
  "getWireGuardStatus ubusCall =
     (let results = [
        status_source normalizeDumpStatus (ubusCall ''luci.wireguard'' ''getWgInstances'' (JObj [])),
        status_source (\<lambda>data. object_properties (or_else data (JObj []))) (ubusCall ''wireguard'' ''status'' (JObj [])),
        status_source normalizeDumpStatus (ubusCall ''luci.amneziawg'' ''getWgInstances'' (JObj []))]
      in (list_ex fst results,
          foldl (\<lambda>acc (_, ps). foldl (\<lambda>acc (k, v). assoc_set k v acc) acc ps) [] results))"

definition normalizeKeyPair :: "jsval \<Rightarrow> jsval \<times> jsval" where
  "normalizeKeyPair result =
     (let v = or_else (or_else (and_then result (field result ''keys'')) result) (JObj [])
      in (or_else (or_else (field v ''private'') (field v ''priv'')) (JStr []),
          or_else (or_else (field v ''public'') (field v ''pub'')) (JStr [])))"

definition check_pair :: "jsval \<times> jsval \<Rightarrow> string + jsval \<times> jsval" where
  "check_pair p = (if truthy (fst p) \<and> truthy (snd p) then Inr p else Inl ''empty key pair'')"

definition generateKeyPair :: "ubus \<Rightarrow> string + jsval \<times> jsval" where
  "generateKeyPair ubusCall =
     (let pair = (\<lambda>object method. and_next (ubusCall object method (JObj [])) (Inr \<circ> normalizeKeyPair));
          first = and_next (pair ''luci.wireguard'' ''generateKeyPair'') check_pair;
          second = and_next (or_catch first (pair ''wireguard'' ''genkey'')) check_pair
      in and_next (or_catch second (pair ''luci.amneziawg'' ''generateKeyPair'')) check_pair)"

definition check_text :: "string \<Rightarrow> jsval \<Rightarrow> string + jsval" where
  "check_text e v = (if truthy v then Inr v else Inl e)"

definition normalizePublic :: "jsval \<Rightarrow> jsval" where
  "normalizePublic result = or_else (or_else (and_then result (field result ''public''))
     (and_then result (field result ''pub''))) (JStr [])"

definition derivePublicKey :: "ubus \<Rightarrow> jsval \<Rightarrow> string + jsval" where
  "derivePublicKey ubusCall privateKey =
     (let check = check_text ''empty public key'';
          keys = (\<lambda>object. and_next (ubusCall object ''getPublicAndPrivateKeyFromPrivate''
                     (JObj [(''private_key'', privateKey)])) (Inr \<circ> snd \<circ> normalizeKeyPair));
          first = and_next (keys ''luci.wireguard'') check;
          second = and_next (or_catch first (and_next (ubusCall ''wireguard'' ''pubkey''
                     (JObj [(''private'', privateKey)])) (Inr \<circ> normalizePublic))) check
      in or_catch second (and_next (keys ''luci.amneziawg'') check))"

definition normalizePsk :: "jsval \<Rightarrow> jsval" where
  "normalizePsk result =
     or_else (and_then result (or_else (field result ''preshared'') (field result ''psk''))) (JStr [])"

definition generatePresharedKey :: "ubus \<Rightarrow> string + jsval" where
  "generatePresharedKey ubusCall =
     (let check = check_text ''empty preshared key'';
          psk = (\<lambda>object method. and_next (ubusCall object method (JObj [])) (Inr \<circ> normalizePsk));
          first = and_next (psk ''luci.wireguard'' ''generatePsk'') check;
          second = and_next (or_catch first (psk ''wireguard'' ''genpsk'')) check
      in and_next (or_catch second (psk ''luci.amneziawg'' ''generatePsk'')) check)"

definition getInterfaceDump_conn :: "ubus \<Rightarrow> jsval" where
  "getInterfaceDump_conn ubusCall =
     (case ubusCall ''network.interface'' ''dump'' (JObj [(''verbose'', JBool True)]) of
        Inr r \<Rightarrow> r | Inl _ \<Rightarrow> JObj [])"

section \<open>Helper programs\<close>

record fs_ops =
  fs_exec :: "string \<Rightarrow> string list \<Rightarrow> string + jsval"
  fs_write :: "string \<Rightarrow> string \<Rightarrow> nat \<Rightarrow> string + unit"

definition helper_result :: "string \<Rightarrow> jsval \<Rightarrow> string + jsval" where
  "helper_result message result =
     (if \<not> truthy result \<or> field result ''ok'' \<noteq> JBool True
      then Inl (to_str (or_else (and_then result (field result ''error'')) (JStr message))) else Inr result)"

definition restartNetifd :: "fs_ops \<Rightarrow> string + jsval" where
  "restartNetifd fs = and_next (fs_exec fs NETWORK_RESTART_HELPER [])
     (helper_result ''The network service did not restart.'')"

definition restartIpsec :: "fs_ops \<Rightarrow> string + jsval" where
  "restartIpsec fs = and_next (fs_exec fs IPSEC_RESTART_HELPER [])
     (helper_result ''The IPsec service did not restart.'')"

definition getInstalledPackages :: "fs_ops \<Rightarrow> string list" where
  "getInstalledPackages fs =
     (case fs_exec fs PACKAGE_STATUS_HELPER CONNECTION_PACKAGE_NAMES of
        Inl _ \<Rightarrow> []
      | Inr result \<Rightarrow>
          if truthy result \<and> field result ''ok'' \<noteq> JBool False \<and> truthy (field result ''packages'')
          then map fst (filter (\<lambda>(_, state). truthy state \<and> truthy (field state ''installed''))
                 (object_properties (field result ''packages'')))
          else [])"

definition getFeedStatus :: "fs_ops \<Rightarrow> jsval" where
  "getFeedStatus fs =
     (case fs_exec fs ''/usr/libexec/freenetic-awg-feed'' [''status''] of
        Inl _ \<Rightarrow> JNull
      | Inr result \<Rightarrow> if is_array result \<or> is_object result then result else JNull)"

definition status_unavailable :: jsval where
  "status_unavailable = JObj [(''ok'', JBool False), (''available'', JBool False),
     (''error'', JStr ''The IPsec status helper is unavailable.'')]"

text \<open>The error of a failed call is an \<open>Error\<close> with its message.\<close>

definition getIpsecStatus :: "fs_ops \<Rightarrow> jsval" where
  "getIpsecStatus fs =
     (case fs_exec fs IPSEC_STATUS_HELPER [] of
        Inr result \<Rightarrow> if is_array result \<or> is_object result then result else status_unavailable
      | Inl e \<Rightarrow> JObj [(''ok'', JBool False), (''available'', JBool False),
          (''error'', JStr (if e \<noteq> [] then e else ''Error''))])"

section \<open>OpenVPN profiles\<close>

definition openvpnAvailable :: "jsval \<Rightarrow> bool" where
  "openvpnAvailable packages = list_ex (\<lambda>name. truthy (field (or_else packages (JObj [])) name)) OPENVPN_VARIANTS"

definition profile_char :: "char \<Rightarrow> bool" where
  "profile_char c \<longleftrightarrow> is_alnum c \<or> c = CHR ''_'' \<or> c = CHR ''-''"

definition openvpnProfileName :: "jsval \<Rightarrow> string" where
  "openvpnProfileName section =
     (let name = map (\<lambda>c. if profile_char c then c else CHR ''_'') (arg_str section)
      in if name = [] then ''connection'' else name)"

definition openvpnProfilePath :: "jsval \<Rightarrow> string" where
  "openvpnProfilePath section = OPENVPN_PROFILE_DIR @ ''/'' @ openvpnProfileName section @ ''.ovpn''"

text \<open>\<open>/^[-A-Za-z0-9_]+\.ovpn$/\<close>\<close>

definition profile_file :: "string \<Rightarrow> bool" where
  "profile_file f \<longleftrightarrow> ends_with ''.ovpn'' f \<and> 5 < length f \<and> list_all profile_char (take (length f - 5) f)"

definition managedOpenvpnProfile :: "jsval \<Rightarrow> bool" where
  "managedOpenvpnProfile path \<longleftrightarrow> starts_with (OPENVPN_PROFILE_DIR @ ''/'') (arg_str path)
     \<and> (case last_index_of CHR ''/'' (arg_str path) of
          None \<Rightarrow> False | Some i \<Rightarrow> profile_file (drop (Suc i) (arg_str path)))"

definition openvpnProfileNameFromPath :: "jsval \<Rightarrow> string" where
  "openvpnProfileNameFromPath path =
     (let prefix = OPENVPN_PROFILE_DIR @ ''/''; s = arg_str path;
          filename = (if starts_with prefix s then drop (length prefix) s else [])
      in if profile_file filename then take (length filename - 5) filename else [])"

text \<open>\<open>replace(/\r\n?/g, '\n')\<close>\<close>

fun unix_lines :: "string \<Rightarrow> string" where
  "unix_lines [] = []"
| "unix_lines (c # s) =
     (if cc c \<noteq> 13 then c # unix_lines s
      else case s of [] \<Rightarrow> [char_of (10 :: nat)]
         | d # t \<Rightarrow> if cc d = 10 then d # unix_lines t else char_of (10 :: nat) # unix_lines s)"

definition normalizeOpenvpnProfile :: "jsval \<Rightarrow> string" where
  "normalizeOpenvpnProfile v = trim (unix_lines (arg_str v)) @ [char_of (10 :: nat)]"

definition word_char :: "char \<Rightarrow> bool" where
  "word_char c \<longleftrightarrow> is_alnum c \<or> c = CHR ''_''"

definition directive_at :: "string \<Rightarrow> bool" where
  "directive_at t =
     (let u = lower (dropWhile is_ws t)
      in list_ex (\<lambda>w. starts_with w u \<and> (drop (length w) u = [] \<or> \<not> word_char (hd (drop (length w) u))))
           [''client'', ''server'', ''remote'', ''dev'', ''proto''])"

definition has_directive :: "string \<Rightarrow> bool" where
  "has_directive s \<longleftrightarrow> list_ex (\<lambda>p. (p = 0 \<or> cc (s ! (p - 1)) = 10) \<and> directive_at (drop p s)) [0..<Suc (length s)]"

definition validateOpenvpnProfile :: "jsval \<Rightarrow> string option" where
  "validateOpenvpnProfile v =
     (let profile = trim (unix_lines (arg_str v))
      in if profile = [] then Some ''Paste or choose an OpenVPN profile first.''
         else if list_ex (\<lambda>c. cc c = 0) profile then Some ''The OpenVPN profile contains an invalid NUL character.''
         else if OPENVPN_PROFILE_MAX < length profile
         then Some (''The OpenVPN profile is too large (maximum '' @ dec (int (OPENVPN_PROFILE_MAX div 1024)) @ '' KiB).'')
         else if \<not> has_directive profile then Some ''The file does not look like an OpenVPN profile.''
         else None)"

definition storeOpenvpnProfile :: "fs_ops \<Rightarrow> string \<Rightarrow> jsval \<Rightarrow> string + jsval" where
  "storeOpenvpnProfile fs name profile =
     and_next (fs_write fs (''/tmp/freenetic-openvpn-'' @ name @ ''.ovpn'') (normalizeOpenvpnProfile profile) 384)
       (\<lambda>_. and_next (fs_exec fs OPENVPN_PROFILE_HELPER [''install'', name])
          (helper_result ''Unable to install the OpenVPN profile.''))"

definition removeOpenvpnProfile :: "fs_ops \<Rightarrow> string \<Rightarrow> string + jsval" where
  "removeOpenvpnProfile fs name =
     (if name = [] then Inr (JObj [(''ok'', JBool True)])
      else and_next (fs_exec fs OPENVPN_PROFILE_HELPER [''remove'', name])
             (helper_result ''Unable to remove the OpenVPN profile.''))"

section \<open>Peers in the configuration\<close>

definition packageMap_conn :: "jsval \<Rightarrow> (string \<times> jsval) list" where
  "packageMap_conn list =
     foldl (\<lambda>m item. if truthy item \<and> truthy (field item ''name'')
                     then assoc_set (to_str (field item ''name'')) (JBool True) m else m)
       [] (elements (or_else list (JArr [])))"

definition peerType :: "string \<Rightarrow> string" where
  "peerType protocol = (if protocol = AWG_PROTO then AWG_PEER_TYPE else WG_PEER_TYPE)"

definition add_peer_section :: "jsval list \<Rightarrow> jsval \<Rightarrow> jsval list" where
  "add_peer_section result section =
     (let id = sectionName_conn section
      in if truthy id \<and> to_str id \<notin> set (map (to_str \<circ> sectionName_conn) result)
         then result @ [section] else result)"

definition peerSectionsFor :: "'u uci \<Rightarrow> 'u \<Rightarrow> string \<Rightarrow> jsval list" where
  "peerSectionsFor U u name =
     foldl (\<lambda>result type. foldl add_peer_section result (uci_sections U u ''network'' type))
       [] [WG_PEER_TYPE @ name, AWG_PEER_TYPE @ name]"

end
