(* ===== verification/Wg_Config.thy ===== *)
theory Wg_Config
  imports Conn_Core
begin

text \<open>
  The import and export of WireGuard and AmneziaWG configurations (\<open>parseConfig\<close> and
  \<open>serializeConfig\<close> of \<open>freenetic-connections-core.js\<close>).  While it reads lines the parser keeps the
  section it is in and an object whose properties are set one by one; a property that is not set is
  \<open>None\<close>.  The object of the current peer is the last one of the list.
\<close>

section \<open>Connections\<close>

record wg_peer =
  wp_description :: string
  wp_disabled :: bool
  wp_privateKey :: string
  wp_presharedKey :: string
  wp_publicKey :: string
  wp_allowedIps :: "string list"
  wp_endpointHost :: string
  wp_endpointPort :: string
  wp_keepalive :: string
  wp_routeAllowed :: bool

record wg_connection =
  wc_name :: string
  wc_protocol :: string
  wc_enabled :: bool
  wc_privateKey :: string
  wc_publicKey :: string
  wc_addresses :: "string list"
  wc_dns :: "string list"
  wc_listenPort :: string
  wc_mtu :: string
  wc_fwmark :: string
  wc_nohostroute :: bool
  wc_awg :: "(string \<times> string) list"
  wc_peers :: "wg_peer list"

section \<open>Reading\<close>

record raw_peer =
  rp_publicKey :: "string option"
  rp_privateKey :: "string option"
  rp_presharedKey :: "string option"
  rp_allowedIps :: "string list option"
  rp_endpoint :: "string option"
  rp_host :: "string option"
  rp_port :: "string option"
  rp_keepalive :: "string option"
  rp_routeAllowed :: bool

record raw_config =
  rc_privateKey :: "string option"
  rc_addresses :: "string list option"
  rc_listenPort :: "string option"
  rc_mtu :: "string option"
  rc_fwmark :: "string option"
  rc_dns :: "string list option"
  rc_awg :: "(string \<times> string) list"
  rc_protocol :: "string option"
  rc_peers :: "raw_peer list"

definition empty_peer :: raw_peer where
  "empty_peer = \<lparr>rp_publicKey = None, rp_privateKey = None, rp_presharedKey = None, rp_allowedIps = None,
     rp_endpoint = None, rp_host = None, rp_port = None, rp_keepalive = None, rp_routeAllowed = False\<rparr>"

definition empty_config :: raw_config where
  "empty_config = \<lparr>rc_privateKey = None, rc_addresses = None, rc_listenPort = None, rc_mtu = None,
     rc_fwmark = None, rc_dns = None, rc_awg = [], rc_protocol = None, rc_peers = []\<rparr>"

text \<open>\<open>split(/\r?\n/)\<close>: the pieces between line feeds without a carriage return before the feed.\<close>

definition chomp :: "string \<Rightarrow> string" where
  "chomp s = (if s \<noteq> [] \<and> cc (last s) = 13 then butlast s else s)"

definition split_lines :: "string \<Rightarrow> string list" where
  "split_lines s = (let ps = split_on (char_of (10 :: nat)) s in map chomp (butlast ps) @ [last ps])"

text \<open>\<open>replace(/\s*[#;].*$/, '')\<close>: the dot stops at a carriage return.\<close>

definition comment_start :: "string \<Rightarrow> nat \<Rightarrow> bool" where
  "comment_start s j \<longleftrightarrow> s ! j \<in> set ''#;'' \<and> list_all (\<lambda>c. cc c \<noteq> 13 \<and> cc c \<noteq> 10) (drop (Suc j) s)"

definition strip_comment :: "string \<Rightarrow> string" where
  "strip_comment s =
     (case find (comment_start s) [0..<length s] of None \<Rightarrow> s | Some j \<Rightarrow> trim_end (take j s))"

text \<open>\<open>/^\[\s*(interface|peer)\s*\]$/i\<close>, the word in lower case.\<close>

definition header_match :: "string \<Rightarrow> string option" where
  "header_match line =
     (if starts_with ''['' line \<and> 2 \<le> length line \<and> last line = CHR '']''
      then (let word = lower (trim (butlast (tl line)))
            in if word = ''interface'' \<or> word = ''peer'' then Some word else None)
      else None)"

text \<open>\<open>/^([^=]+?)\s*=\s*(.*)$/\<close> on a trimmed line.\<close>

definition item_match :: "string \<Rightarrow> (string \<times> string) option" where
  "item_match line =
     (let before = takeWhile (\<lambda>c. c \<noteq> CHR ''='') line; rest = dropWhile (\<lambda>c. c \<noteq> CHR ''='') line;
          val = dropWhile is_ws (tl rest)
      in if before = [] \<or> rest = [] \<or> list_ex (\<lambda>c. cc c = 13 \<or> cc c = 10) val then None
         else Some (lower (trim before), trim val))"

text \<open>\<open>knownAwg[key]\<close>: the object inherits \<open>constructor\<close> and \<open>__proto__\<close>, whose texts become the
  names of options.\<close>

definition knownAwg :: "string \<Rightarrow> string option" where
  "knownAwg key =
     (case find (\<lambda>(_, name, _). lower name = key) AWG_OPTIONS of
        Some (option, _) \<Rightarrow> Some option
      | None \<Rightarrow> if key = ''constructor'' then Some ''function Object() { [native code] }''
                else if key = ''__proto__'' then Some ''[object Object]'' else None)"

definition interface_item :: "string \<Rightarrow> string \<Rightarrow> raw_config \<Rightarrow> raw_config" where
  "interface_item key val c =
     (if key = ''privatekey'' then c\<lparr>rc_privateKey := Some val\<rparr>
      else if key = ''address'' \<or> key = ''addresses'' then c\<lparr>rc_addresses := Some (parseList (JStr val))\<rparr>
      else if key = ''listenport'' then c\<lparr>rc_listenPort := Some val\<rparr>
      else if key = ''mtu'' then c\<lparr>rc_mtu := Some val\<rparr>
      else if key = ''fwmark'' then c\<lparr>rc_fwmark := Some val\<rparr>
      else if key = ''dns'' then c\<lparr>rc_dns := Some (parseList (JStr val))\<rparr>
      else case knownAwg key of
          Some option \<Rightarrow> c\<lparr>rc_awg := assoc_set option val (rc_awg c), rc_protocol := Some AWG_PROTO\<rparr>
        | None \<Rightarrow> c)"

definition peer_item :: "string \<Rightarrow> string \<Rightarrow> raw_peer \<Rightarrow> raw_peer" where
  "peer_item key val p =
     (if key = ''publickey'' then p\<lparr>rp_publicKey := Some val\<rparr>
      else if key = ''privatekey'' then p\<lparr>rp_privateKey := Some val\<rparr>
      else if key = ''presharedkey'' then p\<lparr>rp_presharedKey := Some val\<rparr>
      else if key = ''allowedips'' then p\<lparr>rp_allowedIps := Some (parseList (JStr val))\<rparr>
      else if key = ''endpoint'' then
        (let (host, port) = parseEndpoint (JStr val)
         in p\<lparr>rp_endpoint := Some val, rp_host := Some host, rp_port := Some port\<rparr>)
      else if key = ''persistentkeepalive'' then p\<lparr>rp_keepalive := Some val\<rparr>
      else if key = ''routeallowedips'' then p\<lparr>rp_routeAllowed := (val = ''1'' \<or> lower val = ''true'')\<rparr>
      else p)"

definition config_line :: "string \<times> raw_config \<Rightarrow> string \<Rightarrow> string \<times> raw_config" where
  "config_line = (\<lambda>(sec, c) raw.
     let line = trim (strip_comment raw)
     in if line = [] then (sec, c)
        else case header_match line of
            Some h \<Rightarrow> (h, if h = ''peer'' then c\<lparr>rc_peers := rc_peers c @ [empty_peer]\<rparr> else c)
          | None \<Rightarrow> (case item_match line of
                None \<Rightarrow> (sec, c)
              | Some (key, val) \<Rightarrow>
                  (sec, if sec = [] then c
                    else if sec = ''interface'' then interface_item key val c
                    else c\<lparr>rc_peers := butlast (rc_peers c) @ [peer_item key val (last (rc_peers c))]\<rparr>)))"

text \<open>The text of a property that is missing or empty counts as missing.\<close>

definition text_of :: "string option \<Rightarrow> string" where
  "text_of v = (case v of None \<Rightarrow> [] | Some s \<Rightarrow> s)"

definition list_of :: "string list option \<Rightarrow> string list" where
  "list_of v = (case v of None \<Rightarrow> [] | Some xs \<Rightarrow> xs)"

definition peer_error :: "raw_peer \<Rightarrow> string option" where
  "peer_error p =
     (if text_of (rp_publicKey p) = [] \<or> \<not> validKey (JStr (text_of (rp_publicKey p))) False
      then Some ''A peer is missing a valid PublicKey.''
      else if text_of (rp_presharedKey p) \<noteq> [] \<and> \<not> validKey (JStr (text_of (rp_presharedKey p))) True
      then Some ''A peer has an invalid PresharedKey.''
      else if \<not> list_all (\<lambda>a. validAddress_conn (JStr a)) (list_of (rp_allowedIps p))
      then Some ''A peer has an invalid AllowedIPs value.''
      else if text_of (rp_endpoint p) \<noteq> []
        \<and> (text_of (rp_host p) = [] \<or> \<not> validHost (JStr (text_of (rp_host p)))
           \<or> \<not> validPort_conn (JStr (text_of (rp_port p))) True)
      then Some ''A peer has an invalid Endpoint.''
      else None)"

definition finish_peer :: "raw_peer \<Rightarrow> wg_peer" where
  "finish_peer p = \<lparr>wp_description = [], wp_disabled = False, wp_privateKey = text_of (rp_privateKey p),
     wp_presharedKey = text_of (rp_presharedKey p), wp_publicKey = text_of (rp_publicKey p),
     wp_allowedIps = list_of (rp_allowedIps p), wp_endpointHost = text_of (rp_host p),
     wp_endpointPort = text_of (rp_port p), wp_keepalive = text_of (rp_keepalive p),
     wp_routeAllowed = rp_routeAllowed p\<rparr>"

definition finish_config :: "raw_config \<Rightarrow> string + wg_connection" where
  "finish_config c =
     (if text_of (rc_privateKey c) = [] \<or> \<not> validKey (JStr (text_of (rc_privateKey c))) False
      then Inl ''PrivateKey is missing or invalid.''
      else case rc_addresses c of
          None \<Rightarrow> Inl ''Address contains an invalid IP or prefix.''
        | Some addresses \<Rightarrow>
            if \<not> list_all (\<lambda>a. validAddress_conn (JStr a)) addresses
            then Inl ''Address contains an invalid IP or prefix.''
            else case List.map_filter peer_error (rc_peers c) of
                e # _ \<Rightarrow> Inl e
              | [] \<Rightarrow> Inr \<lparr>wc_name = ''Imported connection'',
                  wc_protocol = (case rc_protocol c of Some p \<Rightarrow> p | None \<Rightarrow> WG_PROTO), wc_enabled = True,
                  wc_privateKey = text_of (rc_privateKey c), wc_publicKey = [], wc_addresses = addresses,
                  wc_dns = list_of (rc_dns c), wc_listenPort = text_of (rc_listenPort c),
                  wc_mtu = text_of (rc_mtu c), wc_fwmark = text_of (rc_fwmark c), wc_nohostroute = False,
                  wc_awg = rc_awg c, wc_peers = map finish_peer (rc_peers c)\<rparr>)"

definition parseConfig :: "jsval \<Rightarrow> string + wg_connection" where
  "parseConfig text = finish_config (snd (foldl config_line ([], empty_config) (split_lines (arg_str text))))"

section \<open>Writing\<close>

definition endpointText :: "string \<Rightarrow> string \<Rightarrow> string" where
  "endpointText host port =
     (if host = [] then (if port \<noteq> [] then ''*:'' @ port else en_dash)
      else let displayed = (if CHR '':'' \<in> set host \<and> host ! 0 \<noteq> CHR ''['' then ''['' @ host @ '']'' else host)
           in if port \<noteq> [] then displayed @ '':'' @ port else displayed)"

definition config_item :: "string \<Rightarrow> string \<Rightarrow> string list" where
  "config_item key val = (if val \<noteq> [] then [key @ '' = '' @ val] else [])"

definition config_list :: "string \<Rightarrow> string list \<Rightarrow> string list" where
  "config_list key vals = (if vals \<noteq> [] then [key @ '' = '' @ join '', '' vals] else [])"

definition awg_lines :: "wg_connection \<Rightarrow> string list" where
  "awg_lines c =
     (if wc_protocol c = AWG_PROTO
      then concat (map (\<lambda>(option, name, _). config_item name (text_of (map_of (wc_awg c) option))) AWG_OPTIONS)
      else [])"

definition peer_lines :: "wg_peer \<Rightarrow> string list" where
  "peer_lines p = [[], ''[Peer]''] @ config_item ''PublicKey'' (wp_publicKey p)
     @ config_item ''PrivateKey'' (wp_privateKey p) @ config_item ''PresharedKey'' (wp_presharedKey p)
     @ config_list ''AllowedIPs'' (wp_allowedIps p)
     @ (if wp_endpointHost p \<noteq> [] then [''Endpoint = '' @ endpointText (wp_endpointHost p) (wp_endpointPort p)] else [])
     @ config_item ''PersistentKeepalive'' (wp_keepalive p)"

definition interface_lines :: "wg_connection \<Rightarrow> string list" where
  "interface_lines c = [''[Interface]''] @ config_item ''PrivateKey'' (wc_privateKey c)
     @ config_list ''Address'' (wc_addresses c) @ config_item ''ListenPort'' (wc_listenPort c)
     @ config_item ''MTU'' (wc_mtu c) @ config_item ''FwMark'' (wc_fwmark c) @ config_list ''DNS'' (wc_dns c)
     @ awg_lines c"

definition serializeConfig :: "wg_connection \<Rightarrow> string" where
  "serializeConfig c =
     join [char_of (10 :: nat)] (interface_lines c @ concat (map peer_lines (wc_peers c))) @ [char_of (10 :: nat)]"

end
