(* ===== verification/Wg_Roundtrip.thy ===== *)
theory Wg_Roundtrip
  imports Wg_Config
begin

text \<open>
  Reading a written configuration line by line: the lemmas behind the round trip of
  \<open>serializeConfig\<close> and \<open>parseConfig\<close>.
\<close>

section \<open>Lines\<close>

abbreviation LF :: char where "LF \<equiv> char_of (10 :: nat)"

definition plain_char :: "char \<Rightarrow> bool" where
  "plain_char c \<longleftrightarrow> c \<notin> set ''#;'' \<and> cc c \<noteq> 13 \<and> cc c \<noteq> 10"

text \<open>A value that can stand on a line.\<close>

definition clean :: "string \<Rightarrow> bool" where
  "clean v \<longleftrightarrow> v \<noteq> [] \<and> \<not> is_ws (hd v) \<and> \<not> is_ws (last v) \<and> list_all plain_char v"

lemma cc_LF: "cc LF = 10"
  by code_simp

lemma plain_no_LF: "list_all plain_char v \<Longrightarrow> LF \<notin> set v"
  using cc_LF unfolding list_all_iff plain_char_def by metis

lemma split_lines_join:
  assumes "\<forall>l \<in> set ls. list_all plain_char l" "ls \<noteq> []"
  shows "split_lines (join [LF] ls @ [LF]) = ls @ [[]]"
proof -
  have "join [LF] ls @ [LF] = join [LF] (ls @ [[]])"
    using assms(2) by (induction ls rule: induct_list012) auto
  moreover have "split_on LF (join [LF] (ls @ [[]])) = ls @ [[]]"
    using assms plain_no_LF by (intro split_join) auto
  moreover have "map chomp ls = ls"
  proof (rule map_idI)
    fix l assume l: "l \<in> set ls"
    have "l \<noteq> [] \<longrightarrow> cc (last l) \<noteq> 13"
      using assms(1) l last_in_set [of l] unfolding list_all_iff plain_char_def by blast
    then have "\<not> (l \<noteq> [] \<and> cc (last l) = 13)" by blast
    then show "chomp l = l" unfolding chomp_def by (rule if_not_P)
  qed
  ultimately show ?thesis unfolding split_lines_def Let_def by (simp only: butlast_snoc last_snoc)
qed

lemma strip_comment_plain: "list_all plain_char s \<Longrightarrow> strip_comment s = s"
proof -
  assume "list_all plain_char s"
  then have "\<not> comment_start s j" if "j < length s" for j
    using that by (auto simp: comment_start_def plain_char_def list_all_length)
  then have "find (comment_start s) [0..<length s] = None" by (auto simp: find_None_iff)
  then show ?thesis by (simp add: strip_comment_def)
qed

lemma trim_ends:
  assumes "v \<noteq> []" "\<not> is_ws (hd v)" "\<not> is_ws (last v)"
  shows "trim v = v"
proof -
  have "dropWhile is_ws v = v" using assms(1,2) by (cases v) auto
  moreover have "dropWhile is_ws (rev v) = rev v"
    using assms(1,3) by (cases v rule: rev_cases) auto
  ultimately show ?thesis by (simp add: trim_def trim_start_def trim_end_def)
qed

lemma trim_clean: "clean v \<Longrightarrow> trim v = v"
  by (simp add: clean_def trim_ends)

definition key_ok :: "string \<Rightarrow> bool" where
  "key_ok k \<longleftrightarrow> k \<noteq> [] \<and> list_all (\<lambda>c. plain_char c \<and> \<not> is_ws c \<and> c \<noteq> CHR ''='' \<and> c \<noteq> CHR ''['') k"

lemma key_plain: "key_ok k \<Longrightarrow> list_all plain_char k"
  unfolding key_ok_def by (auto elim: list.pred_mono_strong)

lemma plain_item: "plain_char (CHR '' '')" "plain_char (CHR ''='')"
  by code_simp+

lemma item_match_line:
  assumes "key_ok k" "clean v"
  shows "item_match (k @ '' = '' @ v) = Some (lower k, v)"
proof -
  have k: "\<forall>c \<in> set k. c \<noteq> CHR ''='' \<and> \<not> is_ws c" "k \<noteq> []" using assms(1) by (auto simp: key_ok_def list_all_iff)
  then have split: "takeWhile (\<lambda>c. c \<noteq> CHR ''='') (k @ '' = '' @ v) = k @ '' ''"
    "dropWhile (\<lambda>c. c \<noteq> CHR ''='') (k @ '' = '' @ v) = ''= '' @ v"
    by (auto simp: takeWhile_append dropWhile_append)
  have sp: "is_ws (CHR '' '')" by (simp add: is_ws_def cc_def)
  have v: "dropWhile is_ws ('' '' @ v) = v"
    using assms(2) sp by (cases v) (auto simp: clean_def)
  have "dropWhile is_ws k = k" "dropWhile is_ws (rev k) = rev k"
    using k by (auto simp: dropWhile_eq_self_iff last_in_set hd_rev)
  then have "trim (k @ '' '') = k"
    using k sp by (auto simp: trim_def trim_start_def trim_end_def dropWhile_append)
  moreover have "\<not> list_ex (\<lambda>c. cc c = 13 \<or> cc c = 10) v"
    using assms(2) by (auto simp: clean_def list_all_iff list_ex_iff plain_char_def)
  ultimately show ?thesis
    using v trim_clean [OF assms(2)] unfolding item_match_def split by simp
qed

lemma config_line_item:
  assumes "key_ok k" "clean v" "sec \<noteq> []"
  shows "config_line (sec, c) (k @ '' = '' @ v)
    = (sec, if sec = ''interface'' then interface_item (lower k) v c
        else c\<lparr>rc_peers := butlast (rc_peers c) @ [peer_item (lower k) v (last (rc_peers c))]\<rparr>)"
proof -
  let ?l = "k @ '' = '' @ v"
  have "list_all plain_char ?l"
    using key_plain [OF assms(1)] assms(2) plain_item by (simp add: clean_def)
  then have strip: "strip_comment ?l = ?l" by (rule strip_comment_plain)
  have "hd ?l = hd k" "hd k \<in> set k" "last ?l = last v"
    using assms(1,2) by (simp_all add: key_ok_def clean_def)
  then have "trim ?l = ?l"
    using assms(1,2) by (intro trim_ends) (simp_all add: key_ok_def clean_def list_all_iff)
  moreover have "\<not> starts_with ''['' ?l" using assms(1) by (cases k) (auto simp: key_ok_def)
  then have "header_match ?l = None" by (simp add: header_match_def)
  moreover have "?l \<noteq> []" by simp
  ultimately show ?thesis
    using assms(3) item_match_line [OF assms(1,2)] strip by (simp only: config_line_def split_beta Let_def fst_conv snd_conv if_False option.case prod.case)
qed

lemmas config_line_text = config_line_item [simplified append_Cons append_Nil]

lemma config_line_blank: "config_line st [] = st"
proof -
  have "strip_comment [] = []" by (simp add: strip_comment_def)
  then show ?thesis by (cases st) (simp add: config_line_def)
qed

lemma config_line_interface: "config_line ([], c) ''[Interface]'' = (''interface'', c)"
proof -
  have "trim (strip_comment ''[Interface]'') = ''[Interface]''"
    "header_match ''[Interface]'' = Some ''interface''" by code_simp+
  then show ?thesis by (simp add: config_line_def)
qed

lemma config_line_peer:
  "config_line (sec, c) ''[Peer]'' = (''peer'', c\<lparr>rc_peers := rc_peers c @ [empty_peer]\<rparr>)"
proof -
  have "trim (strip_comment ''[Peer]'') = ''[Peer]''" "header_match ''[Peer]'' = Some ''peer''" by code_simp+
  then show ?thesis by (simp add: config_line_def)
qed

section \<open>Lists of addresses\<close>

definition token :: "string \<Rightarrow> bool" where
  "token v \<longleftrightarrow> v \<noteq> [] \<and> list_all (\<lambda>c. plain_char c \<and> \<not> is_ws c \<and> c \<noteq> CHR '','') v"

lemma token_clean: "token v \<Longrightarrow> clean v"
  by (auto simp: token_def clean_def list_all_iff)

lemma tokens_blank: "list_all is_ws s \<Longrightarrow> tokens s = []"
  by (subst tokens.simps) (simp add: Let_def list_all_iff dropWhile_eq_Nil_conv)

lemma tokens_skip: "is_ws c \<Longrightarrow> tokens (c # s) = tokens s"
  by (subst (1 2) tokens.simps) simp

lemma tokens_Cons:
  assumes "v \<noteq> []" "\<forall>c \<in> set v. \<not> is_ws c" "s = [] \<or> is_ws (hd s)"
  shows "tokens (v @ s) = v # tokens s"
proof -
  have "dropWhile is_ws (v @ s) = v @ s" using assms(1,2) by (cases v) auto
  moreover have "takeWhile (\<lambda>c. \<not> is_ws c) (v @ s) = v" "dropWhile (\<lambda>c. \<not> is_ws c) (v @ s) = s"
    using assms(2,3) by (cases s; auto simp: takeWhile_append dropWhile_append)+
  ultimately show ?thesis using assms(1) by (subst tokens.simps) (simp add: Let_def)
qed

lemma tokens_join:
  assumes "\<forall>x \<in> set xs. token x"
  shows "tokens (join ''  '' xs) = xs"
  using assms
proof (induction "''  ''" xs rule: join.induct)
  case 1
  then show ?case by (simp add: tokens_blank)
next
  case (2 x)
  then have "tokens (x @ []) = x # tokens []"
    by (intro tokens_Cons) (auto simp: token_def list_all_iff)
  then show ?case by (simp add: tokens_blank)
next
  case (3 x y ys)
  have sp: "is_ws (CHR '' '')" by (simp add: is_ws_def cc_def)
  have "tokens (x @ (''  '' @ join ''  '' (y # ys))) = x # tokens (''  '' @ join ''  '' (y # ys))"
    using 3(2) sp by (intro tokens_Cons) (auto simp: token_def list_all_iff)
  also have "tokens (''  '' @ join ''  '' (y # ys)) = tokens (join ''  '' (y # ys))"
    by (simp add: tokens_skip sp)
  finally show ?case using 3 by simp
qed

lemma parseList_join:
  assumes "\<forall>x \<in> set xs. token x"
  shows "parseList (JStr (join '', '' xs)) = xs"
proof -
  let ?f = "\<lambda>c. if list_separator c then CHR '' '' else c"
  have "map ?f x = x" if "x \<in> set xs" for x
    using assms that by (intro map_idI) (auto simp: token_def plain_char_def list_all_iff list_separator_def)
  then have "map ?f (join '', '' xs) = join ''  '' xs"
    by (induction "'', ''" xs rule: join.induct) (auto simp: list_separator_def cc_def)
  then show ?thesis using tokens_join [OF assms] by (simp add: parseList_def)
qed

lemma clean_join:
  assumes "\<forall>x \<in> set xs. token x" "xs \<noteq> []"
  shows "clean (join '', '' xs)"
  using assms
proof (induction "'', ''" xs rule: join.induct)
  case (3 x y ys)
  then have "clean x" "clean (join '', '' (y # ys))" by (auto intro: token_clean)
  then show ?case by (auto simp: clean_def plain_char_def cc_def)
qed (auto intro: token_clean)

section \<open>Endpoints\<close>

definition endpoint_ok :: "string \<Rightarrow> string \<Rightarrow> bool" where
  "endpoint_ok h p \<longleftrightarrow> h \<noteq> [] \<and> list_all host_char h \<and> CHR ''['' \<notin> set h \<and> CHR '']'' \<notin> set h
     \<and> (p = [] \<or> all_digits p)"

lemma host_char_plain: "host_char c \<Longrightarrow> plain_char c \<and> \<not> is_ws c"
  by (auto simp: host_char_def is_alnum_def is_digit_def is_upper_def is_lower_def plain_char_def is_ws_def cc_def)

lemma digit_host: "is_digit c \<Longrightarrow> host_char c \<and> c \<noteq> CHR '':'' \<and> c \<noteq> CHR '']'' \<and> c \<noteq> CHR ''[''"
  by (auto simp: host_char_def is_alnum_def is_digit_def cc_def)

lemma bracket_parse:
  assumes "endpoint_ok h p"
  shows "bracket_match (''['' @ h @ '']'' @ (if p \<noteq> [] then '':'' @ p else [])) = Some (h, p)"
proof -
  have "\<forall>c \<in> set h. c \<noteq> CHR '']''" using assms by (auto simp: endpoint_ok_def)
  then have "takeWhile (\<lambda>c. c \<noteq> CHR '']'') (h @ '']'' @ r) = h" "dropWhile (\<lambda>c. c \<noteq> CHR '']'') (h @ '']'' @ r) = '']'' @ r" for r
    by (auto simp: takeWhile_append dropWhile_append)
  then show ?thesis using assms by (auto simp: bracket_match_def endpoint_ok_def Let_def)
qed

lemma endpointText_host: "endpoint_ok h p \<Longrightarrow> list_all host_char (endpointText h p) \<and> endpointText h p \<noteq> []"
proof -
  assume ok: "endpoint_ok h p"
  have marks: "host_char (CHR ''['')" "host_char (CHR '']'')" "host_char (CHR '':'')" by (simp_all add: host_char_def)
  have "list_all host_char p"
    using ok digit_host by (auto simp: endpoint_ok_def all_digits_def list_all_iff)
  then show ?thesis
    using ok marks by (simp add: endpointText_def endpoint_ok_def Let_def)
qed

lemma clean_endpointText: "endpoint_ok h p \<Longrightarrow> clean (endpointText h p)"
  using endpointText_host [of h p] host_char_plain by (auto simp: clean_def list_all_iff)

lemma parseEndpoint_text:
  assumes "endpoint_ok h p"
  shows "parseEndpoint (JStr (endpointText h p)) = (h, p)"
proof -
  have t: "trim (endpointText h p) = endpointText h p" "endpointText h p \<noteq> []"
    using trim_clean clean_endpointText endpointText_host assms by blast+
  have h: "h \<noteq> []" "h ! 0 \<noteq> CHR ''[''"
    using assms by (simp_all add: endpoint_ok_def) (metis length_greater_0_conv nth_mem)
  show ?thesis
  proof (cases "CHR '':'' \<in> set h")
    case True
    then have "endpointText h p = ''['' @ h @ '']'' @ (if p \<noteq> [] then '':'' @ p else [])"
      using h by (simp add: endpointText_def)
    then show ?thesis using t bracket_parse [OF assms] by (simp add: parseEndpoint_def Let_def)
  next
    case False
    then have e: "endpointText h p = h @ (if p \<noteq> [] then '':'' @ p else [])"
      using h by (simp add: endpointText_def)
    have b: "bracket_match (endpointText h p) = None"
      using h unfolding e by (cases h) (auto simp: bracket_match_def)
    have "CHR '':'' \<notin> set p" using assms digit_host by (auto simp: endpoint_ok_def all_digits_def list_all_iff)
    then have l: "last_index_of CHR '':'' (endpointText h p) = (if p \<noteq> [] then Some (length h) else None)"
      using False last_index_of_append [of "CHR '':''" p h] by (auto simp: e last_index_of_None)
    show ?thesis
      using t b l assms by (auto simp: parseEndpoint_def Let_def e endpoint_ok_def)
  qed
qed

section \<open>Sections of a configuration\<close>

definition value_ok :: "string \<Rightarrow> bool" where
  "value_ok v \<longleftrightarrow> v = [] \<or> clean v"

lemma read_item:
  assumes "key_ok k" "value_ok v"
  shows "foldl config_line (''interface'', c) (config_item k v)
    = (''interface'', if v \<noteq> [] then interface_item (lower k) v c else c)"
  using assms by (auto simp: config_item_def value_ok_def config_line_text)

lemma read_list:
  assumes "key_ok k" "\<forall>x \<in> set xs. token x"
  shows "foldl config_line (''interface'', c) (config_list k xs)
    = (''interface'', if xs \<noteq> [] then interface_item (lower k) (join '', '' xs) c else c)"
  using assms clean_join [of xs] by (auto simp: config_list_def config_line_text)

text \<open>The options of AmneziaWG.\<close>

definition awg_text :: "wg_connection \<Rightarrow> string \<Rightarrow> string" where
  "awg_text c option = text_of (map_of (wc_awg c) option)"

lemma assoc_set_new: "k \<notin> set (map fst ps) \<Longrightarrow> assoc_set k v ps = ps @ [(k, v)]"
  by (induction ps) auto

lemma interface_item_awg:
  assumes "knownAwg key = Some option"
    and "key \<notin> {''privatekey'', ''address'', ''addresses'', ''listenport'', ''mtu'', ''fwmark'', ''dns''}"
  shows "interface_item key val c
    = c\<lparr>rc_awg := assoc_set option val (rc_awg c), rc_protocol := Some AWG_PROTO\<rparr>"
  using assms by (simp add: interface_item_def)

definition awg_option_ok :: "string \<times> string \<times> int \<times> int \<Rightarrow> bool" where
  "awg_option_ok = (\<lambda>(option, name, _). key_ok name \<and> knownAwg (lower name) = Some option
     \<and> lower name \<notin> {''privatekey'', ''address'', ''addresses'', ''listenport'', ''mtu'', ''fwmark'', ''dns''})"

lemma awg_options_ok: "list_all awg_option_ok AWG_OPTIONS" "distinct (map fst AWG_OPTIONS)"
  by code_simp+

lemma read_awg:
  assumes "list_all awg_option_ok opts" "distinct (map fst opts)"
    and "\<forall>option \<in> fst ` set opts. value_ok (val option)" "fst ` set opts \<inter> fst ` set (rc_awg c) = {}"
  defines "found \<equiv> map (\<lambda>(option, _). (option, val option)) (filter (\<lambda>(option, _). val option \<noteq> []) opts)"
  shows "foldl config_line (''interface'', c) (concat (map (\<lambda>(option, name, _). config_item name (val option)) opts))
    = (''interface'', if found = [] then c else c\<lparr>rc_awg := rc_awg c @ found, rc_protocol := Some AWG_PROTO\<rparr>)"
  unfolding found_def using assms(1-4)
proof (induction opts arbitrary: c)
  case (Cons opt opts)
  obtain option name r where opt: "opt = (option, name, r)" by (cases opt)
  have ok: "key_ok name" "knownAwg (lower name) = Some option" "value_ok (val option)"
    "lower name \<notin> {''privatekey'', ''address'', ''addresses'', ''listenport'', ''mtu'', ''fwmark'', ''dns''}"
    using Cons.prems unfolding opt by (auto simp: awg_option_ok_def)
  have new: "option \<notin> set (map fst (rc_awg c))" using Cons.prems(4) by (auto simp: opt)
  let ?c = "c\<lparr>rc_awg := rc_awg c @ [(option, val option)], rc_protocol := Some AWG_PROTO\<rparr>"
  have step: "foldl config_line (''interface'', c) (config_item name (val option))
      = (''interface'', if val option \<noteq> [] then ?c else c)"
    using read_item [OF ok(1,3)] interface_item_awg [OF ok(2,4)] assoc_set_new [OF new] by simp
  show ?case
  proof (cases "val option = []")
    case True
    then show ?thesis using Cons.IH [of c] Cons.prems step by (auto simp: opt)
  next
    case False
    have "fst ` set opts \<inter> fst ` set (rc_awg ?c) = {}" using Cons.prems(2,4) by (auto simp: opt)
    then show ?thesis using Cons.IH [of ?c] Cons.prems(1-3) step False by (auto simp: opt)
  qed
qed simp

section \<open>Peers\<close>

definition with_peer :: "raw_config \<Rightarrow> raw_peer \<Rightarrow> raw_config" where
  "with_peer c p = c\<lparr>rc_peers := rc_peers c @ [p]\<rparr>"

lemma read_peer_line:
  assumes "key_ok k" "clean v"
  shows "config_line (''peer'', with_peer c p) (k @ '' = '' @ v) = (''peer'', with_peer c (peer_item (lower k) v p))"
  using config_line_item [OF assms] by (simp add: with_peer_def)

lemmas read_peer_text = read_peer_line [simplified append_Cons append_Nil]

lemma read_peer_item:
  assumes "key_ok k" "value_ok v"
  shows "foldl config_line (''peer'', with_peer c p) (config_item k v)
    = (''peer'', with_peer c (if v \<noteq> [] then peer_item (lower k) v p else p))"
  using assms by (auto simp: config_item_def value_ok_def read_peer_text)

lemma read_peer_list:
  assumes "key_ok k" "\<forall>x \<in> set xs. token x"
  shows "foldl config_line (''peer'', with_peer c p) (config_list k xs)
    = (''peer'', with_peer c (if xs \<noteq> [] then peer_item (lower k) (join '', '' xs) p else p))"
  using assms clean_join [of xs] by (auto simp: config_list_def read_peer_text)

definition opt_text :: "string \<Rightarrow> string option" where
  "opt_text v = (if v = [] then None else Some v)"

definition opt_list :: "string list \<Rightarrow> string list option" where
  "opt_list xs = (if xs = [] then None else Some xs)"

lemma text_of_opt [simp]: "text_of (opt_text v) = v" "list_of (opt_list xs) = xs"
  by (simp_all add: text_of_def opt_text_def list_of_def opt_list_def)

text \<open>The object that reading the lines of a peer leaves.\<close>

definition raw_of :: "wg_peer \<Rightarrow> raw_peer" where
  "raw_of p = \<lparr>rp_publicKey = opt_text (wp_publicKey p), rp_privateKey = opt_text (wp_privateKey p),
     rp_presharedKey = opt_text (wp_presharedKey p), rp_allowedIps = opt_list (wp_allowedIps p),
     rp_endpoint = (if wp_endpointHost p = [] then None else Some (endpointText (wp_endpointHost p) (wp_endpointPort p))),
     rp_host = opt_text (wp_endpointHost p),
     rp_port = (if wp_endpointHost p = [] then None else Some (wp_endpointPort p)),
     rp_keepalive = opt_text (wp_keepalive p), rp_routeAllowed = False\<rparr>"

definition peer_text_ok :: "wg_peer \<Rightarrow> bool" where
  "peer_text_ok p \<longleftrightarrow> value_ok (wp_publicKey p) \<and> value_ok (wp_privateKey p) \<and> value_ok (wp_presharedKey p)
     \<and> list_all token (wp_allowedIps p) \<and> value_ok (wp_keepalive p)
     \<and> (wp_endpointHost p = [] \<and> wp_endpointPort p = [] \<or> endpoint_ok (wp_endpointHost p) (wp_endpointPort p))"

lemma peer_keys:
  "key_ok ''PublicKey''" "key_ok ''PrivateKey''" "key_ok ''PresharedKey''" "key_ok ''AllowedIPs''"
  "key_ok ''Endpoint''" "key_ok ''PersistentKeepalive''"
  "lower ''PublicKey'' = ''publickey''" "lower ''PrivateKey'' = ''privatekey''"
  "lower ''PresharedKey'' = ''presharedkey''" "lower ''AllowedIPs'' = ''allowedips''"
  "lower ''Endpoint'' = ''endpoint''" "lower ''PersistentKeepalive'' = ''persistentkeepalive''"
  by code_simp+

lemma read_endpoint:
  assumes "h = [] \<and> p = [] \<or> endpoint_ok h p"
  shows "foldl config_line (''peer'', with_peer c q) (if h \<noteq> [] then [''Endpoint = '' @ endpointText h p] else [])
    = (''peer'', with_peer c (if h \<noteq> [] then peer_item ''endpoint'' (endpointText h p) q else q))"
proof (cases "h = []")
  case False
  then have "clean (endpointText h p)" using assms clean_endpointText by blast
  then show ?thesis using False read_peer_line [OF peer_keys(5), of "endpointText h p" c q] by (simp add: peer_keys)
qed simp

lemma read_peer:
  assumes "peer_text_ok p"
  shows "foldl config_line (sec, c) (peer_lines p) = (''peer'', with_peer c (raw_of p))"
proof -
  have start: "foldl config_line (sec, c) [[], ''[Peer]''] = (''peer'', with_peer c empty_peer)"
    by (simp add: config_line_blank config_line_peer with_peer_def)
  have ok: "value_ok (wp_publicKey p)" "value_ok (wp_privateKey p)" "value_ok (wp_presharedKey p)"
    "\<forall>x \<in> set (wp_allowedIps p). token x" "value_ok (wp_keepalive p)"
    "wp_endpointHost p = [] \<and> wp_endpointPort p = [] \<or> endpoint_ok (wp_endpointHost p) (wp_endpointPort p)"
    using assms by (auto simp: peer_text_ok_def list_all_iff)
  have items: "peer_item ''publickey'' v q = q\<lparr>rp_publicKey := Some v\<rparr>"
    "peer_item ''privatekey'' v q = q\<lparr>rp_privateKey := Some v\<rparr>"
    "peer_item ''presharedkey'' v q = q\<lparr>rp_presharedKey := Some v\<rparr>"
    "peer_item ''allowedips'' v q = q\<lparr>rp_allowedIps := Some (parseList (JStr v))\<rparr>"
    "peer_item ''endpoint'' v q = (case parseEndpoint (JStr v) of (host, port) \<Rightarrow>
        q\<lparr>rp_endpoint := Some v, rp_host := Some host, rp_port := Some port\<rparr>)"
    "peer_item ''persistentkeepalive'' v q = q\<lparr>rp_keepalive := Some v\<rparr>" for v q
    by (simp_all add: peer_item_def)
  have e: "parseEndpoint (JStr (endpointText (wp_endpointHost p) (wp_endpointPort p)))
      = (wp_endpointHost p, wp_endpointPort p)" if "wp_endpointHost p \<noteq> []"
    using ok(6) that by (intro parseEndpoint_text) auto
  show ?thesis
    unfolding peer_lines_def foldl_append start
      read_peer_item [OF peer_keys(1) ok(1)] read_peer_item [OF peer_keys(2) ok(2)] read_peer_item [OF peer_keys(3) ok(3)]
      read_peer_list [OF peer_keys(4) ok(4)] read_endpoint [OF ok(6)] read_peer_item [OF peer_keys(6) ok(5)]
      peer_keys items parseList_join [OF ok(4)]
    using e by (auto simp: raw_of_def empty_peer_def opt_text_def opt_list_def)
qed

lemma read_peers:
  assumes "list_all peer_text_ok ps"
  shows "\<exists>sec'. foldl config_line (sec, c) (concat (map peer_lines ps)) = (sec', c\<lparr>rc_peers := rc_peers c @ map raw_of ps\<rparr>)"
  using assms
proof (induction ps arbitrary: sec c)
  case (Cons p ps)
  then show ?case
    using Cons.IH [of "''peer''" "with_peer c (raw_of p)"] by (simp add: read_peer with_peer_def)
qed simp

end
