(* ===== verification/Conn_Properties.thy ===== *)
theory Conn_Properties
  imports Wg_Roundtrip
begin

text \<open>
  Properties of the provider helpers: the round trip of a WireGuard configuration, what an imported
  connection guarantees, the short section names and the paths of OpenVPN profiles.
\<close>

section \<open>Round trip of a configuration\<close>

definition peer_ok :: "wg_peer \<Rightarrow> bool" where
  "peer_ok p \<longleftrightarrow> peer_text_ok p \<and> wp_publicKey p \<noteq> [] \<and> validKey (JStr (wp_publicKey p)) False
     \<and> (wp_presharedKey p \<noteq> [] \<longrightarrow> validKey (JStr (wp_presharedKey p)) True)
     \<and> list_all (\<lambda>a. validAddress_conn (JStr a)) (wp_allowedIps p)
     \<and> (wp_endpointHost p \<noteq> [] \<longrightarrow> validPort_conn (JStr (wp_endpointPort p)) True)"

text \<open>The options of AmneziaWG are stored in the order of \<open>AWG_OPTIONS\<close>, none of them empty.\<close>

definition awg_ok :: "wg_connection \<Rightarrow> bool" where
  "awg_ok c \<longleftrightarrow> list_all (\<lambda>(option, _). value_ok (awg_text c option)) AWG_OPTIONS
     \<and> wc_awg c = map (\<lambda>(option, _). (option, awg_text c option)) (filter (\<lambda>(option, _). awg_text c option \<noteq> []) AWG_OPTIONS)
     \<and> wc_protocol c = (if wc_awg c = [] then WG_PROTO else AWG_PROTO)"

definition connection_ok :: "wg_connection \<Rightarrow> bool" where
  "connection_ok c \<longleftrightarrow> clean (wc_privateKey c) \<and> validKey (JStr (wc_privateKey c)) False
     \<and> wc_addresses c \<noteq> [] \<and> list_all (\<lambda>a. token a \<and> validAddress_conn (JStr a)) (wc_addresses c)
     \<and> list_all token (wc_dns c) \<and> value_ok (wc_listenPort c) \<and> value_ok (wc_mtu c) \<and> value_ok (wc_fwmark c)
     \<and> awg_ok c \<and> list_all peer_ok (wc_peers c)"

text \<open>What the import adds and what the export leaves out.\<close>

definition imported :: "wg_connection \<Rightarrow> wg_connection" where
  "imported c = c\<lparr>wc_name := ''Imported connection'', wc_enabled := True, wc_publicKey := [],
     wc_nohostroute := False,
     wc_peers := map (\<lambda>p. p\<lparr>wp_description := [], wp_disabled := False, wp_routeAllowed := False\<rparr>) (wc_peers c)\<rparr>"

lemma interface_keys:
  "key_ok ''PrivateKey''" "key_ok ''Address''" "key_ok ''ListenPort''" "key_ok ''MTU''" "key_ok ''FwMark''"
  "key_ok ''DNS''" "lower ''PrivateKey'' = ''privatekey''" "lower ''Address'' = ''address''"
  "lower ''ListenPort'' = ''listenport''" "lower ''MTU'' = ''mtu''" "lower ''FwMark'' = ''fwmark''"
  "lower ''DNS'' = ''dns''"
  by code_simp+

definition raw_interface :: "wg_connection \<Rightarrow> raw_config" where
  "raw_interface c = \<lparr>rc_privateKey = opt_text (wc_privateKey c), rc_addresses = opt_list (wc_addresses c),
     rc_listenPort = opt_text (wc_listenPort c), rc_mtu = opt_text (wc_mtu c), rc_fwmark = opt_text (wc_fwmark c),
     rc_dns = opt_list (wc_dns c), rc_awg = wc_awg c,
     rc_protocol = (if wc_awg c = [] then None else Some AWG_PROTO), rc_peers = []\<rparr>"

lemma read_interface:
  assumes "connection_ok c"
  shows "foldl config_line ([], empty_config) (interface_lines c) = (''interface'', raw_interface c)"
proof -
  have ok: "value_ok (wc_privateKey c)" "\<forall>x \<in> set (wc_addresses c). token x" "value_ok (wc_listenPort c)"
    "value_ok (wc_mtu c)" "value_ok (wc_fwmark c)" "\<forall>x \<in> set (wc_dns c). token x" and awg: "awg_ok c"
    using assms by (auto simp: connection_ok_def value_ok_def list_all_iff)
  have items: "interface_item ''privatekey'' v d = d\<lparr>rc_privateKey := Some v\<rparr>"
    "interface_item ''address'' v d = d\<lparr>rc_addresses := Some (parseList (JStr v))\<rparr>"
    "interface_item ''listenport'' v d = d\<lparr>rc_listenPort := Some v\<rparr>"
    "interface_item ''mtu'' v d = d\<lparr>rc_mtu := Some v\<rparr>"
    "interface_item ''fwmark'' v d = d\<lparr>rc_fwmark := Some v\<rparr>"
    "interface_item ''dns'' v d = d\<lparr>rc_dns := Some (parseList (JStr v))\<rparr>" for v d
    by (simp_all add: interface_item_def)
  have start: "foldl config_line ([], empty_config) [''[Interface]''] = (''interface'', empty_config)"
    by (simp add: config_line_interface)
  have lines: "foldl config_line (''interface'', d) (awg_lines c)
      = (''interface'', if wc_awg c = [] then d else d\<lparr>rc_awg := rc_awg d @ wc_awg c, rc_protocol := Some AWG_PROTO\<rparr>)"
    if d: "rc_awg d = []" for d
  proof (cases "wc_awg c = []")
    case True
    then show ?thesis using awg by (simp add: awg_lines_def awg_ok_def WG_PROTO_def AWG_PROTO_def)
  next
    case False
    have vals: "\<forall>option \<in> fst ` set AWG_OPTIONS. value_ok (awg_text c option)"
      using awg by (auto simp: awg_ok_def list_all_iff)
    have found: "map (\<lambda>(option, _). (option, awg_text c option)) (filter (\<lambda>(option, _). awg_text c option \<noteq> []) AWG_OPTIONS)
        = wc_awg c" using awg by (simp add: awg_ok_def)
    have "awg_lines c = concat (map (\<lambda>(option, name, _). config_item name (awg_text c option)) AWG_OPTIONS)"
      using awg False by (simp add: awg_lines_def awg_ok_def awg_text_def)
    then show ?thesis
      using read_awg [OF awg_options_ok vals, of d] d False unfolding found by simp
  qed
  show ?thesis
    unfolding interface_lines_def foldl_append start
      read_item [OF interface_keys(1) ok(1)] read_list [OF interface_keys(2) ok(2)] read_item [OF interface_keys(3) ok(3)]
      read_item [OF interface_keys(4) ok(4)] read_item [OF interface_keys(5) ok(5)] read_list [OF interface_keys(6) ok(6)]
      interface_keys items parseList_join [OF ok(2)] parseList_join [OF ok(6)]
    by (subst lines) (simp_all add: empty_config_def raw_interface_def opt_text_def opt_list_def)
qed

lemma plain_list_text: "list_all plain_char ''[Interface]''" "list_all plain_char ''[Peer]''" "list_all plain_char '', ''"
  "list_all plain_char ''Endpoint''"
  by code_simp+

lemma plain_join: "\<forall>x \<in> set xs. token x \<Longrightarrow> list_all plain_char (join '', '' xs)"
proof (cases "xs = []")
  case False
  moreover assume "\<forall>x \<in> set xs. token x"
  ultimately show ?thesis using clean_join by (simp add: clean_def)
qed simp

lemma plain_value: "value_ok v \<Longrightarrow> list_all plain_char v"
  by (auto simp: value_ok_def clean_def)

lemma plain_line: "key_ok k \<Longrightarrow> list_all plain_char v \<Longrightarrow> list_all plain_char (k @ '' = '' @ v)"
  using key_plain plain_item by simp

abbreviation plain_lines :: "string list \<Rightarrow> bool" where
  "plain_lines ls \<equiv> list_all (list_all plain_char) ls"

lemma plain_config_item: "key_ok k \<Longrightarrow> value_ok v \<Longrightarrow> plain_lines (config_item k v)"
  using plain_line [of k v] plain_value by (simp add: config_item_def)

lemma plain_config_list: "key_ok k \<Longrightarrow> \<forall>x \<in> set xs. token x \<Longrightarrow> plain_lines (config_list k xs)"
  using plain_line [of k "join '', '' xs"] plain_join by (simp add: config_list_def)

lemma plain_peer_lines:
  assumes "peer_text_ok p"
  shows "plain_lines (peer_lines p)"
proof -
  have ok: "value_ok (wp_publicKey p)" "value_ok (wp_privateKey p)" "value_ok (wp_presharedKey p)"
    "\<forall>x \<in> set (wp_allowedIps p). token x" "value_ok (wp_keepalive p)"
    using assms by (auto simp: peer_text_ok_def list_all_iff)
  have "value_ok (endpointText (wp_endpointHost p) (wp_endpointPort p))" if "wp_endpointHost p \<noteq> []"
    using assms that clean_endpointText by (auto simp: peer_text_ok_def value_ok_def)
  then have "plain_lines (if wp_endpointHost p \<noteq> [] then [''Endpoint = '' @ endpointText (wp_endpointHost p) (wp_endpointPort p)] else [])"
  proof (cases "wp_endpointHost p = []")
    case False
    assume "wp_endpointHost p \<noteq> [] \<Longrightarrow> value_ok (endpointText (wp_endpointHost p) (wp_endpointPort p))"
    then have "value_ok (endpointText (wp_endpointHost p) (wp_endpointPort p))" using False by blast
    then show ?thesis using plain_line [OF peer_keys(5) plain_value] False
      by (simp add: list_all_append [symmetric] del: list_all_append)
  qed simp
  then show ?thesis
    unfolding peer_lines_def list_all_append
    using plain_config_item peer_keys(1-3,6) plain_config_list [OF peer_keys(4)] ok plain_list_text(2) by simp
qed

lemma plain_awg_lines:
  assumes "awg_ok c"
  shows "plain_lines (awg_lines c)"
proof -
  have "plain_lines (config_item name (text_of (map_of (wc_awg c) option)))"
    if "(option, name, r) \<in> set AWG_OPTIONS" for option name r
  proof (rule plain_config_item)
    show "key_ok name" using awg_options_ok(1) that by (auto simp: list_all_iff awg_option_ok_def)
    show "value_ok (text_of (map_of (wc_awg c) option))"
      using assms that by (auto simp: awg_ok_def list_all_iff awg_text_def)
  qed
  then have "\<forall>ls \<in> set (map (\<lambda>(option, name, _). config_item name (text_of (map_of (wc_awg c) option))) AWG_OPTIONS).
      plain_lines ls" by auto
  then show ?thesis unfolding awg_lines_def by (simp add: list_all_iff) blast
qed

lemma plain_interface_lines:
  assumes "connection_ok c"
  shows "plain_lines (interface_lines c)"
proof -
  have ok: "value_ok (wc_privateKey c)" "\<forall>x \<in> set (wc_addresses c). token x" "value_ok (wc_listenPort c)"
    "value_ok (wc_mtu c)" "value_ok (wc_fwmark c)" "\<forall>x \<in> set (wc_dns c). token x" "awg_ok c"
    using assms by (auto simp: connection_ok_def value_ok_def list_all_iff)
  then show ?thesis
    unfolding interface_lines_def list_all_append
    using plain_config_item interface_keys(1-6) plain_config_list plain_awg_lines plain_list_text(1) by simp
qed

lemma validHost_endpoint: "endpoint_ok h p \<Longrightarrow> validHost (JStr h)"
  using trim_ends [of h] host_char_plain
  by (simp add: validHost_def HOST_RE_def endpoint_ok_def list_all_iff Let_def)

lemma peer_error_raw:
  assumes "peer_ok p"
  shows "peer_error (raw_of p) = None"
proof -
  have "text_of (rp_publicKey (raw_of p)) = wp_publicKey p" "text_of (rp_presharedKey (raw_of p)) = wp_presharedKey p"
    "list_of (rp_allowedIps (raw_of p)) = wp_allowedIps p" "text_of (rp_host (raw_of p)) = wp_endpointHost p"
    by (simp_all add: raw_of_def)
  moreover have "text_of (rp_port (raw_of p)) = wp_endpointPort p" if "wp_endpointHost p \<noteq> []"
    using that by (simp add: raw_of_def text_of_def)
  moreover have "text_of (rp_endpoint (raw_of p)) = []" if "wp_endpointHost p = []"
    using that by (simp add: raw_of_def text_of_def)
  moreover have "validHost (JStr (wp_endpointHost p))" if "wp_endpointHost p \<noteq> []"
    using that assms by (auto simp: peer_ok_def peer_text_ok_def intro: validHost_endpoint)
  ultimately show ?thesis
    using assms unfolding peer_error_def peer_ok_def by (cases "wp_endpointHost p = []") auto
qed

lemma finish_peer_raw:
  assumes "peer_ok p"
  shows "finish_peer (raw_of p) = p\<lparr>wp_description := [], wp_disabled := False, wp_routeAllowed := False\<rparr>"
proof -
  have "wp_endpointHost p = [] \<Longrightarrow> wp_endpointPort p = []"
    using assms by (auto simp: peer_ok_def peer_text_ok_def endpoint_ok_def)
  then show ?thesis by (simp add: finish_peer_def raw_of_def text_of_def [of None] text_of_def [of "Some x" for x])
qed

section \<open>Invariants of the parser\<close>

text \<open>The parts of the endpoint come from its text, and the protocol follows the options.\<close>

definition raw_peer_ok :: "raw_peer \<Rightarrow> bool" where
  "raw_peer_ok p \<longleftrightarrow> (text_of (rp_endpoint p) = [] \<longrightarrow> text_of (rp_host p) = [] \<and> text_of (rp_port p) = [])"

definition raw_ok :: "string \<times> raw_config \<Rightarrow> bool" where
  "raw_ok = (\<lambda>(sec, c). list_all raw_peer_ok (rc_peers c) \<and> rc_protocol c = (if rc_awg c = [] then None else Some AWG_PROTO)
     \<and> (sec \<noteq> [] \<and> sec \<noteq> ''interface'' \<longrightarrow> rc_peers c \<noteq> []))"

lemma peer_item_other:
  "key \<noteq> ''endpoint'' \<Longrightarrow> rp_endpoint (peer_item key val p) = rp_endpoint p
    \<and> rp_host (peer_item key val p) = rp_host p \<and> rp_port (peer_item key val p) = rp_port p"
  by (simp add: peer_item_def)

lemma peer_item_ok:
  assumes "raw_peer_ok p"
  shows "raw_peer_ok (peer_item key val p)"
proof (cases "key = ''endpoint''")
  case True
  obtain host port where e: "parseEndpoint (JStr val) = (host, port)" by fastforce
  have "val = [] \<Longrightarrow> host = [] \<and> port = []" using e by (auto simp: parseEndpoint_def)
  then show ?thesis using e True by (simp add: raw_peer_ok_def peer_item_def text_of_def)
next
  case False
  then show ?thesis using assms by (simp add: raw_peer_ok_def peer_item_other)
qed

lemma assoc_set_not_Nil [simp]: "assoc_set k v ps \<noteq> []"
  by (cases ps) auto

lemma interface_item_ok: "raw_ok (''interface'', c) \<Longrightarrow> raw_ok (''interface'', interface_item key val c)"
  by (simp add: raw_ok_def interface_item_def split: option.split)

lemma raw_ok_peers:
  assumes "raw_ok (sec, c)" "sec \<noteq> []" "sec \<noteq> ''interface''"
  shows "raw_ok (sec, c\<lparr>rc_peers := butlast (rc_peers c) @ [peer_item key val (last (rc_peers c))]\<rparr>)"
proof -
  have "rc_peers c \<noteq> []" using assms by (simp add: raw_ok_def)
  then have "list_all raw_peer_ok (butlast (rc_peers c)) \<and> raw_peer_ok (last (rc_peers c))"
    using assms(1) by (auto simp: raw_ok_def list_all_iff dest: in_set_butlastD)
  then show ?thesis using assms(1) peer_item_ok by (simp add: raw_ok_def)
qed

lemma header_words: "header_match l = Some h \<Longrightarrow> h = ''interface'' \<or> h = ''peer''"
  by (auto simp: header_match_def Let_def split: if_splits)

lemma config_line_cases:
  obtains (same) "config_line (sec, c) raw = (sec, c)"
  | (header) h where "h = ''interface'' \<or> h = ''peer''"
      "config_line (sec, c) raw = (h, if h = ''peer'' then c\<lparr>rc_peers := rc_peers c @ [empty_peer]\<rparr> else c)"
  | (inter) key val where "sec = ''interface''" "config_line (sec, c) raw = (sec, interface_item key val c)"
  | (peer) key val where "sec \<noteq> []" "sec \<noteq> ''interface''"
      "config_line (sec, c) raw = (sec, c\<lparr>rc_peers := butlast (rc_peers c) @ [peer_item key val (last (rc_peers c))]\<rparr>)"
proof -
  define line where "line = trim (strip_comment raw)"
  have eq: "config_line (sec, c) raw = (if line = [] then (sec, c) else case header_match line of
        Some h \<Rightarrow> (h, if h = ''peer'' then c\<lparr>rc_peers := rc_peers c @ [empty_peer]\<rparr> else c)
      | None \<Rightarrow> (case item_match line of None \<Rightarrow> (sec, c) | Some (key, val) \<Rightarrow>
          (sec, if sec = [] then c else if sec = ''interface'' then interface_item key val c
            else c\<lparr>rc_peers := butlast (rc_peers c) @ [peer_item key val (last (rc_peers c))]\<rparr>)))"
    unfolding config_line_def line_def Let_def by simp
  show thesis
  proof (cases "header_match line")
    case (Some h)
    then show thesis using eq header_words [OF Some] same header by (cases "line = []") simp_all
  next
    case none: None
    show thesis
    proof (cases "item_match line")
      case None
      then show thesis using eq none same by simp
    next
      case (Some kv)
      obtain key val where kv: "kv = (key, val)" by (cases kv)
      consider "line = []" | "sec = []" | "line \<noteq> []" "sec = ''interface''" | "line \<noteq> []" "sec \<noteq> []" "sec \<noteq> ''interface''" by blast
      then show thesis
      proof cases
        case 3
        then show thesis using eq none Some unfolding kv by (intro inter [of key val]) simp_all
      next
        case 4
        then show thesis using eq none Some unfolding kv by (intro peer [of key val]) simp_all
      qed (use eq none Some kv in \<open>auto intro: same\<close>)
    qed
  qed
qed

lemma config_line_ok:
  assumes "raw_ok st"
  shows "raw_ok (config_line st raw)"
proof -
  obtain sec c where st: "st = (sec, c)" by (cases st)
  have new: "raw_peer_ok empty_peer" by (simp add: raw_peer_ok_def empty_peer_def text_of_def)
  show ?thesis
    unfolding st
  proof (cases rule: config_line_cases [of sec c raw])
    case (header h)
    then show "raw_ok (config_line (sec, c) raw)" using assms new unfolding st header(2) by (auto simp: raw_ok_def)
  next
    case (inter key val)
    then show "raw_ok (config_line (sec, c) raw)" using assms interface_item_ok unfolding st inter(2) by simp
  next
    case (peer key val)
    then show "raw_ok (config_line (sec, c) raw)" using assms raw_ok_peers unfolding st peer(3) by simp
  qed (use assms st in simp)
qed

lemma config_lines_ok: "raw_ok st \<Longrightarrow> raw_ok (foldl config_line st ls)"
  by (induction ls arbitrary: st) (simp_all add: config_line_ok)

section \<open>Names\<close>

lemma to_uint32_mod: "to_uint32 n = n mod 2 ^ 32"
  by (simp add: to_uint32_def take_bit_eq_mod)

lemma mod_step: "(a * (x mod m) + d) mod m = (a * x + d) mod (m :: int)"
  by (metis mod_add_left_eq mod_mult_right_eq)

lemma hash_step_mod: "to_uint32 (hash_step h c) = (31 * to_uint32 h + cc c) mod 2 ^ 32"
proof -
  have shl: "js_shl h 5 mod 2 ^ 32 = (h * 32) mod 2 ^ 32"
    using to_uint32_shl [of 5 h] unfolding to_uint32_mod by (simp add: push_bit_eq_mult)
  have "to_uint32 (hash_step h c) = (js_shl h 5 + (cc c - h)) mod 2 ^ 32"
    unfolding hash_step_def to_uint32_int32 unfolding to_uint32_mod by (simp add: algebra_simps)
  also have "\<dots> = (h * 32 + (cc c - h)) mod 2 ^ 32" by (metis shl mod_add_left_eq)
  also have "h * 32 + (cc c - h) = 31 * h + cc c" by simp
  also have "(31 * h + cc c) mod 2 ^ 32 = (31 * to_uint32 h + cc c) mod 2 ^ 32"
    unfolding to_uint32_mod by (rule mod_step [symmetric])
  finally show ?thesis .
qed

lemma hash_fold: "to_uint32 (foldl hash_step h s) = foldl (\<lambda>a c. 31 * a + cc c) (to_uint32 h) s mod 2 ^ 32"
proof (induction s arbitrary: h)
  case (Cons c s)
  have mod: "foldl (\<lambda>a c. 31 * a + cc c) (x mod 2 ^ 32) s mod 2 ^ 32 = foldl (\<lambda>a c. 31 * a + cc c) x s mod 2 ^ 32" for x
  proof (induction s arbitrary: x)
    case (Cons d s)
    have "foldl (\<lambda>a c. 31 * a + cc c) (31 * (x mod 2 ^ 32) + cc d) s mod 2 ^ 32
        = foldl (\<lambda>a c. 31 * a + cc c) ((31 * (x mod 2 ^ 32) + cc d) mod 2 ^ 32) s mod 2 ^ 32" by (rule Cons.IH [symmetric])
    also have "(31 * (x mod 2 ^ 32) + cc d) mod 2 ^ 32 = (31 * x + cc d) mod 2 ^ 32" by (rule mod_step)
    also have "foldl (\<lambda>a c. 31 * a + cc c) ((31 * x + cc d) mod 2 ^ 32) s mod 2 ^ 32
        = foldl (\<lambda>a c. 31 * a + cc c) (31 * x + cc d) s mod 2 ^ 32" by (rule Cons.IH)
    finally show ?case by simp
  qed simp
  show ?case using Cons.IH [of "hash_step h c"] mod by (simp add: hash_step_mod)
qed (simp add: to_uint32_mod)

lemma profile_file_name:
  assumes "list_all profile_char n" "n \<noteq> []"
  shows "profile_file (n @ ''.ovpn'')"
  using assms by (simp add: profile_file_def ends_with_def)

lemma ends_with_take: "ends_with p s \<Longrightarrow> s = take (length s - length p) s @ p"
  by (auto simp: ends_with_def starts_with_iff) (metis append_eq_conv_conj diff_add_inverse2 length_append length_rev rev_append rev_rev_ident)

lemma profileName_chars: "list_all profile_char (openvpnProfileName v) \<and> openvpnProfileName v \<noteq> []"
proof -
  have "list_all profile_char ''connection''" "profile_char (CHR ''_'')" by code_simp+
  then show ?thesis by (auto simp: openvpnProfileName_def Let_def list_all_iff)
qed

definition sample_key :: string where
  "sample_key = replicate 43 (CHR ''A'') @ ''=''"

definition sample_connection :: wg_connection where
  "sample_connection = \<lparr>wc_name = ''Office'', wc_protocol = AWG_PROTO, wc_enabled = False, wc_privateKey = sample_key,
     wc_publicKey = sample_key, wc_addresses = [''10.7.0.2/32''], wc_dns = [''1.1.1.1'', ''8.8.8.8''],
     wc_listenPort = ''51820'', wc_mtu = [], wc_fwmark = [], wc_nohostroute = True,
     wc_awg = [(''awg_jc'', ''4''), (''awg_h1'', ''1'')],
     wc_peers = [\<lparr>wp_description = ''hub'', wp_disabled = False, wp_privateKey = [], wp_presharedKey = [],
       wp_publicKey = sample_key, wp_allowedIps = [''0.0.0.0/0''], wp_endpointHost = ''vpn.example'',
       wp_endpointPort = ''51820'', wp_keepalive = ''25'', wp_routeAllowed = False\<rparr>]\<rparr>"

lemma sample_addresses: "validAddress_conn (JStr ''10.7.0.2/32'')" "validAddress_conn (JStr ''0.0.0.0/0'')"
  by code_simp+

lemma sample_connection_ok: "connection_ok sample_connection"
proof -
  have parts: "clean sample_key" "validKey (JStr sample_key) False" "value_ok sample_key" "sample_key \<noteq> []"
    "value_ok []" "value_ok ''51820''" "value_ok ''25''" "validPort_conn (JStr ''51820'') True"
    "token ''10.7.0.2/32''" "token ''0.0.0.0/0''" "token ''1.1.1.1''" "token ''8.8.8.8''"
    "endpoint_ok ''vpn.example'' ''51820''"
    by code_simp+
  moreover have "awg_ok sample_connection" by code_simp
  ultimately show ?thesis
    by (simp add: connection_ok_def peer_ok_def peer_text_ok_def sample_connection_def sample_addresses)
qed

definition sample_text :: string where
  "sample_text = ''[Interface] # office'' @ [LF] @ ''PrivateKey=generate'' @ [LF] @ ''Jc = 4'' @ [LF]
     @ ''Address = ::/0'' @ [LF]"

lemma parse_sample: "\<exists>c. parseConfig (JStr sample_text) = Inr c \<and> wc_addresses c = [''::/0''] \<and> wc_awg c = [(''awg_jc'', ''4'')]"
proof -
  have "(case parseConfig (JStr sample_text) of Inl e \<Rightarrow> False
      | Inr c \<Rightarrow> wc_addresses c = [''::/0''] \<and> wc_awg c = [(''awg_jc'', ''4'')])" by code_simp
  then show ?thesis by (auto split: sum.splits)
qed

section \<open>Properties\<close>

text \<open>C15: reading a written configuration gives back what the format carries of the connection: the private
  key, the addresses, DNS servers, port, MTU and mark, every AmneziaWG option, and of every peer, in order, the keys,
  the allowed addresses, the endpoint and the keepalive.  The rest is reset (\<open>imported\<close>): the name is \<open>Imported
  connection\<close>, the connection is on, its public key and \<open>nohostroute\<close> are empty, and so are a peer's description,
  \<open>disabled\<close> and \<open>routeAllowed\<close>.  The connection is one whose texts fit the format and pass the validators
  (\<open>connection_ok\<close>).\<close>

theorem wg_roundtrip:
  assumes "connection_ok c"
  shows "parseConfig (JStr (serializeConfig c)) = Inr (imported c)"
proof -
  let ?ls = "interface_lines c @ concat (map peer_lines (wc_peers c))"
  have peers: "list_all peer_text_ok (wc_peers c)" "list_all peer_ok (wc_peers c)"
    using assms by (auto simp: connection_ok_def peer_ok_def list_all_iff)
  have "plain_lines ?ls"
    using plain_interface_lines [OF assms] plain_peer_lines peers(1) by (auto simp: list_all_iff)
  moreover have "?ls \<noteq> []" by (simp add: interface_lines_def)
  ultimately have lines: "split_lines (serializeConfig c) = ?ls @ [[]]"
    unfolding serializeConfig_def by (intro split_lines_join) (auto simp: list_all_iff)
  obtain sec' where fold: "foldl config_line (''interface'', raw_interface c) (concat (map peer_lines (wc_peers c)))
      = (sec', (raw_interface c)\<lparr>rc_peers := map raw_of (wc_peers c)\<rparr>)"
    using read_peers [OF peers(1), of "''interface''" "raw_interface c"] by (auto simp: raw_interface_def)
  have "snd (foldl config_line ([], empty_config) (split_lines (serializeConfig c)))
      = (raw_interface c)\<lparr>rc_peers := map raw_of (wc_peers c)\<rparr>"
    unfolding lines foldl_append read_interface [OF assms] fold by (simp add: config_line_blank)
  then have parse: "parseConfig (JStr (serializeConfig c))
      = finish_config ((raw_interface c)\<lparr>rc_peers := map raw_of (wc_peers c)\<rparr>)"
    by (simp add: parseConfig_def)
  have none: "List.map_filter peer_error (map raw_of (wc_peers c)) = []"
    using peers(2) peer_error_raw by (auto simp: List.map_filter_def list_all_iff filter_empty_conv)
  have finished: "map (finish_peer \<circ> raw_of) (wc_peers c)
      = map (\<lambda>p. p\<lparr>wp_description := [], wp_disabled := False, wp_routeAllowed := False\<rparr>) (wc_peers c)"
    using peers(2) finish_peer_raw by (simp add: list_all_iff)
  have addresses: "opt_list (wc_addresses c) = Some (wc_addresses c)"
    using assms by (simp add: opt_list_def connection_ok_def)
  have "wc_privateKey c \<noteq> []" "validKey (JStr (wc_privateKey c)) False"
    "list_all (\<lambda>a. validAddress_conn (JStr a)) (wc_addresses c)"
    using assms by (auto simp: connection_ok_def clean_def list_all_iff)
  moreover have "wc_protocol c = (if wc_awg c = [] then WG_PROTO else AWG_PROTO)"
    using assms by (simp add: connection_ok_def awg_ok_def)
  ultimately show ?thesis
    unfolding parse finish_config_def
    by (simp add: raw_interface_def none finished imported_def addresses)
qed

theorem wg_roundtrip_witness:
  "\<exists>c. parseConfig (JStr (serializeConfig sample_connection)) = Inr c \<and> wc_protocol c = AWG_PROTO
     \<and> map wp_endpointHost (wc_peers c) = [''vpn.example'']"
  using wg_roundtrip [OF sample_connection_ok] by (simp add: imported_def sample_connection_def)

text \<open>C16: an imported connection is valid whatever the text was: its keys, addresses and endpoints
  pass the validators of the editor, and it is an AmneziaWG connection exactly when it has options
  of AmneziaWG.\<close>

theorem parseConfig_valid:
  assumes "parseConfig text = Inr c"
  shows "wc_privateKey c \<noteq> [] \<and> validKey (JStr (wc_privateKey c)) False
    \<and> list_all (\<lambda>a. validAddress_conn (JStr a)) (wc_addresses c)
    \<and> wc_protocol c = (if wc_awg c = [] then WG_PROTO else AWG_PROTO)
    \<and> list_all (\<lambda>p. wp_publicKey p \<noteq> [] \<and> validKey (JStr (wp_publicKey p)) False
        \<and> validKey (JStr (wp_presharedKey p)) True
        \<and> list_all (\<lambda>a. validAddress_conn (JStr a)) (wp_allowedIps p)
        \<and> validHost (JStr (wp_endpointHost p)) \<and> validPort_conn (JStr (wp_endpointPort p)) True) (wc_peers c)"
proof -
  obtain sec raw where raw: "foldl config_line ([], empty_config) (split_lines (arg_str text)) = (sec, raw)" by fastforce
  have "raw_ok ([], empty_config)" by (simp add: raw_ok_def empty_config_def)
  then have ok: "raw_ok (sec, raw)" using config_lines_ok raw by metis
  have fin: "finish_config raw = Inr c" using assms raw by (simp add: parseConfig_def)
  have errors: "List.map_filter peer_error (rc_peers raw) = []"
    using fin by (auto simp: finish_config_def split: if_splits option.splits list.splits)
  have blank: "validKey (JStr []) True" "validHost (JStr [])" "validPort_conn (JStr []) True"
    by (simp_all add: validKey_def validHost_def validPort_conn_def)
  have "wp_publicKey (finish_peer p) \<noteq> [] \<and> validKey (JStr (wp_publicKey (finish_peer p))) False
      \<and> validKey (JStr (wp_presharedKey (finish_peer p))) True
      \<and> list_all (\<lambda>a. validAddress_conn (JStr a)) (wp_allowedIps (finish_peer p))
      \<and> validHost (JStr (wp_endpointHost (finish_peer p))) \<and> validPort_conn (JStr (wp_endpointPort (finish_peer p))) True"
    if p: "p \<in> set (rc_peers raw)" for p
  proof -
    have "peer_error p \<noteq> Some e" for e using errors p map_filter_set [of e peer_error "rc_peers raw"] by auto
    then have "peer_error p = None" by (meson not_Some_eq)
    moreover have "raw_peer_ok p" using ok p by (simp add: raw_ok_def list_all_iff)
    ultimately show ?thesis
      using blank by (auto simp: peer_error_def raw_peer_ok_def finish_peer_def split: if_splits)
  qed
  then show ?thesis
    using fin errors ok by (auto simp: finish_config_def raw_ok_def list_all_iff split: if_splits option.splits)
qed

theorem parseConfig_valid_witness:
  "\<exists>c. parseConfig (JStr sample_text) = Inr c \<and> wc_protocol c = AWG_PROTO \<and> validKey (JStr (wc_privateKey c)) False"
proof -
  obtain c where "parseConfig (JStr sample_text) = Inr c" "wc_awg c = [(''awg_jc'', ''4'')]" using parse_sample by blast
  then show ?thesis using parseConfig_valid [of "JStr sample_text" c] by auto
qed

text \<open>The token of a section name is the polynomial hash of the text with factor 31 modulo
  \<open>2 ^ 32\<close>, written with one to seven digits and lower-case letters; cutting it to seven characters
  never loses a digit, and with a prefix of four characters it fits the 15 characters of UCI.\<close>

theorem sectionToken_hash:
  "sectionToken v = base_str 36 (foldl (\<lambda>a c. 31 * a + cc c) 0 (arg_str v) mod 2 ^ 32)
   \<and> num_val 36 (sectionToken v) = foldl (\<lambda>a c. 31 * a + cc c) 0 (arg_str v) mod 2 ^ 32
   \<and> 1 \<le> length (sectionToken v) \<and> length (managedIpsecSection prefix v) \<le> length prefix + 7
   \<and> list_all (\<lambda>c. is_digit c \<or> is_lower c) (sectionToken v)"
proof -
  define h where "h = foldl (\<lambda>a c. 31 * a + cc c) 0 (arg_str v) mod 2 ^ 32"
  have h: "0 \<le> h" "h < 36 ^ 7" by (simp_all add: h_def)
  have "js_ushr (foldl hash_step 0 (arg_str v)) 0 = h"
    using hash_fold [of 0 "arg_str v"] by (simp add: js_ushr_def h_def to_uint32_def)
  moreover have len: "length (base_str 36 h) \<le> 7" using h by (intro base_str_len) auto
  ultimately have token: "sectionToken v = base_str 36 h" by (simp add: sectionToken_def Let_def)
  have "\<forall>c \<in> set (base_str 36 h). is_digit c \<or> is_lower c"
    using h(1) digit_char_alnum by (intro base_str_chars) auto
  moreover have "num_val 36 (base_str 36 h) = h" using h(1) by (intro num_val_base_str) auto
  moreover have "1 \<le> length (base_str 36 h)" by (metis One_nat_def Suc_leI base_str_not_Nil length_greater_0_conv)
  ultimately show ?thesis
    using len unfolding managedIpsecSection_def token h_def [symmetric] by (simp add: list_all_iff)
qed

text \<open>The path of an OpenVPN profile stays in the directory of Freenetic: its file name holds no
  slash and no other dot, whatever the section is called, and the name can be read back; only such
  paths yield a name.\<close>

theorem openvpn_profile_path:
  "managedOpenvpnProfile (JStr (openvpnProfilePath section))
   \<and> openvpnProfileNameFromPath (JStr (openvpnProfilePath section)) = openvpnProfileName section
   \<and> list_all profile_char (openvpnProfileName section) \<and> openvpnProfileName section \<noteq> []
   \<and> (openvpnProfileNameFromPath (JStr path) = [] \<or>
       path = OPENVPN_PROFILE_DIR @ ''/'' @ openvpnProfileNameFromPath (JStr path) @ ''.ovpn''
       \<and> list_all profile_char (openvpnProfileNameFromPath (JStr path)))"
proof -
  let ?n = "openvpnProfileName section" and ?dir = "OPENVPN_PROFILE_DIR @ ''/''"
  have named: "profile_file (?n @ ''.ovpn'')" using profileName_chars by (intro profile_file_name) blast+
  have path: "openvpnProfilePath section = ?dir @ (?n @ ''.ovpn'')" by (simp add: openvpnProfilePath_def)
  have "\<not> profile_char (CHR ''/'')" "CHR ''/'' \<notin> set ''.ovpn''" by code_simp+
  then have "CHR ''/'' \<notin> set (?n @ ''.ovpn'')" using profileName_chars [of "section"] by (auto simp: list_all_iff)
  then have "last_index_of CHR ''/'' (openvpnProfilePath section) = Some (length OPENVPN_PROFILE_DIR)"
    using last_index_of_append [of "CHR ''/''" "?n @ ''.ovpn''" OPENVPN_PROFILE_DIR] by (simp add: path)
  then have managed: "managedOpenvpnProfile (JStr (openvpnProfilePath section))"
    using named by (simp add: managedOpenvpnProfile_def path del: append_assoc)
  have name: "openvpnProfileNameFromPath (JStr (openvpnProfilePath section)) = ?n"
    using named by (simp add: openvpnProfileNameFromPath_def path Let_def del: append_assoc)
  have "path = ?dir @ openvpnProfileNameFromPath (JStr path) @ ''.ovpn'' \<and> list_all profile_char (openvpnProfileNameFromPath (JStr path))"
    if some: "openvpnProfileNameFromPath (JStr path) \<noteq> []"
  proof -
    define f where "f = (if starts_with ?dir path then drop (length ?dir) path else [])"
    have f: "openvpnProfileNameFromPath (JStr path) = (if profile_file f then take (length f - 5) f else [])"
      unfolding openvpnProfileNameFromPath_def f_def by (simp add: Let_def)
    then have named: "profile_file f" using some by (simp split: if_splits)
    then have "f = take (length f - 5) f @ ''.ovpn''" using ends_with_take [of "''.ovpn''" f] by (simp add: profile_file_def eval_nat_numeral)
    moreover have "path = ?dir @ f"
      using named unfolding f_def by (cases "starts_with ?dir path") (auto simp: starts_with_iff profile_file_def)
    ultimately show ?thesis using f named by (simp add: profile_file_def)
  qed
  then show ?thesis using managed name profileName_chars by auto
qed

end
