(* ===== verification/Comparators.thy ===== *)
theory Comparators
  imports Main "HOL-Library.Multiset"
begin

text \<open>
  Comparison functions as JavaScript's \<open>sort\<close> takes them, the stable sort, and the interface of a
  consistent comparison: a locale with the facts about sorting.
\<close>

definition or_zero :: "int \<Rightarrow> int \<Rightarrow> int" where
  "or_zero a b = (if a \<noteq> 0 then a else b)"

text \<open>\<open>Array.prototype.sort\<close> is stable; on a consistent comparison every stable sort gives the same
  list.\<close>

fun insert_by :: "('a \<Rightarrow> 'a \<Rightarrow> int) \<Rightarrow> 'a \<Rightarrow> 'a list \<Rightarrow> 'a list" where
  "insert_by cmp x [] = [x]"
| "insert_by cmp x (y # ys) = (if cmp y x \<le> 0 then y # insert_by cmp x ys else x # y # ys)"

definition sort_by :: "('a \<Rightarrow> 'a \<Rightarrow> int) \<Rightarrow> 'a list \<Rightarrow> 'a list" where
  "sort_by cmp xs = foldl (\<lambda>acc x. insert_by cmp x acc) [] xs"

lemma mset_insert_by [simp]: "mset (insert_by cmp x ys) = add_mset x (mset ys)"
  by (induction ys) auto

lemma mset_sort_by [simp]: "mset (sort_by cmp xs) = mset xs"
proof -
  have "mset (foldl (\<lambda>acc x. insert_by cmp x acc) acc xs) = mset acc + mset xs" for acc
    by (induction xs arbitrary: acc) auto
  then show ?thesis by (simp add: sort_by_def)
qed

lemma set_insert_by [simp]: "set (insert_by cmp x ys) = insert x (set ys)"
  by (metis mset_insert_by set_mset_add_mset_insert set_mset_mset)

lemma set_sort_by [simp]: "set (sort_by cmp xs) = set xs"
  by (metis mset_sort_by set_mset_mset)

locale comparison =
  fixes P :: "'a \<Rightarrow> bool" and cmp :: "'a \<Rightarrow> 'a \<Rightarrow> int"
  assumes anti: "P a \<Longrightarrow> P b \<Longrightarrow> cmp b a = - cmp a b"
    and trans: "P a \<Longrightarrow> P b \<Longrightarrow> P c \<Longrightarrow> cmp a b \<le> 0 \<Longrightarrow> cmp b c \<le> 0 \<Longrightarrow> cmp a c \<le> 0"
begin

lemma refl: "P a \<Longrightarrow> cmp a a = 0"
  using anti [of a a] by simp

lemma total: "P a \<Longrightarrow> P b \<Longrightarrow> cmp a b \<le> 0 \<or> cmp b a \<le> 0"
  using anti [of a b] by linarith

lemma trans_less:
  assumes "P a" "P b" "P c" "cmp a b \<le> 0" "cmp b c \<le> 0" "cmp a c = 0"
  shows "cmp a b = 0 \<and> cmp b c = 0"
  using trans [of c a b] trans [of b c a] anti [of a b] anti [of b c] anti [of a c] assms by force

lemma insert_sorted:
  assumes "\<forall>y \<in> set ys. P y" "P x" "sorted_wrt (\<lambda>a b. cmp a b \<le> 0) ys"
  shows "sorted_wrt (\<lambda>a b. cmp a b \<le> 0) (insert_by (\<lambda>a b. or_zero (cmp a b) (tie a b)) x ys)"
  using assms
proof (induction ys)
  case (Cons y ys)
  show ?case
  proof (cases "or_zero (cmp y x) (tie y x) \<le> 0")
    case True
    then have "cmp y x \<le> 0" by (simp add: or_zero_def split: if_splits)
    then show ?thesis using Cons True by simp
  next
    case False
    then have "cmp x y \<le> 0" using anti [of y x] Cons.prems by (simp add: or_zero_def split: if_splits)
    then show ?thesis using False Cons.prems trans [of x y] by auto
  qed
qed simp

lemma sort_sorted:
  assumes "\<forall>x \<in> set xs. P x"
  shows "sorted_wrt (\<lambda>a b. cmp a b \<le> 0) (sort_by (\<lambda>a b. or_zero (cmp a b) (tie a b)) xs)"
proof -
  let ?f = "\<lambda>acc x. insert_by (\<lambda>a b. or_zero (cmp a b) (tie a b)) x acc"
  have "sorted_wrt (\<lambda>a b. cmp a b \<le> 0) (foldl ?f acc xs)"
    if "\<forall>x \<in> set acc. P x" "sorted_wrt (\<lambda>a b. cmp a b \<le> 0) acc" for acc
    using assms that by (induction xs arbitrary: acc) (simp_all add: insert_sorted)
  then show ?thesis by (simp add: sort_by_def)
qed

end

lemma comparison_lex:
  assumes f: "comparison P f" and g: "comparison P g"
  shows "comparison P (\<lambda>a b. or_zero (f a b) (g a b))"
proof
  fix a b assume "P a" "P b"
  then show "or_zero (f b a) (g b a) = - or_zero (f a b) (g a b)"
    using comparison.anti [OF f, of a b] comparison.anti [OF g, of a b] by (simp add: or_zero_def)
next
  fix a b c
  assume P: "P a" "P b" "P c" and le: "or_zero (f a b) (g a b) \<le> 0" "or_zero (f b c) (g b c) \<le> 0"
  then have "f a b \<le> 0" "f b c \<le> 0" by (auto simp: or_zero_def split: if_splits)
  moreover from this have "f a c \<le> 0" using comparison.trans [OF f P] by blast
  ultimately show "or_zero (f a c) (g a c) \<le> 0"
    using comparison.trans_less [OF f P] comparison.trans [OF g P] le by (auto simp: or_zero_def split: if_splits)
qed

lemma comparison_map: "comparison Q f \<Longrightarrow> (\<And>a. P a \<Longrightarrow> Q (h a)) \<Longrightarrow> comparison P (\<lambda>a b. f (h a) (h b))"
  unfolding comparison_def by blast

lemma comparison_cong:
  assumes f: "comparison P f" and eq: "\<And>a b. P a \<Longrightarrow> P b \<Longrightarrow> g a b = f a b"
  shows "comparison P g"
proof
  fix a b assume "P a" "P b"
  then show "g b a = - g a b" using comparison.anti [OF f, of a b] eq [of a b] eq [of b a] by linarith
next
  fix a b c assume "P a" "P b" "P c" "g a b \<le> 0" "g b c \<le> 0"
  then show "g a c \<le> 0"
    using comparison.trans [OF f, of a b c] eq [of a b] eq [of b c] eq [of a c] by linarith
qed

lemma comparison_flip:
  assumes f: "comparison P f"
  shows "comparison P (\<lambda>a b. f b a)"
proof
  fix a b assume "P a" "P b"
  then show "f a b = - f b a" by (intro comparison.anti [OF f])
next
  fix a b c assume "P a" "P b" "P c" "f b a \<le> 0" "f c b \<le> 0"
  then show "f c a \<le> 0" using comparison.trans [OF f, of c b a] by blast
qed

text \<open>The comparison of the keys in a linear order.\<close>

definition sign_of :: "'a::linorder \<Rightarrow> 'a \<Rightarrow> int" where
  "sign_of a b = (if a < b then - 1 else if a = b then 0 else 1)"

interpretation sign: comparison "\<lambda>_. True" sign_of
  by unfold_locales (auto simp: sign_of_def split: if_splits)

lemma comparison_sign: "comparison P (\<lambda>a b. sign_of (h a) (h b))"
  by (rule comparison_map [OF sign.comparison_axioms TrueI])

end
