(* ===== verification/Release.thy ===== *)
theory Release
  imports Conn_Core Comparators
begin

text \<open>
  Release tags, package builds and the choice of releases that can be installed (the first part of
  \<open>freenetic-dashboard-data.js\<close>).  Answers of the release service and of the updater are JavaScript
  values; the names of release assets are strings.  Comparing numbers are those of the tag.
\<close>

section \<open>Tags\<close>

definition FREENETIC_PACKAGE_NAMES :: "string list" where
  "FREENETIC_PACKAGE_NAMES = [''luci-theme-freenetic'', ''luci-app-freenetic'']"

definition FREENETIC_DISPLAY_VERSION :: string where "FREENETIC_DISPLAY_VERSION = ''v0.2.x-dev''"

definition FREENETIC_RELEASE_CODENAMES :: "(string \<times> string) list" where
  "FREENETIC_RELEASE_CODENAMES = [(''0.2'', ''Onyx''), (''0.3'', ''Noxium''), (''0.4'', ''Oxidice'')]"

definition FREENETIC_RELEASE_PACKAGES :: "string list" where
  "FREENETIC_RELEASE_PACKAGES = [''luci-theme-freenetic'', ''luci-app-freenetic'',
     ''luci-i18n-theme-freenetic-ru'', ''luci-i18n-freenetic-ru'']"

text \<open>A number and a dot at the front of a text.\<close>

definition dotted_number :: "string \<Rightarrow> (string \<times> string) option" where
  "dotted_number s =
     (let a = takeWhile is_digit s; r = dropWhile is_digit s
      in if a \<noteq> [] \<and> starts_with ''.'' r then Some (a, tl r) else None)"

text \<open>\<open>/^(\d+)\.(\d+)\.(\d+)/\<close>: the three numbers and the rest.\<close>

definition three_numbers :: "string \<Rightarrow> ((string \<times> string \<times> string) \<times> string) option" where
  "three_numbers s =
     (case dotted_number s of
        None \<Rightarrow> None
      | Some (a, r) \<Rightarrow> (case dotted_number r of
            None \<Rightarrow> None
          | Some (b, r) \<Rightarrow> (let c = takeWhile is_digit r
                           in if c = [] then None else Some ((a, b, c), dropWhile is_digit r))))"

definition suffix_char :: "char \<Rightarrow> bool" where
  "suffix_char c \<longleftrightarrow> is_alnum c \<or> c = CHR ''.'' \<or> c = CHR ''-''"

text \<open>\<open>/^v(\d+)\.(\d+)\.(\d+)(?:-([A-Za-z0-9][A-Za-z0-9.-]*))?$/\<close>\<close>

definition tag_match :: "string \<Rightarrow> ((string \<times> string \<times> string) \<times> string) option" where
  "tag_match s =
     (if \<not> starts_with ''v'' s then None
      else case three_numbers (tl s) of
          None \<Rightarrow> None
        | Some (numbers, r) \<Rightarrow>
            if r = [] then Some (numbers, [])
            else if starts_with ''-'' r \<and> tl r \<noteq> [] \<and> is_alnum (hd (tl r)) \<and> list_all suffix_char (tl r)
            then Some (numbers, tl r) else None)"

definition freeneticReleaseTag :: "jsval \<Rightarrow> string" where
  "freeneticReleaseTag v = (let tag = trim (arg_str v) in if tag_match tag \<noteq> None then tag else [])"

definition freeneticReleaseLine :: "jsval \<Rightarrow> string" where
  "freeneticReleaseLine v =
     (case tag_match (freeneticReleaseTag v) of
        Some ((a, b, c), pre) \<Rightarrow> a @ ''.'' @ b | None \<Rightarrow> [])"

record tag_parts =
  tag_major :: jsnum
  tag_minor :: jsnum
  tag_patch :: jsnum
  tag_pre :: string

definition releaseTagParts :: "jsval \<Rightarrow> tag_parts option" where
  "releaseTagParts v =
     (case tag_match (freeneticReleaseTag v) of
        None \<Rightarrow> None
      | Some ((a, b, c), pre) \<Rightarrow> Some \<lparr>tag_major = number_of_str a, tag_minor = number_of_str b,
            tag_patch = number_of_str c, tag_pre = pre\<rparr>)"

text \<open>\<open>a > b\<close> on strings compares code units.\<close>

fun str_less :: "string \<Rightarrow> string \<Rightarrow> bool" where
  "str_less s [] = False"
| "str_less [] (y # ys) = True"
| "str_less (x # xs) (y # ys) = (if x = y then str_less xs ys else cc x < cc y)"

definition compare_part :: "string \<Rightarrow> string \<Rightarrow> int" where
  "compare_part av bv =
     (let an = all_digits av; bn = all_digits bv
      in if an \<and> bn then (if num_less (number_of_str bv) (number_of_str av) then 1 else - 1)
         else if an \<noteq> bn then (if an then - 1 else 1)
         else if str_less bv av then 1 else - 1)"

fun compare_parts :: "string list \<Rightarrow> string list \<Rightarrow> int" where
  "compare_parts [] [] = 0"
| "compare_parts [] (b # bs) = - 1"
| "compare_parts (a # as) [] = 1"
| "compare_parts (a # as) (b # bs) = (if a = b then compare_parts as bs else compare_part a b)"

definition compare_number :: "jsnum \<Rightarrow> jsnum \<Rightarrow> int" where
  "compare_number a b = (if a = b then 0 else if num_less b a then 1 else - 1)"

definition compare_pre :: "string \<Rightarrow> string \<Rightarrow> int" where
  "compare_pre a b =
     (if a = [] \<and> b \<noteq> [] then 1 else if a \<noteq> [] \<and> b = [] then - 1 else if a = b then 0
      else compare_parts (split_on CHR ''.'' a) (split_on CHR ''.'' b))"

definition compareFreeneticReleaseTags :: "jsval \<Rightarrow> jsval \<Rightarrow> int" where
  "compareFreeneticReleaseTags left right =
     (case (releaseTagParts left, releaseTagParts right) of
        (Some a, Some b) \<Rightarrow>
          or_zero (compare_number (tag_major a) (tag_major b))
            (or_zero (compare_number (tag_minor a) (tag_minor b))
              (or_zero (compare_number (tag_patch a) (tag_patch b))
                (compare_pre (tag_pre a) (tag_pre b))))
      | _ \<Rightarrow> 0)"

section \<open>Builds\<close>

definition freeneticBuildVersion :: "jsval \<Rightarrow> jsnum list option" where
  "freeneticBuildVersion v =
     map_option (\<lambda>((a, b, c), _). [number_of_str a, number_of_str b, number_of_str c])
       (three_numbers (map (\<lambda>c. if c = CHR ''~'' then CHR ''.'' else c) (arg_str v)))"

fun compareFreeneticBuilds :: "jsnum list \<Rightarrow> jsnum list \<Rightarrow> int" where
  "compareFreeneticBuilds (l # ls) (r # rs) =
     (if l \<noteq> r then (if num_less r l then 1 else - 1) else compareFreeneticBuilds ls rs)"
| "compareFreeneticBuilds _ _ = 0"

text \<open>\<open>/[.~]([0-9a-f]{7,})(?:-r\d+)?$/i\<close>: the hexadecimal revision before an optional package
  revision.\<close>

definition strip_revision :: "string \<Rightarrow> string" where
  "strip_revision s =
     (let digits = takeWhile is_digit (rev s); r = dropWhile is_digit (rev s)
      in if digits \<noteq> [] \<and> starts_with ''r-'' (map lower_char (take 1 r) @ drop 1 r) then rev (drop 2 r) else s)"

definition freeneticBuildRevision :: "jsval \<Rightarrow> string" where
  "freeneticBuildRevision v =
     (let r = rev (strip_revision (arg_str v)); h = rev (takeWhile is_xdigit r); before = dropWhile is_xdigit r
      in if 7 \<le> length h \<and> (starts_with ''.'' before \<or> starts_with ''~'' before) then take 7 h else [])"

definition freeneticReleaseCodename :: "jsval \<Rightarrow> string" where
  "freeneticReleaseCodename v =
     (let tag = freeneticReleaseTag v
      in if tag = [] \<or> CHR ''-'' \<in> set tag then []
         else (case map_of FREENETIC_RELEASE_CODENAMES (freeneticReleaseLine v) of Some n \<Rightarrow> n | None \<Rightarrow> []))"

definition middle_dot :: string where
  "middle_dot = [CHR '' '', char_of (183 :: nat), CHR '' '']"

definition formatFreeneticVersion :: "jsval list \<Rightarrow> jsval \<Rightarrow> string" where
  "formatFreeneticVersion packages installedRelease =
     (let releaseTag = freeneticReleaseTag installedRelease;
          versioned = filter (\<lambda>pkg. truthy (field pkg ''version'')) packages;
          revisions = map (\<lambda>pkg. freeneticBuildRevision (field pkg ''version'')) versioned
      in if releaseTag \<noteq> [] then releaseTag
         else if versioned = [] then ''Development build''
         else if hd revisions \<noteq> [] \<and> list_all (\<lambda>r. r = hd revisions) revisions
         then FREENETIC_DISPLAY_VERSION @ middle_dot @ hd revisions
         else if list_all (\<lambda>pkg. field pkg ''version'' = field (hd versioned) ''version'') versioned
         then FREENETIC_DISPLAY_VERSION
         else FREENETIC_DISPLAY_VERSION @ middle_dot @ join '' / ''
           (map2 (\<lambda>pkg revision.
              (if field pkg ''name'' = JStr ''luci-theme-freenetic'' then ''theme'' else ''app'') @ '' ''
              @ (if revision \<noteq> [] then revision else to_str (field pkg ''version''))) versioned revisions))"

section \<open>The plan of a release\<close>

datatype release_plan =
    Incompatible string "(string \<times> string list) option"
  | Compatible string string "int option" "string list"

definition asset_names :: "jsval \<Rightarrow> string list" where
  "asset_names release =
     map to_str (filter truthy (map (\<lambda>asset. and_then asset (field asset ''name''))
       (if is_array (field release ''assets'') then elements (field release ''assets'') else [])))"

definition version_text :: "string \<Rightarrow> bool" where
  "version_text s \<longleftrightarrow> s \<noteq> [] \<and> is_digit (hd s)
     \<and> list_all (\<lambda>c. is_alnum c \<or> c = CHR ''.'' \<or> c = CHR ''_'' \<or> c = CHR ''-'') s"

text \<open>\<open>s.slice(a, -b)\<close>\<close>

definition slice_middle :: "nat \<Rightarrow> nat \<Rightarrow> string \<Rightarrow> string" where
  "slice_middle a b s = take (length s - b - a) (drop a s)"

definition build_comparison :: "jsnum list option \<Rightarrow> jsnum list list \<Rightarrow> int option" where
  "build_comparison releaseBuild installedBuilds =
     (case releaseBuild of
        None \<Rightarrow> None
      | Some build \<Rightarrow>
          if installedBuilds = [] then None
          else (let comparisons = map (compareFreeneticBuilds build) installedBuilds
                in Some (if list_ex (\<lambda>v. 0 < v) comparisons then 1
                         else if list_all (\<lambda>v. v = 0) comparisons then 0 else - 1)))"

definition required_assets :: "string \<Rightarrow> string \<Rightarrow> string \<Rightarrow> string list" where
  "required_assets packageManager assetSuffix version =
     (let packageSuffix = (if packageManager = ''apk'' then ''-'' @ assetSuffix @ ''.apk'' else ''-all.ipk'')
      in map (\<lambda>name. name @ ''-'' @ version @ packageSuffix) FREENETIC_RELEASE_PACKAGES
         @ [''fnc-'' @ version @ ''-'' @ assetSuffix @ ''-'' @ (if packageManager = ''apk'' then ''apk'' else ''ipk'')])"

definition installed_builds :: "jsval \<Rightarrow> jsnum list list" where
  "installed_builds installedPackages =
     List.map_filter (\<lambda>pkg. freeneticBuildVersion (field pkg ''version''))
       (filter (\<lambda>pkg. truthy pkg \<and> field pkg ''name'' \<in> JStr ` set FREENETIC_PACKAGE_NAMES)
         (if is_array installedPackages then elements installedPackages else []))"

text \<open>The plan for a target that is known: the assets of the release decide.\<close>

definition asset_plan :: "jsval \<Rightarrow> jsval \<Rightarrow> jsval \<Rightarrow> jsval \<Rightarrow> string \<Rightarrow> string \<Rightarrow> release_plan" where
  "asset_plan tag release updater installedPackages packageManager assetSuffix =
     (let names = asset_names release;
          packageSuffix = (if packageManager = ''apk'' then ''-'' @ assetSuffix @ ''.apk'' else ''-all.ipk'');
          appPrefix = ''luci-app-freenetic-''
      in case find (\<lambda>name. starts_with appPrefix name \<and> ends_with packageSuffix name) names of
           None \<Rightarrow> Incompatible ''assets'' None
         | Some appAsset \<Rightarrow>
             let version = slice_middle (length appPrefix) (length packageSuffix) appAsset;
                 required = required_assets packageManager assetSuffix version;
                 comparison = build_comparison (freeneticBuildVersion (JStr version)) (installed_builds installedPackages);
                 installed = field updater ''installed_release''
             in if \<not> version_text version then Incompatible ''assets'' None
                else if \<not> list_all (\<lambda>name. name \<in> set names) required
                then Incompatible ''assets'' (Some (version, required))
                else Compatible (arg_str tag) version
                  (if comparison = Some 0 \<and> releaseTagParts installed \<noteq> None
                   then Some (compareFreeneticReleaseTags tag installed) else comparison) required)"

definition freeneticReleasePlan :: "jsval \<Rightarrow> jsval \<Rightarrow> jsval \<Rightarrow> release_plan" where
  "freeneticReleasePlan release updater installedPackages =
     (let tag = and_then release (field release ''tag_name'');
          packageManager = to_str (field updater ''package_manager'');
          assetSuffix = to_str (field updater ''asset_suffix'')
      in if tag_match (arg_str tag) = None then Incompatible ''tag'' None
         else if \<not> truthy updater \<or> field updater ''can_update'' \<noteq> JBool True then Incompatible ''updater'' None
         else if packageManager \<notin> {''apk'', ''opkg''}
           \<or> assetSuffix \<notin> {''aarch64_cortex-a53'', ''mipsel_24kc'', ''x86_64''} then Incompatible ''target'' None
         else asset_plan tag release updater installedPackages packageManager assetSuffix)"

section \<open>The releases to choose from\<close>

definition line_text :: "string \<Rightarrow> bool" where
  "line_text s \<longleftrightarrow> (case dotted_number s of Some (a, b) \<Rightarrow> all_digits b | None \<Rightarrow> False)"

definition release_offered :: "string \<Rightarrow> string \<Rightarrow> jsval \<Rightarrow> bool" where
  "release_offered channel line release \<longleftrightarrow> truthy release \<and> \<not> truthy (field release ''draft'')
     \<and> (if channel = ''beta'' then field release ''prerelease'' = JBool True
        else field release ''prerelease'' \<noteq> JBool True)
     \<and> (line = [] \<or> freeneticReleaseLine (field release ''tag_name'') = line)"

definition release_date :: "jsval \<Rightarrow> string" where
  "release_date release =
     to_str (or_else (or_else (field release ''published_at'') (field release ''created_at'')) (JStr []))"

definition compare_candidates ::
    "(string \<Rightarrow> string \<Rightarrow> int) \<Rightarrow> jsval \<times> release_plan \<Rightarrow> jsval \<times> release_plan \<Rightarrow> int" where
  "compare_candidates localeCompare a b =
     or_zero (compareFreeneticReleaseTags (field (fst b) ''tag_name'') (field (fst a) ''tag_name''))
       (localeCompare (release_date (fst b)) (release_date (fst a)))"

definition compatible :: "release_plan \<Rightarrow> bool" where
  "compatible plan = (case plan of Compatible _ _ _ _ \<Rightarrow> True | Incompatible _ _ \<Rightarrow> False)"

definition freeneticReleaseCandidates ::
    "(string \<Rightarrow> string \<Rightarrow> int) \<Rightarrow> jsval \<Rightarrow> jsval \<Rightarrow> jsval \<Rightarrow> jsval \<Rightarrow> jsval \<Rightarrow> (jsval \<times> release_plan) list" where
  "freeneticReleaseCandidates localeCompare releases updater installedPackages channel line =
     (let selectedChannel = (if channel = JStr ''beta'' then ''beta'' else ''stable'');
          selectedLine = (if line_text (arg_str line) then to_str line else [])
      in sort_by (compare_candidates localeCompare)
           (filter (compatible \<circ> snd)
             (map (\<lambda>release. (release, freeneticReleasePlan release updater installedPackages))
               (filter (release_offered selectedChannel selectedLine)
                 (if is_array releases then elements releases else [])))))"

section \<open>Release notes\<close>

definition drop_last_word :: "string \<Rightarrow> string" where
  "drop_last_word s =
     (let r = dropWhile (\<lambda>c. \<not> is_ws c) (rev s) in if r = [] then s else rev (dropWhile is_ws r))"

definition freeneticReleaseNotes :: "jsval \<Rightarrow> jsval \<Rightarrow> string" where
  "freeneticReleaseNotes v limit =
     (let high = (case to_number limit of Num q \<Rightarrow> q | _ \<Rightarrow> 720); notes = trim (unix_lines (arg_str v))
      in if notes = [] then []
         else if of_nat (length notes) \<le> high then notes
         else trim_end (drop_last_word (take (nat \<lfloor>max 0 (high - 1)\<rfloor>) notes)) @ ellipsis)"

section \<open>The installed version\<close>

definition getFreeneticInstalledPackages :: "fs_ops \<Rightarrow> jsval list" where
  "getFreeneticInstalledPackages fs =
     (case fs_exec fs PACKAGE_STATUS_HELPER FREENETIC_PACKAGE_NAMES of
        Inl _ \<Rightarrow> []
      | Inr result \<Rightarrow>
          if truthy result \<and> field result ''ok'' \<noteq> JBool False \<and> truthy (field result ''packages'')
          then map (\<lambda>(name, state). JObj [(''name'', JStr name), (''version'', or_else (field state ''version'') (JStr []))])
                 (filter (\<lambda>(_, state). truthy state \<and> truthy (field state ''installed''))
                   (object_properties (field result ''packages'')))
          else [])"

definition getFreeneticUpdaterStatus :: "fs_ops \<Rightarrow> jsval" where
  "getFreeneticUpdaterStatus fs =
     (case fs_exec fs ''/usr/libexec/freenetic-self-update'' [''status''] of
        Inr result \<Rightarrow> or_else result (JObj [(''can_update'', JBool False)])
      | Inl e \<Rightarrow> JObj [(''can_update'', JBool False), (''error'', JStr (if e \<noteq> [] then e else ''Error''))])"

record update_state =
  us_channel :: jsval
  us_line :: jsval
  us_packages :: "jsval list"
  us_updater :: jsval

text \<open>\<open>option\<close> reads an option of the section \<open>freenetic.updates\<close>.\<close>

definition getFreeneticUpdateState :: "(string \<Rightarrow> jsval) \<Rightarrow> fs_ops \<Rightarrow> update_state" where
  "getFreeneticUpdateState option fs =
     (let updater = getFreeneticUpdaterStatus fs;
          updaterPackages = (if truthy updater \<and> is_array (field updater ''packages'')
                             then elements (field updater ''packages'') else [])
      in \<lparr>us_channel = or_else (option ''channel'') (JStr ''stable''),
          us_line = (if line_text (arg_str (option ''release_line'')) then option ''release_line'' else JStr ''auto''),
          us_packages = (if updaterPackages \<noteq> [] then updaterPackages else getFreeneticInstalledPackages fs),
          us_updater = updater\<rparr>)"

end
