(* ===== verification/Release_Properties.thy ===== *)
theory Release_Properties
  imports Release "HOL-Library.List_Lexorder"
begin

text \<open>
  The order of release tags and the releases that are offered.  The order is consistent on tags
  whose numbers are written without leading zeros in at most 15 digits, where JavaScript numbers
  are exact.
\<close>

section \<open>Numbers without leading zeros\<close>

definition plain_number :: "string \<Rightarrow> bool" where
  "plain_number p \<longleftrightarrow> length p \<le> 15 \<and> (hd p = CHR ''0'' \<longrightarrow> p = ''0'')"

lemma digit_char_val: "is_digit c \<Longrightarrow> digit_char (digit_val c) = c"
proof -
  assume d: "is_digit c"
  then have "digit_val c = cc c - 48" "cc c - 48 < 10" by (auto simp: digit_val_def is_digit_def)
  then have "digit_char (digit_val c) = char_of (cc c)" by (simp add: digit_char_def)
  then show ?thesis by (simp add: cc_def)
qed

lemma digit_zero: "is_digit c \<Longrightarrow> digit_val c = 0 \<Longrightarrow> c = CHR ''0''"
  by (auto simp: digit_val_def is_digit_def cc_inj [symmetric]) (simp add: cc_def)

lemma dec_num_val:
  assumes "all_digits s" "hd s = CHR ''0'' \<longrightarrow> s = ''0''"
  shows "dec (num_val 10 s) = s \<and> (s \<noteq> ''0'' \<longrightarrow> 1 \<le> num_val 10 s)"
  using assms
proof (induction s rule: rev_induct)
  case (snoc c s)
  have c: "is_digit c" using snoc.prems(1) by (simp add: all_digits_def)
  then have v: "0 \<le> digit_val c" "digit_val c < 10" using digit_val_digit by fastforce+
  show ?case
  proof (cases "s = []")
    case True
    have "c \<noteq> CHR ''0'' \<longrightarrow> 1 \<le> digit_val c" using v digit_zero [OF c] by fastforce
    then show ?thesis
      using True v digit_char_val [OF c] by (simp add: num_val_def base_str.simps [of 10 "digit_val c"])
  next
    case False
    then have s: "all_digits s" using snoc.prems(1) by (simp add: all_digits_def)
    have "hd s \<noteq> CHR ''0''" using snoc.prems(2) False by (cases s) auto
    then have IH: "dec (num_val 10 s) = s" "1 \<le> num_val 10 s" using snoc.IH [OF s] by (cases "s = ''0''"; simp)+
    have "\<not> num_val 10 s * 10 + digit_val c < 10" "(num_val 10 s * 10 + digit_val c) div 10 = num_val 10 s"
      "(num_val 10 s * 10 + digit_val c) mod 10 = digit_val c" using IH(2) v by auto
    then have "dec (num_val 10 (s @ [c])) = s @ [c]"
      unfolding num_val_snoc using IH(1) digit_char_val [OF c]
      by (subst base_str.simps) simp
    then show ?thesis using IH(2) v by (simp add: num_val_snoc)
  qed
qed (simp add: all_digits_def)

lemma number_of_plain: "all_digits p \<Longrightarrow> length p \<le> 15 \<Longrightarrow> number_of_str p = num_of_int (num_val 10 p)"
  by (intro number_of_digits) auto

section \<open>Parts of a prerelease\<close>

lemma map_cc_inj: "map cc a = map cc b \<longleftrightarrow> a = b"
  by (intro inj_map_eq_map injI) (simp add: cc_inj)

lemma str_less_lex: "str_less a b \<longleftrightarrow> map cc a < map cc b"
  by (induction a b rule: str_less.induct) (auto simp: cc_inj)

definition canonical_part :: "string \<Rightarrow> bool" where
  "canonical_part p \<longleftrightarrow> (all_digits p \<longrightarrow> plain_number p)"

definition part_cmp :: "string \<Rightarrow> string \<Rightarrow> int" where
  "part_cmp a b = (if a = b then 0 else compare_part a b)"

definition part_rank :: "string \<Rightarrow> int" where
  "part_rank p = (if all_digits p then 0 else 1)"

definition part_val :: "string \<Rightarrow> int" where
  "part_val p = (if all_digits p then num_val 10 p else 0)"

lemma plain_inj:
  "all_digits a \<Longrightarrow> plain_number a \<Longrightarrow> all_digits b \<Longrightarrow> plain_number b \<Longrightarrow> num_val 10 a = num_val 10 b \<Longrightarrow> a = b"
  by (metis dec_num_val plain_number_def)

lemma part_cmp_keys:
  assumes "canonical_part a" "canonical_part b"
  shows "part_cmp a b = or_zero (sign_of (part_rank a) (part_rank b))
    (or_zero (sign_of (part_val a) (part_val b)) (sign_of (map cc a) (map cc b)))"
proof (cases "a = b")
  case True
  then show ?thesis by (simp add: part_cmp_def sign_of_def or_zero_def)
next
  case False
  then have str: "sign_of (map cc a) (map cc b) = (if str_less b a then 1 else - 1)"
    using map_cc_inj [of a b] by (auto simp: sign_of_def str_less_lex)
  show ?thesis
  proof (cases "all_digits a \<and> all_digits b")
    case True
    then have n: "plain_number a" "plain_number b" using assms by (simp_all add: canonical_part_def)
    then have "number_of_str a = num_of_int (num_val 10 a)" "number_of_str b = num_of_int (num_val 10 b)"
      using True by (simp_all add: plain_number_def number_of_plain)
    moreover have "num_val 10 a \<noteq> num_val 10 b" using plain_inj True n False by blast
    ultimately show ?thesis
      using True False by (auto simp: part_cmp_def compare_part_def part_rank_def part_val_def sign_of_def or_zero_def)
  next
    case no: False
    then show ?thesis
      using False str by (auto simp: part_cmp_def compare_part_def part_rank_def part_val_def sign_of_def or_zero_def Let_def)
  qed
qed

interpretation part: comparison canonical_part part_cmp
proof (rule comparison_cong)
  show "comparison canonical_part (\<lambda>a b. or_zero (sign_of (part_rank a) (part_rank b))
      (or_zero (sign_of (part_val a) (part_val b)) (sign_of (map cc a) (map cc b))))"
    by (intro comparison_lex comparison_sign)
qed (rule part_cmp_keys)

lemma part_cmp_zero [simp]: "part_cmp a b = 0 \<longleftrightarrow> a = b"
  by (auto simp: part_cmp_def compare_part_def Let_def)

lemma part_cmp_same [simp]: "part_cmp a a = 0"
  by simp

lemma compare_parts_Cons:
  "compare_parts (a # as) (b # bs) = or_zero (part_cmp a b) (compare_parts as bs)"
  using part_cmp_zero [of a b] by (auto simp: or_zero_def part_cmp_def)

declare compare_parts.simps(4) [simp del]
declare compare_parts_Cons [simp]

interpretation parts: comparison "list_all canonical_part" compare_parts
proof
  fix as bs :: "string list"
  assume "list_all canonical_part as" "list_all canonical_part bs"
  then show "compare_parts bs as = - compare_parts as bs"
  proof (induction as bs rule: compare_parts.induct)
    case (4 a as b bs)
    then show ?case using part.anti [of a b] by (cases "a = b") (auto simp: or_zero_def)
  qed simp_all
next
  fix as bs cs :: "string list"
  assume "list_all canonical_part as" "list_all canonical_part bs" "list_all canonical_part cs"
    "compare_parts as bs \<le> 0" "compare_parts bs cs \<le> 0"
  then show "compare_parts as cs \<le> 0"
  proof (induction as arbitrary: bs cs)
    case Nil
    then show ?case by (cases cs) auto
  next
    case (Cons a as)
    obtain b bs' where bs: "bs = b # bs'" using Cons.prems(4) by (cases bs) auto
    obtain c cs' where cs: "cs = c # cs'" using Cons.prems(5) bs by (cases cs) auto
    have P: "canonical_part a" "canonical_part b" "canonical_part c" using Cons.prems bs cs by auto
    have le: "part_cmp a b \<le> 0" "part_cmp b c \<le> 0"
      using Cons.prems(4,5) unfolding bs cs by (auto simp: or_zero_def split: if_splits)
    then have "part_cmp a c \<le> 0" using part.trans P by blast
    moreover have "compare_parts as cs' \<le> 0" if "a = c"
    proof -
      have "part_cmp a c = 0" using that by simp
      then have "part_cmp a b = 0" "part_cmp b c = 0" using part.trans_less [OF P le] by blast+
      then have "compare_parts as bs' \<le> 0" "compare_parts bs' cs' \<le> 0"
        using Cons.prems(4,5) unfolding bs cs by (simp_all add: or_zero_def)
      moreover have "list_all canonical_part as" "list_all canonical_part bs'" "list_all canonical_part cs'"
        using Cons.prems(1-3) unfolding bs cs by simp_all
      ultimately show ?thesis by (intro Cons.IH [of bs' cs'])
    qed
    ultimately show ?case unfolding cs by (auto simp: or_zero_def)
  qed
qed

lemma compare_parts_zero: "compare_parts as bs = 0 \<longleftrightarrow> as = bs"
  by (induction as bs rule: compare_parts.induct) (auto simp: or_zero_def split: if_splits)

section \<open>Tags\<close>

definition canonical_pre :: "string \<Rightarrow> bool" where
  "canonical_pre pre \<longleftrightarrow> list_all canonical_part (split_on CHR ''.'' pre)"

definition pre_rank :: "string \<Rightarrow> int" where
  "pre_rank pre = (if pre = [] then 1 else 0)"

lemma compare_pre_keys:
  "compare_pre a b = or_zero (sign_of (pre_rank a) (pre_rank b))
     (compare_parts (split_on CHR ''.'' a) (split_on CHR ''.'' b))"
  using compare_parts_zero by (auto simp: compare_pre_def or_zero_def sign_of_def pre_rank_def)

interpretation pre: comparison canonical_pre compare_pre
proof (rule comparison_cong)
  have "comparison canonical_pre (\<lambda>a b. compare_parts (split_on CHR ''.'' a) (split_on CHR ''.'' b))"
    by (rule comparison_map [OF parts.comparison_axioms]) (simp add: canonical_pre_def)
  then show "comparison canonical_pre (\<lambda>a b. or_zero (sign_of (pre_rank a) (pre_rank b))
      (compare_parts (split_on CHR ''.'' a) (split_on CHR ''.'' b)))"
    by (intro comparison_lex comparison_sign)
qed (rule compare_pre_keys)

text \<open>A tag whose numbers are exact.\<close>

definition canonical_tag :: "jsval \<Rightarrow> bool" where
  "canonical_tag v \<longleftrightarrow> (case tag_match (freeneticReleaseTag v) of
       None \<Rightarrow> False
     | Some ((a, b, c), pre) \<Rightarrow> length a \<le> 15 \<and> length b \<le> 15 \<and> length c \<le> 15 \<and> canonical_pre pre)"

definition tag_number :: "jsval \<Rightarrow> (tag_parts \<Rightarrow> jsnum) \<Rightarrow> int" where
  "tag_number v part = (case releaseTagParts v of None \<Rightarrow> 0 | Some p \<Rightarrow> int_of (part p))"

definition tag_suffix :: "jsval \<Rightarrow> string" where
  "tag_suffix v = (case releaseTagParts v of None \<Rightarrow> [] | Some p \<Rightarrow> tag_pre p)"

lemma three_numbers_digits:
  "three_numbers s = Some ((a, b, c), r) \<Longrightarrow> all_digits a \<and> all_digits b \<and> all_digits c"
  by (auto simp: three_numbers_def dotted_number_def all_digits_def list_all_iff Let_def
      split: if_splits option.splits dest: set_takeWhileD)

lemma tag_match_digits:
  "tag_match s = Some ((a, b, c), pre) \<Longrightarrow> all_digits a \<and> all_digits b \<and> all_digits c"
  by (auto simp: tag_match_def split: if_splits option.splits dest: three_numbers_digits)

lemma canonical_tagE:
  assumes "canonical_tag v"
  obtains p x y z where "releaseTagParts v = Some p" "tag_major p = num_of_int x" "tag_minor p = num_of_int y"
    "tag_patch p = num_of_int z" "canonical_pre (tag_pre p)"
    "tag_number v tag_major = x" "tag_number v tag_minor = y" "tag_number v tag_patch = z" "tag_suffix v = tag_pre p"
proof -
  obtain a b c pre where m: "tag_match (freeneticReleaseTag v) = Some ((a, b, c), pre)"
    and c: "length a \<le> 15" "length b \<le> 15" "length c \<le> 15" "canonical_pre pre"
    using assms by (auto simp: canonical_tag_def split: option.splits)
  have n: "number_of_str a = num_of_int (num_val 10 a)" "number_of_str b = num_of_int (num_val 10 b)"
    "number_of_str c = num_of_int (num_val 10 c)"
    using tag_match_digits [OF m] c by (simp_all add: number_of_plain)
  show thesis
  proof (rule that)
    show "releaseTagParts v = Some \<lparr>tag_major = num_of_int (num_val 10 a), tag_minor = num_of_int (num_val 10 b),
        tag_patch = num_of_int (num_val 10 c), tag_pre = pre\<rparr>"
      by (simp add: releaseTagParts_def m n)
  qed (simp_all add: releaseTagParts_def m n tag_number_def tag_suffix_def c(4))
qed

lemma compare_number_int: "compare_number (num_of_int x) (num_of_int y) = sign_of x y"
  by (auto simp: compare_number_def sign_of_def num_of_int_def num_less_def num_le_def)

lemma compare_tags_keys:
  assumes "canonical_tag l" "canonical_tag r"
  shows "compareFreeneticReleaseTags l r =
    or_zero (sign_of (tag_number l tag_major) (tag_number r tag_major))
      (or_zero (sign_of (tag_number l tag_minor) (tag_number r tag_minor))
        (or_zero (sign_of (tag_number l tag_patch) (tag_number r tag_patch))
          (compare_pre (tag_suffix l) (tag_suffix r))))"
  by (rule canonical_tagE [OF assms(1)], rule canonical_tagE [OF assms(2)])
    (simp add: compareFreeneticReleaseTags_def compare_number_int)

interpretation tags: comparison canonical_tag compareFreeneticReleaseTags
proof (rule comparison_cong)
  have "comparison canonical_tag (\<lambda>l r. compare_pre (tag_suffix l) (tag_suffix r))"
    by (rule comparison_map [OF pre.comparison_axioms]) (erule canonical_tagE, simp)
  then show "comparison canonical_tag (\<lambda>l r.
    or_zero (sign_of (tag_number l tag_major) (tag_number r tag_major))
      (or_zero (sign_of (tag_number l tag_minor) (tag_number r tag_minor))
        (or_zero (sign_of (tag_number l tag_patch) (tag_number r tag_patch))
          (compare_pre (tag_suffix l) (tag_suffix r)))))"
    by (intro comparison_lex comparison_sign)
qed (rule compare_tags_keys)

text \<open>Tags that differ in the prerelease only.\<close>

lemma compare_same_numbers:
  assumes "tag_match (freeneticReleaseTag l) = Some (n, a)" "tag_match (freeneticReleaseTag r) = Some (n, b)"
  shows "compareFreeneticReleaseTags l r = compare_pre a b"
proof -
  obtain x y z where "n = (x, y, z)" by (cases n)
  then show ?thesis
    using assms by (simp add: compareFreeneticReleaseTags_def releaseTagParts_def compare_number_def or_zero_def)
qed

lemma compare_pre_zero: "compare_pre a b = 0 \<longleftrightarrow> a = b"
proof -
  have "split_on CHR ''.'' a = split_on CHR ''.'' b \<longleftrightarrow> a = b" by (metis join_split)
  then show ?thesis by (auto simp: compare_pre_def compare_parts_zero)
qed

lemma compare_tags_zero:
  assumes "canonical_tag l" "canonical_tag r" "compareFreeneticReleaseTags l r = 0"
  shows "releaseTagParts l = releaseTagParts r"
proof (rule canonical_tagE [OF assms(1)], rule canonical_tagE [OF assms(2)])
  fix p x y z p' x' y' z'
  assume l: "releaseTagParts l = Some p" "tag_major p = num_of_int x" "tag_minor p = num_of_int y" "tag_patch p = num_of_int z"
    and r: "releaseTagParts r = Some p'" "tag_major p' = num_of_int x'" "tag_minor p' = num_of_int y'" "tag_patch p' = num_of_int z'"
  have "or_zero (sign_of x x') (or_zero (sign_of y y') (or_zero (sign_of z z') (compare_pre (tag_pre p) (tag_pre p')))) = 0"
    using assms(3) l r by (simp add: compareFreeneticReleaseTags_def compare_number_int)
  then have "x = x'" "y = y'" "z = z'" "tag_pre p = tag_pre p'"
    by (auto simp: or_zero_def sign_of_def compare_pre_zero split: if_splits)
  then have "p = p'" using l r by (intro tag_parts.equality) simp_all
  then show ?thesis using l r by simp
qed

section \<open>Properties\<close>

text \<open>C17: well-formed release tags with at most 15 digits in each number, and with prereleases whose numeric
  parts have at most 15 digits and no leading zero (\<open>canonical_tag\<close>), are totally ordered: comparing in the other
  direction gives the opposite sign, the order is transitive, and only tags with the same numbers and the same
  prerelease are equal.  Beyond 15 digits numbers are no longer exact, and with a leading zero the order is lost
  (\<open>leading_zero_order\<close>).\<close>

theorem release_order:
  assumes "canonical_tag a" "canonical_tag b" "canonical_tag c"
  shows "compareFreeneticReleaseTags b a = - compareFreeneticReleaseTags a b
    \<and> (compareFreeneticReleaseTags a b \<le> 0 \<and> compareFreeneticReleaseTags b c \<le> 0
        \<longrightarrow> compareFreeneticReleaseTags a c \<le> 0)
    \<and> (compareFreeneticReleaseTags a b = 0 \<longleftrightarrow> releaseTagParts a = releaseTagParts b)"
proof -
  have "compareFreeneticReleaseTags a b = 0" if "releaseTagParts a = releaseTagParts b"
    using that tags.refl [OF assms(1)] by (simp add: compareFreeneticReleaseTags_def)
  then have "compareFreeneticReleaseTags a b = 0 \<longleftrightarrow> releaseTagParts a = releaseTagParts b"
    using compare_tags_zero [OF assms(1,2)] by (intro iffI)
  moreover have "compareFreeneticReleaseTags b a = - compareFreeneticReleaseTags a b"
    by (rule tags.anti [OF assms(1,2)])
  moreover have "compareFreeneticReleaseTags a b \<le> 0 \<and> compareFreeneticReleaseTags b c \<le> 0
      \<longrightarrow> compareFreeneticReleaseTags a c \<le> 0"
    using tags.trans [OF assms] by (intro impI) (elim conjE)
  ultimately show ?thesis by (intro conjI)
qed

theorem release_order_witness:
  "compareFreeneticReleaseTags (JStr ''v0.3.1-rc.2'') (JStr ''v0.3.1-rc.10'') = - 1
   \<and> compareFreeneticReleaseTags (JStr ''v0.3.1-rc.10'') (JStr ''v0.3.1-rc.2'') = 1"
proof -
  have ok: "canonical_tag (JStr ''v0.3.1-rc.2'')" "canonical_tag (JStr ''v0.3.1-rc.10'')" by code_simp+
  have "tag_match (freeneticReleaseTag (JStr ''v0.3.1-rc.2'')) = Some ((''0'', ''3'', ''1''), ''rc.2'')"
    "tag_match (freeneticReleaseTag (JStr ''v0.3.1-rc.10'')) = Some ((''0'', ''3'', ''1''), ''rc.10'')"
    "compare_pre ''rc.2'' ''rc.10'' = - 1" by code_simp+
  then have less: "compareFreeneticReleaseTags (JStr ''v0.3.1-rc.2'') (JStr ''v0.3.1-rc.10'') = - 1"
    by (simp only: compare_same_numbers)
  have "compareFreeneticReleaseTags (JStr ''v0.3.1-rc.10'') (JStr ''v0.3.1-rc.2'')
      = - compareFreeneticReleaseTags (JStr ''v0.3.1-rc.2'') (JStr ''v0.3.1-rc.10'')"
    by (rule release_order [OF ok ok(1), THEN conjunct1])
  then show ?thesis unfolding less by (intro conjI) (rule refl, simp only: minus_minus)
qed

text \<open>A numeric part with a leading zero breaks the order: each of these two tags counts as older
  than the other.\<close>

lemma leading_zero_order:
  "compareFreeneticReleaseTags (JStr ''v1.0.0-1'') (JStr ''v1.0.0-01'') = - 1
   \<and> compareFreeneticReleaseTags (JStr ''v1.0.0-01'') (JStr ''v1.0.0-1'') = - 1"
proof -
  have "tag_match (freeneticReleaseTag (JStr ''v1.0.0-1'')) = Some ((''1'', ''0'', ''0''), ''1'')"
    "tag_match (freeneticReleaseTag (JStr ''v1.0.0-01'')) = Some ((''1'', ''0'', ''0''), ''01'')"
    by code_simp+
  moreover have "compare_pre ''1'' ''01'' = - 1" "compare_pre ''01'' ''1'' = - 1"
    by (simp_all add: compare_pre_def part_cmp_def compare_part_def number_of_digits all_digits_def is_digit_def
        cc_def num_val_def digit_val_def or_zero_def)
  ultimately show ?thesis by (simp only: compare_same_numbers simp_thms)
qed

definition candidate_tag :: "jsval \<times> release_plan \<Rightarrow> jsval" where
  "candidate_tag c = field (fst c) ''tag_name''"

interpretation candidates: comparison "\<lambda>c. canonical_tag (candidate_tag c)"
    "\<lambda>a b. compareFreeneticReleaseTags (candidate_tag b) (candidate_tag a)"
  by (rule comparison_map [OF comparison_flip [OF tags.comparison_axioms]])

lemma asset_plan_present:
  assumes "asset_plan tag release updater installed manager suffix = Compatible t version cmp required"
  shows "required = required_assets manager suffix version \<and> set required \<subseteq> set (asset_names release) \<and> t = arg_str tag"
proof -
  let ?packageSuffix = "if manager = ''apk'' then ''-'' @ suffix @ ''.apk'' else ''-all.ipk''"
  obtain app where app: "find (\<lambda>name. starts_with ''luci-app-freenetic-'' name \<and> ends_with ?packageSuffix name) (asset_names release) = Some app"
    using assms unfolding asset_plan_def Let_def by (cases "find (\<lambda>name. starts_with ''luci-app-freenetic-'' name \<and> ends_with ?packageSuffix name) (asset_names release)") simp_all
  define v where "v = slice_middle (length ''luci-app-freenetic-'') (length ?packageSuffix) app"
  have eq: "asset_plan tag release updater installed manager suffix =
      (if \<not> version_text v then Incompatible ''assets'' None
       else if \<not> list_all (\<lambda>name. name \<in> set (asset_names release)) (required_assets manager suffix v)
       then Incompatible ''assets'' (Some (v, required_assets manager suffix v))
       else Compatible (arg_str tag) v
         (if build_comparison (freeneticBuildVersion (JStr v)) (installed_builds installed) = Some 0
             \<and> releaseTagParts (field updater ''installed_release'') \<noteq> None
          then Some (compareFreeneticReleaseTags tag (field updater ''installed_release''))
          else build_comparison (freeneticBuildVersion (JStr v)) (installed_builds installed))
         (required_assets manager suffix v))"
    unfolding asset_plan_def Let_def app option.case v_def by (rule refl)
  show ?thesis
    using assms unfolding eq by (auto simp: list_all_iff split: if_split_asm)
qed

lemma required_present:
  assumes "freeneticReleasePlan release updater installed = Compatible tag version cmp required"
  shows "set required \<subseteq> set (asset_names release) \<and> length required = 5 \<and> tag = arg_str (field release ''tag_name'')
    \<and> field updater ''can_update'' = JBool True"
proof -
  let ?tag = "and_then release (field release ''tag_name'')"
  have plan: "asset_plan ?tag release updater installed (to_str (field updater ''package_manager''))
      (to_str (field updater ''asset_suffix'')) = Compatible tag version cmp required"
    and update: "field updater ''can_update'' = JBool True" and some: "tag_match (arg_str ?tag) \<noteq> None"
    using assms unfolding freeneticReleasePlan_def Let_def by (simp_all split: if_split_asm)
  have "truthy release"
  proof (rule ccontr)
    assume "\<not> truthy release"
    then have "arg_str ?tag = []" by (simp add: and_then_def arg_str_def or_else_def)
    then show False using some by (simp add: tag_match_def)
  qed
  then have "?tag = field release ''tag_name''" by (simp add: and_then_def)
  moreover have "length (required_assets m s v) = 5" for m s v
    by (simp add: required_assets_def FREENETIC_RELEASE_PACKAGES_def Let_def)
  ultimately show ?thesis using asset_plan_present [OF plan] update by auto
qed

text \<open>Every release that is offered is complete for this router (the four packages and the
  \<open>fnc\<close> binary of one build are among its assets) and belongs to the selected channel; the offers
  are exactly the suitable releases, newest tag first.\<close>

theorem release_candidates:
  fixes localeCompare releases updater installed channel line
  defines "cs \<equiv> freeneticReleaseCandidates localeCompare (JArr releases) updater installed channel line"
  assumes "list_all (\<lambda>r. canonical_tag (field r ''tag_name'')) releases"
  shows "mset (map fst cs) = mset (filter (\<lambda>r. compatible (freeneticReleasePlan r updater installed)
        \<and> release_offered (if channel = JStr ''beta'' then ''beta'' else ''stable'')
            (if line_text (arg_str line) then to_str line else []) r) releases)
    \<and> sorted_wrt (\<lambda>a b. 0 \<le> compareFreeneticReleaseTags (candidate_tag a) (candidate_tag b)) cs
    \<and> list_all (\<lambda>(r, plan). case plan of
          Compatible tag version cmp required \<Rightarrow> set required \<subseteq> set (asset_names r) \<and> length required = 5
            \<and> tag = arg_str (field r ''tag_name'')
        | Incompatible _ _ \<Rightarrow> False) cs"
proof -
  define plan where "plan r = freeneticReleasePlan r updater installed" for r
  define ok where "ok = release_offered (if channel = JStr ''beta'' then ''beta'' else ''stable'')
      (if line_text (arg_str line) then to_str line else [])"
  define xs where "xs = filter (compatible \<circ> snd) (map (\<lambda>r. (r, plan r)) (filter ok releases))"
  have cs: "cs = sort_by (\<lambda>a b. or_zero (compareFreeneticReleaseTags (candidate_tag b) (candidate_tag a))
      (localeCompare (release_date (fst b)) (release_date (fst a)))) xs"
    unfolding cs_def freeneticReleaseCandidates_def xs_def ok_def plan_def compare_candidates_def candidate_tag_def
    by (simp add: is_array_def elements_def Let_def)
  have canonical: "\<forall>x \<in> set xs. canonical_tag (candidate_tag x)"
    using assms(2) by (auto simp: xs_def candidate_tag_def list_all_iff)
  have "sorted_wrt (\<lambda>a b. compareFreeneticReleaseTags (candidate_tag b) (candidate_tag a) \<le> 0) cs"
    unfolding cs by (rule candidates.sort_sorted [OF canonical])
  then have sorted: "sorted_wrt (\<lambda>a b. 0 \<le> compareFreeneticReleaseTags (candidate_tag a) (candidate_tag b)) cs"
  proof (rule sorted_wrt_mono_rel [rotated])
    fix x y
    assume "x \<in> set cs" "y \<in> set cs"
      and le: "compareFreeneticReleaseTags (candidate_tag y) (candidate_tag x) \<le> 0"
    then have "canonical_tag (candidate_tag x)" "canonical_tag (candidate_tag y)" using canonical cs by simp_all
    from tags.anti [OF this] show "0 \<le> compareFreeneticReleaseTags (candidate_tag x) (candidate_tag y)" using le by linarith
  qed
  have "map fst (filter (compatible \<circ> snd) (map (\<lambda>r. (r, plan r)) rs)) = filter (\<lambda>r. compatible (plan r)) rs" for rs
    by (induction rs) simp_all
  then have "map fst xs = filter (\<lambda>r. compatible (plan r) \<and> ok r) releases"
    unfolding xs_def by (simp add: conj_commute)
  then have mset: "mset (map fst cs) = mset (filter (\<lambda>r. compatible (plan r) \<and> ok r) releases)"
    unfolding cs mset_map mset_sort_by by (simp only: mset_map [symmetric])
  have "case p of Compatible tag version cmp required \<Rightarrow> set required \<subseteq> set (asset_names r) \<and> length required = 5
        \<and> tag = arg_str (field r ''tag_name'') | Incompatible _ _ \<Rightarrow> False" if "(r, p) \<in> set cs" for r p
  proof -
    have p: "freeneticReleasePlan r updater installed = p" and c: "compatible p"
      using that by (auto simp: cs xs_def plan_def)
    show ?thesis
    proof (cases p)
      case (Compatible tag version cmp required)
      show ?thesis using required_present [OF p [unfolded Compatible]] by (simp add: Compatible)
    qed (use c in \<open>simp add: compatible_def\<close>)
  qed
  then have "list_all (\<lambda>(r, p). case p of Compatible tag version cmp required \<Rightarrow> set required \<subseteq> set (asset_names r)
        \<and> length required = 5 \<and> tag = arg_str (field r ''tag_name'') | Incompatible _ _ \<Rightarrow> False) cs"
    by (auto simp: list_all_iff)
  then show ?thesis using mset sorted unfolding plan_def ok_def by blast
qed

text \<open>Two complete releases of one line and an updater for them.\<close>

definition sample_release :: "string \<Rightarrow> string \<Rightarrow> jsval" where
  "sample_release tag version = JObj [(''tag_name'', JStr tag), (''assets'',
     JArr (map (\<lambda>name. JObj [(''name'', JStr name)]) (required_assets ''opkg'' ''x86_64'' version)))]"

definition sample_updater :: jsval where
  "sample_updater = JObj [(''can_update'', JBool True), (''package_manager'', JStr ''opkg''), (''asset_suffix'', JStr ''x86_64'')]"

theorem release_candidates_witness:
  "length (freeneticReleaseCandidates (\<lambda>_ _. 0)
     (JArr [sample_release ''v0.3.9'' ''0.3.9'', sample_release ''v0.3.10'' ''0.3.10'']) sample_updater JNull JNull (JStr ''0.3'')) = 2"
  (is "length ?cs = 2")
proof -
  let ?rs = "[sample_release ''v0.3.9'' ''0.3.9'', sample_release ''v0.3.10'' ''0.3.10'']"
  have tags: "list_all (\<lambda>r. canonical_tag (field r ''tag_name'')) ?rs" by code_simp
  have ok: "filter (\<lambda>r. compatible (freeneticReleasePlan r sample_updater JNull)
      \<and> release_offered (if JNull = JStr ''beta'' then ''beta'' else ''stable'')
          (if line_text (arg_str (JStr ''0.3'')) then to_str (JStr ''0.3'') else []) r) ?rs = ?rs"
  proof -
    have "list_all (\<lambda>r. compatible (freeneticReleasePlan r sample_updater JNull)
      \<and> release_offered (if JNull = JStr ''beta'' then ''beta'' else ''stable'')
          (if line_text (arg_str (JStr ''0.3'')) then to_str (JStr ''0.3'') else []) r) ?rs" by code_simp
    then show ?thesis by (intro filter_True) (simp only: list_all_iff)
  qed
  have "mset (map fst ?cs) = mset ?rs"
    using release_candidates [OF tags, where channel = JNull and line = "JStr ''0.3''" and updater = sample_updater
        and installed = JNull and localeCompare = "\<lambda>_ _. 0"]
    unfolding ok by (elim conjE)
  then have "length (map fst ?cs) = length ?rs" by (rule mset_eq_length)
  then show ?thesis by simp
qed

end
