(* ===== verification/Dashboard.thy ===== *)
theory Dashboard
  imports Release
begin

text \<open>
  The data of the dashboard (the second part of \<open>freenetic-dashboard-data.js\<close>): the uplinks behind
  the masquerading zones of the firewall, Wi-Fi radios, the neighbour table, the clients of the home
  and guest networks and counters read from files of the kernel.  A failed call of \<open>ubus\<close> is \<open>Inl\<close>
  and every getter has a default for it.  An answer is never null: \<open>decodeReply\<close> replaces it.
\<close>

section \<open>Reading the router\<close>

text \<open>\<open>ubusCall(...).then(r => f r).catch(() => d)\<close>\<close>

definition call_or :: "ubus \<Rightarrow> string \<Rightarrow> string \<Rightarrow> jsval \<Rightarrow> (jsval \<Rightarrow> 'a) \<Rightarrow> 'a \<Rightarrow> 'a" where
  "call_or ubusCall object method params f d =
     (case ubusCall object method params of Inl _ \<Rightarrow> d | Inr r \<Rightarrow> if nullish r then d else f r)"

definition upperString :: "jsval \<Rightarrow> string" where
  "upperString v0 =
     (let v = (if is_array v0 then (case elements v0 of [] \<Rightarrow> JUndef | x # _ \<Rightarrow> x) else v0)
      in if is_string v then upper (trim (to_str v)) else [])"

definition config_values :: "ubus \<Rightarrow> string \<Rightarrow> jsval" where
  "config_values ubusCall config = call_or ubusCall ''uci'' ''get'' (JObj [(''config'', JStr config)])
     (\<lambda>r. or_else (field r ''values'') (JObj [])) (JObj [])"

definition getFirewallConfig :: "ubus \<Rightarrow> jsval" where
  "getFirewallConfig ubusCall = config_values ubusCall ''firewall''"

definition getNetworkConfig :: "ubus \<Rightarrow> jsval" where
  "getNetworkConfig ubusCall = config_values ubusCall ''network''"

definition getDhcpConfig :: "ubus \<Rightarrow> jsval" where
  "getDhcpConfig ubusCall = config_values ubusCall ''dhcp''"

definition result_list :: "string \<Rightarrow> jsval \<Rightarrow> jsval list" where
  "result_list k r = elements (or_else (field r k) (JArr []))"

definition getInterfaceDump :: "ubus \<Rightarrow> jsval list" where
  "getInterfaceDump ubusCall =
     call_or ubusCall ''network.interface'' ''dump'' JUndef (result_list ''interface'') []"

definition getPorts :: "ubus \<Rightarrow> jsval list" where
  "getPorts ubusCall = call_or ubusCall ''luci'' ''getBuiltinEthernetPorts'' JUndef (result_list ''result'') []"

definition getIwinfoDevices :: "ubus \<Rightarrow> jsval list" where
  "getIwinfoDevices ubusCall = call_or ubusCall ''iwinfo'' ''devices'' JUndef (result_list ''devices'') []"

definition getConntrack :: "ubus \<Rightarrow> jsval list" where
  "getConntrack ubusCall = call_or ubusCall ''luci'' ''getConntrackList'' JUndef (result_list ''result'') []"

definition getDhcpLeases :: "ubus \<Rightarrow> jsval list" where
  "getDhcpLeases ubusCall = call_or ubusCall ''luci-rpc'' ''getDHCPLeases'' JUndef (result_list ''dhcp_leases'') []"

definition getSystemBoard :: "ubus \<Rightarrow> jsval" where
  "getSystemBoard ubusCall = (case ubusCall ''system'' ''board'' JUndef of Inr r \<Rightarrow> r | Inl _ \<Rightarrow> JObj [])"

definition getSystemInfo :: "ubus \<Rightarrow> jsval" where
  "getSystemInfo ubusCall = (case ubusCall ''system'' ''info'' JUndef of Inr r \<Rightarrow> r | Inl _ \<Rightarrow> JObj [])"

definition getWirelessStatus :: "ubus \<Rightarrow> jsval" where
  "getWirelessStatus ubusCall =
     (case ubusCall ''network.wireless'' ''status'' JUndef of Inr r \<Rightarrow> r | Inl _ \<Rightarrow> JObj [])"

definition getSysupgradeConfig :: "ubus \<Rightarrow> jsval" where
  "getSysupgradeConfig ubusCall =
     call_or ubusCall ''uci'' ''get'' (JObj [(''config'', JStr ''attendedsysupgrade'')])
       (\<lambda>r. or_else (field (or_else (field r ''values'') (JObj [])) ''client'') JNull) JNull"

text \<open>The first entry of an address list, and the address in it.\<close>

definition first_address :: "jsval \<Rightarrow> jsval" where
  "first_address r =
     (case elements (or_else (field r ''ipv4-address'') (JArr [])) of [] \<Rightarrow> JUndef | a # _ \<Rightarrow> a)"

record lan_info =
  lan_address :: jsval
  lan_mask :: jsval

definition getLanInfo :: "ubus \<Rightarrow> lan_info option" where
  "getLanInfo ubusCall =
     call_or ubusCall ''network.interface'' ''status'' (JObj [(''interface'', JStr ''lan'')])
       (\<lambda>r. let addr = first_address r
            in if truthy addr then Some \<lparr>lan_address = field addr ''address'', lan_mask = field addr ''mask''\<rparr> else None)
       None"

record interface_info =
  ii_up :: bool
  ii_address :: jsval
  ii_mask :: jsval
  ii_ipv6 :: "jsval list"

definition getInterfaceInfo :: "ubus \<Rightarrow> jsval \<Rightarrow> interface_info option" where
  "getInterfaceInfo ubusCall name =
     call_or ubusCall ''network.interface'' ''status'' (JObj [(''interface'', name)])
       (\<lambda>r. let addr = first_address r
            in Some \<lparr>ii_up = truthy (field r ''up''),
                 ii_address = (if truthy addr then field addr ''address'' else JNull),
                 ii_mask = (if truthy addr then field addr ''mask'' else JNull),
                 ii_ipv6 = map (\<lambda>a. field a ''address'') (elements (or_else (field r ''ipv6-address'') (JArr [])))\<rparr>)
       None"

section \<open>Uplinks\<close>

record wan_group =
  wg_device :: jsval
  wg_name :: jsval
  wg_ifaces :: "jsval list"

definition zone_networks :: "jsval \<Rightarrow> jsval list" where
  "zone_networks z =
     (if field z ''.type'' \<noteq> JStr ''zone'' \<or> field z ''masq'' \<noteq> JStr ''1'' then []
      else let net = field z ''network''
           in if is_array net then elements net else if truthy net then [net] else [])"

definition add_new :: "'a list \<Rightarrow> 'a \<Rightarrow> 'a list" where
  "add_new xs x = (if x \<in> set xs then xs else xs @ [x])"

definition wan_names :: "jsval \<Rightarrow> jsval list" where
  "wan_names firewall = foldl add_new [] (concat (map (zone_networks \<circ> snd) (object_properties firewall)))"

definition wan_device :: "jsval \<Rightarrow> jsval" where
  "wan_device e = or_else (or_else (field e ''l3_device'') (field e ''device'')) (field e ''interface'')"

fun add_wan :: "jsval \<Rightarrow> wan_group list \<Rightarrow> wan_group list" where
  "add_wan e [] = [\<lparr>wg_device = wan_device e, wg_name = field e ''interface'', wg_ifaces = [e]\<rparr>]"
| "add_wan e (g # gs) =
     (if wg_device g = wan_device e then g\<lparr>wg_ifaces := wg_ifaces g @ [e]\<rparr> # gs else g # add_wan e gs)"

definition wan_groups :: "jsval \<Rightarrow> jsval list \<Rightarrow> wan_group list" where
  "wan_groups firewall dump =
     foldl (\<lambda>gs e. add_wan e gs) [] (filter (\<lambda>e. field e ''interface'' \<in> set (wan_names firewall)) dump)"

definition getWanConnections :: "ubus \<Rightarrow> wan_group list" where
  "getWanConnections ubusCall = wan_groups (getFirewallConfig ubusCall) (getInterfaceDump ubusCall)"

record wan_state =
  ws_name :: jsval
  ws_device :: jsval
  ws_up :: bool
  ws_uptime :: jsnum
  ws_proto :: jsval
  ws_ipv4 :: "jsval list"
  ws_ipv6 :: "jsval list"
  ws_dns :: "jsval list"
  ws_route :: "jsval list"

definition num_max :: "jsnum \<Rightarrow> jsnum \<Rightarrow> jsnum" where
  "num_max a b = (if a = NaN \<or> b = NaN then NaN else if num_le a b then b else a)"

definition gather :: "string \<Rightarrow> jsval list \<Rightarrow> jsval list" where
  "gather k ifaces = concat (map (\<lambda>e. elements (or_else (field e k) (JArr []))) ifaces)"

definition mergeWanGroup :: "wan_group \<Rightarrow> wan_state" where
  "mergeWanGroup g =
     (let ifaces = wg_ifaces g; ups = filter (\<lambda>e. truthy (field e ''up'')) ifaces
      in \<lparr>ws_name = wg_name g, ws_device = wg_device g, ws_up = (ups \<noteq> []),
          ws_uptime = foldl num_max (Num 0) (map (\<lambda>e. to_number (or_else (field e ''uptime'') (JNum (Num 0)))) ifaces),
          ws_proto = field (case ups of e # _ \<Rightarrow> e | [] \<Rightarrow> ifaces ! 0) ''proto'',
          ws_ipv4 = gather ''ipv4-address'' ifaces, ws_ipv6 = gather ''ipv6-address'' ifaces,
          ws_dns = gather ''dns-server'' ifaces, ws_route = gather ''route'' ifaces\<rparr>)"

text \<open>\<open>/^(?:fn)?wwan$/i\<close> and \<open>/^phy\d+-sta\d+$/i\<close>\<close>

definition wwan_name :: "string \<Rightarrow> bool" where
  "wwan_name s \<longleftrightarrow> lower s = ''wwan'' \<or> lower s = ''fnwwan''"

definition station_device :: "string \<Rightarrow> bool" where
  "station_device s =
     (let t = lower s; r = dropWhile is_digit (drop 3 t)
      in starts_with ''phy'' t \<and> takeWhile is_digit (drop 3 t) \<noteq> [] \<and> starts_with ''-sta'' r \<and> all_digits (drop 4 r))"

definition connectionLabel :: "jsval \<Rightarrow> string" where
  "connectionLabel wan =
     (let proto = field wan ''proto''
      in if wwan_name (arg_str (field wan ''name''))
           \<or> station_device (arg_str (or_else (field wan ''device'') (field wan ''l3_device'')))
         then ''Wi-Fi connection''
         else if proto = JStr ''pppoe'' then ''PPPoE connection''
         else if proto = JStr ''pppoa'' then ''PPPoA connection''
         else if proto = JStr ''dhcpv6'' then ''IPv6 connection''
         else if proto = JStr ''dhcp'' \<or> proto = JStr ''static'' then ''Ethernet connection''
         else if upperString (field wan ''name'') \<noteq> [] then upperString (field wan ''name'') else ''Connection'')"

definition connectionInterfaceLabel :: "jsval \<Rightarrow> jsval" where
  "connectionInterfaceLabel wan =
     (let name = or_else (field wan ''name'') (JStr [])
      in if name = JStr ''wan'' then JStr ''Internet (WAN)''
         else if name = JStr ''wan6'' then JStr ''Internet (IPv6)''
         else or_else (or_else (or_else name (field wan ''l3_device'')) (field wan ''device'')) (JStr en_dash))"

definition backupEthernetDevices :: "jsval \<Rightarrow> string list" where
  "backupEthernetDevices status =
     foldl (\<lambda>devices uplink.
        let device = trim (to_str (or_else (field uplink ''device'') (JStr [])))
        in if truthy uplink \<and> field uplink ''scope'' = JStr ''ethernet-port'' \<and> device \<noteq> []
           then add_new devices device else devices)
       [] (elements (or_else (and_then status (field status ''interfaces'')) (JArr [])))"

section \<open>Wi-Fi\<close>

definition inferredPhy :: "jsval \<Rightarrow> string option" where
  "inferredPhy name =
     (let s = arg_str name in if starts_with ''radio'' s \<and> all_digits (drop 5 s) then Some (''phy'' @ drop 5 s) else None)"

definition status_device :: "jsval \<Rightarrow> string \<Rightarrow> jsval" where
  "status_device wirelessStatus name =
     (case find (\<lambda>i. truthy i \<and> truthy (field i ''ifname''))
        (elements (or_else (field (field wirelessStatus name) ''interfaces'') (JArr []))) of
        Some i \<Rightarrow> field i ''ifname'' | None \<Rightarrow> JUndef)"

record wifi_radio =
  wr_name :: jsval
  wr_band :: jsval
  wr_disabled :: bool
  wr_device :: jsval

definition radio_phy :: "ubus \<Rightarrow> jsval \<Rightarrow> jsval \<Rightarrow> string option" where
  "radio_phy ubusCall wirelessStatus name =
     (if truthy (status_device wirelessStatus (to_str name)) \<or> inferredPhy name \<noteq> None then inferredPhy name
      else call_or ubusCall ''iwinfo'' ''phyname'' (JObj [(''section'', name)])
             (\<lambda>p. if truthy (field p ''phyname'') then Some (to_str (field p ''phyname'')) else None) None)"

definition getWifiRadios :: "ubus \<Rightarrow> jsval \<Rightarrow> jsval \<Rightarrow> jsval \<Rightarrow> wifi_radio list" where
  "getWifiRadios ubusCall wireless activeDevices wirelessStatus =
     (let radios = filter (\<lambda>s. field s ''.type'' = JStr ''wifi-device'') (map snd (object_properties wireless));
          liveDevices = (if is_array activeDevices then elements activeDevices else getIwinfoDevices ubusCall)
      in map (\<lambda>r.
           let name = field r ''.name''; hinted = status_device wirelessStatus (to_str name);
               live = (case radio_phy ubusCall wirelessStatus name of
                   None \<Rightarrow> JNull
                 | Some phy \<Rightarrow> (case find (\<lambda>d. starts_with (phy @ ''-'') (to_str d)) liveDevices of
                       Some d \<Rightarrow> d | None \<Rightarrow> JUndef))
           in \<lparr>wr_name = name, wr_band = field r ''band'', wr_disabled = (field r ''disabled'' = JStr ''1''),
               wr_device = or_else (or_else hinted live) JNull\<rparr>) radios)"

definition js_round :: "rat \<Rightarrow> int" where
  "js_round q = \<lfloor>q + 1 / 2\<rfloor>"

definition mhzToChannel :: "int \<Rightarrow> string \<Rightarrow> int" where
  "mhzToChannel mhz band =
     (if band = ''5g'' then js_round (of_int (mhz - 5000) / 5) else js_round (of_int (mhz - 2407) / 5))"

record station =
  st_band :: string
  st_device :: jsval
  st_signal :: jsval

text \<open>The devices in the order in which their answers arrive; a later station of the same address
  replaces an earlier one.\<close>

definition add_stations :: "ubus \<Rightarrow> (string \<times> station) list \<Rightarrow> jsval \<Rightarrow> (string \<times> station) list" where
  "add_stations ubusCall stations device =
     (let arg = JObj [(''device'', device)];
          info = call_or ubusCall ''iwinfo'' ''info'' arg (\<lambda>r. r) (JObj []);
          band = (if num_le (Num 5000) (to_number (field info ''frequency'')) then ''5 GHz'' else ''2.4 GHz'')
      in foldl (\<lambda>acc s. let mac = upperString (and_then s (field s ''mac''))
                        in if mac \<noteq> [] then assoc_set mac \<lparr>st_band = band, st_device = device, st_signal = field s ''signal''\<rparr> acc
                           else acc)
           stations (call_or ubusCall ''iwinfo'' ''assoclist'' arg (result_list ''results'') []))"

definition getWifiStations :: "ubus \<Rightarrow> jsval list \<Rightarrow> (string \<times> station) list" where
  "getWifiStations ubusCall devices = foldl (add_stations ubusCall) [] devices"

definition iface_names :: "jsval \<Rightarrow> jsval list" where
  "iface_names wstatus =
     foldl (\<lambda>names i. if truthy (field i ''ifname'') then add_new names (field i ''ifname'') else names) []
       (concat (map (\<lambda>(_, r). elements (or_else (field r ''interfaces'') (JArr []))) (object_properties wstatus)))"

definition getIwinfoInfos :: "ubus \<Rightarrow> jsval \<Rightarrow> (string \<times> jsval) list" where
  "getIwinfoInfos ubusCall wstatus =
     foldl (\<lambda>m name. assoc_set (to_str name)
              (case ubusCall ''iwinfo'' ''info'' (JObj [(''device'', name)]) of Inr info \<Rightarrow> info | Inl _ \<Rightarrow> JNull) m)
       [] (iface_names wstatus)"

definition findIfaceEntry :: "jsval \<Rightarrow> jsval \<Rightarrow> jsval" where
  "findIfaceEntry wstatus sectionName =
     (case find (\<lambda>i. field i ''section'' = sectionName)
        (concat (map (\<lambda>(_, r). elements (or_else (field r ''interfaces'') (JArr []))) (object_properties wstatus))) of
        Some i \<Rightarrow> i | None \<Rightarrow> JNull)"

definition formatWifiMeta :: "jsval \<Rightarrow> jsval \<Rightarrow> jsval \<Rightarrow> string" where
  "formatWifiMeta iface radio info =
     (let encryption = upperString (field iface ''encryption'')
      in join '', '' ([if field radio ''band'' = JStr ''5g'' then ''5 GHz'' else ''2.4 GHz'']
        @ (if truthy (field radio ''channel'') then [''Channel: '' @ to_str (field radio ''channel'')] else [])
        @ (if truthy info \<and> truthy (field info ''htmode'') then [to_str (field info ''htmode'')] else [])
        @ (if truthy info \<and> truthy (field info ''hwmodes_text'')
           then [''802.11'' @ to_str (field info ''hwmodes_text'')] else [])
        @ (case field info ''txpower'' of JNum n \<Rightarrow> if truthy info then [num_str n @ '' dBm''] else [] | _ \<Rightarrow> [])
        @ [if encryption \<noteq> [] \<and> encryption \<noteq> ''NONE'' then encryption else ''Open'']))"

section \<open>Neighbours and clients\<close>

text \<open>\<open>parseInt(s, base)\<close> for the digits at the front.\<close>

definition parse_int :: "int \<Rightarrow> string \<Rightarrow> int option" where
  "parse_int base s0 =
     (let s = dropWhile is_ws s0; neg = starts_with ''-'' s;
          t = (if neg \<or> starts_with ''+'' s then tl s else s);
          u = (if base = 16 \<and> (starts_with ''0x'' t \<or> starts_with ''0X'' t) then drop 2 t else t);
          ds = takeWhile (\<lambda>c. digit_val c < base) u
      in if ds = [] then None else Some (if neg then - num_val base ds else num_val base ds))"

definition LF_char :: char where "LF_char = char_of (10 :: nat)"

definition file_lines :: "jsval \<Rightarrow> string list" where
  "file_lines r = split_on LF_char (arg_str (field r ''data''))"

definition columns :: "string \<Rightarrow> string list" where
  "columns line = tokens line"

definition read_file :: "ubus \<Rightarrow> string \<Rightarrow> (jsval \<Rightarrow> 'a) \<Rightarrow> 'a \<Rightarrow> 'a" where
  "read_file ubusCall path = call_or ubusCall ''file'' ''read'' (JObj [(''path'', JStr path)])"

definition getArpTable :: "ubus \<Rightarrow> (string \<times> string) list" where
  "getArpTable ubusCall = read_file ubusCall ''/proc/net/arp''
     (\<lambda>r. foldl (\<lambda>m line. let cols = columns line
                    in if 4 \<le> length cols \<and> cols ! 3 \<noteq> ''00:00:00:00:00:00'' then assoc_set (cols ! 0) (cols ! 3) m else m)
            [] (tl (file_lines r))) []"

definition getActiveArpMacs :: "ubus \<Rightarrow> (string \<times> bool) list" where
  "getActiveArpMacs ubusCall = read_file ubusCall ''/proc/net/arp''
     (\<lambda>r. foldl (\<lambda>m line. let cols = columns line; mac = (if 4 \<le> length cols then upper (cols ! 3) else [])
                    in if mac \<noteq> [] \<and> (case parse_int 16 (cols ! 2) of Some n \<Rightarrow> js_and n 2 \<noteq> 0 | None \<Rightarrow> False)
                       then assoc_set mac True m else m)
            [] (tl (file_lines r))) []"

text \<open>The operand of a 32-bit operator: \<open>NaN\<close> and the infinities are 0, a fraction is cut.\<close>

definition num_int32 :: "jsnum \<Rightarrow> int" where
  "num_int32 n = (case n of Num q \<Rightarrow> to_int32 (if 0 \<le> q then \<lfloor>q\<rfloor> else \<lceil>q\<rceil>) | _ \<Rightarrow> 0)"

definition num_plus :: "jsnum \<Rightarrow> jsnum \<Rightarrow> jsnum" where
  "num_plus a b = (case (a, b) of
       (Num p, Num q) \<Rightarrow> Num (p + q)
     | (NaN, _) \<Rightarrow> NaN | (_, NaN) \<Rightarrow> NaN
     | (Num p, c) \<Rightarrow> c | (c, Num q) \<Rightarrow> c
     | (Inf p, Inf q) \<Rightarrow> if p = q then Inf p else NaN)"

definition ip2int :: "string \<Rightarrow> int option" where
  "ip2int ip =
     (let p = map (num_int32 \<circ> number_of_str) (split_on CHR ''.'' ip)
      in if length p = 4
         then Some (js_ushr (js_or (js_or (js_or (js_shl (p ! 0) 24) (js_shl (p ! 1) 16)) (js_shl (p ! 2) 8)) (p ! 3)) 0)
         else None)"

definition lan_bits :: "jsval \<Rightarrow> jsnum" where
  "lan_bits m = to_number (or_else m (JNum (Num 24)))"

definition ipInLan :: "jsval \<Rightarrow> lan_info option \<Rightarrow> bool" where
  "ipInLan ip lan =
     (case lan of
        None \<Rightarrow> False
      | Some l \<Rightarrow>
          if \<not> truthy ip \<or> \<not> truthy (lan_address l) \<or> CHR '':'' \<in> set (to_str ip) then False
          else case (ip2int (to_str ip), ip2int (to_str (lan_address l))) of
              (Some a, Some b) \<Rightarrow>
                (let bits = lan_bits (lan_mask l);
                     shift = (if num_le (Num 32) bits then 0
                              else nat (num_int32 (num_plus (Num 32) (negate bits)) mod 32))
                 in js_ushr a shift = js_ushr b shift)
            | _ \<Rightarrow> False)"

record client_entry =
  cr_mac :: string
  cr_name :: string
  cr_ip :: jsval
  cr_segment :: string
  cr_connection :: string
  cr_wifi :: bool
  cr_ethernet :: bool
  cr_online :: bool

definition dhcp_hosts :: "jsval \<Rightarrow> (string \<times> jsval) list" where
  "dhcp_hosts dhcpConfig =
     foldl (\<lambda>hosts (_, s). let section = or_else s (JObj []); mac = upperString (field section ''mac'')
                           in if field section ''.type'' \<noteq> JStr ''host'' \<or> mac = [] then hosts
                              else assoc_set mac section hosts)
       [] (object_properties (or_else dhcpConfig (JObj [])))"

definition client_row :: "(string \<times> jsval) list \<Rightarrow> (string \<times> station) list \<Rightarrow> (string \<times> bool) list \<Rightarrow> lan_info option
    \<Rightarrow> string \<Rightarrow> jsval \<Rightarrow> client_entry" where
  "client_row hosts stations activeArpMacs guestInfo mac lease =
     (let station = map_of stations mac; ethernet = (station = None \<and> map_of activeArpMacs mac = Some True);
          host = (case map_of hosts mac of Some h \<Rightarrow> h | None \<Rightarrow> JObj [])
      in \<lparr>cr_mac = mac,
          cr_name = to_str (or_else (or_else (field host ''name'') (field lease ''hostname'')) (JStr mac)),
          cr_ip = or_else (field lease ''ipaddr'') (JStr en_dash),
          cr_segment = (if ipInLan (field lease ''ipaddr'') guestInfo then ''Guest network'' else ''Home network''),
          cr_connection = (case station of Some s \<Rightarrow> st_band s @ '' Wi-Fi''
             | None \<Rightarrow> if ethernet then ''Ethernet'' else ''Not connected''),
          cr_wifi = (station \<noteq> None), cr_ethernet = ethernet, cr_online = (station \<noteq> None \<or> ethernet)\<rparr>)"

definition dashboardClientRows :: "(string \<Rightarrow> string \<Rightarrow> int) \<Rightarrow> jsval \<Rightarrow> (string \<times> station) list \<Rightarrow> (string \<times> bool) list
    \<Rightarrow> jsval \<Rightarrow> lan_info option \<Rightarrow> client_entry list" where
  "dashboardClientRows localeCompare leases stations activeArpMacs dhcpConfig guestInfo =
     (let hosts = dhcp_hosts dhcpConfig;
          clients = foldl (\<lambda>m lease. let mac = upperString (and_then lease (field lease ''macaddr''))
                       in if mac = [] then m
                          else assoc_set mac (client_row hosts stations activeArpMacs guestInfo mac lease) m)
            [] (elements (or_else leases (JArr [])))
      in sort_by (\<lambda>l r. localeCompare (cr_name l) (cr_name r)) (map snd clients))"

section \<open>Counters\<close>

definition stat_number :: "jsnum list \<Rightarrow> nat \<Rightarrow> jsnum" where
  "stat_number nums i = (if i < length nums \<and> nums ! i \<noteq> NaN then nums ! i else Num 0)"

definition getProcStatCpu :: "ubus \<Rightarrow> (jsnum \<times> jsnum) option" where
  "getProcStatCpu ubusCall = read_file ubusCall ''/proc/stat''
     (\<lambda>r. let nums = map number_of_str (tl (columns (hd (file_lines r))))
          in Some (num_plus (stat_number nums 3) (stat_number nums 4), foldl num_plus (Num 0) nums)) None"

text \<open>\<open>None\<close> is a file that cannot be read (\<open>null\<close>) or does not hold a number (\<open>NaN\<close>).\<close>

definition getConntrackCounts :: "ubus \<Rightarrow> int option \<times> int option" where
  "getConntrackCounts ubusCall =
     (let count = (\<lambda>path. read_file ubusCall path (\<lambda>r. parse_int 10 (to_str (field r ''data''))) None)
      in (count ''/proc/sys/net/netfilter/nf_conntrack_count'', count ''/proc/sys/net/netfilter/nf_conntrack_max''))"

definition fmtMB :: "int \<Rightarrow> string" where
  "fmtMB bytes = num_str (num_of_int (js_round (of_int bytes / 1000000))) @ '' MB''"

end
