(* ===== verification/Dashboard_Properties.thy ===== *)
theory Dashboard_Properties
  imports Dashboard Net_Cidr
begin

text \<open>
  Properties of the dashboard data: the groups of uplinks partition the interfaces of the
  masquerading zones by device, each client has one row, and membership of the guest network is
  equality of network prefixes.
\<close>

section \<open>Uplinks\<close>

definition group_ok :: "wan_group \<Rightarrow> bool" where
  "group_ok g \<longleftrightarrow> wg_ifaces g \<noteq> [] \<and> list_all (\<lambda>e. wan_device e = wg_device g) (wg_ifaces g)
     \<and> wg_name g = field (hd (wg_ifaces g)) ''interface''"

lemma add_wan_devices:
  "map wg_device (add_wan e gs) = (if wan_device e \<in> wg_device ` set gs then map wg_device gs else map wg_device gs @ [wan_device e])"
  by (induction gs) auto

lemma add_wan_ok: "list_all group_ok gs \<Longrightarrow> list_all group_ok (add_wan e gs)"
  by (induction gs) (auto simp: group_ok_def)

lemma add_wan_ifaces: "mset (concat (map wg_ifaces (add_wan e gs))) = add_mset e (mset (concat (map wg_ifaces gs)))"
  by (induction gs) auto

lemma fold_wan:
  assumes "list_all group_ok gs" "distinct (map wg_device gs)"
  shows "list_all group_ok (foldl (\<lambda>gs e. add_wan e gs) gs es) \<and> distinct (map wg_device (foldl (\<lambda>gs e. add_wan e gs) gs es))
    \<and> mset (concat (map wg_ifaces (foldl (\<lambda>gs e. add_wan e gs) gs es))) = mset (concat (map wg_ifaces gs)) + mset es"
  using assms
proof (induction es arbitrary: gs)
  case (Cons e es)
  have "distinct (map wg_device (add_wan e gs))" using Cons.prems by (auto simp: add_wan_devices)
  then show ?case using Cons.IH [OF add_wan_ok [OF Cons.prems(1)]] by (simp add: add_wan_ifaces)
qed simp

lemma fold_add_new: "set (foldl add_new acc xs) = set acc \<union> set xs"
  by (induction xs arbitrary: acc) (auto simp: add_new_def)

section \<open>Association lists\<close>

lemma distinct_assoc_set: "distinct (map fst ps) \<Longrightarrow> distinct (map fst (assoc_set k v ps))"
proof -
  have "set (map fst (assoc_set k v ps)) \<subseteq> insert k (set (map fst ps))" for ps
    by (induction ps) auto
  then show "distinct (map fst ps) \<Longrightarrow> distinct (map fst (assoc_set k v ps))"
    by (induction ps) auto
qed

lemma set_assoc_set: "distinct (map fst ps) \<Longrightarrow> set (assoc_set k v ps) = {p \<in> set ps. fst p \<noteq> k} \<union> {(k, v)}"
proof (induction ps)
  case (Cons p ps)
  then show ?case
  proof (cases "fst p = k")
    case True
    then have "k \<notin> fst ` set ps" using Cons.prems by simp
    then have "{q \<in> set ps. fst q \<noteq> k} = set ps" by force
    then show ?thesis using True by auto
  qed auto
qed simp

section \<open>Clients\<close>

definition lease_mac :: "jsval \<Rightarrow> string" where
  "lease_mac lease = upperString (and_then lease (field lease ''macaddr''))"

definition lease_rows :: "(string \<Rightarrow> jsval \<Rightarrow> 'a) \<Rightarrow> jsval list \<Rightarrow> (string \<times> 'a) list \<Rightarrow> (string \<times> 'a) list" where
  "lease_rows row leases m =
     foldl (\<lambda>m lease. if lease_mac lease = [] then m else assoc_set (lease_mac lease) (row (lease_mac lease) lease) m) m leases"

lemma lease_rows_ok:
  assumes "distinct (map fst m)" "\<forall>(mac, r) \<in> set m. mac \<noteq> [] \<and> (\<exists>lease \<in> L. lease_mac lease = mac \<and> r = row mac lease)"
    "set leases \<subseteq> L"
  shows "distinct (map fst (lease_rows row leases m))
    \<and> (\<forall>(mac, r) \<in> set (lease_rows row leases m). mac \<noteq> [] \<and> (\<exists>lease \<in> L. lease_mac lease = mac \<and> r = row mac lease))
    \<and> fst ` set (lease_rows row leases m) = fst ` set m \<union> (lease_mac ` set leases - {[]})"
  using assms
proof (induction leases arbitrary: m)
  case (Cons lease leases)
  show ?case
  proof (cases "lease_mac lease = []")
    case True
    then show ?thesis using Cons.IH [of m] Cons.prems by (simp add: lease_rows_def)
  next
    case False
    let ?m = "assoc_set (lease_mac lease) (row (lease_mac lease) lease) m"
    have d: "distinct (map fst ?m)" using Cons.prems(1) by (rule distinct_assoc_set)
    have s: "set ?m = {p \<in> set m. fst p \<noteq> lease_mac lease} \<union> {(lease_mac lease, row (lease_mac lease) lease)}"
      using Cons.prems(1) by (rule set_assoc_set)
    have rows: "\<forall>(mac, r) \<in> set ?m. mac \<noteq> [] \<and> (\<exists>lease \<in> L. lease_mac lease = mac \<and> r = row mac lease)"
      unfolding s using Cons.prems(2,3) False by auto
    have "fst ` set ?m = fst ` set m \<union> {lease_mac lease}" unfolding s by force
    moreover have "lease_rows row (lease # leases) m = lease_rows row leases ?m"
      using False by (simp add: lease_rows_def)
    ultimately show ?thesis using Cons.IH [OF d rows] Cons.prems(3) False by auto
  qed
qed (simp add: lease_rows_def)

lemma or_zero_zero: "or_zero a 0 = a"
  by (simp add: or_zero_def)

section \<open>Addresses\<close>

lemma ip2int_dotted:
  assumes "ipv4 n"
  shows "ip2int (dotted n) = Some n"
proof -
  have int32: "num_int32 (number_of_str (dec x)) = x" if "x \<in> set (octets n)" for x
    using octets_range [OF assms that] by (simp add: number_of_octet num_int32_def num_of_int_def to_int32_id)
  then have "map (num_int32 \<circ> number_of_str) (split_on CHR ''.'' (dotted n)) = octets n"
    unfolding split_dotted [OF assms] map_map by (intro map_idI) simp
  then have p: "map (num_int32 \<circ> number_of_str) (split_on CHR ''.'' (dotted n)) = octets n" .
  have ints: "octets n ! 0 = n div 2 ^ 24" "octets n ! 1 = n div 2 ^ 16 mod 256" "octets n ! 2 = n div 2 ^ 8 mod 256"
    "octets n ! 3 = n mod 256" "(length (octets n) = 4) = True"
    by (simp_all add: octets_def)
  have ushr: "js_ushr a 0 = to_uint32 a" for a by (simp add: js_ushr_def)
  show ?thesis
    unfolding ip2int_def Let_def p ints ushr ipv4_value [OF assms] if_True by (rule refl)
qed

lemma dotted_text: "ipv4 n \<Longrightarrow> dotted n \<noteq> [] \<and> CHR '':'' \<notin> set (dotted n)"
proof
  assume n: "ipv4 n"
  have chars: "c \<noteq> CHR '':''" if "c \<in> set (dec x)" "x \<in> set (octets n)" for c x
    using dec_chars [OF _ that(1)] octets_range [OF n that(2)] by auto
  have "set (join ''.'' xs) \<subseteq> insert CHR ''.'' (\<Union>x \<in> set xs. set x)" for xs
    by (induction "''.''" xs rule: join.induct) auto
  then have "set (dotted n) \<subseteq> insert CHR ''.'' (\<Union>x \<in> set (octets n). set (dec x))"
    unfolding dotted_def by fastforce
  then show "CHR '':'' \<notin> set (dotted n)" using chars by fastforce
  show "dotted n \<noteq> []" by (simp add: dotted_def octets_def)
qed

lemma shift_amount:
  assumes "1 \<le> p" "p \<le> 32"
  shows "(if num_le (Num 32) (num_of_int p) then 0 else nat (num_int32 (num_plus (Num 32) (negate (num_of_int p))) mod 32))
    = nat (32 - p)"
proof -
  have "num_plus (Num 32) (negate (num_of_int p)) = num_of_int (32 - p)"
    by (simp add: num_plus_def negate_def num_of_int_def del: num_int)
  moreover have "num_int32 (num_of_int (32 - p)) = 32 - p"
    using assms to_int32_id [of "32 - p"] unfolding num_int32_def num_of_int_def jsnum.case floor_of_int ceiling_of_int if_cancel
    by simp
  moreover have "num_le (Num 32) (num_of_int p) \<longleftrightarrow> 32 \<le> p"
    using num_le_int [of 32 p] by (simp only: num_of_int_def of_int_numeral)
  ultimately show ?thesis using assms by (simp only: mod_pos_pos_trivial if_split) auto
qed

section \<open>Properties\<close>

text \<open>C18: the uplinks of the dashboard partition the interfaces of the masquerading zones: every
  such interface is in one group, an interface of no such zone is in none, the interfaces of a
  group share the device of the group, and no two groups have the same device.\<close>

theorem wan_groups_partition:
  "mset (concat (map wg_ifaces (wan_groups firewall dump)))
     = mset (filter (\<lambda>e. field e ''interface'' \<in> (\<Union>z \<in> set (object_properties firewall). set (zone_networks (snd z)))) dump)
   \<and> distinct (map wg_device (wan_groups firewall dump))
   \<and> list_all (\<lambda>g. wg_ifaces g \<noteq> [] \<and> list_all (\<lambda>e. wan_device e = wg_device g) (wg_ifaces g)
        \<and> wg_name g = field (hd (wg_ifaces g)) ''interface'') (wan_groups firewall dump)"
proof -
  have names: "set (wan_names firewall) = (\<Union>z \<in> set (object_properties firewall). set (zone_networks (snd z)))"
    by (simp add: wan_names_def fold_add_new)
  show ?thesis
    using fold_wan [of "[]" "filter (\<lambda>e. field e ''interface'' \<in> set (wan_names firewall)) dump"]
    unfolding names [symmetric] wan_groups_def group_ok_def by simp
qed

text \<open>The table of clients has one row for each address that holds a lease, made from one of its
  leases, and says that a client is online exactly when it is a Wi-Fi station or a wired neighbour,
  never both; the rows are sorted by name, for a collation that is a consistent order.\<close>

theorem client_rows:
  assumes "comparison (\<lambda>_. True) localeCompare"
  shows "let rows = dashboardClientRows localeCompare (JArr leases) stations arp dhcp guest
    in distinct (map cr_mac rows) \<and> cr_mac ` set rows = lease_mac ` set leases - {[]}
    \<and> list_all (\<lambda>r. (\<exists>lease \<in> set leases. lease_mac lease = cr_mac r
          \<and> r = client_row (dhcp_hosts dhcp) stations arp guest (cr_mac r) lease)
        \<and> cr_online r = (cr_wifi r \<or> cr_ethernet r) \<and> \<not> (cr_wifi r \<and> cr_ethernet r)) rows
    \<and> sorted_wrt (\<lambda>a b. localeCompare (cr_name a) (cr_name b) \<le> 0) rows"
proof -
  let ?row = "client_row (dhcp_hosts dhcp) stations arp guest"
  define rows where "rows = dashboardClientRows localeCompare (JArr leases) stations arp dhcp guest"
  define m where "m = lease_rows ?row leases []"
  have m: "distinct (map fst m)" "fst ` set m = lease_mac ` set leases - {[]}"
    "\<And>mac r. (mac, r) \<in> set m \<Longrightarrow> \<exists>lease \<in> set leases. lease_mac lease = mac \<and> r = ?row mac lease"
    using lease_rows_ok [of "[]" "set leases" ?row leases] unfolding m_def by auto
  have rows: "rows = sort_by (\<lambda>l r. localeCompare (cr_name l) (cr_name r)) (map snd m)"
    unfolding rows_def dashboardClientRows_def m_def lease_rows_def lease_mac_def
    by (simp add: elements_def or_else_def truthy_def Let_def)
  have mac: "cr_mac r = k" if "(k, r) \<in> set m" for k r using m(3) [OF that] by (auto simp: client_row_def Let_def)
  then have macs: "map cr_mac (map snd m) = map fst m" by auto
  have "mset (map cr_mac rows) = mset (map fst m)" unfolding rows mset_map mset_sort_by macs [symmetric] by simp
  then have distinct: "distinct (map cr_mac rows)" and set: "set (map cr_mac rows) = fst ` set m"
    using m(1) by (metis mset_eq_imp_distinct_iff, metis mset_eq_setD set_map)
  have each: "(\<exists>lease \<in> set leases. lease_mac lease = cr_mac r \<and> r = ?row (cr_mac r) lease)
      \<and> cr_online r = (cr_wifi r \<or> cr_ethernet r) \<and> \<not> (cr_wifi r \<and> cr_ethernet r)" if "r \<in> set rows" for r
  proof -
    have "r \<in> snd ` set m" using that unfolding rows set_sort_by set_map .
    then obtain k where k: "(k, r) \<in> set m" by force
    obtain lease where lease: "lease \<in> set leases" "lease_mac lease = k" "r = ?row k lease" using m(3) [OF k] by blast
    then show ?thesis using mac [OF k] by (auto simp: client_row_def Let_def)
  qed
  have "comparison (\<lambda>_. True) (\<lambda>a b. localeCompare (cr_name a) (cr_name b))"
    by (rule comparison_map [OF assms TrueI])
  from comparison.sort_sorted [OF this, of "map snd m" "\<lambda>a b. 0"]
  have "sorted_wrt (\<lambda>a b. localeCompare (cr_name a) (cr_name b) \<le> 0) rows"
    unfolding rows or_zero_zero by simp
  then show ?thesis using distinct set m(2) each by (auto simp: list_all_iff rows_def [symmetric] Let_def)
qed

definition sample_leases :: "jsval list" where
  "sample_leases =
     [JObj [(''macaddr'', JStr ''aa:bb:cc:dd:ee:01''), (''ipaddr'', JStr ''192.168.1.7''), (''hostname'', JStr ''tv'')],
      JObj [(''macaddr'', JStr ''AA:BB:CC:DD:EE:02''), (''ipaddr'', JStr ''192.168.9.4'')]]"

definition by_length :: "string \<Rightarrow> string \<Rightarrow> int" where
  "by_length a b = int (length a) - int (length b)"

theorem client_rows_witness:
  "sorted_wrt (\<lambda>a b. by_length (cr_name a) (cr_name b) \<le> 0)
     (dashboardClientRows by_length (JArr sample_leases) [] [(''AA:BB:CC:DD:EE:01'', True)] JNull None)
   \<and> map (\<lambda>r. (cr_name r, cr_connection r))
        (dashboardClientRows by_length (JArr sample_leases) [] [(''AA:BB:CC:DD:EE:01'', True)] JNull None)
      = [(''tv'', ''Ethernet''), (''AA:BB:CC:DD:EE:02'', ''Not connected'')]"
proof
  have "comparison (\<lambda>_. True) by_length" by unfold_locales (auto simp: by_length_def)
  from client_rows [OF this, of sample_leases "[]" "[(''AA:BB:CC:DD:EE:01'', True)]" JNull None]
  show "sorted_wrt (\<lambda>a b. by_length (cr_name a) (cr_name b) \<le> 0)
     (dashboardClientRows by_length (JArr sample_leases) [] [(''AA:BB:CC:DD:EE:01'', True)] JNull None)"
    unfolding Let_def by blast
  show "map (\<lambda>r. (cr_name r, cr_connection r))
        (dashboardClientRows by_length (JArr sample_leases) [] [(''AA:BB:CC:DD:EE:01'', True)] JNull None)
      = [(''tv'', ''Ethernet''), (''AA:BB:CC:DD:EE:02'', ''Not connected'')]" by code_simp
qed

text \<open>An IPv4 address is in the guest network exactly when it has the network prefix of the guest
  address; the code compares with unsigned 32-bit shifts.\<close>

theorem ipInLan_prefix:
  assumes "ipv4 a" "ipv4 b" "1 \<le> p" "p \<le> 32"
  shows "ipInLan (JStr (dotted a)) (Some \<lparr>lan_address = JStr (dotted b), lan_mask = JNum (num_of_int p)\<rparr>)
    \<longleftrightarrow> a div 2 ^ nat (32 - p) = b div 2 ^ nat (32 - p)"
proof -
  have "truthy (JNum (num_of_int p))" using assms(3) by (simp add: truthy_def num_of_int_def del: num_int)
  then have bits: "lan_bits (JNum (num_of_int p)) = num_of_int p" by (simp add: lan_bits_def or_else_def)
  have shift: "js_ushr n (nat (32 - p)) = n div 2 ^ nat (32 - p)" if "ipv4 n" for n
    using that assms(3) by (simp add: js_ushr_less to_uint32_id ipv4_def drop_bit_eq_div)
  have t: "truthy (JStr (dotted a))" "truthy (JStr (dotted b))" "CHR '':'' \<notin> set (dotted a)"
    using dotted_text assms(1,2) by (simp_all add: truthy_def)
  have "(CHR '':'' \<in> set (dotted a)) = False" using t(3) by simp
  then show ?thesis
    unfolding ipInLan_def option.case lan_info.simps t to_str.simps ip2int_dotted [OF assms(1)] ip2int_dotted [OF assms(2)]
      prod.case Let_def bits shift_amount [OF assms(3,4)] shift [OF assms(1)] shift [OF assms(2)]
    by (simp only: not_True_eq_False simp_thms if_False t(1,2))
qed

theorem ipInLan_prefix_witness:
  "ipInLan (JStr (dotted 0xc0a80305)) (Some \<lparr>lan_address = JStr (dotted 0xc0a80301), lan_mask = JNum (num_of_int 24)\<rparr>)"
  using ipInLan_prefix [of "0xc0a80305" "0xc0a80301" 24] unfolding ipv4_def by simp

end
