(* ===== verification/Policy.thy ===== *)
theory Policy
  imports Dashboard Uci
begin

text \<open>
  Traffic policies of \<open>view/network/freenetic-wifi-acl.js\<close>: the pure part.  A segment or a device is
  routed directly, through a tunnel or not at all; the policy is read back from the sections of
  \<open>pbr\<close> and \<open>firewall\<close> that carry the mark of the program.  Configurations are JavaScript objects
  with the sections as properties.
\<close>

text \<open>\<open>v[0]\<close> of an array or a string.\<close>

definition index0 :: "jsval \<Rightarrow> jsval" where
  "index0 v = (case v of JArr (x # _) \<Rightarrow> x | JStr (c # _) \<Rightarrow> JStr [c] | _ \<Rightarrow> JUndef)"

section \<open>Addresses\<close>

definition em_dash :: string where
  "em_dash = map char_of [226, 128, 148 :: nat]"

definition acl_octet :: "string \<Rightarrow> bool" where
  "acl_octet part \<longleftrightarrow> all_digits part \<and> length part \<le> 3 \<and> num_val 10 part \<le> 255"

definition acl_ipv4 :: "jsval \<Rightarrow> bool" where
  "acl_ipv4 v = (let parts = split_on CHR ''.'' (trim (arg_str v)) in length parts = 4 \<and> list_all acl_octet parts)"

definition acl_ip2int :: "jsval \<Rightarrow> int option" where
  "acl_ip2int v =
     (if \<not> acl_ipv4 v then None
      else let parts = map (num_int32 \<circ> number_of_str) (split_on CHR ''.'' (to_str v))
           in Some (to_uint32 (js_or (js_or (js_or (js_shl (parts ! 0) 24) (js_shl (parts ! 1) 16))
                (js_shl (parts ! 2) 8)) (parts ! 3))))"

definition int2ip :: "int \<Rightarrow> string" where
  "int2ip v = join ''.'' (map dec [js_and (js_ushr v 24) 255, js_and (js_ushr v 16) 255, js_and (js_ushr v 8) 255, js_and v 255])"

text \<open>The ones at the front of a 32-bit word, counted from bit \<open>k - 1\<close> down.\<close>

fun leading_ones :: "int \<Rightarrow> nat \<Rightarrow> nat" where
  "leading_ones n 0 = 0"
| "leading_ones n (Suc k) = (if js_and n (js_shl 1 k) \<noteq> 0 then Suc (leading_ones n k) else 0)"

definition prefix_mask :: "nat \<Rightarrow> int" where
  "prefix_mask p = (if p = 0 then 0 else to_uint32 (js_shl 0xffffffff (32 - p)))"

definition netmaskPrefix :: "jsval \<Rightarrow> nat option" where
  "netmaskPrefix v =
     (case acl_ip2int v of
        None \<Rightarrow> None
      | Some n \<Rightarrow> let bits = leading_ones n 32 in if n = prefix_mask bits then Some bits else None)"

text \<open>The number behind a slash when it is a list of digits; larger numbers than 32 are no prefix.\<close>

definition cidr_prefix :: "string list \<Rightarrow> nat option" where
  "cidr_prefix parts =
     (if 2 \<le> length parts \<and> all_digits (parts ! 1) then Some (nat (num_val 10 (parts ! 1))) else None)"

definition networkCidr :: "jsval \<Rightarrow> string option" where
  "networkCidr network =
     (let addr = and_then network (field network ''ipaddr'');
          raw0 = (if is_array addr then index0 addr else addr);
          slash = (truthy raw0 \<and> CHR ''/'' \<in> set (to_str raw0));
          parts = split_on CHR ''/'' (to_str raw0);
          raw = (if slash then JStr (parts ! 0) else raw0);
          prefix0 = (if slash then cidr_prefix parts else None)
      in if \<not> acl_ipv4 raw then None
         else case (case prefix0 of Some p \<Rightarrow> Some p | None \<Rightarrow> netmaskPrefix (and_then network (field network ''netmask''))) of
             None \<Rightarrow> None
           | Some p \<Rightarrow> if 32 < p then None
               else map_option (\<lambda>n. int2ip (to_uint32 (js_and n (prefix_mask p))) @ ''/'' @ dec (int p)) (acl_ip2int raw))"

definition cidrContains :: "jsval \<Rightarrow> jsval \<Rightarrow> bool" where
  "cidrContains cidr address =
     (let parts = split_on CHR ''/'' (arg_str cidr)
      in case (acl_ip2int (JStr (parts ! 0)), acl_ip2int address, cidr_prefix parts) of
           (Some base, Some ip, Some p) \<Rightarrow>
             p \<le> 32 \<and> to_uint32 (js_and base (prefix_mask p)) = to_uint32 (js_and ip (prefix_mask p))
         | _ \<Rightarrow> False)"

section \<open>Names of sections\<close>

definition policyHash :: "jsval \<Rightarrow> int" where
  "policyHash v = foldl hash_step 0 (arg_str v)"

definition word_or_underscore :: "char \<Rightarrow> char" where
  "word_or_underscore c = (if is_alnum c \<or> c = CHR ''_'' then c else CHR ''_'')"

definition trim_underscores :: "string \<Rightarrow> string" where
  "trim_underscores s =
     rev (dropWhile (\<lambda>c. c = CHR ''_'') (rev (dropWhile (\<lambda>c. c = CHR ''_'') s)))"

definition policyToken :: "jsval \<Rightarrow> string" where
  "policyToken v =
     (let raw = to_str (or_else v (JStr ''network'')); hash = policyHash (JStr raw);
          safe = take 24 (trim_underscores (map word_or_underscore raw))
      in (if safe = [] then ''network'' else safe) @ ''_'' @ base_str 36 (js_ushr hash 0))"

definition managedPolicySection :: "jsval \<Rightarrow> string" where
  "managedPolicySection network = ''freenetic_'' @ policyToken network"

definition managedBlockSection :: "jsval \<Rightarrow> string" where
  "managedBlockSection network = managedPolicySection network @ ''_block''"

definition managedDeviceSection :: "string \<Rightarrow> string" where
  "managedDeviceSection mac = ''freenetic_device_'' @ base_str 36 (js_ushr (policyHash (JStr mac)) 0)"

definition managedDeviceBlockSection :: "string \<Rightarrow> string" where
  "managedDeviceBlockSection mac = managedDeviceSection mac @ ''_block''"

definition managedDeviceAllowSection :: "string \<Rightarrow> string" where
  "managedDeviceAllowSection mac = managedDeviceSection mac @ ''_allow''"

text \<open>\<open>scope\<close> is empty when the argument is left out.\<close>

definition isManagedSection :: "jsval \<Rightarrow> string \<Rightarrow> bool" where
  "isManagedSection section scope \<longleftrightarrow> truthy section \<and> field section ''freenetic_managed'' = JStr ''1''
     \<and> (scope = [] \<or> field section ''freenetic_scope'' = JStr scope)"

section \<open>Interfaces and zones\<close>

definition sectionName_acl :: "jsval \<Rightarrow> jsval" where
  "sectionName_acl section = and_then section (or_else (field section ''.name'') (field section ''name''))"

definition section_proto :: "jsval \<Rightarrow> string" where
  "section_proto section = lower (arg_str (and_then section (field section ''proto'')))"

definition isVpnInterface :: "jsval \<Rightarrow> bool" where
  "isVpnInterface section \<longleftrightarrow> section_proto section \<in> {''wireguard'', ''amneziawg'', ''openvpn'', ''l2tp'', ''xfrm''}"

definition vpnProtocolLabel :: "jsval \<Rightarrow> string" where
  "vpnProtocolLabel section =
     (let proto = section_proto section; protocol = and_then section (field section ''freenetic_protocol'')
      in if protocol = JStr ''l2tp_ipsec'' \<or> proto = ''l2tp'' then ''L2TP/IPsec''
         else if protocol = JStr ''ikev2'' \<or> proto = ''xfrm'' then ''IKEv2/IPsec''
         else if proto = ''amneziawg'' then ''AmneziaWG''
         else if proto = ''openvpn'' then ''OpenVPN'' else ''WireGuard'')"

text \<open>\<open>String(value).split(/[\s,]+/).filter(Boolean)\<close>\<close>

definition listValue_acl :: "jsval \<Rightarrow> jsval list" where
  "listValue_acl v =
     (if is_array v then elements v
      else if truthy v then map JStr (tokens (map (\<lambda>c. if c = CHR '','' then CHR '' '' else c) (to_str v)))
      else [])"

definition section_values :: "jsval \<Rightarrow> jsval list" where
  "section_values config = map snd (object_properties config)"

definition find_value :: "(jsval \<Rightarrow> bool) \<Rightarrow> jsval list \<Rightarrow> jsval" where
  "find_value P xs = (case find P xs of Some x \<Rightarrow> x | None \<Rightarrow> JUndef)"

definition findZoneForNetwork :: "jsval \<Rightarrow> jsval \<Rightarrow> jsval" where
  "findZoneForNetwork firewall network =
     find_value (\<lambda>zone. field zone ''.type'' = JStr ''zone'' \<and> network \<in> set (listValue_acl (field zone ''network'')))
       (section_values firewall)"

definition findInternetZone :: "jsval \<Rightarrow> jsval" where
  "findInternetZone firewall =
     find_value (\<lambda>zone. field zone ''.type'' = JStr ''zone''
         \<and> (or_else (field zone ''name'') (sectionName_acl zone) = JStr ''wan''
            \<or> list_ex (\<lambda>network. network = JStr ''wan'' \<or> network = JStr ''wan6'') (listValue_acl (field zone ''network''))))
       (section_values firewall)"

definition pbrConfigSection :: "jsval \<Rightarrow> jsval" where
  "pbrConfigSection pbr =
     find_value (\<lambda>section. field section ''.name'' = JStr ''config'' \<or> field section ''.type'' = JStr ''config'')
       (section_values pbr)"

definition policyModeLabel :: "string \<Rightarrow> string" where
  "policyModeLabel mode =
     (if mode = ''vpn'' then ''VPN tunnel'' else if mode = ''block'' then ''Block Internet'' else ''Direct (WAN)'')"

definition policyModeClass :: "string \<Rightarrow> string" where
  "policyModeClass mode = (if mode = ''block'' then ''fn-status-warn'' else ''fn-status-ok'')"

definition deviceModeLabel :: "string \<Rightarrow> string" where
  "deviceModeLabel mode = (if mode = ''inherit'' then ''Network default'' else policyModeLabel mode)"

definition deviceModeClass :: "string \<Rightarrow> string" where
  "deviceModeClass mode = (if mode = ''inherit'' then ''fn-status-off'' else policyModeClass mode)"

section \<open>Devices\<close>

fun pairs :: "string \<Rightarrow> string list" where
  "pairs (a # b # s) = [a, b] # pairs s"
| "pairs _ = []"

definition normalizeMac :: "jsval \<Rightarrow> string option" where
  "normalizeMac v =
     (let compact = filter (\<lambda>c. c \<notin> set '':-.'') (trim (arg_str v))
      in if length compact = 12 \<and> list_all is_xdigit compact then Some (upper (join '':'' (pairs compact))) else None)"

definition readMacList :: "jsval \<Rightarrow> string list" where
  "readMacList v = foldl add_new [] (List.map_filter normalizeMac (listValue_acl v))"

definition acl_stations :: "ubus \<Rightarrow> jsval \<Rightarrow> (string \<times> jsval) list" where
  "acl_stations ubusCall wstatus =
     foldl (\<lambda>stations iface.
        let network = index0 (field (field iface ''config'') ''network'')
        in foldl (\<lambda>acc s. case normalizeMac (field s ''mac'') of
                     Some mac \<Rightarrow> assoc_set mac (or_else network (JStr ''lan'')) acc | None \<Rightarrow> acc)
             stations (call_or ubusCall ''iwinfo'' ''assoclist'' (JObj [(''device'', field iface ''ifname'')])
               (result_list ''results'') []))
       [] (filter (\<lambda>iface. truthy (field iface ''ifname''))
            (concat (map (\<lambda>(_, radio). elements (or_else (field (or_else radio (JObj [])) ''interfaces'') (JArr [])))
               (object_properties (or_else wstatus (JObj []))))))"

definition networkLabel :: "jsval \<Rightarrow> jsval" where
  "networkLabel network0 =
     (let network = (if is_array network0 then index0 network0 else network0)
      in if network = JStr ''lan'' then JStr ''Home network''
         else if network = JStr ''guest'' then JStr ''Guest network''
         else or_else network (JStr ''Unassigned network''))"

definition bandLabel :: "jsval \<Rightarrow> jsval" where
  "bandLabel radio =
     (let band = lower (arg_str (and_then radio (field radio ''band'')))
      in if band \<in> {''2g'', ''2.4g'', ''2.4ghz''} then JStr ''2.4 GHz''
         else if band \<in> {''5g'', ''5ghz''} then JStr ''5 GHz''
         else if band \<in> {''6g'', ''6ghz''} then JStr ''6 GHz''
         else or_else (and_then radio (field radio ''.name'')) (JStr ''Wi-Fi radio''))"

definition aclMode :: "jsval \<Rightarrow> string" where
  "aclMode iface =
     (let mode = lower (arg_str (field iface ''macfilter'')) in if mode = ''allow'' \<or> mode = ''deny'' then mode else ''disabled'')"

definition ifaceNetwork :: "jsval \<Rightarrow> jsval" where
  "ifaceNetwork iface =
     (let network = and_then iface (field iface ''network'')
      in or_else (if is_array network then index0 network else network) (JStr ''lan''))"

definition networkOrder :: "jsval \<Rightarrow> int" where
  "networkOrder network = (if network = JStr ''lan'' then 0 else if network = JStr ''guest'' then 1 else 2)"

definition modeLabel :: "string \<Rightarrow> string" where
  "modeLabel mode = (if mode = ''allow'' then ''Allow list'' else if mode = ''deny'' then ''Deny list'' else ''Disabled'')"

definition modeStatusClass :: "string \<Rightarrow> string" where
  "modeStatusClass mode = (if mode = ''allow'' then ''fn-status-ok'' else if mode = ''deny'' then ''fn-status-warn'' else ''fn-status-off'')"

record acl_client =
  ac_mac :: string
  ac_label :: jsval
  ac_ipaddr :: jsval
  ac_network :: jsval
  ac_source :: string
  ac_policyNetwork :: jsval

definition compare_clients :: "(string \<Rightarrow> string \<Rightarrow> int) \<Rightarrow> acl_client \<Rightarrow> acl_client \<Rightarrow> int" where
  "compare_clients localeCompare a b =
     or_zero (localeCompare (to_str (or_else (ac_label a) (JStr (ac_mac a)))) (to_str (or_else (ac_label b) (JStr (ac_mac b)))))
       (localeCompare (ac_mac a) (ac_mac b))"

definition lease_client :: "(string \<times> acl_client) list \<Rightarrow> jsval \<Rightarrow> (string \<times> acl_client) list" where
  "lease_client clients lease =
     (case normalizeMac (or_else (field lease ''macaddr'') (field lease ''mac'')) of
        None \<Rightarrow> clients
      | Some mac \<Rightarrow> assoc_set mac \<lparr>ac_mac = mac,
          ac_label = or_else (or_else (or_else (field lease ''hostname'') (field lease ''name'')) (field lease ''ipaddr'')) (JStr []),
          ac_ipaddr = (if acl_ipv4 (field lease ''ipaddr'') then field lease ''ipaddr'' else JStr []),
          ac_network = or_else (field lease ''network'') (JStr []), ac_source = ''lease'', ac_policyNetwork = JUndef\<rparr> clients)"

definition station_client :: "(string \<times> acl_client) list \<Rightarrow> string \<times> jsval \<Rightarrow> (string \<times> acl_client) list" where
  "station_client clients = (\<lambda>(mac, network).
     case map_of clients mac of
       None \<Rightarrow> assoc_set mac \<lparr>ac_mac = mac, ac_label = JStr ''Connected Wi-Fi client'', ac_ipaddr = JUndef,
          ac_network = or_else network (JStr []), ac_source = ''wifi'', ac_policyNetwork = JUndef\<rparr> clients
     | Some c \<Rightarrow> if \<not> truthy (ac_network c) \<and> truthy network
                 then assoc_set mac (c\<lparr>ac_network := network\<rparr>) clients else clients)"

definition collectClients :: "(string \<Rightarrow> string \<Rightarrow> int) \<Rightarrow> jsval list \<Rightarrow> (string \<times> jsval) list \<Rightarrow> acl_client list" where
  "collectClients localeCompare leases stations =
     sort_by (compare_clients localeCompare)
       (map snd (foldl station_client (foldl lease_client [] leases) stations))"

section \<open>Reading the policies\<close>

record acl_view =
  v_network :: jsval
  v_firewall :: jsval
  v_pbr :: jsval
  v_wireless :: jsval
  v_pbrSection :: jsval
  v_clients :: "acl_client list"

record device_policy =
  dp_mode :: string
  dp_vpnInterface :: jsval
  dp_network :: jsval

definition currentPolicy :: "acl_view \<Rightarrow> jsval \<Rightarrow> string \<times> jsval" where
  "currentPolicy V network =
     (let p = field (v_pbr V) (managedPolicySection network);
          block = field (v_firewall V) (managedBlockSection network);
          active = (\<lambda>s. truthy s \<and> field s ''freenetic_managed'' = JStr ''1'' \<and> field s ''enabled'' \<noteq> JStr ''0'')
      in if active p \<and> field p ''interface'' = JStr ''wan'' then (''direct'', JStr [])
         else if active p \<and> truthy (field p ''interface'') then (''vpn'', field p ''interface'')
         else if active block then (''block'', JStr []) else (''direct'', JStr []))"

definition currentDevicePolicy :: "acl_view \<Rightarrow> string \<Rightarrow> device_policy" where
  "currentDevicePolicy V mac =
     (let pbr = field (v_pbr V) (managedDeviceSection mac);
          block = field (v_firewall V) (managedDeviceBlockSection mac);
          allow = field (v_firewall V) (managedDeviceAllowSection mac);
          enabled = (\<lambda>s. field s ''enabled'' \<noteq> JStr ''0'');
          net = (\<lambda>s. or_else (field s ''freenetic_network'') (JStr []));
          managed = isManagedSection pbr ''device'' \<and> enabled pbr
      in if managed \<and> field pbr ''interface'' = JStr ''wan''
         then \<lparr>dp_mode = ''direct'', dp_vpnInterface = JStr [], dp_network = net pbr\<rparr>
         else if managed \<and> truthy (field pbr ''interface'')
         then \<lparr>dp_mode = ''vpn'', dp_vpnInterface = field pbr ''interface'', dp_network = net pbr\<rparr>
         else if isManagedSection block ''device'' \<and> enabled block
         then \<lparr>dp_mode = ''block'', dp_vpnInterface = JStr [], dp_network = net block\<rparr>
         else if isManagedSection allow ''device-allow'' \<and> enabled allow
         then \<lparr>dp_mode = ''direct'', dp_vpnInterface = JStr [], dp_network = net allow\<rparr>
         else \<lparr>dp_mode = ''inherit'', dp_vpnInterface = JStr [],
                dp_network = or_else (and_then allow (field allow ''freenetic_network'')) (JStr [])\<rparr>)"

definition vpnInterfaces :: "acl_view \<Rightarrow> jsval list" where
  "vpnInterfaces V = filter (\<lambda>section. field section ''.type'' = JStr ''interface'' \<and> isVpnInterface section
       \<and> field section ''disabled'' \<noteq> JStr ''1'') (section_values (v_network V))"

definition wifi_networks :: "acl_view \<Rightarrow> string list" where
  "wifi_networks V =
     foldl add_new [] (map to_str (filter truthy (concat (map
        (\<lambda>iface. listValue_acl (or_else (field iface ''network'') (JStr ''lan'')))
        (filter (\<lambda>iface. field iface ''.type'' = JStr ''wifi-iface'' \<and> or_else (field iface ''mode'') (JStr ''ap'') = JStr ''ap'')
          (section_values (v_wireless V)))))))"

definition local_segment :: "string list \<Rightarrow> jsval \<Rightarrow> bool" where
  "local_segment wifiNetworks section \<longleftrightarrow>
     (let name = sectionName_acl section; proto = section_proto section
      in field section ''.type'' = JStr ''interface'' \<and> truthy name
         \<and> name \<notin> {JStr ''loopback'', JStr ''wan'', JStr ''wan6''}
         \<and> \<not> isVpnInterface section \<and> proto \<noteq> ''dhcp'' \<and> proto \<noteq> ''dhcpv6''
         \<and> (to_str name \<in> set wifiNetworks \<or> proto = ''static'' \<or> truthy (field section ''ipaddr'')))"

definition policyNetworks :: "(string \<Rightarrow> string \<Rightarrow> int) \<Rightarrow> acl_view \<Rightarrow> string list" where
  "policyNetworks localeCompare V =
     (let wifiNetworks = wifi_networks V;
          names = foldl add_new (foldl add_new []
             (map (to_str \<circ> sectionName_acl) (filter (local_segment wifiNetworks) (section_values (v_network V))))) wifiNetworks
      in sort_by (\<lambda>a b. or_zero (networkOrder (JStr a) - networkOrder (JStr b)) (localeCompare a b)) names)"

definition clientNetwork :: "(string \<Rightarrow> string \<Rightarrow> int) \<Rightarrow> acl_view \<Rightarrow> acl_client option \<Rightarrow> jsval" where
  "clientNetwork localeCompare V client =
     (case client of
        None \<Rightarrow> JStr []
      | Some c \<Rightarrow>
          (let known = (\<lambda>n. truthy n \<and> truthy (field (v_network V) (to_str n)))
           in if known (ac_policyNetwork c) then ac_policyNetwork c
              else if known (ac_network c) then ac_network c
              else if \<not> truthy (ac_ipaddr c) then JStr []
              else (case find (\<lambda>name. cidrContains
                        (case networkCidr (field (v_network V) name) of Some s \<Rightarrow> JStr s | None \<Rightarrow> JNull) (ac_ipaddr c))
                      (policyNetworks localeCompare V) of
                      Some name \<Rightarrow> JStr name | None \<Rightarrow> JStr [])))"

definition remember_device :: "jsval \<Rightarrow> (string \<times> acl_client) list \<Rightarrow> jsval \<Rightarrow> (string \<times> acl_client) list" where
  "remember_device section byMac v =
     (case normalizeMac v of
        None \<Rightarrow> byMac
      | Some mac \<Rightarrow>
          (let c = (case map_of byMac mac of Some c \<Rightarrow> c
                    | None \<Rightarrow> \<lparr>ac_mac = mac, ac_label = JStr ''Configured device'', ac_ipaddr = JUndef, ac_network = JUndef,
                        ac_source = ''policy'', ac_policyNetwork = JUndef\<rparr>)
           in assoc_set mac
                (if \<not> truthy (ac_policyNetwork c) \<and> truthy (field section ''freenetic_network'')
                 then c\<lparr>ac_policyNetwork := field section ''freenetic_network''\<rparr> else c) byMac))"

definition managedDeviceEntries :: "(string \<Rightarrow> string \<Rightarrow> int) \<Rightarrow> acl_view \<Rightarrow> acl_client list" where
  "managedDeviceEntries localeCompare V =
     (let byMac0 = foldl (\<lambda>m c. assoc_set (ac_mac c) c m) [] (v_clients V);
          read = (\<lambda>option section m. foldl (remember_device section) m
             (listValue_acl (or_else (field section ''freenetic_mac'') (field section option))));
          byMac1 = foldl (\<lambda>m section. if isManagedSection section ''device'' then read ''src_addr'' section m else m)
             byMac0 (section_values (v_pbr V));
          byMac2 = foldl (\<lambda>m section. if isManagedSection section ''device'' \<or> isManagedSection section ''device-allow''
               then read ''src_mac'' section m else m)
             byMac1 (section_values (v_firewall V))
      in sort_by (compare_clients localeCompare) (map snd byMac2))"

end
