(* ===== verification/Policy_Save.thy ===== *)
theory Policy_Save
  imports Policy Guest_Network
begin

text \<open>
  Saving a traffic policy (\<open>view/network/freenetic-wifi-acl.js\<close>).  The handlers check their input,
  edit the store, and then save, apply and restart.  A section identifier that the code passes to
  the store is a JavaScript value: where the code passes the section itself instead of its name, the
  store looks for the name \<open>[object Object]\<close>.
\<close>

section \<open>The store\<close>

text \<open>The operations of the store, with removal of an option and a change of the order of sections.\<close>

record 'u acl_uci =
  au_base :: "'u uci"
  au_unset :: "'u \<Rightarrow> string \<Rightarrow> string \<Rightarrow> string \<Rightarrow> 'u"
  au_move :: "'u \<Rightarrow> string \<Rightarrow> string \<Rightarrow> string \<Rightarrow> 'u"

definition au_get :: "'u acl_uci \<Rightarrow> 'u \<Rightarrow> string \<Rightarrow> string \<Rightarrow> jsval" where
  "au_get A = uci_get (au_base A)"

definition au_sections :: "'u acl_uci \<Rightarrow> 'u \<Rightarrow> string \<Rightarrow> string \<Rightarrow> jsval list" where
  "au_sections A = uci_sections (au_base A)"

definition au_remove :: "'u acl_uci \<Rightarrow> string \<Rightarrow> string \<Rightarrow> 'u \<Rightarrow> 'u" where
  "au_remove A c n u = uci_remove (au_base A) u c n"

definition au_set :: "'u acl_uci \<Rightarrow> string \<Rightarrow> jsval \<Rightarrow> (string \<times> jsval) list \<Rightarrow> 'u \<Rightarrow> 'u" where
  "au_set A c sid kvs u = set_options (au_base A) c (to_str sid) kvs u"

text \<open>\<open>existing || uci.add(config, type, name)\<close>\<close>

definition au_ensure :: "'u acl_uci \<Rightarrow> string \<Rightarrow> string \<Rightarrow> string \<Rightarrow> jsval \<Rightarrow> 'u \<Rightarrow> jsval \<times> 'u" where
  "au_ensure A c t n existing u =
     (if truthy existing then (existing, u) else (JStr n, uci_add (au_base A) u c t n))"

definition au_place :: "'u acl_uci \<Rightarrow> string \<Rightarrow> jsval \<Rightarrow> jsval \<Rightarrow> 'u \<Rightarrow> 'u" where
  "au_place A c sid before u =
     (if truthy before \<and> before \<noteq> sid then au_move A u c (to_str sid) (to_str before) else u)"

section \<open>Global state of the routing service\<close>

definition policy_enabled :: "jsval \<Rightarrow> bool" where
  "policy_enabled section \<longleftrightarrow> field section ''enabled'' \<noteq> JStr ''0''"

definition reconcileGlobalPbr :: "'u acl_uci \<Rightarrow> jsval \<Rightarrow> 'u \<Rightarrow> 'u" where
  "reconcileGlobalPbr A pbrSection u =
     (if \<not> truthy pbrSection then u
      else let configName = or_else (sectionName_acl pbrSection) (JStr ''config'');
               config = au_get A u ''pbr'' (to_str configName);
               managed = list_ex (\<lambda>s. isManagedSection s [] \<and> policy_enabled s) (au_sections A u ''pbr'' ''policy'');
               marker = (field config ''freenetic_managed'' = JStr ''1'')
           in if managed
              then (let u' = au_set A ''pbr'' configName [(''enabled'', JStr ''1'')] u
                    in if marker \<or> \<not> policy_enabled config
                       then au_set A ''pbr'' configName [(''freenetic_managed'', JStr ''1'')] u' else u')
              else if \<not> marker then u
              else let foreignEnabled = list_ex (\<lambda>s. \<not> isManagedSection s [] \<and> policy_enabled s)
                         (au_sections A u ''pbr'' ''policy'' @ au_sections A u ''pbr'' ''include'');
                       u' = (if \<not> foreignEnabled then au_set A ''pbr'' configName [(''enabled'', JStr ''0'')] u else u)
                   in au_unset A u' ''pbr'' (to_str configName) ''freenetic_managed'')"

definition reorderManagedPbrPolicies :: "'u acl_uci \<Rightarrow> 'u \<Rightarrow> 'u" where
  "reorderManagedPbrPolicies A u =
     (let sections = au_sections A u ''pbr'' ''policy'';
          devices = filter (\<lambda>s. isManagedSection s ''device'') sections;
          networks = filter (\<lambda>s. isManagedSection s [] \<and> field s ''freenetic_scope'' \<noteq> JStr ''device'') sections
      in if devices = [] \<or> networks = [] then u
         else let firstNetwork = field (hd networks) ''.name''
              in foldl (\<lambda>u d. au_move A u ''pbr'' (to_str (field d ''.name'')) (to_str firstNetwork)) u (rev devices))"

section \<open>Exceptions of devices\<close>

definition exception_mac :: "string \<Rightarrow> string \<Rightarrow> jsval \<Rightarrow> string option" where
  "exception_mac network option section =
     (if field section ''freenetic_network'' \<noteq> JStr network then None
      else normalizeMac (or_else (field section ''freenetic_mac'') (field section option)))"

definition exception_macs :: "'u acl_uci \<Rightarrow> string \<Rightarrow> 'u \<Rightarrow> string list" where
  "exception_macs A network u =
     foldl add_new []
       (List.map_filter (exception_mac network ''src_addr'')
          (filter (\<lambda>s. isManagedSection s ''device'' \<and> policy_enabled s) (au_sections A u ''pbr'' ''policy''))
        @ List.map_filter (exception_mac network ''src_mac'')
            (filter (\<lambda>s. isManagedSection s ''device-allow'') (au_sections A u ''firewall'' ''rule'')))"

definition client_label :: "(string \<times> acl_client) list \<Rightarrow> string \<Rightarrow> string" where
  "client_label clientByMac mac =
     (case map_of clientByMac mac of
        Some c \<Rightarrow> if truthy (ac_label c) \<and> ac_label c \<noteq> ac_ipaddr c then to_str (ac_label c) else mac
      | None \<Rightarrow> mac)"

definition allow_options :: "string \<Rightarrow> jsval \<Rightarrow> jsval \<Rightarrow> string \<Rightarrow> jsval \<Rightarrow> (string \<times> jsval) list" where
  "allow_options label zone wanZone mac network =
     [(''name'', JStr (''Freenetic '' @ em_dash @ '' Allow device override for '' @ label)),
      (''src'', zone), (''dest'', wanZone), (''src_mac'', JArr [JStr (lower mac)]), (''target'', JStr ''ACCEPT''),
      (''enabled'', JStr ''1''), (''freenetic_managed'', JStr ''1''), (''freenetic_scope'', JStr ''device-allow''),
      (''freenetic_mac'', JStr mac), (''freenetic_network'', network)]"

definition exception_name_used :: string where
  "exception_name_used = ''A non-Freenetic firewall rule already uses this device exception name.''"

definition sync_exception ::
    "'u acl_uci \<Rightarrow> (string \<times> acl_client) list \<Rightarrow> string \<Rightarrow> jsval \<Rightarrow> jsval \<Rightarrow> jsval \<Rightarrow> string \<Rightarrow> 'u \<Rightarrow> 'u \<times> string option" where
  "sync_exception A clientByMac network zone wanZone segmentBlock mac u =
     (let allowSectionName = managedDeviceAllowSection mac;
          existingAllow = au_get A u ''firewall'' allowSectionName
      in if truthy existingAllow \<and> \<not> isManagedSection existingAllow ''device-allow''
         then (u, Some exception_name_used)
         else if isManagedSection segmentBlock [] \<and> truthy zone \<and> truthy wanZone
         then (let (section, u) = au_ensure A ''firewall'' ''rule'' allowSectionName existingAllow u;
                   u = au_set A ''firewall'' section
                     (allow_options (client_label clientByMac mac) zone wanZone mac (JStr network)) u
               in (au_move A u ''firewall'' (to_str section) (managedBlockSection (JStr network)), None))
         else if truthy existingAllow \<and> isManagedSection existingAllow ''device-allow''
         then (au_remove A ''firewall'' allowSectionName u, None)
         else (u, None))"

definition syncDeviceFirewallExceptions ::
    "'u acl_uci \<Rightarrow> (string \<times> acl_client) list \<Rightarrow> string \<Rightarrow> jsval \<Rightarrow> jsval \<Rightarrow> 'u \<Rightarrow> 'u \<times> string option" where
  "syncDeviceFirewallExceptions A clientByMac network zone wanZone u =
     (let segmentBlock = au_get A u ''firewall'' (managedBlockSection (JStr network))
      in for_each (sync_exception A clientByMac network zone wanZone segmentBlock)
           (filter (\<lambda>mac. mac \<noteq> []) (exception_macs A network u)) u)"

section \<open>The policy of a segment\<close>

record acl_options =
  o_mode :: string
  o_vpnInterface :: jsval
  o_cidr :: jsval
  o_network :: jsval
  o_zone :: jsval
  o_wanZone :: jsval
  o_pbrAvailable :: bool

definition segment_label :: "acl_view \<Rightarrow> string \<Rightarrow> string" where
  "segment_label V network =
     (let section = field (v_network V) network
      in to_str (or_else (and_then section (or_else (field section ''label'') (networkLabel (JStr network)))) (JStr network)))"

definition segment_pbr :: "acl_view \<Rightarrow> acl_options \<Rightarrow> string \<Rightarrow> (string \<times> jsval) list" where
  "segment_pbr V opts network =
     [(''name'', JStr (''Freenetic '' @ em_dash @ '' '' @ segment_label V network)),
      (''interface'', if o_mode opts = ''vpn'' then o_vpnInterface opts else JStr ''wan''), (''src_addr'', o_cidr opts),
      (''enabled'', JStr ''1''), (''freenetic_managed'', JStr ''1''), (''freenetic_scope'', JStr ''network''),
      (''freenetic_network'', JStr network)]"

definition segment_block :: "acl_view \<Rightarrow> acl_options \<Rightarrow> string \<Rightarrow> (string \<times> jsval) list" where
  "segment_block V opts network =
     [(''name'', JStr (''Freenetic '' @ em_dash @ '' Block Internet from '' @ segment_label V network)),
      (''src'', o_zone opts), (''dest'', o_wanZone opts), (''target'', JStr ''REJECT''), (''enabled'', JStr ''1''),
      (''freenetic_managed'', JStr ''1''), (''freenetic_scope'', JStr ''network''), (''freenetic_network'', JStr network)]"

definition first_rule :: "'u acl_uci \<Rightarrow> 'u \<Rightarrow> jsval" where
  "first_rule A u = (case au_sections A u ''firewall'' ''rule'' of [] \<Rightarrow> JUndef | s # _ \<Rightarrow> sectionName_acl s)"

definition marked :: "jsval \<Rightarrow> bool" where
  "marked section \<longleftrightarrow> field section ''freenetic_managed'' = JStr ''1''"

definition edit_segment_pbr :: "'u acl_uci \<Rightarrow> acl_view \<Rightarrow> acl_options \<Rightarrow> string \<Rightarrow> jsval \<Rightarrow> 'u \<Rightarrow> 'u" where
  "edit_segment_pbr A V opts network existing u =
     (let pbrSection = managedPolicySection (JStr network)
      in if \<not> o_pbrAvailable opts then u
         else if o_mode opts = ''direct'' \<or> o_mode opts = ''vpn''
         then (let (section, u) = au_ensure A ''pbr'' ''policy'' pbrSection existing u
               in au_set A ''pbr'' section (segment_pbr V opts network) u)
         else if truthy existing \<and> marked existing then au_remove A ''pbr'' pbrSection u else u)"

definition edit_segment_block :: "'u acl_uci \<Rightarrow> acl_view \<Rightarrow> acl_options \<Rightarrow> string \<Rightarrow> jsval \<Rightarrow> 'u \<Rightarrow> 'u" where
  "edit_segment_block A V opts network existingBlock u =
     (let blockSection = managedBlockSection (JStr network)
      in if o_mode opts = ''block''
         then (let firstRule = first_rule A u;
                   (section, u) = (if truthy existingBlock then (sectionName_acl existingBlock, u)
                                   else (JStr blockSection, uci_add (au_base A) u ''firewall'' ''rule'' blockSection))
               in au_place A ''firewall'' section firstRule (au_set A ''firewall'' section (segment_block V opts network) u))
         else if truthy existingBlock \<and> marked existingBlock then au_remove A ''firewall'' blockSection u else u)"

text \<open>The edits of one save; the error is the message of an exception.\<close>

definition edit_policy ::
    "'u acl_uci \<Rightarrow> acl_view \<Rightarrow> (string \<times> acl_client) list \<Rightarrow> string \<Rightarrow> acl_options \<Rightarrow> 'u \<Rightarrow> 'u \<times> string option" where
  "edit_policy A V clientByMac network opts u =
     (let existing = (if o_pbrAvailable opts then au_get A u ''pbr'' (managedPolicySection (JStr network)) else JBool False);
          existingBlock = au_get A u ''firewall'' (managedBlockSection (JStr network))
      in if truthy existing \<and> \<not> marked existing
         then (u, Some ''A non-Freenetic pbr policy already uses this name.'')
         else if truthy existingBlock \<and> \<not> marked existingBlock
         then (u, Some ''A non-Freenetic firewall rule already uses this name.'')
         else (let u = edit_segment_pbr A V opts network existing u;
                   u = edit_segment_block A V opts network existingBlock u
               in if \<not> o_pbrAvailable opts then (u, None)
                  else (case syncDeviceFirewallExceptions A clientByMac network (o_zone opts) (o_wanZone opts) u of
                      (u, Some e) \<Rightarrow> (u, Some e)
                    | (u, None) \<Rightarrow> (reorderManagedPbrPolicies A (reconcileGlobalPbr A (v_pbrSection V) u), None))))"

section \<open>The policy of a device\<close>

definition device_pbr :: "acl_options \<Rightarrow> string \<Rightarrow> string \<Rightarrow> (string \<times> jsval) list" where
  "device_pbr opts mac label =
     [(''name'', JStr (''Freenetic '' @ em_dash @ '' '' @ label)),
      (''interface'', if o_mode opts = ''vpn'' then o_vpnInterface opts else JStr ''wan''), (''src_addr'', JStr (lower mac)),
      (''enabled'', JStr ''1''), (''freenetic_managed'', JStr ''1''), (''freenetic_scope'', JStr ''device''),
      (''freenetic_mac'', JStr mac)]"

definition device_block :: "acl_options \<Rightarrow> string \<Rightarrow> string \<Rightarrow> (string \<times> jsval) list" where
  "device_block opts mac label =
     [(''name'', JStr (''Freenetic '' @ em_dash @ '' Block Internet from '' @ label)),
      (''src'', o_zone opts), (''dest'', o_wanZone opts), (''src_mac'', JArr [JStr (lower mac)]), (''target'', JStr ''REJECT''),
      (''enabled'', JStr ''1''), (''freenetic_managed'', JStr ''1''), (''freenetic_scope'', JStr ''device''),
      (''freenetic_mac'', JStr mac), (''freenetic_network'', o_network opts)]"

definition edit_device_pbr :: "'u acl_uci \<Rightarrow> acl_options \<Rightarrow> string \<Rightarrow> string \<Rightarrow> jsval \<Rightarrow> 'u \<Rightarrow> 'u" where
  "edit_device_pbr A opts mac label existing u =
     (if \<not> o_pbrAvailable opts then u
      else if o_mode opts = ''direct'' \<or> o_mode opts = ''vpn''
      then (let (section, u) = au_ensure A ''pbr'' ''policy'' (managedDeviceSection mac) existing u;
                u = au_set A ''pbr'' section (device_pbr opts mac label) u
            in if truthy (o_network opts) then au_set A ''pbr'' section [(''freenetic_network'', o_network opts)] u
               else au_unset A u ''pbr'' (to_str section) ''freenetic_network'')
      else if truthy existing \<and> isManagedSection existing ''device''
      then au_remove A ''pbr'' (managedDeviceSection mac) u else u)"

definition edit_device_block :: "'u acl_uci \<Rightarrow> acl_options \<Rightarrow> string \<Rightarrow> string \<Rightarrow> jsval \<Rightarrow> 'u \<Rightarrow> 'u" where
  "edit_device_block A opts mac label existingBlock u =
     (if o_mode opts = ''block''
      then (let firstRule = first_rule A u;
                (section, u) = (if truthy existingBlock then (sectionName_acl existingBlock, u)
                  else (JStr (managedDeviceBlockSection mac),
                        uci_add (au_base A) u ''firewall'' ''rule'' (managedDeviceBlockSection mac)))
            in au_place A ''firewall'' section firstRule (au_set A ''firewall'' section (device_block opts mac label) u))
      else if truthy existingBlock \<and> isManagedSection existingBlock ''device''
      then au_remove A ''firewall'' (managedDeviceBlockSection mac) u else u)"

definition edit_device_allow :: "'u acl_uci \<Rightarrow> acl_options \<Rightarrow> string \<Rightarrow> string \<Rightarrow> jsval \<Rightarrow> 'u \<Rightarrow> 'u" where
  "edit_device_allow A opts mac label existingAllow u =
     (let network = to_str (o_network opts); zones = (truthy (o_zone opts) \<and> truthy (o_wanZone opts));
          segmentBlock = and_then (o_network opts) (au_get A u ''firewall'' (managedBlockSection (o_network opts)))
      in if o_mode opts = ''direct'' \<and> zones \<or> o_mode opts = ''vpn'' \<and> isManagedSection segmentBlock [] \<and> zones
         then (let firstRule = first_rule A u;
                   (section, u) = au_ensure A ''firewall'' ''rule'' (managedDeviceAllowSection mac) existingAllow u;
                   u = au_set A ''firewall'' section
                     (allow_options label (o_zone opts) (o_wanZone opts) mac (o_network opts)) u;
                   before = (if o_mode opts = ''direct'' then firstRule else JStr (managedBlockSection (o_network opts)))
               in au_place A ''firewall'' section before u)
         else if truthy existingAllow \<and> isManagedSection existingAllow ''device-allow''
         then au_remove A ''firewall'' (managedDeviceAllowSection mac) u else u)"

definition edit_device ::
    "'u acl_uci \<Rightarrow> acl_view \<Rightarrow> (string \<times> acl_client) list \<Rightarrow> string \<Rightarrow> acl_options \<Rightarrow> 'u \<Rightarrow> 'u \<times> string option" where
  "edit_device A V clientByMac mac opts u =
     (let label = client_label clientByMac mac;
          existing = (if o_pbrAvailable opts then au_get A u ''pbr'' (managedDeviceSection mac) else JBool False);
          existingBlock = au_get A u ''firewall'' (managedDeviceBlockSection mac);
          existingAllow = au_get A u ''firewall'' (managedDeviceAllowSection mac)
      in if truthy existing \<and> \<not> isManagedSection existing ''device''
         then (u, Some ''A non-Freenetic pbr policy already uses this device name.'')
         else if truthy existingBlock \<and> \<not> isManagedSection existingBlock ''device''
         then (u, Some ''A non-Freenetic firewall rule already uses this device name.'')
         else if truthy existingAllow \<and> \<not> isManagedSection existingAllow ''device-allow''
         then (u, Some exception_name_used)
         else (let u = edit_device_pbr A opts mac label existing u;
                   u = edit_device_block A opts mac label existingBlock u;
                   u = edit_device_allow A opts mac label existingAllow u
               in (if o_pbrAvailable opts then reorderManagedPbrPolicies A (reconcileGlobalPbr A (v_pbrSection V) u) else u, None)))"

section \<open>The handlers\<close>

text \<open>Loading, saving and applying fail with a message, or not; the helper restarts the service.\<close>

record acl_services =
  sv_load :: "string option"
  sv_save :: "string option"
  sv_apply :: "string option"
  sv_fs :: fs_ops

record 'u save_result =
  sr_store :: 'u
  sr_notices :: "(string \<times> string) list"
  sr_saved :: bool
  sr_refreshed :: bool

definition PBR_RESTART_HELPER :: string where "PBR_RESTART_HELPER = ''/usr/libexec/freenetic-pbr-restart''"

definition restartPbr :: "fs_ops \<Rightarrow> jsval" where
  "restartPbr fs =
     (case fs_exec fs PBR_RESTART_HELPER [] of
        Inl e \<Rightarrow> JObj [(''ok'', JBool False), (''error'', JStr e)]
      | Inr result \<Rightarrow>
          if \<not> truthy result \<or> field result ''ok'' \<noteq> JBool True
          then JObj [(''ok'', JBool False), (''error'', or_else (and_then result (field result ''error''))
                 (JStr ''The policy routing service did not restart.''))]
          else result)"

text \<open>A handler that only warns.\<close>

definition warn :: "'u \<Rightarrow> string \<Rightarrow> 'u save_result" where
  "warn u message = \<lparr>sr_store = u, sr_notices = [(''warning'', message)], sr_saved = False, sr_refreshed = False\<rparr>"

definition run_save :: "acl_services \<Rightarrow> bool \<Rightarrow> ('u \<Rightarrow> 'u \<times> string option) \<Rightarrow> string \<Rightarrow> string \<Rightarrow> string \<Rightarrow> 'u \<Rightarrow> 'u save_result" where
  "run_save sv restart edit failed unloaded done_text u0 =
     (let fail = (\<lambda>u saved e. \<lparr>sr_store = u, sr_notices = [(''danger'', failed @ e)], sr_saved = saved, sr_refreshed = False\<rparr>)
      in case sv_load sv of
           Some e \<Rightarrow> fail u0 False e
         | None \<Rightarrow>
             (case edit u0 of
                (u, Some e) \<Rightarrow> fail u False e
              | (u, None) \<Rightarrow>
                  (case (sv_save sv, sv_apply sv) of
                     (Some e, _) \<Rightarrow> fail u False e
                   | (None, Some e) \<Rightarrow> fail u True e
                   | (None, None) \<Rightarrow>
                       (let result = (if restart then restartPbr (sv_fs sv) else JObj [(''ok'', JBool True)])
                        in \<lparr>sr_store = u,
                            sr_notices = [if truthy result \<and> field result ''ok'' = JBool False
                                          then (''warning'', unloaded @ to_str (field result ''error''))
                                          else (''info'', done_text)],
                            sr_saved = True, sr_refreshed = True\<rparr>))))"

definition savePolicy ::
    "'u acl_uci \<Rightarrow> acl_services \<Rightarrow> acl_view \<Rightarrow> (string \<times> acl_client) list \<Rightarrow> string \<Rightarrow> acl_options \<Rightarrow> 'u \<Rightarrow> 'u save_result" where
  "savePolicy A sv V clientByMac network opts u =
     (if \<not> truthy (o_cidr opts) \<and> o_mode opts \<noteq> ''block''
      then warn u ''Set an IPv4 address and subnet mask for this network first.''
      else if o_mode opts = ''vpn'' \<and> (\<not> o_pbrAvailable opts \<or> \<not> truthy (o_vpnInterface opts))
      then warn u ''Install Policy-based routing and configure a VPN connection first.''
      else if o_mode opts = ''block'' \<and> (\<not> truthy (o_zone opts) \<or> \<not> truthy (o_wanZone opts))
      then warn u ''A firewall zone for this network and the Internet is required.''
      else run_save sv (o_pbrAvailable opts) (edit_policy A V clientByMac network opts)
             ''Failed to save traffic policy: ''
             ''Traffic policy saved, but policy routing could not be reloaded: ''
             (''Traffic policy saved for '' @ to_str (networkLabel (JStr network)) @ ''.'') u)"

definition saveDevicePolicy ::
    "'u acl_uci \<Rightarrow> acl_services \<Rightarrow> acl_view \<Rightarrow> (string \<times> acl_client) list \<Rightarrow> string \<Rightarrow> acl_options \<Rightarrow> 'u \<Rightarrow> 'u save_result" where
  "saveDevicePolicy A sv V clientByMac mac opts u =
     (let known = (truthy (o_network opts) \<and> truthy (o_zone opts) \<and> truthy (o_wanZone opts))
      in if o_mode opts = ''vpn'' \<and> (\<not> o_pbrAvailable opts \<or> \<not> truthy (o_vpnInterface opts))
         then warn u ''Install Policy-based routing and configure a VPN connection first.''
         else if o_mode opts = ''block'' \<and> \<not> known
         then warn u ''A detected network segment with firewall zones is required for Block Internet.''
         else if o_mode opts = ''direct'' \<and> \<not> o_pbrAvailable opts \<and> \<not> known
         then warn u ''A detected network segment with firewall zones is required for a Direct override.''
         else run_save sv (o_pbrAvailable opts) (edit_device A V clientByMac mac opts)
                ''Failed to save device policy: ''
                ''Device policy saved, but policy routing could not be reloaded: ''
                (''Device policy saved for '' @ client_label clientByMac mac @ ''.'') u)"

text \<open>The access list of one Wi-Fi network.\<close>

definition edit_acl :: "'u acl_uci \<Rightarrow> string \<Rightarrow> string \<Rightarrow> string list \<Rightarrow> 'u \<Rightarrow> 'u" where
  "edit_acl A section mode macs u =
     (let u = (if mode = ''allow'' \<or> mode = ''deny'' then uci_set (au_base A) u ''wireless'' section ''macfilter'' (JStr mode)
               else au_unset A u ''wireless'' section ''macfilter'')
      in if macs \<noteq> [] then uci_set (au_base A) u ''wireless'' section ''maclist'' (JArr (map JStr macs))
         else au_unset A u ''wireless'' section ''maclist'')"

definition saveAcl :: "'u acl_uci \<Rightarrow> acl_services \<Rightarrow> string \<Rightarrow> string \<Rightarrow> string \<Rightarrow> string list \<Rightarrow> 'u \<Rightarrow> 'u save_result" where
  "saveAcl A sv section ssid mode macs u =
     (if mode = ''allow'' \<and> macs = [] then warn u ''An allow list must contain at least one MAC address.''
      else (run_save sv False (\<lambda>u. (edit_acl A section mode macs u, None)) ''Failed to save Wi-Fi access rules: '' []
              (''Wi-Fi access rules saved for '' @ (if ssid \<noteq> [] then ssid else section) @ ''.'') u)\<lparr>sr_refreshed := False\<rparr>)"

end
