(* ===== verification/Policy_Store.thy ===== *)
theory Policy_Store
  imports Policy_Save
begin

text \<open>
  What the traffic policies rely on: the store of \<open>Uci\<close> whose sections know their name, with
  removal of options and a change of the order.  The laws hold for a concrete store.
\<close>

section \<open>The interface\<close>

definition named :: "string \<Rightarrow> jsval \<Rightarrow> bool" where
  "named n s \<longleftrightarrow> field s ''.name'' = JStr n"

fun insert_before :: "('a \<Rightarrow> bool) \<Rightarrow> 'a \<Rightarrow> 'a list \<Rightarrow> 'a list" where
  "insert_before P x [] = []"
| "insert_before P x (y # ys) = (if P y then x # y # ys else y # insert_before P x ys)"

text \<open>The section \<open>n\<close> is taken out and put before the section \<open>m\<close>.\<close>

definition move_section :: "string \<Rightarrow> string \<Rightarrow> jsval list \<Rightarrow> jsval list" where
  "move_section n m ss =
     (case find (named n) ss of
        Some s \<Rightarrow> insert_before (named m) s (filter (\<lambda>s. \<not> named n s) ss) | None \<Rightarrow> ss)"

locale acl_store = uci_store "au_base A" for A :: "'u acl_uci" +
  assumes get_name: "au_get A u c n \<noteq> JNull \<Longrightarrow> named n (au_get A u c n)"
    and set_missing: "au_get A u c n = JNull \<Longrightarrow> au_get A (uci_set (au_base A) u c n k v) c n = JNull"
    and unset_option: "au_get A u c n \<noteq> JNull \<Longrightarrow> option_name k \<Longrightarrow>
      is_object (au_get A (au_unset A u c n k) c n)
      \<and> (\<forall>j. field (au_get A (au_unset A u c n k) c n) j = (if j = k then JUndef else field (au_get A u c n) j))"
    and unset_other: "(c', n') \<noteq> (c, n) \<Longrightarrow> au_get A (au_unset A u c n k) c' n' = au_get A u c' n'"
    and move_get: "au_get A (au_move A u c n m) c' n' = au_get A u c' n'"
    and move_sections: "list_ex (named n) (au_sections A u c t) \<Longrightarrow> list_ex (named m) (au_sections A u c t) \<Longrightarrow> n \<noteq> m \<Longrightarrow>
      au_sections A (au_move A u c n m) c t = move_section n m (au_sections A u c t)"

section \<open>A concrete store\<close>

text \<open>The name of a section is its key.\<close>

definition named_get :: "list_store \<Rightarrow> string \<Rightarrow> string \<Rightarrow> jsval" where
  "named_get u c n = (case map_of u (c, n) of None \<Rightarrow> JNull | Some ps \<Rightarrow> JObj ((''.name'', JStr n) # ps))"

definition list_move :: "list_store \<Rightarrow> string \<Rightarrow> string \<Rightarrow> string \<Rightarrow> list_store" where
  "list_move u c n m =
     (case map_of u (c, n) of
        None \<Rightarrow> u
      | Some ps \<Rightarrow> if map_of u (c, m) = None \<or> n = m then u
          else insert_before (\<lambda>p. fst p = (c, m)) ((c, n), ps) (filter (\<lambda>p. fst p \<noteq> (c, n)) u))"

definition list_acl :: "list_store acl_uci" where
  "list_acl = \<lparr>
     au_base = \<lparr>uci_get = named_get,
       uci_sections = (\<lambda>u c t. filter (\<lambda>s. field s ''.type'' = JStr t)
          (map (\<lambda>(c', n). named_get u c n) (filter (\<lambda>(c', n). c' = c) (map fst u)))),
       uci_add = (\<lambda>u c t n. assoc_set (c, n) [(''.type'', JStr t)] u),
       uci_set = (\<lambda>u c n k v. case map_of u (c, n) of None \<Rightarrow> u | Some ps \<Rightarrow> assoc_set (c, n) (assoc_set k v ps) u),
       uci_remove = (\<lambda>u c n. filter (\<lambda>(p, ps). p \<noteq> (c, n)) u)\<rparr>,
     au_unset = (\<lambda>u c n k. case map_of u (c, n) of None \<Rightarrow> u
                   | Some ps \<Rightarrow> assoc_set (c, n) (filter (\<lambda>(j, v). j \<noteq> k) ps) u),
     au_move = list_move\<rparr>"

lemma option_not_name [simp]: "option_name k \<Longrightarrow> k \<noteq> ''.name''"
  by (auto simp: option_name_def)

lemma option_not_type [simp]: "option_name k \<Longrightarrow> k \<noteq> ''.type''"
  by (auto simp: option_name_def)

lemma map_of_insert_before:
  assumes "fst x \<notin> fst ` set ys" "list_ex P ys"
  shows "map_of (insert_before P x ys) k = (if k = fst x then Some (snd x) else map_of ys k)"
  using assms
proof (induction ys)
  case (Cons y ys)
  then show ?case by (cases x; cases y) auto
qed simp

lemma map_of_filter_key': "map_of (filter (\<lambda>(j, v). j \<noteq> k) ps) i = (if i = k then None else map_of ps i)"
  by (induction ps) auto

lemma map_of_list_move: "map_of (list_move u c n m) = map_of u"
proof (cases "map_of u (c, n) = None \<or> map_of u (c, m) = None \<or> n = m")
  case True
  then show ?thesis by (auto simp: list_move_def split: option.splits)
next
  case False
  then obtain ps where ps: "map_of u (c, n) = Some ps" by auto
  from False obtain qs where "map_of u (c, m) = Some qs" by auto
  then have "((c, m), qs) \<in> set u" by (rule map_of_SomeD)
  then have ex: "list_ex (\<lambda>p. fst p = (c, m)) (filter (\<lambda>p. fst p \<noteq> (c, n)) u)"
    using False by (auto simp: list_ex_iff intro!: bexI [of _ "((c, m), qs)"])
  have flt: "map_of (filter (\<lambda>p. fst p \<noteq> (c, n)) u) k = (if k = (c, n) then None else map_of u k)" for k
    by (induction u) auto
  have new: "fst ((c, n), ps) \<notin> fst ` set (filter (\<lambda>p. fst p \<noteq> (c, n)) u)" by auto
  have "list_move u c n m = insert_before (\<lambda>p. fst p = (c, m)) ((c, n), ps) (filter (\<lambda>p. fst p \<noteq> (c, n)) u)"
    using False ps by (auto simp: list_move_def)
  then show ?thesis using map_of_insert_before [OF new ex] ps by (simp add: flt fun_eq_iff)
qed

lemma filter_insert_before:
  "\<forall>y \<in> set ys. P y \<longrightarrow> Q y \<Longrightarrow> Q x \<Longrightarrow> filter Q (insert_before P x ys) = insert_before P x (filter Q ys)"
  by (induction ys) auto

lemma map_insert_before:
  "\<forall>y \<in> set ys. P' (f y) = P y \<Longrightarrow> map f (insert_before P x ys) = insert_before P' (f x) (map f ys)"
  by (induction ys) auto

definition list_sections :: "list_store \<Rightarrow> string \<Rightarrow> string \<Rightarrow> jsval list" where
  "list_sections u c t = filter (\<lambda>s. field s ''.type'' = JStr t)
     (map (\<lambda>k. named_get u c (snd k)) (filter (\<lambda>k. fst k = c) (map fst u)))"

lemma list_acl_sections: "uci_sections (au_base list_acl) = list_sections"
  by (simp add: list_acl_def list_sections_def case_prod_unfold fun_eq_iff)

lemma named_get_name: "named_get u c n \<noteq> JNull \<Longrightarrow> named n (named_get u c n)"
  by (simp add: named_get_def named_def field_JObj split: option.splits)

lemma named_unique: "named n s \<Longrightarrow> named m s \<Longrightarrow> n = m"
  by (simp add: named_def)

lemma list_sections_get:
  assumes "s \<in> set (list_sections u c t)"
  shows "\<exists>n. named n s \<and> field s ''.type'' = JStr t \<and> named_get u c n = s"
proof -
  obtain n ps where n: "((c, n), ps) \<in> set u" "s = named_get u c n" "field s ''.type'' = JStr t"
    using assms by (auto simp: list_sections_def)
  then have "map_of u (c, n) \<noteq> None" by (metis map_of_eq_None_iff image_eqI fst_conv)
  then have "named_get u c n \<noteq> JNull" by (auto simp: named_get_def)
  then show ?thesis using n named_get_name by blast
qed

lemma list_sections_move:
  assumes n: "list_ex (named n) (list_sections u c t)" and m: "list_ex (named m) (list_sections u c t)" and "n \<noteq> m"
  shows "list_sections (list_move u c n m) c t = move_section n m (list_sections u c t)"
proof -
  let ?g = "\<lambda>k. named_get u c (snd k)" and ?t = "\<lambda>s. field s ''.type'' = JStr t"
  define K where "K = filter (\<lambda>k. fst k = c) (map fst u)"
  have secs: "list_sections u c t = filter ?t (map ?g K)" by (simp only: list_sections_def K_def)
  have key: "named x (?g k) \<longleftrightarrow> k = (c, x)" if "k \<in> set K" for k x
  proof -
    have "fst k = c" "k \<in> fst ` set u" using that by (simp_all add: K_def)
    then obtain ps where "(k, ps) \<in> set u" "fst k = c" by force
    then have "map_of u (c, snd k) \<noteq> None" by (metis map_of_eq_None_iff image_eqI fst_conv prod.collapse)
    then have "named (snd k) (?g k)" by (intro named_get_name) (auto simp: named_get_def)
    then show ?thesis using \<open>fst k = c\<close> named_unique by (metis prod.collapse snd_conv)
  qed
  have present: "\<exists>ps. map_of u (c, x) = Some ps" "?t (?g (c, x))" "(c, x) \<in> set K"
    if "list_ex (named x) (list_sections u c t)" for x
  proof -
    have "\<exists>k \<in> set K. ?t (?g k) \<and> named x (?g k)"
      using that unfolding list_ex_iff list_sections_def K_def by auto
    then obtain k where k: "k \<in> set K" "?t (?g k)" "named x (?g k)" by blast
    then have "k = (c, x)" using key by blast
    then show "?t (?g (c, x))" "(c, x) \<in> set K" using k by simp_all
    then show "\<exists>ps. map_of u (c, x) = Some ps" unfolding K_def by (auto dest: weak_map_of_SomeI)
  qed
  obtain ps where ps: "map_of u (c, n) = Some ps" using present(1) [OF n] by blast
  have mv: "list_move u c n m = insert_before (\<lambda>p. fst p = (c, m)) ((c, n), ps) (filter (\<lambda>p. fst p \<noteq> (c, n)) u)"
    using ps present(1) [OF m] \<open>n \<noteq> m\<close> by (auto simp: list_move_def)
  have get: "named_get (list_move u c n m) = named_get u" by (simp add: named_get_def map_of_list_move fun_eq_iff)
  have "map fst (list_move u c n m) = insert_before (\<lambda>k. k = (c, m)) (c, n) (filter (\<lambda>k. k \<noteq> (c, n)) (map fst u))"
    unfolding mv by (subst map_insert_before [where P' = "\<lambda>k. k = (c, m)"]) (simp_all add: filter_map comp_def)
  then have keys: "filter (\<lambda>k. fst k = c) (map fst (list_move u c n m))
      = insert_before (\<lambda>k. k = (c, m)) (c, n) (filter (\<lambda>k. k \<noteq> (c, n)) K)"
    by (simp add: filter_insert_before K_def conj_commute)
  have "map ?g (insert_before (\<lambda>k. k = (c, m)) (c, n) (filter (\<lambda>k. k \<noteq> (c, n)) K))
      = insert_before (named m) (?g (c, n)) (map ?g (filter (\<lambda>k. k \<noteq> (c, n)) K))"
    by (rule map_insert_before) (auto simp: key)
  moreover have "filter ?t (insert_before (named m) (?g (c, n)) (map ?g (filter (\<lambda>k. k \<noteq> (c, n)) K)))
      = insert_before (named m) (?g (c, n)) (filter ?t (map ?g (filter (\<lambda>k. k \<noteq> (c, n)) K)))"
    using key present(2) [OF m] present(2) [OF n] by (intro filter_insert_before) auto
  moreover have "filter ?t (map ?g (filter (\<lambda>k. k \<noteq> (c, n)) K)) = filter (\<lambda>s. \<not> named n s) (list_sections u c t)"
  proof -
    have "filter (\<lambda>k. k \<noteq> (c, n) \<and> ?t (?g k)) K = filter (\<lambda>k. ?t (?g k) \<and> \<not> named n (?g k)) K"
      using key by (intro filter_cong) auto
    then show ?thesis unfolding secs by (simp add: filter_map comp_def)
  qed
  moreover have "find (named n) (list_sections u c t) = Some (?g (c, n))"
  proof -
    obtain s where s: "find (named n) (list_sections u c t) = Some s"
      using n by (cases "find (named n) (list_sections u c t)") (auto simp: find_None_iff list_ex_iff)
    then have "named n s" "s \<in> set (list_sections u c t)" using find_set [OF s] by simp_all
    then show ?thesis using s key unfolding secs by auto
  qed
  ultimately show ?thesis unfolding list_sections_def [of "list_move u c n m"] keys get move_section_def by simp
qed

interpretation list_acl: acl_store list_acl
proof (unfold_locales, goal_cases)
  case (1 u c n)
  then show ?case by (auto simp: list_acl_def named_get_def is_object_def split: option.splits)
next
  case (2 u c n t)
  then show ?case
    by (auto simp: list_acl_def named_get_def is_object_def field_JObj map_of_assoc_set split: option.splits)
next
  case (3 c' n' c n u t)
  then show ?case by (auto simp: list_acl_def named_get_def map_of_assoc_set)
next
  case (4 u c n k v)
  then show ?case
    by (auto simp: list_acl_def named_get_def is_object_def field_JObj map_of_assoc_set split: option.splits)
next
  case (5 c' n' c n u k v)
  then show ?case by (auto simp: list_acl_def named_get_def map_of_assoc_set split: option.splits)
next
  case (6 u c n)
  then show ?case by (simp add: list_acl_def named_get_def map_of_filter_key)
next
  case (7 c' n' c n u)
  then show ?case by (auto simp: list_acl_def named_get_def map_of_filter_key)
next
  case (8 s u c t)
  then show ?case using list_sections_get [of s u c t] by (auto simp: list_acl_sections named_def) (auto simp: list_acl_def)
next
  case (9 u c n)
  then show ?case by (simp add: list_acl_def au_get_def named_get_name)
next
  case (10 u c n k v)
  then show ?case by (auto simp: list_acl_def au_get_def named_get_def split: option.splits)
next
  case (11 u c n k)
  then show ?case
    by (auto simp: list_acl_def au_get_def named_get_def is_object_def field_JObj map_of_assoc_set map_of_filter_key'
        split: option.splits)
next
  case (12 c' n' c n u k)
  then show ?case by (auto simp: list_acl_def au_get_def named_get_def map_of_assoc_set split: option.splits)
next
  case (13 u c n m c' n')
  then show ?case by (simp add: list_acl_def au_get_def named_get_def map_of_list_move)
next
  case (14 n u c t m)
  then show ?case using list_sections_move [of n u c t m]
    unfolding au_sections_def list_acl_sections by (simp add: list_acl_def)
qed

end
