(* ===== verification/Policy_Properties.thy ===== *)
theory Policy_Properties
  imports Policy_Store Net_Cidr
begin

text \<open>
  Properties of the traffic policies: what a save never touches, what it leaves when it succeeds or
  fails, and the order of the routing policies.
\<close>

section \<open>What an edit leaves alone\<close>

definition object_text :: string where "object_text = ''[object Object]''"

lemma to_str_object: "is_object v \<Longrightarrow> to_str v = object_text"
  by (cases v) (auto simp: is_object_def object_text_def)

lemma object_truthy_acl: "is_object v \<Longrightarrow> truthy v"
  by (cases v) (auto simp: is_object_def truthy_def)

lemma lower_mac_options [simp]:
  "list_all (\<lambda>(k, v). option_name k) (allow_options label zone wanZone mac network)"
  "list_all (\<lambda>(k, v). option_name k) (segment_pbr V opts name)"
  "list_all (\<lambda>(k, v). option_name k) (segment_block V opts name)"
  "list_all (\<lambda>(k, v). option_name k) (device_pbr opts mac label)"
  "list_all (\<lambda>(k, v). option_name k) (device_block opts mac label)"
  by (simp_all add: allow_options_def segment_pbr_def segment_block_def device_pbr_def device_block_def option_name_def)

text \<open>A section of the user: it is there and does not carry the mark.\<close>

definition theirs :: "'u acl_uci \<Rightarrow> 'u \<Rightarrow> string \<Rightarrow> string \<Rightarrow> bool" where
  "theirs A u d n \<longleftrightarrow> au_get A u d n \<noteq> JNull \<and> \<not> isManagedSection (au_get A u d n) []"

text \<open>The section with the global state of the routing service.\<close>

definition config_key :: "acl_view \<Rightarrow> string \<times> string" where
  "config_key V = (''pbr'', to_str (or_else (sectionName_acl (v_pbrSection V)) (JStr ''config'')))"

context acl_store
begin

lemma base_get [simp]: "uci_get (au_base A) = au_get A"
  by (simp add: au_get_def)

lemma set_get: "(c, to_str sid) \<noteq> (d, n) \<Longrightarrow> au_get A (au_set A c sid kvs u) d n = au_get A u d n"
  using set_options_other [of d n c "to_str sid" kvs u] by (auto simp: au_set_def)

lemma remove_get: "(c, m) \<noteq> (d, n) \<Longrightarrow> au_get A (au_remove A c m u) d n = au_get A u d n"
  using remove_other [of d n c m u] by (auto simp: au_remove_def)

lemma add_get: "(c, m) \<noteq> (d, n) \<Longrightarrow> au_get A (uci_add (au_base A) u c t m) d n = au_get A u d n"
  using add_other [of d n c m u t] by auto

lemma unset_get: "(c, m) \<noteq> (d, n) \<Longrightarrow> au_get A (au_unset A u c m k) d n = au_get A u d n"
  using unset_other [of d n c m u k] by auto

lemma place_get [simp]: "au_get A (au_place A c sid before u) d n = au_get A u d n"
  by (simp add: au_place_def move_get)

lemma ensure_get: "(c, m) \<noteq> (d, n) \<Longrightarrow> au_get A (snd (au_ensure A c t m existing u)) d n = au_get A u d n"
  by (simp add: au_ensure_def add_get)

lemma get_object: "truthy (au_get A u c n) \<Longrightarrow> is_object (au_get A u c n)"
  using get_shape [of u c n] by (auto simp: truthy_def)

text \<open>The identifier that \<open>existing || uci.add(...)\<close> gives is the new name or an object.\<close>

lemma ensure_name:
  "truthy existing \<longrightarrow> is_object existing \<Longrightarrow>
   to_str (fst (au_ensure A c t m existing u)) = (if truthy existing then object_text else m)"
  by (simp add: au_ensure_def to_str_object)

lemma existing_object: "truthy (if b then au_get A u c n else JBool False) \<longrightarrow> is_object (if b then au_get A u c n else JBool False)"
  using get_object by (simp add: truthy_def)

lemma reorder_get [simp]: "au_get A (reorderManagedPbrPolicies A u) d n = au_get A u d n"
proof -
  have "au_get A (foldl (\<lambda>u x. au_move A u c (f x) m) u xs) d n = au_get A u d n" for c f m and xs :: "jsval list" and u
    by (induction xs arbitrary: u) (simp_all add: move_get)
  then show ?thesis by (simp add: reorderManagedPbrPolicies_def Let_def)
qed

lemma reconcile_get:
  "(''pbr'', to_str (or_else (sectionName_acl pbrSection) (JStr ''config''))) \<noteq> (d, n) \<Longrightarrow>
   au_get A (reconcileGlobalPbr A pbrSection u) d n = au_get A u d n"
  by (simp add: reconcileGlobalPbr_def Let_def set_get unset_get)

lemma segment_pbr_get:
  assumes "truthy existing \<longrightarrow> is_object existing" "n \<noteq> object_text"
    "(''pbr'', managedPolicySection (JStr network)) \<noteq> (d, n) \<or> (truthy existing \<and> o_mode opts \<in> {''direct'', ''vpn''})"
  shows "au_get A (edit_segment_pbr A V opts network existing u) d n = au_get A u d n"
  using assms
  by (auto simp: edit_segment_pbr_def Let_def case_prod_unfold set_get remove_get ensure_name ensure_get au_ensure_def
      add_get to_str_object)

lemma segment_block_get:
  assumes "truthy existing \<longrightarrow> named (managedBlockSection (JStr network)) existing"
    "(''firewall'', managedBlockSection (JStr network)) \<noteq> (d, n)"
  shows "au_get A (edit_segment_block A V opts network existing u) d n = au_get A u d n"
proof -
  have "to_str (sectionName_acl existing) = managedBlockSection (JStr network)" if "truthy existing"
    using assms(1) that
    by (simp add: sectionName_acl_def named_def or_else_def and_then_def truthy_def managedBlockSection_def
        managedPolicySection_def)
  then show ?thesis
    using assms(2) by (auto simp: edit_segment_block_def Let_def case_prod_unfold set_get remove_get add_get)
qed

lemma device_pbr_get:
  assumes "truthy existing \<longrightarrow> is_object existing" "n \<noteq> object_text"
    "(''pbr'', managedDeviceSection mac) \<noteq> (d, n)"
  shows "au_get A (edit_device_pbr A opts mac label existing u) d n = au_get A u d n"
  using assms
  by (auto simp: edit_device_pbr_def Let_def case_prod_unfold set_get unset_get remove_get ensure_name ensure_get)

lemma device_block_get:
  assumes "truthy existing \<longrightarrow> named (managedDeviceBlockSection mac) existing"
    "(''firewall'', managedDeviceBlockSection mac) \<noteq> (d, n)"
  shows "au_get A (edit_device_block A opts mac label existing u) d n = au_get A u d n"
proof -
  have "to_str (sectionName_acl existing) = managedDeviceBlockSection mac" if "truthy existing"
    using assms(1) that
    by (simp add: sectionName_acl_def named_def or_else_def and_then_def truthy_def managedDeviceBlockSection_def
        managedDeviceSection_def)
  then show ?thesis
    using assms(2) by (auto simp: edit_device_block_def Let_def case_prod_unfold set_get remove_get add_get)
qed

lemma device_allow_get:
  assumes "truthy existing \<longrightarrow> is_object existing" "n \<noteq> object_text"
    "(''firewall'', managedDeviceAllowSection mac) \<noteq> (d, n)"
  shows "au_get A (edit_device_allow A opts mac label existing u) d n = au_get A u d n"
  using assms
  by (auto simp: edit_device_allow_def Let_def case_prod_unfold set_get remove_get ensure_name ensure_get)

lemma theirs_facts:
  assumes "theirs A u d n"
  shows "truthy (au_get A u d n)" "\<not> marked (au_get A u d n)" "\<not> isManagedSection (au_get A u d n) scope"
proof -
  show "truthy (au_get A u d n)"
    using assms get_shape [of u d n] object_truthy_acl by (auto simp: theirs_def)
  then show "\<not> marked (au_get A u d n)" using assms by (simp add: theirs_def isManagedSection_def marked_def)
  then show "\<not> isManagedSection (au_get A u d n) scope" by (simp add: isManagedSection_def marked_def)
qed

lemma sync_get:
  assumes "theirs A u d n" "n \<noteq> object_text"
  shows "au_get A (fst (sync_exception A cm network zone wanZone sb mac u)) d n = au_get A u d n"
proof (cases "(''firewall'', managedDeviceAllowSection mac) = (d, n)")
  case True
  then show ?thesis using theirs_facts [OF assms(1)] by (auto simp: sync_exception_def Let_def)
next
  case False
  then show ?thesis
    using assms(2) get_object
    by (auto simp: sync_exception_def Let_def case_prod_unfold move_get set_get remove_get ensure_name ensure_get)
qed

lemma for_each_get:
  assumes "\<And>x u. theirs A u d n \<Longrightarrow> au_get A (fst (f x u)) d n = au_get A u d n" "theirs A u d n"
  shows "au_get A (fst (for_each f xs u)) d n = au_get A u d n"
  using assms(2)
proof (induction xs arbitrary: u)
  case (Cons x xs)
  have get: "au_get A (fst (f x u)) d n = au_get A u d n" using assms(1) Cons.prems .
  then have "theirs A (fst (f x u)) d n" using Cons.prems by (simp add: theirs_def)
  then show ?case using Cons.IH [of "fst (f x u)"] get by (auto split: prod.splits option.splits)
qed simp

lemma sync_all_get:
  assumes "theirs A u d n" "n \<noteq> object_text"
  shows "au_get A (fst (syncDeviceFirewallExceptions A cm network zone wanZone u)) d n = au_get A u d n"
  unfolding syncDeviceFirewallExceptions_def Let_def by (rule for_each_get [OF sync_get [OF _ assms(2)] assms(1)])

lemma get_named: "truthy (au_get A u c n) \<longrightarrow> named n (au_get A u c n)"
proof
  assume "truthy (au_get A u c n)"
  then have "au_get A u c n \<noteq> JNull" by (auto simp: truthy_def)
  then show "named n (au_get A u c n)" by (rule get_name)
qed

lemma edit_policy_get:
  assumes t: "theirs A u d n" "n \<noteq> object_text" "config_key V \<noteq> (d, n)"
  shows "au_get A (fst (edit_policy A V cm network opts u)) d n = au_get A u d n"
proof -
  let ?e = "if o_pbrAvailable opts then au_get A u ''pbr'' (managedPolicySection (JStr network)) else JBool False"
  let ?b = "au_get A u ''firewall'' (managedBlockSection (JStr network))"
  let ?u1 = "edit_segment_pbr A V opts network ?e u" and ?u2 = "\<lambda>u. edit_segment_block A V opts network ?b u"
  have conflict: ?thesis if "(truthy ?e \<and> \<not> marked ?e) \<or> (truthy ?b \<and> \<not> marked ?b)"
    using that by (auto simp: edit_policy_def Let_def)
  have pbr: "(''pbr'', managedPolicySection (JStr network)) \<noteq> (d, n)" if "\<not> (truthy ?e \<and> \<not> marked ?e)" "o_pbrAvailable opts"
    using that theirs_facts [OF t(1)] by auto
  have off: "?u1 = u" if "\<not> o_pbrAvailable opts" using that by (simp add: edit_segment_pbr_def)
  have block: "(''firewall'', managedBlockSection (JStr network)) \<noteq> (d, n)" if "\<not> (truthy ?b \<and> \<not> marked ?b)"
    using that theirs_facts [OF t(1)] by auto
  show ?thesis
  proof (cases "(truthy ?e \<and> \<not> marked ?e) \<or> (truthy ?b \<and> \<not> marked ?b)")
    case False
    have u1: "au_get A ?u1 d n = au_get A u d n"
    proof (cases "o_pbrAvailable opts")
      case True
      show ?thesis by (rule segment_pbr_get [OF existing_object t(2)]) (use True pbr False in blast)
    next
      case False
      show ?thesis unfolding off [OF False] by (rule refl)
    qed
    have u2: "au_get A (?u2 ?u1) d n = au_get A u d n"
      using segment_block_get [OF get_named block] False u1 by simp
    have "theirs A (?u2 ?u1) d n" using u2 t(1) by (simp add: theirs_def)
    then have u3: "au_get A (fst (syncDeviceFirewallExceptions A cm network z w (?u2 ?u1))) d n = au_get A u d n" for z w
      using sync_all_get [OF _ t(2)] u2 by simp
    show ?thesis
      using False u2 u3 [of "o_zone opts" "o_wanZone opts"] reconcile_get [of "v_pbrSection V" d n] t(3)
      by (auto simp: edit_policy_def Let_def config_key_def split: prod.splits option.splits)
  qed (rule conflict)
qed

lemma edit_device_get:
  assumes t: "theirs A u d n" "n \<noteq> object_text" "config_key V \<noteq> (d, n)"
  shows "au_get A (fst (edit_device A V cm mac opts u)) d n = au_get A u d n"
proof -
  let ?e = "if o_pbrAvailable opts then au_get A u ''pbr'' (managedDeviceSection mac) else JBool False"
  let ?b = "au_get A u ''firewall'' (managedDeviceBlockSection mac)"
  let ?a = "au_get A u ''firewall'' (managedDeviceAllowSection mac)"
  let ?conflict = "(truthy ?e \<and> \<not> isManagedSection ?e ''device'') \<or> (truthy ?b \<and> \<not> isManagedSection ?b ''device'')
      \<or> (truthy ?a \<and> \<not> isManagedSection ?a ''device-allow'')"
  show ?thesis
  proof (cases ?conflict)
    case False
    let ?l = "client_label cm mac"
    let ?u1 = "edit_device_pbr A opts mac ?l ?e u"
    let ?u2 = "edit_device_block A opts mac ?l ?b ?u1"
    have pbr: "(''pbr'', managedDeviceSection mac) \<noteq> (d, n)" if "o_pbrAvailable opts"
      using False that theirs_facts [OF t(1)] by auto
    have off: "?u1 = u" if "\<not> o_pbrAvailable opts" using that by (simp add: edit_device_pbr_def)
    have u1: "au_get A ?u1 d n = au_get A u d n"
    proof (cases "o_pbrAvailable opts")
      case True
      show ?thesis by (rule device_pbr_get [OF existing_object t(2) pbr [OF True]])
    next
      case False
      show ?thesis unfolding off [OF False] by (rule refl)
    qed
    have "(''firewall'', managedDeviceBlockSection mac) \<noteq> (d, n)" using False theirs_facts [OF t(1)] by auto
    then have u2: "au_get A ?u2 d n = au_get A u d n" using device_block_get [OF get_named] u1 by simp
    have "(''firewall'', managedDeviceAllowSection mac) \<noteq> (d, n)" using False theirs_facts [OF t(1)] by auto
    then have u3: "au_get A (edit_device_allow A opts mac ?l ?a ?u2) d n = au_get A u d n"
      using device_allow_get [OF _ t(2)] get_object u2 by simp
    show ?thesis
      using False u3 reconcile_get [of "v_pbrSection V" d n] t(3)
      by (auto simp: edit_device_def Let_def config_key_def)
  qed (auto simp: edit_device_def Let_def)
qed

end

section \<open>The order of the routing policies\<close>

definition nm :: "jsval \<Rightarrow> string" where
  "nm s = to_str (field s ''.name'')"

lemma named_nm: "named n s \<Longrightarrow> nm s = n"
  by (simp add: named_def nm_def)

lemma insert_before_first:
  "\<forall>z \<in> set xs. \<not> P z \<Longrightarrow> P y \<Longrightarrow> insert_before P x (xs @ y # ys) = xs @ x # y # ys"
  by (induction xs) auto

lemma move_section_step:
  assumes dist: "distinct (map nm ss)" and names: "\<forall>s \<in> set ss. named (nm s) s"
    and ss: "ss = P @ s0 # Q" and d: "d \<in> set ss" "d \<noteq> s0"
  shows "move_section (nm d) (nm s0) ss = filter (\<lambda>s. s \<noteq> d) P @ d # s0 # filter (\<lambda>s. s \<noteq> d) Q"
proof -
  have eq: "named (nm t) s \<longleftrightarrow> s = t" if "s \<in> set ss" "t \<in> set ss" for s t
    using that dist names named_nm by (metis distinct_map inj_onD)
  have "find (named (nm d)) ss = Some d"
  proof (cases "find (named (nm d)) ss")
    case None
    then show ?thesis using d(1) names by (auto simp: find_None_iff)
  next
    case (Some s)
    then show ?thesis using find_set [OF Some] eq d(1) by auto
  qed
  moreover have "filter (\<lambda>s. \<not> named (nm d) s) ss = filter (\<lambda>s. s \<noteq> d) ss" using eq d(1) by (intro filter_cong) auto
  moreover have "s0 \<notin> set P" using dist unfolding ss by auto
  then have "\<forall>z \<in> set (filter (\<lambda>s. s \<noteq> d) P). \<not> named (nm s0) z" using eq [of _ s0] unfolding ss by auto
  moreover have "named (nm s0) s0" using names unfolding ss by simp
  ultimately show ?thesis using d(2) by (simp add: move_section_def ss insert_before_first)
qed

lemma filter_not_in_snoc: "filter (\<lambda>s. s \<notin> set (xs @ [d])) zs = filter (\<lambda>s. s \<noteq> d) (filter (\<lambda>s. s \<notin> set xs) zs)"
  by (induction zs) auto

context acl_store
begin

lemma sections_named: "s \<in> set (au_sections A u c t) \<Longrightarrow> named (nm s) s"
  using sections_get [of s u c t] by (auto simp: au_sections_def named_def nm_def)

lemma moves_before:
  assumes "distinct (map nm (P @ s0 # Q))" "au_sections A u c t = P @ s0 # Q"
    "distinct xs" "set xs \<subseteq> set (P @ Q)"
  shows "au_sections A (foldl (\<lambda>u d. au_move A u c (nm d) (nm s0)) u xs) c t
    = filter (\<lambda>s. s \<notin> set xs) P @ xs @ s0 # filter (\<lambda>s. s \<notin> set xs) Q"
  using assms(3,4)
proof (induction xs rule: rev_induct)
  case Nil
  then show ?case using assms(2) by simp
next
  case (snoc d xs)
  let ?u = "foldl (\<lambda>u d. au_move A u c (nm d) (nm s0)) u xs"
  let ?P = "filter (\<lambda>s. s \<notin> set xs) P" and ?Q = "filter (\<lambda>s. s \<notin> set xs) Q"
  have IH: "au_sections A ?u c t = (?P @ xs) @ s0 # ?Q" using snoc by simp
  have d: "d \<in> set (?P @ ?Q)" "d \<notin> set xs" using snoc.prems by auto
  have s0: "s0 \<notin> set P \<union> set Q" using assms(1) by auto
  have inj: "inj_on nm (set (P @ s0 # Q))" using assms(1) by (simp only: distinct_map)
  have "set ((?P @ xs) @ s0 # ?Q) \<subseteq> set (P @ s0 # Q)" using snoc.prems by auto
  then have "inj_on nm (set ((?P @ xs) @ s0 # ?Q))" by (rule inj_on_subset [OF inj])
  moreover have "distinct ((?P @ xs) @ s0 # ?Q)"
    using assms(1) snoc.prems s0 by (auto simp: distinct_map)
  ultimately have dist: "distinct (map nm ((?P @ xs) @ s0 # ?Q))" by (simp only: distinct_map)
  have names: "\<forall>s \<in> set ((?P @ xs) @ s0 # ?Q). named (nm s) s" unfolding IH [symmetric] using sections_named by blast
  have mem: "d \<in> set ((?P @ xs) @ s0 # ?Q)" "d \<noteq> s0" using d s0 by auto
  have "nm d \<noteq> nm s0" using inj_onD [OF inj, of d s0] mem snoc.prems by auto
  moreover have "list_ex (named (nm d)) (au_sections A ?u c t)" "list_ex (named (nm s0)) (au_sections A ?u c t)"
    unfolding IH using names mem(1) by (auto simp: list_ex_iff)
  moreover have keep: "filter (\<lambda>s. s \<noteq> d) xs = xs" using d(2) by (induction xs) auto
  ultimately have "au_sections A (au_move A ?u c (nm d) (nm s0)) c t = move_section (nm d) (nm s0) ((?P @ xs) @ s0 # ?Q)"
    using move_sections unfolding IH [symmetric] by blast
  also have "\<dots> = filter (\<lambda>s. s \<noteq> d) (?P @ xs) @ d # s0 # filter (\<lambda>s. s \<noteq> d) ?Q"
    by (rule move_section_step [OF dist names refl mem])
  finally show ?case
    by (simp only: keep foldl_append foldl.simps filter_not_in_snoc filter_append append_assoc append_Cons append_Nil)
qed

end

section \<open>Properties\<close>

definition device_policy_section :: "jsval \<Rightarrow> bool" where
  "device_policy_section s \<longleftrightarrow> isManagedSection s ''device''"

definition network_policy_section :: "jsval \<Rightarrow> bool" where
  "network_policy_section s \<longleftrightarrow> isManagedSection s [] \<and> field s ''freenetic_scope'' \<noteq> JStr ''device''"

lemma sorted_wrt_all: "(\<And>a b. a \<in> set xs \<Longrightarrow> b \<in> set xs \<Longrightarrow> R a b) \<Longrightarrow> sorted_wrt R xs"
  by (induction xs) auto

lemma reorder_alt:
  "reorderManagedPbrPolicies A u =
     (let ss = au_sections A u ''pbr'' ''policy''; D = filter device_policy_section ss; N = filter network_policy_section ss
      in if D = [] \<or> N = [] then u else foldl (\<lambda>u d. au_move A u ''pbr'' (nm d) (nm (hd N))) u (rev D))"
  by (simp only: reorderManagedPbrPolicies_def Let_def device_policy_section_def [abs_def]
      network_policy_section_def [abs_def] nm_def)

text \<open>C20: after reordering, every device policy of the routing service precedes every segment policy of
  the program, whose first match wins; the other policies keep their order, no policy is lost, and the
  device policies are in the reverse of their previous order.\<close>

theorem device_policies_first:
  assumes "acl_store A" and "distinct (map nm (au_sections A u ''pbr'' ''policy''))"
  shows "let ss = au_sections A u ''pbr'' ''policy''; ss' = au_sections A (reorderManagedPbrPolicies A u) ''pbr'' ''policy''
    in mset ss' = mset ss
      \<and> filter (\<lambda>s. \<not> device_policy_section s) ss' = filter (\<lambda>s. \<not> device_policy_section s) ss
      \<and> sorted_wrt (\<lambda>a b. device_policy_section b \<longrightarrow> \<not> network_policy_section a) ss'
      \<and> (list_ex network_policy_section ss \<longrightarrow>
           filter device_policy_section ss' = rev (filter device_policy_section ss))"
proof -
  let ?ss = "au_sections A u ''pbr'' ''policy''" and ?dev = device_policy_section and ?net = network_policy_section
  let ?u = "reorderManagedPbrPolicies A u"
  have disj: "\<not> (?dev s \<and> ?net s)" for s
    by (simp add: device_policy_section_def network_policy_section_def isManagedSection_def)
  show ?thesis
  proof (cases "list_ex ?dev ?ss \<and> list_ex ?net ?ss")
    case False
    have "filter ?dev ?ss = [] \<or> filter ?net ?ss = []" using False by (auto simp: list_ex_iff filter_empty_conv)
    then have "?u = u" by (auto simp: reorder_alt Let_def)
    moreover have "sorted_wrt (\<lambda>a b. ?dev b \<longrightarrow> \<not> ?net a) ?ss"
      using False by (auto simp: sorted_wrt_iff_nth_less list_ex_iff)
    moreover have "list_ex ?net ?ss \<Longrightarrow> filter ?dev ?ss = []" using False by (auto simp: list_ex_iff filter_empty_conv)
    ultimately show ?thesis by (simp add: Let_def)
  next
    case True
    then obtain P s0 Q where ss: "?ss = P @ s0 # Q" "?net s0" "\<forall>s \<in> set P. \<not> ?net s"
      using split_list_first_prop [of ?ss ?net] by (auto simp: list_ex_iff)
    let ?D = "rev (filter ?dev ?ss)"
    have "filter ?net ?ss = s0 # filter ?net Q" using ss(2,3) unfolding ss(1) by simp
    moreover have "filter ?dev ?ss \<noteq> []" using True by (auto simp: list_ex_iff filter_empty_conv)
    ultimately have u: "?u = foldl (\<lambda>u d. au_move A u ''pbr'' (nm d) (nm s0)) u ?D"
      by (simp add: reorder_alt Let_def)
    have D: "distinct ?D" "set ?D \<subseteq> set (P @ Q)"
      using assms(2) disj [of s0] ss(2) unfolding ss(1) by (auto simp: distinct_map)
    have rest: "filter (\<lambda>s. s \<notin> set ?D) xs = filter (\<lambda>s. \<not> ?dev s) xs" if "set xs \<subseteq> set ?ss" for xs
      using that by (intro filter_cong) auto
    have sub: "set P \<subseteq> set ?ss" "set Q \<subseteq> set ?ss" unfolding ss(1) by auto
    have ss': "au_sections A ?u ''pbr'' ''policy'' = filter (\<lambda>s. \<not> ?dev s) P @ ?D @ s0 # filter (\<lambda>s. \<not> ?dev s) Q"
      unfolding u acl_store.moves_before [OF assms(1) assms(2) [unfolded ss(1)] ss(1) D] rest [OF sub(1)] rest [OF sub(2)]
      by (rule refl)
    have "\<not> ?dev s0" using disj ss(2) by blast
    then show ?thesis
      unfolding Let_def ss' unfolding ss(1)
      using ss(3) disj by (auto simp: sorted_wrt_append rev_filter filter_empty_conv intro!: multiset_eqI sorted_wrt_all)
  qed
qed

definition sample_policy :: "string \<Rightarrow> string \<Rightarrow> (string \<times> string) \<times> (string \<times> jsval) list" where
  "sample_policy name scope = ((''pbr'', name), [(''.type'', JStr ''policy''), (''freenetic_managed'', JStr ''1''),
     (''freenetic_scope'', JStr scope)])"

definition sample_order :: list_store where
  "sample_order = [sample_policy ''net'' ''network'', ((''pbr'', ''games''), [(''.type'', JStr ''policy'')]),
     sample_policy ''tv'' ''device'', sample_policy ''pc'' ''device'']"

theorem device_policies_first_witness:
  "filter device_policy_section (au_sections list_acl (reorderManagedPbrPolicies list_acl sample_order) ''pbr'' ''policy'')
     = rev (filter device_policy_section (au_sections list_acl sample_order ''pbr'' ''policy''))
   \<and> map nm (au_sections list_acl (reorderManagedPbrPolicies list_acl sample_order) ''pbr'' ''policy'')
     = [''pc'', ''tv'', ''net'', ''games'']"
proof
  have "distinct (map nm (au_sections list_acl sample_order ''pbr'' ''policy''))"
    "list_ex network_policy_section (au_sections list_acl sample_order ''pbr'' ''policy'')" by code_simp+
  then show "filter device_policy_section (au_sections list_acl (reorderManagedPbrPolicies list_acl sample_order) ''pbr'' ''policy'')
     = rev (filter device_policy_section (au_sections list_acl sample_order ''pbr'' ''policy''))"
    using device_policies_first [OF list_acl.acl_store_axioms, of sample_order] by (simp add: Let_def)
  show "map nm (au_sections list_acl (reorderManagedPbrPolicies list_acl sample_order) ''pbr'' ''policy'')
     = [''pc'', ''tv'', ''net'', ''games'']" by code_simp
qed

section \<open>What a save writes\<close>

lemma allow_name: "managedDeviceAllowSection mac \<noteq> managedBlockSection network"
proof
  assume "managedDeviceAllowSection mac = managedBlockSection network"
  then have "last (managedDeviceAllowSection mac) = last (managedBlockSection network)" by simp
  then show False by (simp add: managedDeviceAllowSection_def managedBlockSection_def)
qed

lemma policy_names [simp]: "managedPolicySection network \<noteq> object_text" "managedBlockSection network \<noteq> object_text"
  by (simp_all add: managedPolicySection_def managedBlockSection_def object_text_def)

lemma for_each_inv: "(\<And>x u. I u \<Longrightarrow> I (fst (f x u))) \<Longrightarrow> I u \<Longrightarrow> I (fst (for_each f xs u))"
proof (induction xs arbitrary: u)
  case (Cons x xs)
  then have "I (fst (f x u))" by blast
  then show ?case using Cons.IH [of "fst (f x u)"] Cons.prems(1) by (auto split: prod.splits option.splits)
qed simp

context acl_store
begin

text \<open>The exceptions touch sections of devices only.\<close>

lemma sync_other:
  assumes "n \<noteq> object_text" "d \<noteq> ''firewall'' \<or> (\<forall>mac. n \<noteq> managedDeviceAllowSection mac)"
  shows "au_get A (fst (syncDeviceFirewallExceptions A cm network zone wanZone u)) d n = au_get A u d n"
proof -
  have "au_get A (fst (sync_exception A cm network zone wanZone sb mac v)) d n = au_get A v d n" for sb mac v
  proof -
    have "(''firewall'', managedDeviceAllowSection mac) \<noteq> (d, n)" using assms(2) by auto
    then show ?thesis
      using assms(1) get_object
      by (auto simp: sync_exception_def Let_def case_prod_unfold move_get set_get remove_get ensure_name ensure_get)
  qed
  then show ?thesis
    unfolding syncDeviceFirewallExceptions_def Let_def
    by (intro for_each_inv [where I = "\<lambda>v. au_get A v d n = au_get A u d n"]) simp_all
qed

lemma set_fields:
  assumes "au_get A u c n \<noteq> JNull" "list_all (\<lambda>(k, v). option_name k) kvs" "to_str sid = n"
  shows "truthy (au_get A (au_set A c sid kvs u) c n)
    \<and> field (au_get A (au_set A c sid kvs u) c n) j
      = (case map_of (rev kvs) j of Some v \<Rightarrow> v | None \<Rightarrow> field (au_get A u c n) j)"
  using set_options_fields [of u c n kvs j] assms object_truthy_acl
  by (auto simp: au_set_def list_all_iff split: option.splits)

lemma added: "au_get A u c n = JNull \<Longrightarrow> au_get A (uci_add (au_base A) u c t n) c n \<noteq> JNull"
  using add_type [of u c n t] by (auto simp: is_object_def)

lemma removed: "au_get A (au_remove A c n u) c n = JNull"
  using remove_this [of u c n] by (simp add: au_remove_def)

lemma absent: "\<not> truthy (au_get A u c n) \<longleftrightarrow> au_get A u c n = JNull"
  using get_shape [of u c n] object_truthy_acl [of "au_get A u c n"] by (auto simp: truthy_def)

lemma segment_pbr_written:
  assumes "au_get A u ''pbr'' (managedPolicySection (JStr network)) = JNull" "o_pbrAvailable opts" "o_mode opts \<in> {''direct'', ''vpn''}"
  shows "let p = au_get A (edit_segment_pbr A V opts network JNull u) ''pbr'' (managedPolicySection (JStr network))
    in truthy p \<and> marked p \<and> field p ''enabled'' = JStr ''1''
      \<and> field p ''interface'' = (if o_mode opts = ''vpn'' then o_vpnInterface opts else JStr ''wan'')"
proof -
  let ?n = "managedPolicySection (JStr network)"
  let ?u = "uci_add (au_base A) u ''pbr'' ''policy'' ?n"
  have "edit_segment_pbr A V opts network JNull u = au_set A ''pbr'' (JStr ?n) (segment_pbr V opts network) ?u"
    using assms(2,3) by (auto simp: edit_segment_pbr_def au_ensure_def truthy_def Let_def)
  then show ?thesis
    using set_fields [OF added [OF assms(1)], of "segment_pbr V opts network" "JStr ?n"]
    by (simp add: marked_def Let_def) (simp add: segment_pbr_def)
qed

lemma segment_block_written:
  assumes "o_mode opts = ''block''"
  shows "let b = au_get A (edit_segment_block A V opts network (au_get A u ''firewall'' (managedBlockSection (JStr network))) v)
      ''firewall'' (managedBlockSection (JStr network))
    in au_get A v ''firewall'' (managedBlockSection (JStr network)) = au_get A u ''firewall'' (managedBlockSection (JStr network))
      \<longrightarrow> truthy b \<and> marked b \<and> field b ''enabled'' = JStr ''1''"
proof -
  let ?n = "managedBlockSection (JStr network)"
  let ?e = "au_get A u ''firewall'' ?n"
  let ?s = "fst (if truthy ?e then (sectionName_acl ?e, v) else (JStr ?n, uci_add (au_base A) v ''firewall'' ''rule'' ?n))"
  let ?w = "snd (if truthy ?e then (sectionName_acl ?e, v) else (JStr ?n, uci_add (au_base A) v ''firewall'' ''rule'' ?n))"
  have name: "to_str ?s = ?n"
    using get_named [of u "''firewall''" ?n]
    by (auto simp: sectionName_acl_def named_def or_else_def and_then_def truthy_def managedBlockSection_def managedPolicySection_def)
  have "edit_segment_block A V opts network ?e v
      = au_place A ''firewall'' ?s (first_rule A v) (au_set A ''firewall'' ?s (segment_block V opts network) ?w)"
    using assms by (simp add: edit_segment_block_def case_prod_unfold Let_def)
  moreover have "au_get A ?w ''firewall'' ?n \<noteq> JNull" if "au_get A v ''firewall'' ?n = ?e"
    using that absent [of u "''firewall''" ?n] added [of v "''firewall''" ?n] by auto
  ultimately show ?thesis
    using set_fields [OF _ _ name, of v "''firewall''"] set_fields [OF _ _ name, of ?w "''firewall''" "segment_block V opts network"]
    by (simp add: marked_def Let_def) (simp add: segment_block_def)
qed

lemma edit_policy_ok:
  assumes "snd (edit_policy A V cm network opts u) = None"
  obtains e b u1 u2 u3 where
    "e = (if o_pbrAvailable opts then au_get A u ''pbr'' (managedPolicySection (JStr network)) else JBool False)"
    "b = au_get A u ''firewall'' (managedBlockSection (JStr network))"
    "\<not> (truthy e \<and> \<not> marked e)" "\<not> (truthy b \<and> \<not> marked b)"
    "u1 = edit_segment_pbr A V opts network e u" "u2 = edit_segment_block A V opts network b u1"
    "u3 = (if o_pbrAvailable opts then fst (syncDeviceFirewallExceptions A cm network (o_zone opts) (o_wanZone opts) u2) else u2)"
    "fst (edit_policy A V cm network opts u)
      = (if o_pbrAvailable opts then reorderManagedPbrPolicies A (reconcileGlobalPbr A (v_pbrSection V) u3) else u3)"
proof
  let ?e = "if o_pbrAvailable opts then au_get A u ''pbr'' (managedPolicySection (JStr network)) else JBool False"
  let ?b = "au_get A u ''firewall'' (managedBlockSection (JStr network))"
  let ?u2 = "edit_segment_block A V opts network ?b (edit_segment_pbr A V opts network ?e u)"
  let ?u3 = "if o_pbrAvailable opts then fst (syncDeviceFirewallExceptions A cm network (o_zone opts) (o_wanZone opts) ?u2) else ?u2"
  show e: "\<not> (truthy ?e \<and> \<not> marked ?e)"
  proof
    assume "truthy ?e \<and> \<not> marked ?e"
    then have "edit_policy A V cm network opts u = (u, Some ''A non-Freenetic pbr policy already uses this name.'')"
      unfolding edit_policy_def Let_def by (rule if_P)
    then show False using assms by simp
  qed
  show b: "\<not> (truthy ?b \<and> \<not> marked ?b)"
  proof
    assume "truthy ?b \<and> \<not> marked ?b"
    then have "edit_policy A V cm network opts u = (u, Some ''A non-Freenetic firewall rule already uses this name.'')"
      unfolding edit_policy_def Let_def if_not_P [OF e] by (rule if_P)
    then show False using assms by simp
  qed
  show "fst (edit_policy A V cm network opts u)
      = (if o_pbrAvailable opts then reorderManagedPbrPolicies A (reconcileGlobalPbr A (v_pbrSection V) ?u3) else ?u3)"
  proof -
    define v where "v = ?u2"
    obtain w r where sync: "syncDeviceFirewallExceptions A cm network (o_zone opts) (o_wanZone opts) v = (w, r)" by fastforce
    have "edit_policy A V cm network opts u = (if \<not> o_pbrAvailable opts then (v, None)
        else case (w, r) of (u, Some e) \<Rightarrow> (u, Some e)
          | (u, None) \<Rightarrow> (reorderManagedPbrPolicies A (reconcileGlobalPbr A (v_pbrSection V) u), None))"
      unfolding edit_policy_def Let_def if_not_P [OF e] if_not_P [OF b] v_def [symmetric] sync by (rule refl)
    then show ?thesis using assms unfolding v_def [symmetric] sync by (auto split: option.splits)
  qed
qed (rule refl)+

text \<open>A routing policy that is there already is not written.\<close>

lemma segment_policy_kept:
  assumes t: "truthy (au_get A u ''pbr'' (managedPolicySection (JStr network)))"
    and mode: "o_mode opts \<in> {''direct'', ''vpn''}" and key: "config_key V \<noteq> (''pbr'', managedPolicySection (JStr network))"
  shows "au_get A (fst (edit_policy A V cm network opts u)) ''pbr'' (managedPolicySection (JStr network))
    = au_get A u ''pbr'' (managedPolicySection (JStr network))"
proof -
  let ?P = "managedPolicySection (JStr network)" and ?b = "au_get A u ''firewall'' (managedBlockSection (JStr network))"
  let ?e = "if o_pbrAvailable opts then au_get A u ''pbr'' ?P else JBool False"
  let ?u1 = "edit_segment_pbr A V opts network ?e u"
  let ?u2 = "edit_segment_block A V opts network ?b ?u1"
  have u1: "au_get A ?u1 ''pbr'' ?P = au_get A u ''pbr'' ?P"
  proof (cases "o_pbrAvailable opts")
    case True
    show ?thesis by (rule segment_pbr_get [OF existing_object]) (use True t mode in simp_all)
  next
    case False
    then show ?thesis by (simp add: edit_segment_pbr_def)
  qed
  have "au_get A ?u2 ''pbr'' ?P = au_get A ?u1 ''pbr'' ?P"
    by (rule segment_block_get [OF get_named]) simp
  then have u2: "au_get A ?u2 ''pbr'' ?P = au_get A u ''pbr'' ?P" using u1 by simp
  have u3: "au_get A (fst (syncDeviceFirewallExceptions A cm network z w ?u2)) ''pbr'' ?P = au_get A u ''pbr'' ?P" for z w
    using u2 by (subst sync_other) simp_all
  show ?thesis
    using u2 u3 [of "o_zone opts" "o_wanZone opts"] reconcile_get [of "v_pbrSection V" "''pbr''" ?P] key
    by (auto simp: edit_policy_def Let_def config_key_def split: prod.splits option.splits)
qed

text \<open>The sections of the segment after a save.\<close>

lemma segment_sections:
  assumes ok: "snd (edit_policy A V cm network opts u) = None"
    and fresh: "au_get A u ''pbr'' (managedPolicySection (JStr network)) = JNull \<or> o_pbrAvailable opts \<and> o_mode opts = ''block''"
    and mode: "o_mode opts \<in> {''direct'', ''vpn'', ''block''}"
    and key: "config_key V \<noteq> (''pbr'', managedPolicySection (JStr network))"
  shows "let u' = fst (edit_policy A V cm network opts u); p = au_get A u' ''pbr'' (managedPolicySection (JStr network));
      b = au_get A u' ''firewall'' (managedBlockSection (JStr network))
    in (if o_pbrAvailable opts \<and> o_mode opts \<noteq> ''block''
        then truthy p \<and> marked p \<and> field p ''enabled'' = JStr ''1''
          \<and> field p ''interface'' = (if o_mode opts = ''vpn'' then o_vpnInterface opts else JStr ''wan'')
        else p = JNull)
     \<and> (if o_mode opts = ''block'' then truthy b \<and> marked b \<and> field b ''enabled'' = JStr ''1'' else b = JNull)"
proof -
  let ?P = "managedPolicySection (JStr network)" and ?B = "managedBlockSection (JStr network)"
  obtain e b u1 u2 u3 where u:
    "e = (if o_pbrAvailable opts then au_get A u ''pbr'' ?P else JBool False)" "b = au_get A u ''firewall'' ?B"
    "\<not> (truthy e \<and> \<not> marked e)" "\<not> (truthy b \<and> \<not> marked b)"
    "u1 = edit_segment_pbr A V opts network e u" "u2 = edit_segment_block A V opts network b u1"
    "u3 = (if o_pbrAvailable opts then fst (syncDeviceFirewallExceptions A cm network (o_zone opts) (o_wanZone opts) u2) else u2)"
    "fst (edit_policy A V cm network opts u)
      = (if o_pbrAvailable opts then reorderManagedPbrPolicies A (reconcileGlobalPbr A (v_pbrSection V) u3) else u3)"
    by (rule edit_policy_ok [OF ok])
  have e: "truthy e \<longrightarrow> is_object e" unfolding u(1) by (rule existing_object)
  have b: "truthy b \<longrightarrow> named ?B b" unfolding u(2) by (rule get_named)
  have "au_get A u2 ''pbr'' ?P = au_get A u1 ''pbr'' ?P"
    unfolding u(6) by (rule segment_block_get [OF b]) simp
  then have s3P: "au_get A u3 ''pbr'' ?P = au_get A u1 ''pbr'' ?P"
    unfolding u(7) by (cases "o_pbrAvailable opts") (simp_all add: sync_other)
  have s3B: "au_get A u3 ''firewall'' ?B = au_get A u2 ''firewall'' ?B"
    unfolding u(7) by (cases "o_pbrAvailable opts") (simp_all add: sync_other allow_name [symmetric])
  have recP: "au_get A (reconcileGlobalPbr A (v_pbrSection V) u3) ''pbr'' ?P = au_get A u3 ''pbr'' ?P"
    using key unfolding config_key_def by (rule reconcile_get)
  have recB: "au_get A (reconcileGlobalPbr A (v_pbrSection V) u3) ''firewall'' ?B = au_get A u3 ''firewall'' ?B"
    by (rule reconcile_get) simp
  have last: "au_get A (fst (edit_policy A V cm network opts u)) ''pbr'' ?P = au_get A u1 ''pbr'' ?P"
    "au_get A (fst (edit_policy A V cm network opts u)) ''firewall'' ?B = au_get A u2 ''firewall'' ?B"
    unfolding u(8) by (cases "o_pbrAvailable opts"; simp add: recP recB s3P s3B)+
  have pbr: "if o_pbrAvailable opts \<and> o_mode opts \<noteq> ''block''
        then truthy (au_get A u1 ''pbr'' ?P) \<and> marked (au_get A u1 ''pbr'' ?P) \<and> field (au_get A u1 ''pbr'' ?P) ''enabled'' = JStr ''1''
          \<and> field (au_get A u1 ''pbr'' ?P) ''interface'' = (if o_mode opts = ''vpn'' then o_vpnInterface opts else JStr ''wan'')
        else au_get A u1 ''pbr'' ?P = JNull"
  proof (cases "o_pbrAvailable opts")
    case False
    then show ?thesis using fresh by (simp add: u(5) edit_segment_pbr_def)
  next
    case True
    then have e': "e = au_get A u ''pbr'' ?P" by (simp add: u(1))
    show ?thesis
    proof (cases "o_mode opts = ''block''")
      case block: True
      then have "u1 = (if truthy e then au_remove A ''pbr'' ?P u else u)"
        using True u(3) by (simp add: u(5) edit_segment_pbr_def Let_def)
      then show ?thesis using block removed absent [of u "''pbr''" ?P] unfolding e' by auto
    next
      case False
      then have "e = JNull" using fresh e' by simp
      then show ?thesis
        using segment_pbr_written [of u network opts V] fresh True False mode by (auto simp: u(5) Let_def)
    qed
  qed
  have u1b: "au_get A u1 ''firewall'' ?B = b"
    using segment_pbr_get [OF e, of ?B network "''firewall''" opts V u] by (simp add: u(2,5))
  have "if o_mode opts = ''block''
      then truthy (au_get A u2 ''firewall'' ?B) \<and> marked (au_get A u2 ''firewall'' ?B)
        \<and> field (au_get A u2 ''firewall'' ?B) ''enabled'' = JStr ''1''
      else au_get A u2 ''firewall'' ?B = JNull"
  proof (cases "o_mode opts = ''block''")
    case True
    then show ?thesis using segment_block_written [of opts V network u u1] u1b by (simp add: u(2,6) Let_def)
  next
    case False
    then have "u2 = (if truthy b then au_remove A ''firewall'' ?B u1 else u1)"
      using u(4) by (simp add: u(6) edit_segment_block_def Let_def)
    then show ?thesis using False removed absent [of u1 "''firewall''" ?B] u1b by auto
  qed
  then show ?thesis using pbr unfolding Let_def last by simp
qed

end

lemma run_save_store: "sr_store (run_save sv r edit failed unloaded msg u) = u
    \<or> sr_store (run_save sv r edit failed unloaded msg u) = fst (edit u)"
  by (auto simp: run_save_def Let_def split: option.splits prod.splits)

lemma savePolicy_store: "sr_store (savePolicy A sv V cm network opts u) = u
    \<or> sr_store (savePolicy A sv V cm network opts u) = fst (edit_policy A V cm network opts u)"
  by (simp add: savePolicy_def warn_def run_save_store)

lemma saveDevicePolicy_store: "sr_store (saveDevicePolicy A sv V cm mac opts u) = u
    \<or> sr_store (saveDevicePolicy A sv V cm mac opts u) = fst (edit_device A V cm mac opts u)"
  by (simp add: saveDevicePolicy_def warn_def Let_def run_save_store)

text \<open>C19: saving the policy of a segment or of a device, whether it succeeds or fails, leaves every
  section that does not carry the mark of the program as it is, with two exceptions: the section with the
  global state of the routing service, which the handlers edit, and a section with the name \<open>[object Object]\<close>, which
  an edit with the section object in the place of its name reaches.  The store is any store with the documented laws.\<close>

theorem policy_keeps_foreign:
  assumes "acl_store A" "theirs A u c n" "n \<noteq> object_text" "config_key V \<noteq> (c, n)"
  shows "au_get A (sr_store (savePolicy A sv V clientByMac network opts u)) c n = au_get A u c n
    \<and> au_get A (sr_store (saveDevicePolicy A sv V clientByMac mac opts u)) c n = au_get A u c n"
  using savePolicy_store [of A sv V clientByMac network opts u] saveDevicePolicy_store [of A sv V clientByMac mac opts u]
    acl_store.edit_policy_get [OF assms] acl_store.edit_device_get [OF assms]
  by metis

definition sample_store :: list_store where
  "sample_store = [
     ((''firewall'', ''users''), [(''.type'', JStr ''rule''), (''src'', JStr ''lan''), (''target'', JStr ''ACCEPT'')]),
     ((''pbr'', ''config''), [(''.type'', JStr ''pbr''), (''enabled'', JStr ''1'')]),
     ((''pbr'', ''games''), [(''.type'', JStr ''policy''), (''interface'', JStr ''wan'')])]"

definition sample_view :: acl_view where
  "sample_view = \<lparr>v_network = JObj [], v_firewall = JObj [], v_pbr = JObj [], v_wireless = JObj [],
     v_pbrSection = JObj [(''.name'', JStr ''config'')], v_clients = []\<rparr>"

definition sample_services :: acl_services where
  "sample_services = \<lparr>sv_load = None, sv_save = None, sv_apply = None,
     sv_fs = \<lparr>fs_exec = (\<lambda>_ _. Inr (JObj [(''ok'', JBool True)])), fs_write = (\<lambda>_ _ _. Inr ())\<rparr>\<rparr>"

definition sample_options :: "string \<Rightarrow> acl_options" where
  "sample_options mode = \<lparr>o_mode = mode, o_vpnInterface = JStr ''wg0'', o_cidr = JStr ''192.168.9.0/24'',
     o_network = JStr ''guest'', o_zone = JStr ''guest'', o_wanZone = JStr ''wan'', o_pbrAvailable = True\<rparr>"

theorem policy_keeps_foreign_witness:
  "au_get list_acl (sr_store (savePolicy list_acl sample_services sample_view [] ''guest'' (sample_options ''block'') sample_store))
      ''firewall'' ''users'' = au_get list_acl sample_store ''firewall'' ''users''
   \<and> sr_notices (savePolicy list_acl sample_services sample_view [] ''guest'' (sample_options ''block'') sample_store)
      = [(''info'', ''Traffic policy saved for Guest network.'')]"
proof
  have "theirs list_acl sample_store ''firewall'' ''users''" by code_simp
  moreover have "''users'' \<noteq> object_text" by (simp add: object_text_def)
  moreover have "config_key sample_view \<noteq> (''firewall'', ''users'')" by (simp add: config_key_def)
  ultimately show "au_get list_acl (sr_store (savePolicy list_acl sample_services sample_view [] ''guest'' (sample_options ''block'') sample_store))
      ''firewall'' ''users'' = au_get list_acl sample_store ''firewall'' ''users''"
    using policy_keeps_foreign [OF list_acl.acl_store_axioms] by blast
  show "sr_notices (savePolicy list_acl sample_services sample_view [] ''guest'' (sample_options ''block'') sample_store)
      = [(''info'', ''Traffic policy saved for Guest network.'')]" by code_simp
qed

lemma run_save_saved:
  "sr_saved (run_save sv r edit failed unloaded msg u) \<Longrightarrow>
   snd (edit u) = None \<and> sr_store (run_save sv r edit failed unloaded msg u) = fst (edit u)"
  by (auto simp: run_save_def Let_def split: option.splits prod.splits)

lemma savePolicy_saved:
  assumes "sr_saved (savePolicy A sv V cm network opts u)"
  shows "snd (edit_policy A V cm network opts u) = None
    \<and> sr_store (savePolicy A sv V cm network opts u) = fst (edit_policy A V cm network opts u)
    \<and> (o_mode opts = ''vpn'' \<longrightarrow> o_pbrAvailable opts \<and> truthy (o_vpnInterface opts))"
proof -
  have cidr: "\<not> (\<not> truthy (o_cidr opts) \<and> o_mode opts \<noteq> ''block'')"
    using assms by (auto simp: savePolicy_def warn_def split: if_splits)
  have vpn: "\<not> (o_mode opts = ''vpn'' \<and> (\<not> o_pbrAvailable opts \<or> \<not> truthy (o_vpnInterface opts)))"
    using assms by (auto simp: savePolicy_def warn_def split: if_splits)
  have zone: "\<not> (o_mode opts = ''block'' \<and> (\<not> truthy (o_zone opts) \<or> \<not> truthy (o_wanZone opts)))"
    using assms by (auto simp: savePolicy_def warn_def split: if_splits)
  show ?thesis
    using run_save_saved [OF assms [unfolded savePolicy_def if_not_P [OF cidr] if_not_P [OF vpn] if_not_P [OF zone]]] vpn
    unfolding savePolicy_def if_not_P [OF cidr] if_not_P [OF vpn] if_not_P [OF zone] by (simp del: append.simps)
qed

text \<open>The configurations as they are read back after a save.\<close>

definition reads_store :: "'u acl_uci \<Rightarrow> 'u \<Rightarrow> acl_view \<Rightarrow> bool" where
  "reads_store A u V \<longleftrightarrow> (\<forall>n. field (v_pbr V) n = (if au_get A u ''pbr'' n = JNull then JUndef else au_get A u ''pbr'' n)
     \<and> field (v_firewall V) n = (if au_get A u ''firewall'' n = JNull then JUndef else au_get A u ''firewall'' n))"

text \<open>C21: the policy of a segment that was saved is the one read back, when the segment had no section of a routing
  policy before or is blocked with the routing service installed.  The modes are those of the page, the interface of
  a tunnel is not called \<open>wan\<close> (which reads as the direct mode), and the section of the policy is not the one with the
  global state.  A routing policy that was there is not changed (\<open>policy_edit_lost\<close>).\<close>

theorem policy_applied:
  assumes "acl_store A" and "sr_saved (savePolicy A sv V clientByMac network opts u)"
    and "au_get A u ''pbr'' (managedPolicySection (JStr network)) = JNull \<or> o_pbrAvailable opts \<and> o_mode opts = ''block''"
    and "o_mode opts \<in> {''direct'', ''vpn'', ''block''}" and "o_vpnInterface opts \<noteq> JStr ''wan''"
    and "config_key V \<noteq> (''pbr'', managedPolicySection (JStr network))"
    and "reads_store A (sr_store (savePolicy A sv V clientByMac network opts u)) V'"
  shows "currentPolicy V' (JStr network) = (o_mode opts, if o_mode opts = ''vpn'' then o_vpnInterface opts else JStr [])"
proof -
  let ?u = "fst (edit_policy A V clientByMac network opts u)"
  let ?p = "au_get A ?u ''pbr'' (managedPolicySection (JStr network))"
  let ?b = "au_get A ?u ''firewall'' (managedBlockSection (JStr network))"
  have saved: "snd (edit_policy A V clientByMac network opts u) = None"
    "sr_store (savePolicy A sv V clientByMac network opts u) = ?u"
    "o_mode opts = ''vpn'' \<longrightarrow> o_pbrAvailable opts \<and> truthy (o_vpnInterface opts)"
    using savePolicy_saved [OF assms(2)] by blast+
  have read: "field (v_pbr V') (managedPolicySection (JStr network)) = (if ?p = JNull then JUndef else ?p)"
    "field (v_firewall V') (managedBlockSection (JStr network)) = (if ?b = JNull then JUndef else ?b)"
    using assms(7) unfolding saved(2) reads_store_def by blast+
  have "\<not> truthy JUndef" "\<not> truthy JNull" by (simp_all add: truthy_def)
  then show ?thesis
    using acl_store.segment_sections [OF assms(1) saved(1) assms(3,4,6)] assms(4,5) saved(3)
    unfolding currentPolicy_def read Let_def marked_def by (auto split: if_splits)
qed

definition saved_store :: list_store where
  "saved_store = sr_store (savePolicy list_acl sample_services sample_view [] ''guest'' (sample_options ''vpn'') [])"

definition saved_view :: acl_view where
  "saved_view = sample_view\<lparr>v_pbr := JObj (List.map_filter (\<lambda>((c, n), _).
     if c = ''pbr'' then Some (n, named_get saved_store c n) else None) saved_store)\<rparr>"

lemma saved_store_value: "saved_store = [((''pbr'', managedPolicySection (JStr ''guest'')),
    (''.type'', JStr ''policy'') # segment_pbr sample_view (sample_options ''vpn'') ''guest'')]"
  by code_simp

theorem policy_applied_witness: "currentPolicy saved_view (JStr ''guest'') = (''vpn'', JStr ''wg0'')"
proof -
  have saved: "sr_saved (savePolicy list_acl sample_services sample_view [] ''guest'' (sample_options ''vpn'') [])" by code_simp
  have get: "au_get list_acl saved_store c n = (if c = ''pbr'' \<and> n = managedPolicySection (JStr ''guest'')
      then JObj ((''.name'', JStr n) # (''.type'', JStr ''policy'') # segment_pbr sample_view (sample_options ''vpn'') ''guest'') else JNull)" for c n
    by (simp add: au_get_def list_acl_def named_get_def saved_store_value)
  have "reads_store list_acl saved_store saved_view"
    unfolding reads_store_def get
    by (simp add: saved_view_def saved_store_value field_JObj named_get_def sample_view_def List.map_filter_simps)
  moreover have "au_get list_acl [] ''pbr'' n = JNull" for n by (simp add: au_get_def list_acl_def named_get_def)
  moreover have "config_key sample_view \<noteq> (''pbr'', managedPolicySection (JStr ''guest''))" by code_simp
  ultimately show ?thesis
    using policy_applied [OF list_acl.acl_store_axioms saved, of saved_view]
    by (simp add: saved_store_def sample_options_def)
qed

text \<open>A segment that already has a routing policy of the program keeps it when another tunnel or
  direct access is saved: the handler passes the section itself where the store expects its name.\<close>

theorem policy_edit_lost:
  assumes "acl_store A" and "truthy (au_get A u ''pbr'' (managedPolicySection (JStr network)))"
    and "o_mode opts \<in> {''direct'', ''vpn''}" and "config_key V \<noteq> (''pbr'', managedPolicySection (JStr network))"
  shows "au_get A (sr_store (savePolicy A sv V clientByMac network opts u)) ''pbr'' (managedPolicySection (JStr network))
    = au_get A u ''pbr'' (managedPolicySection (JStr network))"
  using savePolicy_store [of A sv V clientByMac network opts u] acl_store.segment_policy_kept [OF assms] by metis

theorem policy_edit_lost_witness:
  "field (au_get list_acl (sr_store (savePolicy list_acl sample_services sample_view [] ''guest'' (sample_options ''direct'') saved_store))
       ''pbr'' (managedPolicySection (JStr ''guest''))) ''interface'' = JStr ''wg0''
   \<and> sr_notices (savePolicy list_acl sample_services sample_view [] ''guest'' (sample_options ''direct'') saved_store)
     = [(''info'', ''Traffic policy saved for Guest network.'')]"
proof
  let ?P = "managedPolicySection (JStr ''guest'')"
  have "au_get list_acl saved_store ''pbr'' ?P = JObj ((''.name'', JStr ?P) # (''.type'', JStr ''policy'')
      # segment_pbr sample_view (sample_options ''vpn'') ''guest'')"
    by (simp add: au_get_def list_acl_def named_get_def saved_store_value)
  moreover have "config_key sample_view \<noteq> (''pbr'', ?P)" by code_simp
  ultimately show "field (au_get list_acl (sr_store (savePolicy list_acl sample_services sample_view [] ''guest''
      (sample_options ''direct'') saved_store)) ''pbr'' ?P) ''interface'' = JStr ''wg0''"
    using policy_edit_lost [OF list_acl.acl_store_axioms, of saved_store "''guest''" "sample_options ''direct''" sample_view
        sample_services "[]"]
    by (simp add: truthy_def sample_options_def field_JObj segment_pbr_def)
  show "sr_notices (savePolicy list_acl sample_services sample_view [] ''guest'' (sample_options ''direct'') saved_store)
     = [(''info'', ''Traffic policy saved for Guest network.'')]" unfolding saved_store_value by code_simp
qed

text \<open>C22: a save of a device policy that stops with an exception leaves the store as it was.\<close>

theorem device_save_atomic:
  assumes "snd (edit_device A V clientByMac mac opts u) = Some e"
  shows "fst (edit_device A V clientByMac mac opts u) = u
    \<and> sr_store (saveDevicePolicy A sv V clientByMac mac opts u) = u
    \<and> \<not> sr_saved (saveDevicePolicy A sv V clientByMac mac opts u)"
proof -
  have kept: "fst (edit_device A V clientByMac mac opts u) = u"
    using assms unfolding edit_device_def Let_def by (simp split: if_splits)
  have "sr_store (run_save sv r (edit_device A V clientByMac mac opts) failed unloaded msg u) = u
      \<and> \<not> sr_saved (run_save sv r (edit_device A V clientByMac mac opts) failed unloaded msg u)" for r failed unloaded msg
    using assms kept by (cases "edit_device A V clientByMac mac opts u") (simp add: run_save_def Let_def split: option.splits)
  then show ?thesis using kept by (simp add: saveDevicePolicy_def warn_def Let_def)
qed

definition sample_mac :: string where "sample_mac = ''AA:BB:CC:DD:EE:FF''"

definition collision_store :: list_store where
  "collision_store = [
     ((''firewall'', managedDeviceAllowSection sample_mac), [(''.type'', JStr ''rule''), (''target'', JStr ''DROP'')]),
     ((''pbr'', managedDeviceSection sample_mac), [(''.type'', JStr ''policy''), (''freenetic_managed'', JStr ''1''),
        (''freenetic_scope'', JStr ''device''), (''freenetic_mac'', JStr sample_mac), (''freenetic_network'', JStr ''guest'')])]"

theorem device_save_atomic_witness:
  "sr_store (saveDevicePolicy list_acl sample_services sample_view [] sample_mac (sample_options ''direct'') collision_store)
     = collision_store"
proof -
  have "snd (edit_device list_acl sample_view [] sample_mac (sample_options ''direct'') collision_store) = Some exception_name_used"
    by code_simp
  then show ?thesis by (rule device_save_atomic [THEN conjunct2, THEN conjunct1])
qed

text \<open>Saving the policy of a segment can stop with an exception after it has edited the store: the
  exceptions of devices are checked only then, and the routing policy of the segment is already there
  for the next save of the store.\<close>

theorem segment_save_partial:
  "let r = savePolicy list_acl sample_services sample_view [] ''guest'' (sample_options ''direct'') collision_store
   in \<not> sr_saved r \<and> sr_notices r = [(''danger'', ''Failed to save traffic policy: '' @ exception_name_used)]
     \<and> au_get list_acl (sr_store r) ''pbr'' (managedPolicySection (JStr ''guest'')) \<noteq> JNull"
  by code_simp

end
