(* ===== verification/Routing.thy ===== *)
theory Routing
  imports Wg_Config Policy_Save
begin

unbundle bit_operations_syntax

text \<open>
  Static routes and DNS routes (\<open>view/network/freenetic-routing.js\<close>): validators, the readers of
  route files, duplicate detection and the handlers that edit \<open>network\<close> and \<open>dhcp\<close>.  The store is a
  parameter as in \<open>Policy_Save\<close>; a section that is added without a name gets a new one.
\<close>

section \<open>Addresses and masks\<close>

definition route_ipv4 :: "jsval \<Rightarrow> bool" where
  "route_ipv4 v = validIPv4 v"

definition ipv4Netmask :: "jsval \<Rightarrow> bool" where
  "ipv4Netmask v \<longleftrightarrow> v = JStr ''0.0.0.0'' \<or> validIPv4Netmask v"

definition mask_bits :: "string \<Rightarrow> string" where
  "mask_bits s = concat (map (\<lambda>part. pad_start 8 CHR ''0'' (base_str 2 (int_of (number_of_str part)))) (split_on CHR ''.'' s))"

definition netmaskToPrefix :: "jsval \<Rightarrow> nat option" where
  "netmaskToPrefix v =
     (if \<not> ipv4Netmask v then None
      else case index_of CHR ''0'' (mask_bits (to_str v)) of None \<Rightarrow> Some 32 | Some i \<Rightarrow> Some i)"

definition prefixToNetmask :: "string \<Rightarrow> string option" where
  "prefixToNetmask s =
     (let v = number_of_str s
      in if \<not> is_integer v \<or> num_less v (Num 0) \<or> num_less (Num 32) v then None
         else if int_of v = 0 then Some ''0.0.0.0''
         else let m = to_uint32 (js_shl 0xffffffff (nat (32 - int_of v)))
              in Some (join ''.'' (map dec [js_ushr m 24, js_ushr m 16 AND 255, js_ushr m 8 AND 255, m AND 255])))"

definition route_ipv6 :: "jsval \<Rightarrow> bool" where
  "route_ipv6 v = validIPv6 v (Some False)"

definition route_metric :: "string \<Rightarrow> bool" where
  "route_metric v \<longleftrightarrow> v = [] \<or> all_digits v \<and> num_le (number_of_str v) (Num 4294967295)"

definition route_prefix :: "string \<Rightarrow> int \<Rightarrow> bool" where
  "route_prefix v high \<longleftrightarrow> all_digits v \<and> num_le (Num 0) (number_of_str v) \<and> num_le (number_of_str v) (num_of_int high)"

section \<open>DNS routes\<close>

definition domain_char :: "char \<Rightarrow> bool" where
  "domain_char c \<longleftrightarrow> is_alnum c \<or> c \<in> set ''._-''"

text \<open>\<open>/^(?:\*|\.?[A-Za-z0-9](?:[A-Za-z0-9._-]*[A-Za-z0-9])?)$/\<close>\<close>

definition dnsDomain :: "string \<Rightarrow> bool" where
  "dnsDomain v \<longleftrightarrow> v = ''*''
     \<or> (let s = (if starts_with ''.'' v then tl v else v)
        in s \<noteq> [] \<and> is_alnum (hd s) \<and> is_alnum (last s) \<and> list_all domain_char s)"

definition strip_brackets :: "string \<Rightarrow> string" where
  "strip_brackets s = (if s \<noteq> [] \<and> hd s = CHR ''['' \<and> last s = CHR '']'' then butlast (tl s) else s)"

definition dnsServer :: "string \<Rightarrow> bool" where
  "dnsServer v0 =
     (let v = trim v0; addr_ok = (\<lambda>a. route_ipv4 (JStr (strip_brackets a)) \<or> route_ipv6 (JStr (strip_brackets a)))
      in if v = [] then False
         else case last_index_of CHR ''#'' v of
             None \<Rightarrow> addr_ok v
           | Some i \<Rightarrow>
               (let port = drop (i + 1) v
                in if \<not> all_digits port \<or> num_less (number_of_str port) (Num 1) \<or> num_less (Num 65535) (number_of_str port)
                   then False else addr_ok (take i v)))"

definition line_end :: "char \<Rightarrow> bool" where
  "line_end c \<longleftrightarrow> cc c = 10 \<or> cc c = 13"

record dns_route =
  dr_raw :: jsval
  dr_domain :: string
  dr_server :: string

text \<open>\<open>/^\/([^/]+)\/(.+)$/\<close>\<close>

definition parseDnsServer :: "jsval \<Rightarrow> dns_route option" where
  "parseDnsServer raw =
     (let s = arg_str raw; d = takeWhile (\<lambda>c. c \<noteq> CHR ''/'') (tl s); r = dropWhile (\<lambda>c. c \<noteq> CHR ''/'') (tl s)
      in if \<not> starts_with ''/'' s \<or> d = [] \<or> r = [] \<or> tl r = [] \<or> list_ex line_end (tl r) then None
         else if \<not> dnsDomain d \<or> \<not> dnsServer (tl r) then None
         else Some \<lparr>dr_raw = raw, dr_domain = d, dr_server = tl r\<rparr>)"

definition encodeDnsServer :: "string \<Rightarrow> string \<Rightarrow> string" where
  "encodeDnsServer domain server = ''/'' @ domain @ ''/'' @ server"

section \<open>Targets and keys\<close>

text \<open>\<open>/^(.+?)(?:\/(\d+))?$/\<close>: the last slash that digits follow to the end splits the target.\<close>

definition routeTargetParts :: "string \<Rightarrow> string \<times> string" where
  "routeTargetParts s =
     (case last_index_of CHR ''/'' s of
        Some i \<Rightarrow> if 0 < i \<and> all_digits (drop (i + 1) s) \<and> \<not> list_ex line_end s then (take i s, drop (i + 1) s) else (s, [])
      | None \<Rightarrow> (s, []))"

definition routeTarget :: "jsval \<Rightarrow> string \<Rightarrow> string" where
  "routeTarget route family =
     (let target = to_str (or_else (field route ''target'') (JStr (if family = ''ipv4'' then ''0.0.0.0'' else ''::'')));
          netmask = field route ''netmask''
      in if truthy netmask \<and> CHR ''/'' \<notin> set target
         then (if family = ''ipv4''
               then (case netmaskToPrefix netmask of Some p \<Rightarrow> target @ ''/'' @ dec (int p) | None \<Rightarrow> target)
               else target @ ''/'' @ to_str netmask)
         else target)"

definition routeTypeFor :: "jsval \<Rightarrow> string \<Rightarrow> string" where
  "routeTypeFor route family =
     (let prefix = snd (routeTargetParts (routeTarget route family))
      in if prefix = ''0'' then ''default''
         else if prefix = (if family = ''ipv6'' then ''128'' else ''32'') then ''host'' else ''network'')"

definition interface_labels :: "(string \<times> string) list" where
  "interface_labels = [(''wan'', ''Internet''), (''wan6'', ''Internet (IPv6)''), (''lan'', ''Home network''),
     (''guest'', ''Guest network''), (''br-lan'', ''Home network''), (''br-guest'', ''Guest network'')]"

definition interfaceFriendlyLabel :: "string \<Rightarrow> string" where
  "interfaceFriendlyLabel name =
     (case map_of interface_labels name of Some l \<Rightarrow> l | None \<Rightarrow> if name \<noteq> [] then name else en_dash)"

definition or_text :: "jsval \<Rightarrow> string" where
  "or_text v = to_str (or_else v (JStr []))"

definition route_key_text :: "string \<Rightarrow> string \<Rightarrow> string \<Rightarrow> string \<Rightarrow> string \<Rightarrow> string" where
  "route_key_text family target gateway interfaceName metricValue =
     join ''|'' [family, target, gateway, interfaceName, metricValue]"

definition routeKey :: "jsval \<Rightarrow> string \<Rightarrow> string \<Rightarrow> string" where
  "routeKey route family interfaceName =
     route_key_text family (routeTarget route family) (or_text (field route ''gateway'')) interfaceName (or_text (field route ''metric''))"

section \<open>Route files\<close>

record imported_route =
  ir_family :: string
  ir_target :: string
  ir_netmask :: string
  ir_gateway :: string
  ir_metric :: string
  ir_line :: nat
  ir_source :: string

record line_error =
  le_line :: nat
  le_text :: string
  le_message :: string

datatype parsed_line = Route imported_route | Bad line_error

definition importedRouteKey :: "imported_route \<Rightarrow> string \<Rightarrow> string" where
  "importedRouteKey r interfaceName =
     (let target = (if ir_family r = ''ipv4''
                    then ir_target r @ ''/'' @ (case netmaskToPrefix (JStr (ir_netmask r)) of Some p \<Rightarrow> dec (int p) | None \<Rightarrow> ''null'')
                    else ir_target r)
      in route_key_text (ir_family r) target (ir_gateway r) interfaceName (ir_metric r))"

definition routeLineError :: "string \<Rightarrow> nat \<Rightarrow> string \<Rightarrow> parsed_line" where
  "routeLineError line number message = Bad \<lparr>le_line = number, le_text = trim line, le_message = message\<rparr>"

definition normalizeImportedRoute ::
    "string \<Rightarrow> string \<Rightarrow> string \<Rightarrow> string \<Rightarrow> string \<Rightarrow> string \<Rightarrow> nat \<Rightarrow> parsed_line" where
  "normalizeImportedRoute family target0 netmask0 gateway0 metric0 line number =
     (let target = trim target0; gateway = trim gateway0; metricValue = trim metric0;
          (address, prefix) = routeTargetParts target;
          netmask = (if family = ''ipv4'' \<and> prefix \<noteq> []
                     then (case prefixToNetmask prefix of Some m \<Rightarrow> JStr m | None \<Rightarrow> JNull) else JStr (trim netmask0));
          err = routeLineError line number
      in if family = ''ipv4'' \<and> \<not> route_ipv4 (JStr address) then err ''invalid IPv4 destination''
         else if family = ''ipv4'' \<and> \<not> ipv4Netmask netmask then err ''invalid IPv4 netmask''
         else if family = ''ipv4'' \<and> gateway \<noteq> [] \<and> \<not> route_ipv4 (JStr gateway) then err ''invalid IPv4 gateway''
         else if family \<noteq> ''ipv4'' \<and> \<not> route_ipv6 (JStr address) then err ''invalid IPv6 destination''
         else if family \<noteq> ''ipv4'' \<and> prefix \<noteq> [] \<and> \<not> route_prefix prefix 128 then err ''invalid IPv6 prefix''
         else if family \<noteq> ''ipv4'' \<and> gateway \<noteq> [] \<and> \<not> route_ipv6 (JStr gateway) then err ''invalid IPv6 gateway''
         else if metricValue \<noteq> [] \<and> \<not> route_metric metricValue then err ''invalid metric''
         else Route \<lparr>ir_family = family, ir_target = (if family = ''ipv4'' then address else target),
                ir_netmask = (if family = ''ipv4'' then to_str netmask else []), ir_gateway = gateway,
                ir_metric = metricValue, ir_line = number, ir_source = trim line\<rparr>)"

text \<open>The word behind \<open>metric\<close>.\<close>

fun metric_word :: "string list \<Rightarrow> string" where
  "metric_word (a # b # r) = (if lower a = ''metric'' then b else metric_word (b # r))"
| "metric_word _ = []"

definition skip_word :: "string \<Rightarrow> string list \<Rightarrow> string list" where
  "skip_word w ts = (case ts of t # r \<Rightarrow> if lower t = w then r else ts | [] \<Rightarrow> [])"

definition first_word :: "string list \<Rightarrow> string" where
  "first_word ts = (case ts of t # _ \<Rightarrow> t | [] \<Rightarrow> [])"

text \<open>A record behind \<open>route\<close> or \<open>route6\<close>: the words are consumed from the left.\<close>

definition windows_route :: "string \<Rightarrow> string list \<Rightarrow> string \<Rightarrow> nat \<Rightarrow> parsed_line" where
  "windows_route command ts0 line number =
     (let ts1 = skip_word ''-6'' ts0; v6 = (command = ''route6'' \<or> ts1 \<noteq> ts0);
          ts2 = skip_word ''-4'' ts1; family = (if ts2 \<noteq> ts1 then ''ipv4'' else if v6 then ''ipv6'' else ''ipv4'');
          ts3 = skip_word ''-p'' ts2
      in if skip_word ''add'' ts3 = ts3 then routeLineError line number ''expected an ADD route record''
         else let ts4 = tl ts3; target = first_word ts4; ts5 = drop 1 ts4;
                  with_mask = (family = ''ipv4'' \<and> skip_word ''mask'' ts5 \<noteq> ts5);
                  netmask = (if with_mask then first_word (tl ts5)
                             else if family = ''ipv4'' \<and> target \<noteq> [] \<and> CHR ''/'' \<notin> set target then ''255.255.255.255'' else []);
                  ts6 = (if with_mask then drop 2 ts5 else ts5);
                  has_gateway = (ts6 \<noteq> [] \<and> lower (hd ts6) \<noteq> ''metric'' \<and> lower (hd ts6) \<noteq> ''if'');
                  gateway = (if has_gateway then hd ts6 else []); ts7 = (if has_gateway then tl ts6 else ts6)
              in normalizeImportedRoute family target netmask gateway (metric_word ts7) line number)"

definition parseRouteLine :: "string \<Rightarrow> nat \<Rightarrow> parsed_line option" where
  "parseRouteLine line number =
     (let cleaned = trim (strip_comment line); ts = tokens cleaned
      in if cleaned = [] then None
         else if lower (hd ts) = ''route'' \<or> lower (hd ts) = ''route6''
         then Some (windows_route (lower (hd ts)) (tl ts) line number)
         else if 3 \<le> length ts \<and> route_ipv4 (JStr (ts ! 0)) \<and> route_ipv4 (JStr (ts ! 1))
         then Some (normalizeImportedRoute ''ipv4'' (ts ! 0) (ts ! 1) (ts ! 2) [] line number)
         else None)"

record route_file =
  rf_routes :: "imported_route list"
  rf_errors :: "line_error list"
  rf_ignored :: nat

text \<open>A line that is blank or only a comment.\<close>

definition silent_line :: "string \<Rightarrow> bool" where
  "silent_line line \<longleftrightarrow> trim line = [] \<or> (let r = dropWhile is_ws line in r \<noteq> [] \<and> hd r \<in> set ''#;'')"

definition read_route_line :: "route_file \<Rightarrow> nat \<times> string \<Rightarrow> route_file" where
  "read_route_line f = (\<lambda>(index, line).
     case parseRouteLine line (index + 1) of
       None \<Rightarrow> if silent_line line then f else f\<lparr>rf_ignored := rf_ignored f + 1\<rparr>
     | Some (Bad e) \<Rightarrow> f\<lparr>rf_errors := rf_errors f @ [e]\<rparr>
     | Some (Route r) \<Rightarrow> f\<lparr>rf_routes := rf_routes f @ [r]\<rparr>)"

definition parseRouteFile :: "string \<Rightarrow> route_file" where
  "parseRouteFile contents =
     (let ls = split_lines contents
      in foldl read_route_line \<lparr>rf_routes = [], rf_errors = [], rf_ignored = 0\<rparr> (zip [0..<length ls] ls))"

section \<open>Configured routes\<close>

record 'u route_uci =
  ru_base :: "'u acl_uci"
  ru_new :: "'u \<Rightarrow> string \<Rightarrow> string \<Rightarrow> string"

definition ru_sections :: "'u route_uci \<Rightarrow> 'u \<Rightarrow> string \<Rightarrow> string \<Rightarrow> jsval list" where
  "ru_sections R = au_sections (ru_base R)"

text \<open>\<open>uci.add(config, type)\<close>\<close>

definition ru_add :: "'u route_uci \<Rightarrow> string \<Rightarrow> string \<Rightarrow> 'u \<Rightarrow> string \<times> 'u" where
  "ru_add R c t u = (ru_new R u c t, uci_add (au_base (ru_base R)) u c t (ru_new R u c t))"

definition ru_set :: "'u route_uci \<Rightarrow> string \<Rightarrow> string \<Rightarrow> (string \<times> jsval) list \<Rightarrow> 'u \<Rightarrow> 'u" where
  "ru_set R c n kvs u = au_set (ru_base R) c (JStr n) kvs u"

text \<open>\<open>if (v) uci.set(...) else uci.unset(...)\<close>\<close>

definition ru_set_or_unset :: "'u route_uci \<Rightarrow> string \<Rightarrow> string \<Rightarrow> string \<Rightarrow> string \<Rightarrow> 'u \<Rightarrow> 'u" where
  "ru_set_or_unset R c n k v u =
     (if v \<noteq> [] then ru_set R c n [(k, JStr v)] u else au_unset (ru_base R) u c n k)"

record configured_route =
  gr_section :: jsval
  gr_target :: string
  gr_gateway :: string
  gr_interface :: string
  gr_metric :: string
  gr_table :: jsval
  gr_description :: jsval
  gr_automatic :: bool

definition route_type :: "string \<Rightarrow> string" where
  "route_type family = (if family = ''ipv6'' then ''route6'' else ''route'')"

definition configured_route_of :: "string \<Rightarrow> jsval \<Rightarrow> configured_route" where
  "configured_route_of family section =
     \<lparr>gr_section = sectionName_acl section, gr_target = routeTarget section family,
      gr_gateway = or_text (field section ''gateway''), gr_interface = or_text (field section ''interface''),
      gr_metric = or_text (field section ''metric''), gr_table = or_else (field section ''table'') (JStr []),
      gr_description = or_else (or_else (or_else (field section ''freenetic_description'') (field section ''description''))
        (field section ''comment'')) (JStr []),
      gr_automatic = (field section ''disabled'' \<noteq> JStr ''1'')\<rparr>"

definition getConfiguredRoutes :: "'u route_uci \<Rightarrow> 'u \<Rightarrow> string \<Rightarrow> configured_route list" where
  "getConfiguredRoutes R u family = map (configured_route_of family) (ru_sections R u ''network'' (route_type family))"

text \<open>What \<open>routeKey\<close> reads of a configured route.\<close>

definition configured_object :: "configured_route \<Rightarrow> jsval" where
  "configured_object r = JObj [(''target'', JStr (gr_target r)), (''gateway'', JStr (gr_gateway r)), (''metric'', JStr (gr_metric r))]"

definition interface_choice :: "jsval \<Rightarrow> (string \<times> string) option" where
  "interface_choice section =
     (let v = sectionName_acl section
      in if \<not> truthy v \<or> v = JStr ''loopback'' \<or> field section ''proto'' = JStr ''none'' then None
         else Some (to_str v, to_str (or_else (or_else (field section ''label'') (field section ''description''))
                (JStr (interfaceFriendlyLabel (to_str v))))))"

definition getInterfaces :: "'u route_uci \<Rightarrow> 'u \<Rightarrow> (string \<times> string) list" where
  "getInterfaces R u =
     foldl (\<lambda>result route. let v = or_text (field route ''interface'')
              in if v \<noteq> [] \<and> v \<notin> fst ` set result then result @ [(v, interfaceFriendlyLabel v)] else result)
       (List.map_filter interface_choice (ru_sections R u ''network'' ''interface''))
       (ru_sections R u ''network'' ''route'' @ ru_sections R u ''network'' ''route6'')"

definition routeInterfaceLabel :: "string \<Rightarrow> (string \<times> string) list \<Rightarrow> string" where
  "routeInterfaceLabel name interfaces =
     (case find (\<lambda>item. fst item = name) interfaces of Some item \<Rightarrow> snd item
      | None \<Rightarrow> if name \<noteq> [] then name else en_dash)"

record dns_config =
  dc_section :: jsval
  dc_servers :: "jsval list"
  dc_entries :: "(nat \<times> dns_route) list"
  dc_otherCount :: nat

definition listValue_route :: "jsval \<Rightarrow> jsval list" where
  "listValue_route v = (if nullish v then [] else if is_array v then elements v else [v])"

definition getDnsConfig :: "'u route_uci \<Rightarrow> 'u \<Rightarrow> dns_config" where
  "getDnsConfig R u =
     (let section = (case ru_sections R u ''dhcp'' ''dnsmasq'' of [] \<Rightarrow> JUndef | s # _ \<Rightarrow> s);
          servers = (if truthy section then listValue_route (field section ''server'') else [])
      in \<lparr>dc_section = sectionName_acl section, dc_servers = servers,
          dc_entries = List.map_filter (\<lambda>(i, raw). map_option (Pair i) (parseDnsServer raw)) (zip [0..<length servers] servers),
          dc_otherCount = length (filter (\<lambda>raw. parseDnsServer raw = None) servers)\<rparr>)"

section \<open>Active routes\<close>

record active_route =
  at_target :: string
  at_gateway :: string
  at_interface :: string

definition row_key :: "active_route \<Rightarrow> string" where
  "row_key row = join ''|'' [at_target row, at_gateway row, at_interface row]"

definition add_active :: "active_route list \<Rightarrow> active_route \<Rightarrow> active_route list" where
  "add_active rows row = (if row_key row \<in> row_key ` set rows then rows else rows @ [row])"

definition kernel_row :: "(string \<times> string) list \<Rightarrow> jsval \<Rightarrow> jsval \<Rightarrow> active_route" where
  "kernel_row interfaces iface route =
     (let mask = field route ''mask''; target = to_str (or_else (field route ''target'') (JStr en_dash));
          suffix = (if \<not> nullish mask \<and> mask \<noteq> JStr [] then ''/'' @ to_str mask else []);
          name = or_text (or_else (or_else (field route ''interface'') (field iface ''interface'')) (field iface ''l3_device''))
      in \<lparr>at_target = target @ (if CHR ''/'' \<notin> set target then suffix else []),
          at_gateway = to_str (or_else (field route ''nexthop'') (JStr en_dash)),
          at_interface = routeInterfaceLabel name interfaces\<rparr>)"

definition connected_row :: "(string \<times> string) list \<Rightarrow> jsval \<Rightarrow> string \<Rightarrow> active_route" where
  "connected_row interfaces iface target =
     \<lparr>at_target = target, at_gateway = en_dash, at_interface = routeInterfaceLabel
        (or_text (or_else (field iface ''interface'') (field iface ''l3_device''))) interfaces\<rparr>"

definition interface_rows :: "string \<Rightarrow> (string \<times> string) list \<Rightarrow> jsval \<Rightarrow> active_route list" where
  "interface_rows family interfaces iface =
     map (kernel_row interfaces iface)
       (filter (\<lambda>route. (CHR '':'' \<in> set (or_text (field route ''target''))) = (family = ''ipv6''))
         (elements (or_else (field iface ''route'') (JArr []))))
     @ map (connected_row interfaces iface)
         (List.map_filter connectedRouteTarget
           (elements (or_else (field iface (if family = ''ipv6'' then ''ipv6-address'' else ''ipv4-address'')) (JArr []))))"

definition active_rows :: "string \<Rightarrow> (string \<times> string) list \<Rightarrow> jsval list \<Rightarrow> active_route list" where
  "active_rows family interfaces dump = foldl add_active [] (concat (map (interface_rows family interfaces) dump))"

section \<open>Selection\<close>

text \<open>The keys of the selected rows, in the order of selection: the section of a route, the index of a DNS route.\<close>

definition selectionKey :: "string \<Rightarrow> string \<Rightarrow> string" where
  "selectionKey family v = family @ '':'' @ v"

definition setRouteSelected :: "string \<Rightarrow> bool \<Rightarrow> string list \<Rightarrow> string list" where
  "setRouteSelected key selected keys =
     (if selected then (if key \<in> set keys then keys else keys @ [key]) else filter (\<lambda>k. k \<noteq> key) keys)"

definition selectedRouteKeys :: "string \<Rightarrow> string list \<Rightarrow> string list" where
  "selectedRouteKeys activeFamily keys = filter (starts_with (activeFamily @ '':'')) keys"

definition key_value :: "string \<Rightarrow> string \<Rightarrow> string" where
  "key_value activeFamily key = drop (length (activeFamily @ '':'')) key"

section \<open>Saving\<close>

text \<open>\<open>uci.save().then(() => applyChanges()).then(...)\<close>\<close>

definition save_apply :: "acl_services \<Rightarrow> string \<Rightarrow> string \<Rightarrow> 'u \<Rightarrow> 'u save_result" where
  "save_apply sv failed done_text u = run_save (sv\<lparr>sv_load := None\<rparr>) False (\<lambda>u. (u, None)) failed [] done_text u"

text \<open>A handler that returns before it does anything.\<close>

definition nothing :: "'u \<Rightarrow> 'u save_result" where
  "nothing u = \<lparr>sr_store = u, sr_notices = [], sr_saved = False, sr_refreshed = False\<rparr>"

definition saveSelectedRoutes :: "acl_services \<Rightarrow> string \<Rightarrow> string list \<Rightarrow> 'u \<Rightarrow> 'u save_result" where
  "saveSelectedRoutes sv activeFamily keys u =
     (let selected = selectedRouteKeys activeFamily keys
      in if selected = [] then nothing u
         else save_apply sv ''Failed to save routes: '' (''Saved routes: '' @ dec (int (length selected)) @ ''.'') u)"

text \<open>\<open>servers.splice(index, 1)\<close> for every index, the largest first.\<close>

definition remove_at :: "nat \<Rightarrow> 'a list \<Rightarrow> 'a list" where
  "remove_at i xs = take i xs @ drop (i + 1) xs"

definition splice_server :: "jsval list \<Rightarrow> int \<Rightarrow> jsval list" where
  "splice_server servers index = (if 0 \<le> index \<and> index < int (length servers) then remove_at (nat index) servers else servers)"

definition splice_servers :: "int list \<Rightarrow> jsval list \<Rightarrow> jsval list" where
  "splice_servers indexes servers = foldl splice_server servers (rev (sort indexes))"

definition set_servers :: "'u route_uci \<Rightarrow> jsval \<Rightarrow> jsval list \<Rightarrow> 'u \<Rightarrow> 'u" where
  "set_servers R section servers u =
     (if \<not> truthy section then u
      else if servers \<noteq> [] then ru_set R ''dhcp'' (to_str section) [(''server'', JArr servers)] u
      else au_unset (ru_base R) u ''dhcp'' (to_str section) ''server'')"

definition delete_selected :: "'u route_uci \<Rightarrow> string \<Rightarrow> string list \<Rightarrow> 'u \<Rightarrow> 'u" where
  "delete_selected R activeFamily selected u =
     (if activeFamily = ''dns''
      then (let d = getDnsConfig R u
            in set_servers R (dc_section d)
                 (splice_servers (map (\<lambda>key. int_of (number_of_str (key_value ''dns'' key))) selected) (dc_servers d)) u)
      else foldl (\<lambda>u key. au_remove (ru_base R) ''network'' (key_value activeFamily key) u) u selected)"

text \<open>\<open>confirmed\<close> is the answer of \<open>window.confirm\<close>.\<close>

definition deleteSelectedRoutes ::
    "'u route_uci \<Rightarrow> acl_services \<Rightarrow> bool \<Rightarrow> string \<Rightarrow> string list \<Rightarrow> 'u \<Rightarrow> 'u save_result" where
  "deleteSelectedRoutes R sv confirmed activeFamily keys u =
     (let selected = selectedRouteKeys activeFamily keys
      in if selected = [] \<or> \<not> confirmed then nothing u
         else save_apply sv ''Failed to delete routes: '' (''Deleted routes: '' @ dec (int (length selected)) @ ''.'')
                (delete_selected R activeFamily selected u))"

section \<open>Importing\<close>

definition import_limit :: int where
  "import_limit = 2 * 1024 * 1024"

text \<open>What is shown for a file: a warning, or the preview.\<close>

definition readImportFile :: "int \<Rightarrow> string option \<Rightarrow> (string \<times> string) + route_file" where
  "readImportFile fileSize contents =
     (if import_limit < fileSize then Inl (''warning'', ''Route files are limited to 2 MiB.'')
      else case contents of None \<Rightarrow> Inl (''danger'', ''Unable to read the selected route file.'')
         | Some s \<Rightarrow> Inr (parseRouteFile s))"

definition configured_keys :: "'u route_uci \<Rightarrow> 'u \<Rightarrow> string list" where
  "configured_keys R u =
     concat (map (\<lambda>family. map (\<lambda>route. routeKey (configured_object route) family (gr_interface route))
        (getConfiguredRoutes R u family)) [''ipv4'', ''ipv6''])"

definition import_options :: "string \<Rightarrow> imported_route \<Rightarrow> (string \<times> jsval) list" where
  "import_options interfaceName route =
     [(''freenetic_managed'', JStr ''1''), (''interface'', JStr interfaceName), (''target'', JStr (ir_target route))]
     @ (if ir_family route = ''ipv4'' then [(''netmask'', JStr (ir_netmask route))] else [])
     @ (if ir_gateway route \<noteq> [] then [(''gateway'', JStr (ir_gateway route))] else [])
     @ (if ir_metric route \<noteq> [] then [(''metric'', JStr (ir_metric route))] else [])"

definition import_route :: "'u route_uci \<Rightarrow> string \<Rightarrow> imported_route \<Rightarrow> 'u \<Rightarrow> 'u" where
  "import_route R interfaceName route u =
     (let (section, u) = ru_add R ''network'' (route_type (ir_family route)) u
      in ru_set R ''network'' section (import_options interfaceName route) u)"

record 'u import_state =
  is_existing :: "string list"
  is_added :: nat
  is_skipped :: nat
  is_store :: 'u

definition import_step :: "'u route_uci \<Rightarrow> string \<Rightarrow> 'u import_state \<Rightarrow> imported_route \<Rightarrow> 'u import_state" where
  "import_step R interfaceName st route =
     (let key = importedRouteKey route interfaceName
      in if key \<in> set (is_existing st) then st\<lparr>is_skipped := is_skipped st + 1\<rparr>
         else st\<lparr>is_existing := is_existing st @ [key], is_added := is_added st + 1,
                 is_store := import_route R interfaceName route (is_store st)\<rparr>)"

definition import_all :: "'u route_uci \<Rightarrow> string \<Rightarrow> imported_route list \<Rightarrow> 'u \<Rightarrow> 'u import_state" where
  "import_all R interfaceName selected u =
     foldl (import_step R interfaceName)
       \<lparr>is_existing = configured_keys R u, is_added = 0, is_skipped = 0, is_store = u\<rparr> selected"

definition importRoutes ::
    "'u route_uci \<Rightarrow> acl_services \<Rightarrow> string \<Rightarrow> imported_route list \<Rightarrow> bool list \<Rightarrow> 'u \<Rightarrow> 'u save_result" where
  "importRoutes R sv interfaceName routes checks u =
     (let selected = map fst (filter snd (zip routes checks));
          st = import_all R interfaceName selected u
      in if interfaceName = [] then warn u ''Select an OpenWrt interface for the imported routes.''
         else if selected = [] then warn u ''Select at least one route to import.''
         else if is_added st = 0
         then (nothing u)\<lparr>sr_notices := [(''info'', ''All selected routes already exist for this interface.'')]\<rparr>
         else save_apply sv ''Failed to import routes: ''
                (''Imported routes: '' @ dec (int (is_added st)) @ ''.''
                 @ (if 0 < is_skipped st then '' Skipped duplicate routes: '' @ dec (int (is_skipped st)) @ ''.'' else []))
                (is_store st))"

section \<open>Editing a route\<close>

record route_fields =
  rt_family :: string
  rt_routeType :: string
  rt_target :: string
  rt_gateway :: string
  rt_interface :: string
  rt_metric :: string
  rt_description :: string
  rt_automatic :: bool

text \<open>The message and the field of an error, or the normalized target and netmask.\<close>

definition validateRoute :: "route_fields \<Rightarrow> (string \<times> string) + (string \<times> jsval)" where
  "validateRoute f =
     (let isV6 = (rt_family f = ''ipv6''); top = (if isV6 then 128 else 32 :: int);
          (address, p) = routeTargetParts (rt_target f);
          whole = (number_of_str p = num_of_int top)
      in if \<not> route_metric (rt_metric f) then Inl (''Metric must be a non-negative number.'', ''metric'')
         else if rt_gateway f \<noteq> [] \<and> \<not> (if isV6 then route_ipv6 else route_ipv4) (JStr (rt_gateway f))
         then Inl (if isV6 then ''Gateway must be a valid IPv6 address.'' else ''Gateway must be a valid IPv4 address.'', ''gateway'')
         else if rt_gateway f = [] \<and> rt_interface f = [] then Inl (''Enter a gateway or choose an interface.'', ''gateway'')
         else if rt_routeType f = ''default''
         then Inr (if isV6 then (''::/0'', JStr []) else (''0.0.0.0'', JStr ''0.0.0.0''))
         else if isV6
         then (if \<not> route_ipv6 (JStr address) then Inl (''Destination must be a valid IPv6 address or CIDR.'', ''target'')
               else if p \<noteq> [] \<and> \<not> route_prefix p top then Inl (''IPv6 prefix must be between 0 and 128.'', ''target'')
               else if rt_routeType f = ''host''
               then (if p \<noteq> [] \<and> \<not> whole then Inl (''A host route must use the /128 prefix.'', ''target'')
                     else Inr (address @ ''/128'', JStr []))
               else if p = [] then Inl (''A network route must include a CIDR prefix.'', ''target'')
               else if whole then Inl (''Use Route to host for a /128 destination.'', ''target'')
               else Inr (address @ ''/'' @ p, JStr []))
         else if \<not> route_ipv4 (JStr address) then Inl (''Destination must be a valid IPv4 address or CIDR.'', ''target'')
         else if p \<noteq> [] \<and> \<not> route_prefix p top then Inl (''IPv4 prefix must be between 0 and 32.'', ''target'')
         else if rt_routeType f = ''host''
         then (if p \<noteq> [] \<and> \<not> whole then Inl (''A host route must use the /32 prefix.'', ''target'')
               else Inr (address, JStr ''255.255.255.255''))
         else if p = [] then Inl (''A network route must include a CIDR prefix.'', ''target'')
         else if whole then Inl (''Use Route to host for a /32 destination.'', ''target'')
         else Inr (address, case prefixToNetmask p of Some m \<Rightarrow> JStr m | None \<Rightarrow> JNull))"

definition write_route :: "'u route_uci \<Rightarrow> string \<Rightarrow> route_fields \<Rightarrow> string \<Rightarrow> jsval \<Rightarrow> 'u \<Rightarrow> 'u" where
  "write_route R n f target netmask u =
     (let u = ru_set_or_unset R ''network'' n ''interface'' (rt_interface f) u;
          u = ru_set R ''network'' n [(''target'', JStr target)] u;
          u = (if rt_family f = ''ipv4'' then ru_set R ''network'' n [(''netmask'', netmask)] u
               else if CHR ''/'' \<in> set target then au_unset (ru_base R) u ''network'' n ''netmask'' else u);
          u = ru_set_or_unset R ''network'' n ''gateway'' (rt_gateway f) u;
          u = ru_set_or_unset R ''network'' n ''metric'' (rt_metric f) u;
          u = ru_set_or_unset R ''network'' n ''freenetic_description'' (rt_description f) u;
          u = au_unset (ru_base R) u ''network'' n ''freenetic_auto''
      in if rt_automatic f then au_unset (ru_base R) u ''network'' n ''disabled''
         else ru_set R ''network'' n [(''disabled'', JStr ''1'')] u)"

definition edit_route :: "'u route_uci \<Rightarrow> string \<Rightarrow> route_fields \<Rightarrow> string \<Rightarrow> jsval \<Rightarrow> 'u \<Rightarrow> string \<times> 'u" where
  "edit_route R editingSection f target netmask u =
     (if editingSection \<noteq> [] then (editingSection, write_route R editingSection f target netmask u)
      else let (n, u) = ru_add R ''network'' (route_type (rt_family f)) u
           in (n, write_route R n f target netmask (ru_set R ''network'' n [(''freenetic_managed'', JStr ''1'')] u)))"

definition saveRoute :: "'u route_uci \<Rightarrow> acl_services \<Rightarrow> string \<Rightarrow> route_fields \<Rightarrow> 'u \<Rightarrow> 'u save_result" where
  "saveRoute R sv editingSection f u =
     (case validateRoute f of
        Inl (message, name) \<Rightarrow> warn u message
      | Inr (target, netmask) \<Rightarrow> save_apply sv ''Failed to save route: ''
          (if editingSection \<noteq> [] then ''Route saved.'' else ''Route added.'') (snd (edit_route R editingSection f target netmask u)))"

definition deleteRoute :: "'u route_uci \<Rightarrow> acl_services \<Rightarrow> bool \<Rightarrow> string \<Rightarrow> 'u \<Rightarrow> 'u save_result" where
  "deleteRoute R sv confirmed section u =
     (if \<not> confirmed then nothing u
      else save_apply sv ''Failed to delete route: '' ''Route deleted.'' (au_remove (ru_base R) ''network'' section u))"

section \<open>Editing a DNS route\<close>

definition validateDns :: "string \<Rightarrow> string \<Rightarrow> string option" where
  "validateDns domain server =
     (if \<not> dnsDomain domain then Some ''Enter a valid domain pattern.''
      else if \<not> dnsServer server then Some ''DNS server must be an IPv4/IPv6 address, optionally followed by #port.''
      else None)"

definition dns_section :: "'u route_uci \<Rightarrow> 'u \<Rightarrow> string \<times> 'u" where
  "dns_section R u =
     (let section = dc_section (getDnsConfig R u)
      in if truthy section then (to_str section, u)
         else (let (n, u) = ru_add R ''dhcp'' ''dnsmasq'' u in (n, ru_set R ''dhcp'' n [(''freenetic_managed'', JStr ''1'')] u)))"

definition edit_dns :: "'u route_uci \<Rightarrow> int option \<Rightarrow> string \<Rightarrow> string \<Rightarrow> 'u \<Rightarrow> 'u" where
  "edit_dns R editingDnsIndex domain server u =
     (let (section, u) = dns_section R u;
          servers = dc_servers (getDnsConfig R u); raw = JStr (encodeDnsServer domain server);
          servers' = (case editingDnsIndex of
             Some i \<Rightarrow> if 0 \<le> i \<and> i < int (length servers) then servers[nat i := raw] else servers @ [raw]
           | None \<Rightarrow> servers @ [raw])
      in ru_set R ''dhcp'' section [(''server'', JArr servers')] u)"

definition saveDnsRoute :: "'u route_uci \<Rightarrow> acl_services \<Rightarrow> int option \<Rightarrow> string \<Rightarrow> string \<Rightarrow> 'u \<Rightarrow> 'u save_result" where
  "saveDnsRoute R sv editingDnsIndex domain server u =
     (case validateDns domain server of
        Some message \<Rightarrow> warn u message
      | None \<Rightarrow> save_apply sv ''Failed to save DNS route: ''
          (if editingDnsIndex \<noteq> None then ''DNS route saved.'' else ''DNS route added.'') (edit_dns R editingDnsIndex domain server u))"

definition deleteDnsRoute :: "'u route_uci \<Rightarrow> acl_services \<Rightarrow> bool \<Rightarrow> int \<Rightarrow> 'u \<Rightarrow> 'u save_result" where
  "deleteDnsRoute R sv confirmed index u =
     (let d = getDnsConfig R u
      in if \<not> confirmed \<or> index < 0 \<or> int (length (dc_servers d)) \<le> index then nothing u
         else save_apply sv ''Failed to delete DNS route: '' ''DNS route deleted.''
                (set_servers R (dc_section d) (remove_at (nat index) (dc_servers d)) u))"

end
