(* ===== verification/Routing_Store.thy ===== *)
theory Routing_Store
  imports Routing Policy_Store
begin

text \<open>
  What the routing page relies on: the store of \<open>Policy_Store\<close>, where a section without a name gets
  a new one, the list of sections is complete, and setting an option keeps its order.  The client
  lemmas are proved in the locale, which holds for a concrete store.
\<close>

section \<open>The interface\<close>

definition section_names :: "jsval list \<Rightarrow> jsval list" where
  "section_names ss = map (\<lambda>s. field s ''.name'') ss"

text \<open>A section with a name and its options.\<close>

definition named_add :: "'u route_uci \<Rightarrow> string \<Rightarrow> string \<Rightarrow> string \<Rightarrow> (string \<times> jsval) list \<Rightarrow> 'u \<Rightarrow> 'u" where
  "named_add R c t n kvs u = ru_set R c n kvs (uci_add (au_base (ru_base R)) u c t n)"

locale route_store = acl_store "ru_base R" for R :: "'u route_uci" +
  assumes new_name: "au_get (ru_base R) u c (ru_new R u c t) = JNull \<and> ru_new R u c t \<noteq> []"
    and listed: "field (au_get (ru_base R) u c n) ''.type'' = JStr t \<Longrightarrow>
      au_get (ru_base R) u c n \<in> set (ru_sections R u c t)"
    and set_order: "au_get (ru_base R) u c n \<noteq> JNull \<Longrightarrow> option_name k \<Longrightarrow>
      section_names (ru_sections R (uci_set (au_base (ru_base R)) u c n k v) c t) = section_names (ru_sections R u c t)"
    and unset_order: "au_get (ru_base R) u c n \<noteq> JNull \<Longrightarrow> option_name k \<Longrightarrow>
      section_names (ru_sections R (au_unset (ru_base R) u c n k) c t) = section_names (ru_sections R u c t)"
begin

abbreviation get :: "'u \<Rightarrow> string \<Rightarrow> string \<Rightarrow> jsval" where
  "get \<equiv> au_get (ru_base R)"

lemma section_is:
  "s \<in> set (ru_sections R u c t) \<Longrightarrow> \<exists>n. named n s \<and> field s ''.type'' = JStr t \<and> get u c n = s"
  using sections_get [of s u c t] by (auto simp: ru_sections_def au_sections_def au_get_def named_def)

lemma typed_not_null: "field s k = JStr t \<Longrightarrow> s \<noteq> JNull"
  by (auto simp: field_def)

lemma ru_set_get: "(c', n') \<noteq> (c, n) \<Longrightarrow> get (ru_set R c n kvs u) c' n' = get u c' n'"
  using set_options_other [of c' n' c n kvs u] by (simp add: ru_set_def au_set_def au_get_def)

lemma ru_set_field:
  assumes "get u c n \<noteq> JNull" "\<forall>(k, v) \<in> set kvs. option_name k"
  shows "is_object (get (ru_set R c n kvs u) c n)
    \<and> field (get (ru_set R c n kvs u) c n) j = (case map_of (rev kvs) j of Some v \<Rightarrow> v | None \<Rightarrow> field (get u c n) j)"
  using set_options_fields [of u c n kvs j] assms unfolding ru_set_def au_set_def au_get_def to_str.simps by blast

lemma ru_add_new:
  assumes "ru_add R c t u = (n, u')"
  shows "n \<noteq> [] \<and> get u c n = JNull \<and> is_object (get u' c n) \<and> field (get u' c n) ''.type'' = JStr t
    \<and> (\<forall>k. option_name k \<longrightarrow> field (get u' c n) k = JUndef)"
  using assms new_name [of u c t] add_type [of u c "ru_new R u c t" t] by (auto simp: ru_add_def au_get_def)

lemma ru_add_get: "ru_add R c t u = (n, u') \<Longrightarrow> (c', m) \<noteq> (c, n) \<Longrightarrow> get u' c' m = get u c' m"
  using add_other [of c' m c n u t] by (auto simp: ru_add_def au_get_def)

text \<open>A fact on a section that a step does not touch, as rules for the branches of an edit.\<close>

lemma keep_rules:
  "get x c n = v \<Longrightarrow> get y c n = v \<Longrightarrow> get (if b then x else y) c n = v"
  "(c, n) \<noteq> (d, m) \<Longrightarrow> get x c n = v \<Longrightarrow> get (ru_set R d m kvs x) c n = v"
  "(c, n) \<noteq> (d, m) \<Longrightarrow> get x c n = v \<Longrightarrow> get (au_unset (ru_base R) x d m k) c n = v"
  "(c, n) \<noteq> (d, m) \<Longrightarrow> get x c n = v \<Longrightarrow> get (named_add R d t m kvs x) c n = v"
  using add_other [of c n d m x t, folded au_get_def] by (auto simp: ru_set_get unset_other named_add_def)

text \<open>A section that the change does not touch stays in the list.\<close>

lemma section_stays:
  assumes "s \<in> set (ru_sections R u c t)" and "\<And>n. named n s \<Longrightarrow> get u c n = s \<Longrightarrow> get u' c n = s"
  shows "s \<in> set (ru_sections R u' c t)"
proof -
  obtain n where n: "named n s" "field s ''.type'' = JStr t" "get u c n = s" using section_is [OF assms(1)] by blast
  then have "get u' c n = s" using assms(2) by blast
  then show ?thesis using listed [of u' c n t] n(2) by simp
qed

text \<open>The options of a section after a sequence of changes, as a function.\<close>

definition holds :: "'u \<Rightarrow> string \<Rightarrow> string \<Rightarrow> (string \<Rightarrow> jsval) \<Rightarrow> bool" where
  "holds u c n g \<longleftrightarrow> is_object (get u c n) \<and> (\<forall>j. field (get u c n) j = g j)"

lemma holds_get: "is_object (get u c n) \<Longrightarrow> holds u c n (field (get u c n))"
  by (simp add: holds_def)

lemma holds_null: "holds u c n g \<Longrightarrow> get u c n \<noteq> JNull"
  by (auto simp: holds_def is_object_def)

lemma holds_set: "holds u c n g \<Longrightarrow> option_name k \<Longrightarrow> holds (ru_set R c n [(k, v)] u) c n (g(k := v))"
  using ru_set_field [OF holds_null, of u c n g "[(k, v)]"] by (auto simp: holds_def)

lemma holds_unset: "holds u c n g \<Longrightarrow> option_name k \<Longrightarrow> holds (au_unset (ru_base R) u c n k) c n (g(k := JUndef))"
  using unset_option [OF holds_null, of u c n g k] by (auto simp: holds_def)

lemma holds_sets:
  assumes "holds u c n g" "\<forall>(k, v) \<in> set kvs. option_name k"
  shows "holds (ru_set R c n kvs u) c n (\<lambda>j. case map_of (rev kvs) j of Some v \<Rightarrow> v | None \<Rightarrow> g j)"
  using ru_set_field [OF holds_null [OF assms(1)] assms(2)] assms(1) unfolding holds_def by (simp split: option.splits)

lemma holds_set_or_unset:
  "holds u c n g \<Longrightarrow> option_name k \<Longrightarrow>
   holds (ru_set_or_unset R c n k v u) c n (g(k := if v \<noteq> [] then JStr v else JUndef))"
  by (simp add: ru_set_or_unset_def holds_set holds_unset)

lemma holds_name: "holds u c n g \<Longrightarrow> named n (get u c n)"
  by (rule get_name) (rule holds_null)

lemma holds_listed:
  "holds u c n g \<Longrightarrow> g ''.type'' = JStr t \<Longrightarrow> get u c n \<in> set (ru_sections R u c t)"
  by (rule listed) (simp add: holds_def)

lemma truthy_get: "truthy (get u c n) \<longleftrightarrow> get u c n \<noteq> JNull"
  using get_shape [of u c n] by (auto simp: au_get_def is_object_def truthy_def split: jsval.splits)

lemma named_add_holds:
  assumes "get u c n = JNull" "\<forall>(k, v) \<in> set kvs. option_name k"
  shows "is_object (get (named_add R c t n kvs u) c n) \<and> field (get (named_add R c t n kvs u) c n) ''.type'' = JStr t"
proof -
  let ?u = "uci_add (au_base (ru_base R)) u c t n"
  have new: "is_object (get ?u c n)" "field (get ?u c n) ''.type'' = JStr t"
    using add_type [of u c n t] assms(1) by (auto simp: au_get_def)
  then have "get ?u c n \<noteq> JNull" by (auto simp: is_object_def)
  moreover have "map_of (rev kvs) ''.type'' = None"
    using assms(2) by (force simp: map_of_eq_None_iff option_name_def)
  ultimately show ?thesis using ru_set_field [of ?u c n kvs "''.type''"] assms(2) new by (simp add: named_add_def)
qed

end

section \<open>A concrete store\<close>

text \<open>The new name is longer than every name in use.\<close>

definition list_new :: "list_store \<Rightarrow> string \<Rightarrow> string \<Rightarrow> string" where
  "list_new u c t = ''cfg'' @ replicate (foldr (\<lambda>p n. max (length (snd (fst p))) n) u 0) CHR ''x''"

definition list_route :: "list_store route_uci" where
  "list_route = \<lparr>ru_base = list_acl, ru_new = list_new\<rparr>"

lemma longest: "p \<in> set u \<Longrightarrow> length (snd (fst p)) \<le> foldr (\<lambda>p n. max (length (snd (fst p))) n) u 0"
  by (induction u) auto

lemma list_new_fresh: "map_of u (c, list_new u c' t) = None"
proof (rule ccontr)
  assume "map_of u (c, list_new u c' t) \<noteq> None"
  then obtain ps where "((c, list_new u c' t), ps) \<in> set u" by (auto dest: map_of_SomeD)
  then have "length (list_new u c' t) \<le> foldr (\<lambda>p n. max (length (snd (fst p))) n) u 0" using longest by fastforce
  then show False by (simp add: list_new_def)
qed

lemma keys_assoc_set: "map_of u k \<noteq> None \<Longrightarrow> map fst (assoc_set k v u) = map fst u"
  by (induction u) auto

lemma list_listed: "field (named_get u c n) ''.type'' = JStr t \<Longrightarrow> named_get u c n \<in> set (list_sections u c t)"
proof -
  assume t: "field (named_get u c n) ''.type'' = JStr t"
  then obtain ps where "map_of u (c, n) = Some ps" by (cases "map_of u (c, n)") (auto simp: named_get_def field_def)
  then have "(c, n) \<in> set (filter (\<lambda>k. fst k = c) (map fst u))" by (force dest: map_of_SomeD)
  then have "named_get u c n \<in> set (map (\<lambda>k. named_get u c (snd k)) (filter (\<lambda>k. fst k = c) (map fst u)))"
    by (metis (no_types, lifting) image_eqI set_map snd_conv)
  then show ?thesis using t by (simp add: list_sections_def)
qed

lemma list_order:
  assumes "named_get u c n \<noteq> JNull" "map_of u (c, n) = Some ps" "\<And>j. j \<noteq> k \<Longrightarrow> map_of ps' j = map_of ps j" "option_name k"
  shows "section_names (list_sections (assoc_set (c, n) ps' u) c t) = section_names (list_sections u c t)"
proof -
  let ?u = "assoc_set (c, n) ps' u"
  have keys: "map fst ?u = map fst u" using assms(2) by (intro keys_assoc_set) simp
  have same: "field (named_get ?u c m) j = field (named_get u c m) j" if "j \<noteq> k" for m j
    using assms(2) assms(3) [OF that] by (auto simp: named_get_def map_of_assoc_set field_JObj split: option.splits)
  have "''.name'' \<noteq> k" "''.type'' \<noteq> k" using assms(4) by (auto simp: option_name_def)
  then show ?thesis
    unfolding section_names_def list_sections_def keys
    by (simp add: filter_map comp_def same)
qed

lemma list_set_order:
  assumes "named_get u c n \<noteq> JNull" "option_name k"
  shows "section_names (list_sections (uci_set (au_base list_acl) u c n k v) c t) = section_names (list_sections u c t)"
    and "section_names (list_sections (au_unset list_acl u c n k) c t) = section_names (list_sections u c t)"
proof -
  obtain ps where ps: "map_of u (c, n) = Some ps" using assms(1) by (auto simp: named_get_def split: option.splits)
  show "section_names (list_sections (uci_set (au_base list_acl) u c n k v) c t) = section_names (list_sections u c t)"
    using list_order [OF assms(1) ps _ assms(2), of "assoc_set k v ps"] ps by (simp add: list_acl_def map_of_assoc_set)
  show "section_names (list_sections (au_unset list_acl u c n k) c t) = section_names (list_sections u c t)"
    using list_order [OF assms(1) ps _ assms(2), of "filter (\<lambda>(j, v). j \<noteq> k) ps"] ps
    by (simp add: list_acl_def map_of_filter_key')
qed

interpretation list_route: route_store list_route
proof (intro route_store.intro route_store_axioms.intro, goal_cases)
  case 1
  then show ?case using list_acl.acl_store_axioms by (simp add: list_route_def)
next
  case (2 u c t)
  then show ?case by (simp add: list_route_def list_acl_def au_get_def named_get_def list_new_fresh) (simp add: list_new_def)
next
  case (3 u c n t)
  then show ?case
    using list_listed [of u c n t] unfolding ru_sections_def au_sections_def
    by (simp add: list_route_def list_acl_sections) (simp add: list_acl_def au_get_def)
next
  case (4 u c n k v t)
  then show ?case
    using list_set_order(1) [of u c n k v t] unfolding ru_sections_def au_sections_def
    by (simp add: list_route_def list_acl_sections) (simp add: list_acl_def au_get_def)
next
  case (5 u c n k t)
  then show ?case
    using list_set_order(2) [of u c n k t] unfolding ru_sections_def au_sections_def
    by (simp add: list_route_def list_acl_sections) (simp add: list_acl_def au_get_def)
qed

end
