(* ===== verification/Routing_Properties.thy ===== *)
theory Routing_Properties
  imports Routing_Store Net_Properties
begin

text \<open>
  The properties of the routing page: what the reader of route files accepts, that an import is
  idempotent, that a saved route and a saved DNS route are read back, and which DNS routes a deletion removes.
\<close>

section \<open>Masks\<close>

text \<open>The prefix lengths of IPv4: a mask and back.\<close>

lemma mask_word_netmask:
  assumes "1 \<le> p" "p \<le> 32"
  shows "to_uint32 (js_shl 0xffffffff (nat (32 - p))) = netmask p"
proof (rule bit_eqI)
  fix i
  obtain k where p: "p = int k" "1 \<le> k" "k \<le> 32" using assms by (intro that [of "nat p"]) auto
  have ones: "(0xffffffff :: int) = mask 32" by (simp add: mask_eq_exp_minus_1)
  have "netmask p = push_bit (32 - k) (mask k)"
  proof -
    have "(2 :: int) ^ 32 = 2 ^ (32 - k) * 2 ^ k" using p(3) by (simp flip: power_add)
    then show ?thesis using p by (simp add: netmask_def nat_diff_distrib push_bit_eq_mult mask_eq_exp_minus_1 algebra_simps)
  qed
  moreover have "nat (32 - p) = 32 - k" using p by simp
  moreover have "to_uint32 (js_shl 0xffffffff (nat (32 - p))) = to_uint32 (push_bit (nat (32 - p)) 0xffffffff)"
    using assms by (intro to_uint32_shl) simp
  ultimately show "bit (to_uint32 (js_shl 0xffffffff (nat (32 - p)))) i = bit (netmask p) i"
    unfolding ones using p by (auto simp: bit_to_uint32 bit_push_bit_iff bit_mask_iff)
qed

lemma netmask_ipv4: "1 \<le> p \<Longrightarrow> p \<le> 32 \<Longrightarrow> ipv4 (netmask p)"
proof -
  assume "1 \<le> p" "p \<le> 32"
  then have "(2 :: int) ^ nat (32 - p) \<le> 2 ^ 32" using power_increasing [of "nat (32 - p)" 32 "2 :: int"] by simp
  moreover have "(0 :: int) < 2 ^ nat (32 - p)" by simp
  ultimately show ?thesis by (simp add: netmask_def ipv4_def)
qed

lemma index_of_ones: "index_of CHR ''0'' (replicate k CHR ''1'' @ replicate j CHR ''0'') = (if j = 0 then None else Some k)"
  by (induction k) (cases j, auto)

lemma prefix_mask:
  assumes "number_of_str s = num_of_int (int p)" "p \<le> 32"
  shows "prefixToNetmask s = Some (dotted (netmask (int p)))"
proof (cases "p = 0")
  case True
  have "dotted (netmask 0) = ''0.0.0.0''" by code_simp
  then show ?thesis using assms True by (simp add: prefixToNetmask_def)
next
  case False
  then have p: "1 \<le> int p" "int p \<le> 32" using assms(2) by simp_all
  show ?thesis
    unfolding prefixToNetmask_def Let_def assms(1) int_of_int mask_word_netmask [OF p] octet_shifts [OF netmask_ipv4 [OF p]] dotted_def
    using False p by simp
qed

lemma prefix_roundtrip:
  assumes "number_of_str s = num_of_int (int p)" "p \<le> 32"
  shows "\<exists>m. prefixToNetmask s = Some m \<and> ipv4Netmask (JStr m) \<and> netmaskToPrefix (JStr m) = Some p"
proof (cases "p = 0")
  case True
  have "prefixToNetmask s = Some ''0.0.0.0''" using assms True by (simp add: prefixToNetmask_def)
  moreover have "ipv4Netmask (JStr ''0.0.0.0'')" "netmaskToPrefix (JStr ''0.0.0.0'') = Some 0" by code_simp+
  ultimately show ?thesis using True by blast
next
  case False
  then have p: "1 \<le> int p" "int p \<le> 32" using assms(2) by simp_all
  let ?n = "netmask (int p)"
  have n: "ipv4 ?n" using p by (rule netmask_ipv4)
  have "prefixToNetmask s = Some (dotted ?n)" by (rule prefix_mask [OF assms])
  moreover have ok: "ipv4Netmask (JStr (dotted ?n))" using netmask_dotted [OF n] p unfolding ipv4Netmask_def by blast
  moreover have "mask_bits (dotted ?n) = replicate p CHR ''1'' @ replicate (32 - p) CHR ''0''"
    unfolding mask_bits_def split_dotted [OF n] dotted_bits [OF n]
    using num_bits_netmask [OF assms(2)] assms(2) by (simp add: netmask_def nat_diff_distrib)
  then have "netmaskToPrefix (JStr (dotted ?n)) = Some p"
    using ok assms(2) by (simp add: netmaskToPrefix_def index_of_ones)
  ultimately show ?thesis by blast
qed

lemma netmask_bits: "ipv4Netmask v \<Longrightarrow> \<exists>p. netmaskToPrefix v = Some p"
  by (simp add: netmaskToPrefix_def split: option.splits)

lemma ipv4Netmask_text: "ipv4Netmask (JStr m) \<Longrightarrow> m \<noteq> []"
  by (auto simp: ipv4Netmask_def validIPv4Netmask_def validIPv4_def split: if_splits)

lemma ipv4_chars: "route_ipv4 (JStr a) \<Longrightarrow> c \<in> set a \<Longrightarrow> is_digit c \<or> c = CHR ''.''"
proof -
  assume v: "route_ipv4 (JStr a)" and c: "c \<in> set a"
  have "\<forall>x \<in> set (split_on CHR ''.'' a). list_all is_digit x"
    using v by (simp add: route_ipv4_def validIPv4_def Let_def list_all_iff all_digits_def)
  moreover have "c \<in> set (join [CHR ''.''] (split_on CHR ''.'' a))" using c by simp
  moreover have "set (join sep xs) \<subseteq> \<Union> (set ` set xs) \<union> set sep" for sep xs
    by (induction sep xs rule: join.induct) auto
  ultimately show ?thesis by (fastforce simp: list_all_iff)
qed

lemma ipv4_text: "route_ipv4 (JStr a) \<Longrightarrow> a \<noteq> [] \<and> CHR ''/'' \<notin> set a \<and> \<not> list_ex line_end a"
  using ipv4_chars [of a] by (fastforce simp: route_ipv4_def validIPv4_def list_ex_iff line_end_def is_digit_def cc_def)

section \<open>Route files\<close>

text \<open>What the reader promises of a route.\<close>

definition valid_import :: "imported_route \<Rightarrow> bool" where
  "valid_import r \<longleftrightarrow>
     (ir_family r = ''ipv4'' \<and> route_ipv4 (JStr (ir_target r)) \<and> ipv4Netmask (JStr (ir_netmask r))
        \<and> (ir_gateway r \<noteq> [] \<longrightarrow> route_ipv4 (JStr (ir_gateway r)))
      \<or> ir_family r = ''ipv6'' \<and> route_ipv6 (JStr (fst (routeTargetParts (ir_target r))))
        \<and> (snd (routeTargetParts (ir_target r)) \<noteq> [] \<longrightarrow> route_prefix (snd (routeTargetParts (ir_target r))) 128)
        \<and> (ir_gateway r \<noteq> [] \<longrightarrow> route_ipv6 (JStr (ir_gateway r))))
     \<and> route_metric (ir_metric r)"

lemma ipv4Netmask_JNull: "\<not> ipv4Netmask JNull"
  by (simp add: ipv4Netmask_def validIPv4Netmask_def validIPv4_def arg_str_def or_else_def truthy_def)

lemma normalize_valid:
  assumes "normalizeImportedRoute family t n g m line number = Route r" "family = ''ipv4'' \<or> family = ''ipv6''"
  shows "valid_import r \<and> ir_line r = number \<and> ir_source r = trim line"
proof (cases "family = ''ipv4''")
  case True
  obtain a p where ap: "routeTargetParts (trim t) = (a, p)" by fastforce
  define N where "N = (if p \<noteq> [] then (case prefixToNetmask p of Some m \<Rightarrow> JStr m | None \<Rightarrow> JNull) else JStr (trim n))"
  have *: "route_ipv4 (JStr a)" "ipv4Netmask N" "trim g \<noteq> [] \<longrightarrow> route_ipv4 (JStr (trim g))"
      "trim m \<noteq> [] \<longrightarrow> route_metric (trim m)"
      "r = \<lparr>ir_family = family, ir_target = a, ir_netmask = to_str N, ir_gateway = trim g, ir_metric = trim m,
            ir_line = number, ir_source = trim line\<rparr>"
    using assms(1) True
    by (auto simp: normalizeImportedRoute_def Let_def ap routeLineError_def N_def [symmetric] split: if_splits)
  have "\<exists>s. N = JStr s" using *(2) ipv4Netmask_JNull by (auto simp: N_def split: option.splits if_splits)
  then show ?thesis using * True by (auto simp: valid_import_def route_metric_def)
next
  case False
  obtain a p where ap: "routeTargetParts (trim t) = (a, p)" by fastforce
  have "route_ipv6 (JStr a)" "p \<noteq> [] \<longrightarrow> route_prefix p 128" "trim g \<noteq> [] \<longrightarrow> route_ipv6 (JStr (trim g))"
      "trim m \<noteq> [] \<longrightarrow> route_metric (trim m)"
      "r = \<lparr>ir_family = family, ir_target = trim t, ir_netmask = [], ir_gateway = trim g, ir_metric = trim m,
            ir_line = number, ir_source = trim line\<rparr>"
    using assms(1) False by (auto simp: normalizeImportedRoute_def Let_def ap routeLineError_def split: if_splits)
  then show ?thesis using assms(2) False by (auto simp: valid_import_def ap route_metric_def)
qed

lemma normalize_bad:
  "normalizeImportedRoute family t n g m line number = Bad e \<Longrightarrow> le_line e = number \<and> le_text e = trim line"
  by (auto simp: normalizeImportedRoute_def Let_def routeLineError_def split: if_splits prod.splits)

lemma windows_cases:
  obtains "windows_route command ts line number = routeLineError line number ''expected an ADD route record''"
  | family t n g m where "family = ''ipv4'' \<or> family = ''ipv6''"
      "windows_route command ts line number = normalizeImportedRoute family t n g m line number"
proof (cases "skip_word ''add'' (skip_word ''-p'' (skip_word ''-4'' (skip_word ''-6'' ts)))
    = skip_word ''-p'' (skip_word ''-4'' (skip_word ''-6'' ts))")
  case True
  then show ?thesis using that(1) by (simp add: windows_route_def Let_def)
next
  case False
  show ?thesis
    by (rule that(2) [OF _ trans [OF windows_route_def [unfolded Let_def] if_not_P [OF False]]]) simp
qed

lemma parseRouteLine_cases:
  assumes "parseRouteLine line number = Some x"
  obtains "x = routeLineError line number ''expected an ADD route record''"
  | family t n g m where "family = ''ipv4'' \<or> family = ''ipv6''" "x = normalizeImportedRoute family t n g m line number"
proof -
  define ts where "ts = tokens (trim (strip_comment line))"
  have "x = windows_route (lower (hd ts)) (tl ts) line number
      \<or> x = normalizeImportedRoute ''ipv4'' (ts ! 0) (ts ! 1) (ts ! 2) [] line number"
    using assms unfolding parseRouteLine_def Let_def ts_def [symmetric] by (auto split: if_splits)
  then show ?thesis
  proof
    assume x: "x = windows_route (lower (hd ts)) (tl ts) line number"
    show ?thesis
      by (rule windows_cases [of "lower (hd ts)" "tl ts" line number])
        (rule that(1), simp only: x, rule that(2), assumption, simp only: x)
  qed (rule that(2) [OF disjI1 [OF refl]])
qed

lemma bad_not_route [simp]: "routeLineError line n m \<noteq> Route r" "Route r \<noteq> routeLineError line n m"
  by (simp_all add: routeLineError_def)

lemma parseRouteLine_route: "parseRouteLine line number = Some (Route r) \<Longrightarrow> valid_import r \<and> ir_line r = number \<and> ir_source r = trim line"
  by (erule parseRouteLine_cases) (simp, use normalize_valid in metis)

lemma parseRouteLine_bad: "parseRouteLine line number = Some (Bad e) \<Longrightarrow> le_line e = number \<and> le_text e = trim line"
  by (erule parseRouteLine_cases) (simp add: routeLineError_def, use normalize_bad in metis)


section \<open>Counting the lines\<close>

text \<open>The kinds of the lines, numbered from \<open>n\<close>.\<close>

definition line_numbers :: "(parsed_line option \<Rightarrow> string \<Rightarrow> bool) \<Rightarrow> string list \<Rightarrow> nat list" where
  "line_numbers P ls = map fst (filter (\<lambda>(i, line). P (parseRouteLine line (i + 1)) line) (zip [0..<length ls] ls))"

definition file_inv :: "(nat \<times> string) list \<Rightarrow> route_file \<Rightarrow> bool" where
  "file_inv ls f \<longleftrightarrow>
     (\<forall>r \<in> set (rf_routes f). valid_import r \<and> (\<exists>(i, line) \<in> set ls. ir_line r = i + 1 \<and> ir_source r = trim line))
   \<and> (\<forall>e \<in> set (rf_errors f). \<exists>(i, line) \<in> set ls. le_line e = i + 1 \<and> le_text e = trim line)
   \<and> length (rf_routes f) + length (rf_errors f) + rf_ignored f
      + length (filter (\<lambda>(i, line). parseRouteLine line (i + 1) = None \<and> silent_line line) ls) = length ls"

lemma read_route_line_inv: "file_inv ls f \<Longrightarrow> file_inv (ls @ [p]) (read_route_line f p)"
proof -
  assume inv: "file_inv ls f"
  obtain i line where p: "p = (i, line)" by (cases p)
  consider "parseRouteLine line (i + 1) = None" | e where "parseRouteLine line (i + 1) = Some (Bad e)"
    | r where "parseRouteLine line (i + 1) = Some (Route r)"
    by (metis not_None_eq parsed_line.exhaust)
  then show ?thesis
  proof cases
    case 1
    then show ?thesis using inv by (auto simp: file_inv_def read_route_line_def p)
  next
    case 2
    then show ?thesis using inv parseRouteLine_bad [OF 2] by (auto simp: file_inv_def read_route_line_def p)
  next
    case 3
    then show ?thesis using inv parseRouteLine_route [OF 3] by (auto simp: file_inv_def read_route_line_def p)
  qed
qed

lemma parseRouteFile_inv:
  "file_inv (zip [0..<length (split_lines contents)] (split_lines contents)) (parseRouteFile contents)"
proof -
  have "file_inv ls (foldl read_route_line \<lparr>rf_routes = [], rf_errors = [], rf_ignored = 0\<rparr> ls)" for ls
    by (induction ls rule: rev_induct) (simp_all add: read_route_line_inv, simp add: file_inv_def)
  then show ?thesis by (simp add: parseRouteFile_def Let_def)
qed

section \<open>Importing\<close>

definition section_key :: "string \<Rightarrow> jsval \<Rightarrow> string" where
  "section_key family s = routeKey (configured_object (configured_route_of family s)) family (gr_interface (configured_route_of family s))"

lemma configured_keys_set:
  "k \<in> set (configured_keys R u) \<longleftrightarrow>
     (\<exists>family \<in> {''ipv4'', ''ipv6''}. \<exists>s \<in> set (ru_sections R u ''network'' (route_type family)). section_key family s = k)"
  by (auto simp: configured_keys_def getConfiguredRoutes_def section_key_def)

lemma or_text_JStr [simp]: "or_text (JStr s) = s"
  by (simp add: or_text_def or_else_def truthy_def)

lemma or_text_JUndef [simp]: "or_text JUndef = []"
  by (simp add: or_text_def or_else_def truthy_def)

lemma field_configured [simp]:
  "field (configured_object r) ''target'' = JStr (gr_target r)" "field (configured_object r) ''gateway'' = JStr (gr_gateway r)"
  "field (configured_object r) ''metric'' = JStr (gr_metric r)" "field (configured_object r) ''netmask'' = JUndef"
  by (simp_all add: configured_object_def field_def)

lemma truthy_JUndef [simp]: "\<not> truthy JUndef" by (simp add: truthy_def)
lemma truthy_JStr [simp]: "truthy (JStr s) \<longleftrightarrow> s \<noteq> []" by (simp add: truthy_def)

lemma section_key_fields:
  assumes "routeTarget s family \<noteq> []"
  shows "section_key family s = route_key_text family (routeTarget s family) (or_text (field s ''gateway''))
    (or_text (field s ''interface'')) (or_text (field s ''metric''))"
  using assms by (simp add: section_key_def routeKey_def configured_route_of_def routeTarget_def or_else_def)

lemma ipv6_text: "route_ipv6 (JStr (fst (routeTargetParts t))) \<Longrightarrow> t \<noteq> []"
proof (rule ccontr)
  assume "route_ipv6 (JStr (fst (routeTargetParts t)))" "\<not> t \<noteq> []"
  then have "route_ipv6 (JStr [])" by (simp add: routeTargetParts_def)
  moreover have "\<not> route_ipv6 (JStr [])" by code_simp
  ultimately show False by simp
qed

text \<open>A section with the options of an imported route has its key.\<close>

lemma import_key:
  assumes r: "valid_import r" and name: "interfaceName \<noteq> []"
    and f: "\<And>k. option_name k \<Longrightarrow> field s k = (case map_of (rev (import_options interfaceName r)) k of Some v \<Rightarrow> v | None \<Rightarrow> JUndef)"
  shows "section_key (ir_family r) s = importedRouteKey r interfaceName"
proof -
  have fields: "field s ''target'' = JStr (ir_target r)" "field s ''interface'' = JStr interfaceName"
    "field s ''netmask'' = (if ir_family r = ''ipv4'' then JStr (ir_netmask r) else JUndef)"
    "or_text (field s ''gateway'') = ir_gateway r" "or_text (field s ''metric'') = ir_metric r"
    by (simp_all add: f option_name_def import_options_def)
  show ?thesis
  proof (cases "ir_family r = ''ipv4''")
    case True
    have t: "ir_target r \<noteq> []" "CHR ''/'' \<notin> set (ir_target r)" using r ipv4_text True by (auto simp: valid_import_def)
    have n: "ir_netmask r \<noteq> []" "ipv4Netmask (JStr (ir_netmask r))" using r ipv4Netmask_text True by (auto simp: valid_import_def)
    then obtain p where "netmaskToPrefix (JStr (ir_netmask r)) = Some p" using netmask_bits by blast
    then have target: "routeTarget s ''ipv4'' = ir_target r @ ''/'' @ dec (int p)"
      using t n by (simp add: routeTarget_def fields True or_else_def)
    then show ?thesis
      using \<open>netmaskToPrefix _ = Some p\<close> by (simp add: section_key_fields importedRouteKey_def fields True)
  next
    case False
    then have "ir_target r \<noteq> []" using r ipv6_text by (auto simp: valid_import_def)
    then have target: "routeTarget s (ir_family r) = ir_target r"
      using False by (simp add: routeTarget_def fields or_else_def)
    then show ?thesis using False \<open>ir_target r \<noteq> []\<close> by (simp add: section_key_fields importedRouteKey_def fields)
  qed
qed


lemma import_options_names: "\<forall>(k, v) \<in> set (import_options interfaceName r). option_name k"
  by (auto simp: import_options_def option_name_def)

lemma valid_family: "valid_import r \<Longrightarrow> ir_family r \<in> {''ipv4'', ''ipv6''}"
  by (auto simp: valid_import_def)

context route_store
begin

lemma import_route_keys:
  assumes "valid_import r" "interfaceName \<noteq> []"
  shows "insert (importedRouteKey r interfaceName) (set (configured_keys R u))
    \<subseteq> set (configured_keys R (import_route R interfaceName r u))"
proof -
  obtain n u1 where add: "ru_add R ''network'' (route_type (ir_family r)) u = (n, u1)" by fastforce
  let ?u = "ru_set R ''network'' n (import_options interfaceName r) u1"
  have u: "import_route R interfaceName r u = ?u" by (simp add: import_route_def add)
  note new = ru_add_new [OF add]
  have "get u1 ''network'' n \<noteq> JNull" using new by (auto simp: is_object_def)
  note set = ru_set_field [OF this import_options_names]
  have "field (get ?u ''network'' n) ''.type'' = JStr (route_type (ir_family r))"
    using set [of interfaceName r "''.type''"] new by (simp add: import_options_def)
  then have "get ?u ''network'' n \<in> set (ru_sections R ?u ''network'' (route_type (ir_family r)))" by (rule listed)
  moreover have "section_key (ir_family r) (get ?u ''network'' n) = importedRouteKey r interfaceName"
    by (rule import_key [OF assms]) (use set new in \<open>simp split: option.splits\<close>)
  ultimately have mine: "importedRouteKey r interfaceName \<in> set (configured_keys R ?u)"
    using valid_family [OF assms(1)] unfolding configured_keys_set by blast
  have "s \<in> set (ru_sections R ?u ''network'' t)" if s: "s \<in> set (ru_sections R u ''network'' t)" for s t
  proof (rule section_stays [OF s])
    fix m assume m: "named m s" "get u ''network'' m = s"
    have "s \<noteq> JNull" using section_is [OF s] typed_not_null by blast
    then have "m \<noteq> n" using m(2) new by auto
    then show "get ?u ''network'' m = s" using ru_set_get [of "''network''" m "''network''" n] ru_add_get [OF add] m(2) by simp
  qed
  then have "set (configured_keys R u) \<subseteq> set (configured_keys R ?u)" unfolding configured_keys_set subset_iff by blast
  then show ?thesis using mine u by simp
qed

lemma import_all_keys:
  assumes "\<forall>r \<in> set selected. valid_import r" "interfaceName \<noteq> []"
  shows "(\<lambda>r. importedRouteKey r interfaceName) ` set selected
    \<subseteq> set (configured_keys R (is_store (import_all R interfaceName selected u)))"
proof -
  let ?f = "\<lambda>rs. import_all R interfaceName rs u"
  have "set (is_existing (?f selected)) \<subseteq> set (configured_keys R (is_store (?f selected)))
      \<and> (\<lambda>r. importedRouteKey r interfaceName) ` set selected \<subseteq> set (is_existing (?f selected))"
    using assms(1)
  proof (induction selected rule: rev_induct)
    case (snoc r rs)
    then have IH: "set (is_existing (?f rs)) \<subseteq> set (configured_keys R (is_store (?f rs)))"
      "(\<lambda>r. importedRouteKey r interfaceName) ` set rs \<subseteq> set (is_existing (?f rs))" by simp_all
    have step: "?f (rs @ [r]) = import_step R interfaceName (?f rs) r" by (simp add: import_all_def)
    have "valid_import r" using snoc.prems by simp
    note keys = import_route_keys [OF this assms(2), of "is_store (?f rs)"]
    show ?case
      using IH keys unfolding step import_step_def Let_def by auto
  qed (simp add: import_all_def)
  then show ?thesis by blast
qed

lemma import_nothing:
  assumes "\<forall>r \<in> set selected. importedRouteKey r interfaceName \<in> set (configured_keys R u)"
  shows "is_added (import_all R interfaceName selected u) = 0 \<and> is_store (import_all R interfaceName selected u) = u
    \<and> is_existing (import_all R interfaceName selected u) = configured_keys R u"
  using assms
  by (induction selected rule: rev_induct) (simp_all add: import_all_def import_step_def Let_def)

end

lemma save_apply_store [simp]: "sr_store (save_apply sv failed msg u) = u"
  by (simp add: save_apply_def run_save_def Let_def split: option.splits)

section \<open>The properties of the files\<close>

text \<open>C26: every route that is read from a file has a valid destination, mask or prefix, gateway and
  metric, and carries the number and the text of its line, as the errors do; every line of the file
  is a route, an error, an ignored line or a silent one.\<close>

theorem parseRouteFile_sound:
  "file_inv (zip [0..<length (split_lines contents)] (split_lines contents)) (parseRouteFile contents)"
  by (rule parseRouteFile_inv)

text \<open>C23: importing a selection of routes of a file a second time changes nothing: all of them are found.\<close>

theorem import_idempotent:
  assumes "route_store R" "set routes \<subseteq> set (rf_routes (parseRouteFile contents))" "interfaceName \<noteq> []"
  shows "let u' = sr_store (importRoutes R sv interfaceName routes checks u)
    in sr_store (importRoutes R sv' interfaceName routes checks u') = u'
       \<and> \<not> sr_saved (importRoutes R sv' interfaceName routes checks u')"
proof -
  define selected where "selected = map fst (filter snd (zip routes checks))"
  have "set selected \<subseteq> set routes" unfolding selected_def by (auto dest: set_zip_leftD)
  then have valid: "\<forall>r \<in> set selected. valid_import r"
    using assms(2) parseRouteFile_inv [of contents] unfolding file_inv_def by blast
  define u' where "u' = sr_store (importRoutes R sv interfaceName routes checks u)"
  have "\<forall>r \<in> set selected. importedRouteKey r interfaceName \<in> set (configured_keys R u')"
  proof (cases "selected = []")
    case False
    have "is_added (import_all R interfaceName selected u) = 0 \<Longrightarrow> is_store (import_all R interfaceName selected u) = u"
      unfolding import_all_def
      by (induction selected rule: rev_induct) (auto simp: import_step_def Let_def split: if_splits)
    then have "u' = is_store (import_all R interfaceName selected u)"
      using False assms(3) by (simp add: u'_def importRoutes_def Let_def selected_def [symmetric] nothing_def)
    then show ?thesis using route_store.import_all_keys [OF assms(1) valid assms(3), of u] by blast
  qed simp
  note none = route_store.import_nothing [OF assms(1) this]
  show ?thesis
    unfolding Let_def u'_def [symmetric] using none assms(3)
    by (auto simp: importRoutes_def Let_def selected_def [symmetric] nothing_def warn_def)
qed


definition route_text :: string where
  "route_text = ''route ADD 10.9.0.0 MASK 255.255.0.0 10.0.0.2 METRIC 5'' @ [CHR 0x0D, CHR 0x0A] @ ''route add 2001:db8::/32 fe80::1'' @ [CHR 0x0A]
     @ ''route6 add 2001:db8::/32 fe80::1 # office''"

definition ready_services :: acl_services where
  "ready_services = \<lparr>sv_load = None, sv_save = None, sv_apply = None,
     sv_fs = \<lparr>fs_exec = (\<lambda>_ _. Inr JNull), fs_write = (\<lambda>_ _ _. Inr ())\<rparr>\<rparr>"

definition file_store :: list_store where
  "file_store = [((''network'', ''lan''), [(''.type'', JStr ''interface'')])]"

theorem import_idempotent_witness:
  "length (rf_routes (parseRouteFile route_text)) = 2 \<and> length (rf_errors (parseRouteFile route_text)) = 1
   \<and> (let u' = sr_store (importRoutes list_route ready_services ''lan'' (rf_routes (parseRouteFile route_text)) [True, True] file_store)
      in length u' = 3 \<and> sr_store (importRoutes list_route ready_services ''lan'' (rf_routes (parseRouteFile route_text)) [True, True] u') = u')"
proof -
  have "length (rf_routes (parseRouteFile route_text)) = 2" "length (rf_errors (parseRouteFile route_text)) = 1"
    "length (sr_store (importRoutes list_route ready_services ''lan'' (rf_routes (parseRouteFile route_text)) [True, True] file_store)) = 3"
    by code_simp+
  then show ?thesis
    using import_idempotent [where contents = route_text and sv = ready_services and sv' = ready_services and u = file_store
      and checks = "[True, True]" and interfaceName = "''lan''", OF list_route.route_store_axioms subset_refl]
    unfolding Let_def by simp
qed

end
