(* ===== verification/Routing_Edit.thy ===== *)
theory Routing_Edit
  imports Routing_Properties
begin

text \<open>
  Routes and DNS routes that are saved are read back as they were entered; a deletion of DNS routes
  removes the selected ones.
\<close>

section \<open>The parts of a target\<close>

lemma digits_no_slash: "all_digits p \<Longrightarrow> CHR ''/'' \<notin> set p"
  by (auto simp: all_digits_def list_all_iff is_digit_def cc_def)

lemma digits_no_line_end: "all_digits p \<Longrightarrow> \<not> list_ex line_end p"
  by (auto simp: all_digits_def list_all_iff list_ex_iff is_digit_def line_end_def)

lemma parts_join:
  assumes "a \<noteq> []" "all_digits p" "\<not> list_ex line_end a"
  shows "routeTargetParts (a @ ''/'' @ p) = (a, p)"
  using assms last_index_of_append [OF digits_no_slash [OF assms(2)], of a] digits_no_line_end [OF assms(2)]
  by (simp add: routeTargetParts_def) (simp add: line_end_def cc_def)

lemma parts_cases:
  assumes "routeTargetParts t = (a, p)"
  obtains "p = []" "a = t" | "all_digits p" "a \<noteq> []" "t = a @ ''/'' @ p" "\<not> list_ex line_end t"
proof (cases "last_index_of CHR ''/'' t")
  case None
  then show ?thesis using assms that(1) by (simp add: routeTargetParts_def)
next
  case (Some i)
  show ?thesis
  proof (cases "0 < i \<and> all_digits (drop (i + 1) t) \<and> \<not> list_ex line_end t")
    case True
    then have "a = take i t" "p = drop (i + 1) t" using assms Some by (simp_all add: routeTargetParts_def)
    moreover have "i < length t" "t ! i = CHR ''/''" using last_index_of_Some [OF Some] by auto
    then have "t = take i t @ ''/'' @ drop (i + 1) t" by (metis Suc_eq_plus1 append.simps id_take_nth_drop)
    moreover have "take i t \<noteq> []" using True Some by (auto dest: last_index_of_Some)
    ultimately show ?thesis using True that(2) by metis
  next
    case False
    then show ?thesis using assms Some that(1) unfolding routeTargetParts_def by (auto split: if_splits)
  qed
qed

lemma number_dec_small: "p \<le> 200 \<Longrightarrow> number_of_str (dec (int p)) = num_of_int (int p)"
  using number_of_dec [of "int p"] power_increasing [of 3 300 "10 :: int"] by simp

lemma route_prefix_value:
  assumes "route_prefix p (int high)"
  obtains n where "number_of_str p = num_of_int (int n)" "n \<le> high" "num_val 10 p = int n"
proof -
  have p: "all_digits p" "num_le (number_of_str p) (num_of_int (int high))"
    using assms by (simp_all add: route_prefix_def)
  have pos: "0 \<le> num_val 10 p" using p(1) by (rule num_val_digits_nonneg)
  show ?thesis
  proof (cases "too_large (of_int (num_val 10 p))")
    case True
    then have "number_of_str p = Inf (0 < (of_int (num_val 10 p) :: rat))" by (simp add: number_of_all_digits [OF p(1)] clamp_def)
    moreover have "0 < num_val 10 p" using True pos by (cases "num_val 10 p = 0") (auto simp: too_large_def)
    ultimately show ?thesis using p(2) by (simp add: num_le_def num_of_int_def)
  next
    case False
    then have n: "number_of_str p = num_of_int (num_val 10 p)"
      by (simp add: number_of_all_digits [OF p(1)] clamp_def num_of_int_def)
    show ?thesis using that [of "nat (num_val 10 p)"] p(2) pos unfolding n by simp
  qed
qed

section \<open>The type of a saved route\<close>

definition accepted :: "route_fields \<Rightarrow> bool" where
  "accepted f \<longleftrightarrow> rt_family f \<in> {''ipv4'', ''ipv6''} \<and> rt_routeType f \<in> {''default'', ''host'', ''network''}
     \<and> \<not> list_ex line_end (rt_target f)"

definition destination :: "route_fields \<Rightarrow> string" where
  "destination f = (if rt_routeType f = ''default'' then (if rt_family f = ''ipv6'' then ''::'' else ''0.0.0.0'')
                    else fst (routeTargetParts (rt_target f)))"

text \<open>The prefix length: of IPv4 as a number, of IPv6 as it was entered.\<close>

definition destination_prefix :: "route_fields \<Rightarrow> string" where
  "destination_prefix f = (if rt_routeType f = ''default'' then ''0''
     else if rt_routeType f = ''host'' then (if rt_family f = ''ipv6'' then ''128'' else ''32'')
     else let p = snd (routeTargetParts (rt_target f)) in if rt_family f = ''ipv6'' then p else dec (num_val 10 p))"

text \<open>A network with the prefix length 0 is the default route.\<close>

definition shown_type :: "route_fields \<Rightarrow> string" where
  "shown_type f = (if rt_routeType f = ''network'' \<and>
       (if rt_family f = ''ipv4'' then number_of_str (snd (routeTargetParts (rt_target f))) = Num 0
        else snd (routeTargetParts (rt_target f)) = ''0'')
     then ''default'' else rt_routeType f)"

text \<open>The text of a netmask, as \<open>routeTarget\<close> shows it.\<close>

lemma routeTarget_v4:
  assumes "field s ''target'' = JStr a" "field s ''netmask'' = JStr m" "route_ipv4 (JStr a)" "netmaskToPrefix (JStr m) = Some p" "m \<noteq> []"
  shows "routeTarget s ''ipv4'' = a @ ''/'' @ dec (int p)"
  using assms ipv4_text [OF assms(3)] by (simp add: routeTarget_def or_else_def)

lemma dec_inj: "dec (int m) = dec (int n) \<longleftrightarrow> m = n"
  using num_val_dec [of "int m"] num_val_dec [of "int n"] by (metis of_nat_0_le_iff of_nat_eq_iff)

lemma dec_texts: "dec 0 = ''0''" "dec 32 = ''32''"
  by code_simp+

lemma type_v4:
  assumes "field s ''target'' = JStr a" "field s ''netmask'' = JStr m" "route_ipv4 (JStr a)" "netmaskToPrefix (JStr m) = Some p" "m \<noteq> []"
  shows "routeTypeFor s ''ipv4'' = (if p = 0 then ''default'' else if p = 32 then ''host'' else ''network'')
    \<and> routeTarget s ''ipv4'' = a @ ''/'' @ dec (int p)"
proof -
  have "routeTargetParts (a @ ''/'' @ dec (int p)) = (a, dec (int p))"
    using ipv4_text [OF assms(3)] by (intro parts_join dec_digits) auto
  moreover have "dec (int p) = ''0'' \<longleftrightarrow> p = 0" "dec (int p) = ''32'' \<longleftrightarrow> p = 32"
    using dec_inj [of p 0] dec_inj [of p 32] dec_texts by simp_all
  ultimately show ?thesis unfolding routeTypeFor_def routeTarget_v4 [OF assms] by simp
qed

lemma validate_v4:
  assumes v: "validateRoute f = Inr (t, nm)" and f: "rt_family f = ''ipv4''" "accepted f"
    and s: "field s ''target'' = JStr t" "field s ''netmask'' = nm"
  shows "routeTypeFor s ''ipv4'' = shown_type f \<and> routeTarget s ''ipv4'' = destination f @ ''/'' @ destination_prefix f
    \<and> t = destination f \<and> nm = JStr (dotted (netmask (num_val 10 (destination_prefix f))))"
proof -
  obtain a p where ap: "routeTargetParts (rt_target f) = (a, p)" by fastforce
  have zero: "route_ipv4 (JStr ''0.0.0.0'')" "netmaskToPrefix (JStr ''0.0.0.0'') = Some 0"
    "netmaskToPrefix (JStr ''255.255.255.255'') = Some 32" by code_simp+
  have masks: "dotted (netmask (num_val 10 ''0'')) = ''0.0.0.0''" "dotted (netmask (num_val 10 ''32'')) = ''255.255.255.255''" by code_simp+
  consider (default) "rt_routeType f = ''default''" | (host) "rt_routeType f = ''host''" | (network) "rt_routeType f = ''network''"
    using f(2) by (auto simp: accepted_def)
  then show ?thesis
  proof cases
    case default
    then have "t = ''0.0.0.0''" "nm = JStr ''0.0.0.0''" using v f(1) by (auto simp: validateRoute_def Let_def ap split: if_splits)
    then show ?thesis using type_v4 [OF _ _ zero(1,2), of s] s default f(1)
      by (simp add: shown_type_def destination_def destination_prefix_def masks dec_texts)
  next
    case host
    then have "t = a" "nm = JStr ''255.255.255.255''" "route_ipv4 (JStr a)"
      using v f(1) by (auto simp: validateRoute_def Let_def ap split: if_splits)
    then show ?thesis using type_v4 [OF _ _ _ zero(3), of s a] s host f(1)
      by (simp add: shown_type_def destination_def destination_prefix_def ap masks dec_texts)
  next
    case network
    have a: "route_ipv4 (JStr a)" "t = a" "route_prefix p 32" "number_of_str p \<noteq> num_of_int 32"
        "nm = (case prefixToNetmask p of Some m \<Rightarrow> JStr m | None \<Rightarrow> JNull)"
      using v f(1) network by (auto simp: validateRoute_def Let_def ap split: if_splits)
    obtain n where n: "number_of_str p = num_of_int (int n)" "n \<le> 32" and val: "num_val 10 p = int n"
      using route_prefix_value [of p 32] a(3) by auto
    obtain m where m: "prefixToNetmask p = Some m" "ipv4Netmask (JStr m)" "netmaskToPrefix (JStr m) = Some n"
      using prefix_roundtrip [OF n] by blast
    have mask: "m = dotted (netmask (int n))" using prefix_mask [OF n] m(1) by simp
    have "n \<noteq> 32" using a(4) n(1) by auto
    moreover have "number_of_str p = Num 0 \<longleftrightarrow> n = 0" unfolding n(1) by (simp add: num_of_int_def del: num_int)
    ultimately show ?thesis
      using type_v4 [OF _ _ a(1) m(3) ipv4Netmask_text [OF m(2)], of s] s a(2,5) m(1) network f(1)
      by (simp add: shown_type_def destination_def destination_prefix_def ap val mask del: num_int)
  qed
qed

lemma routeTarget_v6: "field s ''target'' = JStr t \<Longrightarrow> field s ''netmask'' = JUndef \<Longrightarrow> t \<noteq> [] \<Longrightarrow> routeTarget s ''ipv6'' = t"
  by (simp add: routeTarget_def or_else_def)

lemma validate_v6:
  assumes v: "validateRoute f = Inr (t, nm)" and f: "rt_family f = ''ipv6''" "accepted f"
    and s: "field s ''target'' = JStr t" "field s ''netmask'' = JUndef"
  shows "CHR ''/'' \<in> set t \<and> routeTypeFor s ''ipv6'' = shown_type f \<and> t = destination f @ ''/'' @ destination_prefix f
    \<and> routeTarget s ''ipv6'' = t"
proof -
  obtain a p where ap: "routeTargetParts (rt_target f) = (a, p)" by fastforce
  have none: "\<not> route_ipv6 (JStr [])" by code_simp
  have texts: "all_digits ''128''" "number_of_str ''128'' = num_of_int 128" "routeTargetParts ''::/0'' = (''::'', ''0'')" by code_simp+
  consider (default) "rt_routeType f = ''default''" | (host) "rt_routeType f = ''host''" | (network) "rt_routeType f = ''network''"
    using f(2) by (auto simp: accepted_def)
  then show ?thesis
  proof cases
    case default
    then have "t = ''::/0''" using v f(1) by (auto simp: validateRoute_def Let_def ap split: if_splits)
    then show ?thesis
      using default f(1) s texts by (simp add: routeTypeFor_def routeTarget_v6 shown_type_def destination_def destination_prefix_def)
  next
    case host
    then have a: "t = a @ ''/128''" "route_ipv6 (JStr a)" using v f(1) by (auto simp: validateRoute_def Let_def ap split: if_splits)
    have "\<not> list_ex line_end a" using f(2) by (rule_tac parts_cases [OF ap]) (auto simp: accepted_def)
    moreover have "a \<noteq> []" using a(2) none by auto
    ultimately have "routeTargetParts t = (a, ''128'')" using parts_join [of a "''128''"] texts(1) a(1) by simp
    then show ?thesis using host f(1) s a by (simp add: routeTypeFor_def routeTarget_v6 shown_type_def destination_def destination_prefix_def ap)
  next
    case network
    then have a: "p \<noteq> []" "t = a @ ''/'' @ p" "number_of_str p \<noteq> num_of_int 128"
      using v f(1) by (auto simp: validateRoute_def Let_def ap split: if_splits)
    have "t = rt_target f" by (rule parts_cases [OF ap]) (use a in auto)
    then have parts: "routeTargetParts t = (a, p)" using ap by simp
    have t: "CHR ''/'' \<in> set t" "t \<noteq> []" using a(2) by simp_all
    have "p \<noteq> ''128''" using a(3) texts(2) by auto
    then show ?thesis
      unfolding routeTypeFor_def routeTarget_v6 [OF s t(2)] parts
      using network f(1) t(1) a(2) by (simp add: shown_type_def destination_def destination_prefix_def ap)
  qed
qed

section \<open>A saved route\<close>

text \<open>The options that a save leaves in a section with the options \<open>g\<close>.\<close>

definition text_option :: "string \<Rightarrow> jsval" where
  "text_option v = (if v \<noteq> [] then JStr v else JUndef)"

definition saved_options :: "route_fields \<Rightarrow> string \<Rightarrow> jsval \<Rightarrow> (string \<Rightarrow> jsval) \<Rightarrow> string \<Rightarrow> jsval" where
  "saved_options f target nm g =
     g(''interface'' := text_option (rt_interface f), ''target'' := JStr target,
       ''netmask'' := (if rt_family f = ''ipv4'' then nm else if CHR ''/'' \<in> set target then JUndef else g ''netmask''),
       ''gateway'' := text_option (rt_gateway f), ''metric'' := text_option (rt_metric f),
       ''freenetic_description'' := text_option (rt_description f), ''freenetic_auto'' := JUndef,
       ''disabled'' := (if rt_automatic f then JUndef else JStr ''1''))"

lemma option_names [simp]:
  "option_name ''disabled''" "option_name ''freenetic_auto''" "option_name ''freenetic_description''" "option_name ''metric''"
  "option_name ''gateway''" "option_name ''netmask''" "option_name ''target''" "option_name ''interface''"
  "option_name ''freenetic_managed''" "option_name ''server''"
  by (simp_all add: option_name_def)

lemma save_apply_saved:
  "sr_saved (save_apply sv failed msg u) \<Longrightarrow> sv_save sv = None"
  by (auto simp: save_apply_def run_save_def Let_def split: option.splits)

context route_store
begin

lemma holds_if: "(b \<Longrightarrow> holds u c n g) \<Longrightarrow> (\<not> b \<Longrightarrow> holds u' c n g') \<Longrightarrow> holds (if b then u else u') c n (if b then g else g')"
  by simp

lemma write_route_holds:
  assumes "holds u ''network'' n g"
  shows "holds (write_route R n f target nm u) ''network'' n (saved_options f target nm g)"
proof -
  define g1 where "g1 = g(''interface'' := text_option (rt_interface f), ''target'' := JStr target)"
  define u1 where "u1 = ru_set R ''network'' n [(''target'', JStr target)] (ru_set_or_unset R ''network'' n ''interface'' (rt_interface f) u)"
  have 1: "holds u1 ''network'' n g1"
    unfolding u1_def g1_def text_option_def by (intro holds_set holds_set_or_unset assms option_names)
  define g2 where "g2 = g1(''netmask'' := (if rt_family f = ''ipv4'' then nm else if CHR ''/'' \<in> set target then JUndef else g ''netmask''))"
  define u2 where "u2 = (if rt_family f = ''ipv4'' then ru_set R ''network'' n [(''netmask'', nm)] u1
     else if CHR ''/'' \<in> set target then au_unset (ru_base R) u1 ''network'' n ''netmask'' else u1)"
  have "g1(''netmask'' := g ''netmask'') = g1" by (simp add: g1_def fun_eq_iff)
  then have 2: "holds u2 ''network'' n g2"
    using holds_set [OF 1, of "''netmask''" nm] holds_unset [OF 1, of "''netmask''"] 1 by (simp add: u2_def g2_def)
  have "saved_options f target nm g = (if rt_automatic f
      then g2(''gateway'' := text_option (rt_gateway f), ''metric'' := text_option (rt_metric f),
        ''freenetic_description'' := text_option (rt_description f), ''freenetic_auto'' := JUndef, ''disabled'' := JUndef)
      else g2(''gateway'' := text_option (rt_gateway f), ''metric'' := text_option (rt_metric f),
        ''freenetic_description'' := text_option (rt_description f), ''freenetic_auto'' := JUndef, ''disabled'' := JStr ''1''))"
    by (simp add: saved_options_def g2_def g1_def)
  then show ?thesis
    unfolding write_route_def Let_def u1_def [symmetric] u2_def [symmetric]
    by (simp only: text_option_def) (intro holds_if holds_set holds_unset holds_set_or_unset 2 option_names)
qed

lemma edit_route_holds:
  assumes old: "editingSection \<noteq> [] \<Longrightarrow> field (get u ''network'' editingSection) ''.type'' = JStr (route_type (rt_family f))"
    and e: "edit_route R editingSection f target nm u = (n, u')"
  obtains g where "n \<noteq> []" "editingSection \<noteq> [] \<Longrightarrow> n = editingSection \<and> g = field (get u ''network'' n)"
    "holds u' ''network'' n (saved_options f target nm g)" "g ''.type'' = JStr (route_type (rt_family f))"
    "editingSection = [] \<Longrightarrow> g ''netmask'' = JUndef"
proof (cases "editingSection = []")
  case False
  then have u': "n = editingSection" "u' = write_route R n f target nm u" using e by (auto simp: edit_route_def)
  have t: "field (get u ''network'' n) ''.type'' = JStr (route_type (rt_family f))" using old False u'(1) by simp
  then have "is_object (get u ''network'' n)" by (auto simp: field_def is_object_def split: jsval.splits)
  from write_route_holds [OF holds_get [OF this]] show ?thesis using that False t u' by blast
next
  case True
  obtain u1 where add: "ru_add R ''network'' (route_type (rt_family f)) u = (n, u1)"
    and u': "u' = write_route R n f target nm (ru_set R ''network'' n [(''freenetic_managed'', JStr ''1'')] u1)"
    using e True by (auto simp: edit_route_def split: prod.splits)
  note new = ru_add_new [OF add]
  have "holds u1 ''network'' n (field (get u1 ''network'' n))" using new by (intro holds_get) simp
  then have "holds (ru_set R ''network'' n [(''freenetic_managed'', JStr ''1'')] u1) ''network'' n
      ((field (get u1 ''network'' n))(''freenetic_managed'' := JStr ''1''))" by (rule holds_set) simp
  from write_route_holds [OF this, of f target nm] show ?thesis
    by (intro that [of "(field (get u1 ''network'' n))(''freenetic_managed'' := JStr ''1'')"]) (use True new u' in simp_all)
qed

end

section \<open>DNS routes\<close>

lemma dnsDomain_text: "dnsDomain d \<Longrightarrow> d \<noteq> [] \<and> CHR ''/'' \<notin> set d"
proof -
  assume d: "dnsDomain d"
  have c: "\<not> domain_char CHR ''/''" by code_simp
  show ?thesis
  proof (cases "d = ''*''")
    case False
    then have "list_all domain_char (if starts_with ''.'' d then tl d else d)" "(if starts_with ''.'' d then tl d else d) \<noteq> []"
      using d by (auto simp: dnsDomain_def Let_def)
    then show ?thesis using c by (cases d) (auto simp: list_all_iff split: if_splits)
  qed simp
qed

lemma dnsServer_text: "dnsServer s \<Longrightarrow> s \<noteq> []"
  by (auto simp: dnsServer_def)

lemma encode_parse:
  assumes "validateDns d s = None" "\<not> list_ex line_end s"
  shows "parseDnsServer (JStr (encodeDnsServer d s)) = Some \<lparr>dr_raw = JStr (encodeDnsServer d s), dr_domain = d, dr_server = s\<rparr>"
proof -
  have ok: "dnsDomain d" "dnsServer s" using assms(1) by (auto simp: validateDns_def split: if_splits)
  have tw: "takeWhile (\<lambda>c. c \<noteq> CHR ''/'') (d @ ''/'' @ s) = d" "dropWhile (\<lambda>c. c \<noteq> CHR ''/'') (d @ ''/'' @ s) = ''/'' @ s"
    using dnsDomain_text [OF ok(1)] by (subst takeWhile_append2 dropWhile_append2; auto)+
  have e: "encodeDnsServer d s = CHR ''/'' # (d @ ''/'' @ s)" by (simp add: encodeDnsServer_def)
  show ?thesis
    unfolding parseDnsServer_def Let_def arg_str_JStr e list.sel(3) tw
    using ok assms(2) dnsDomain_text [OF ok(1)] dnsServer_text [OF ok(2)] by simp
qed

text \<open>The first section of the resolver.\<close>

definition dns_named :: "'u route_uci \<Rightarrow> 'u \<Rightarrow> bool" where
  "dns_named R u \<longleftrightarrow> (\<forall>s \<in> set (ru_sections R u ''dhcp'' ''dnsmasq''). field s ''.name'' \<noteq> JStr [])"

lemma config_of_hd:
  assumes "ru_sections R u ''dhcp'' ''dnsmasq'' = s # ss" "named n s" "n \<noteq> []" "truthy s"
  shows "dc_section (getDnsConfig R u) = JStr n \<and> dc_servers (getDnsConfig R u) = listValue_route (field s ''server'')"
  using assms by (simp add: getDnsConfig_def Let_def sectionName_acl_def named_def and_then_def or_else_def)

lemma getDnsConfig_entry:
  assumes "i < length (dc_servers (getDnsConfig R u))" "parseDnsServer (dc_servers (getDnsConfig R u) ! i) = Some e"
  shows "(i, e) \<in> set (dc_entries (getDnsConfig R u))"
proof -
  define servers where "servers = dc_servers (getDnsConfig R u)"
  have "dc_entries (getDnsConfig R u) = List.map_filter (\<lambda>(i, raw). map_option (Pair i) (parseDnsServer raw)) (zip [0..<length servers] servers)"
    by (simp add: getDnsConfig_def Let_def servers_def)
  moreover have "(i, servers ! i) \<in> set (zip [0..<length servers] servers)"
    using assms(1) by (auto simp: in_set_zip servers_def intro!: exI [of _ i])
  ultimately show ?thesis using assms(2) by (auto simp: map_filter_set servers_def intro!: bexI)
qed

context route_store
begin

lemma hd_kept:
  assumes "section_names (ru_sections R u' c t) = section_names (ru_sections R u c t)" "ru_sections R u c t = s # ss" "named n s"
  obtains ss' where "ru_sections R u' c t = get u' c n # ss'" "named n (get u' c n)" "truthy (get u' c n)"
proof -
  obtain s' ss' where s': "ru_sections R u' c t = s' # ss'" "field s' ''.name'' = field s ''.name''"
    using assms(1,2) by (cases "ru_sections R u' c t") (auto simp: section_names_def)
  then have "named n s'" using assms(3) by (simp add: named_def)
  moreover obtain m where "named m s'" "get u' c m = s'" "field s' ''.type'' = JStr t" using section_is [of s' u' c t] s'(1) by auto
  ultimately have "get u' c n = s'" using named_unique by blast
  then show ?thesis using that s' \<open>named n s'\<close> \<open>field s' ''.type'' = JStr t\<close> by (cases s') (auto simp: field_def truthy_def)
qed

lemma servers_after:
  assumes "section_names (ru_sections R u' ''dhcp'' ''dnsmasq'') = section_names (ru_sections R u ''dhcp'' ''dnsmasq'')"
    "ru_sections R u ''dhcp'' ''dnsmasq'' = s # ss" "named n s" "n \<noteq> []" "holds u' ''dhcp'' n g"
  shows "dc_servers (getDnsConfig R u') = listValue_route (g ''server'')"
proof -
  obtain ss' where y: "ru_sections R u' ''dhcp'' ''dnsmasq'' = get u' ''dhcp'' n # ss'"
      "named n (get u' ''dhcp'' n)" "truthy (get u' ''dhcp'' n)"
    by (rule hd_kept [OF assms(1,2,3)])
  show ?thesis using config_of_hd [OF y(1,2) assms(4) y(3)] assms(5) by (simp add: holds_def)
qed

text \<open>The section that a save uses: it is the first one, and has the servers of before.\<close>

lemma dns_section_first:
  assumes "dns_named R u" "dns_section R u = (n, u1)"
  obtains s ss where "ru_sections R u1 ''dhcp'' ''dnsmasq'' = s # ss" "named n s" "n \<noteq> []" "get u1 ''dhcp'' n = s" "truthy s"
    "listValue_route (field s ''server'') = dc_servers (getDnsConfig R u)"
proof (cases "ru_sections R u ''dhcp'' ''dnsmasq''")
  case (Cons s ss)
  then obtain m where m: "named m s" "field s ''.type'' = JStr ''dnsmasq''" "get u ''dhcp'' m = s"
    using section_is [of s u "''dhcp''" "''dnsmasq''"] by auto
  have ne: "m \<noteq> []" using assms(1) Cons m(1) by (auto simp: dns_named_def named_def)
  have "truthy s" using m(2) by (cases s) (auto simp: field_def truthy_def)
  note cfg = config_of_hd [OF Cons m(1) ne this]
  have "n = m" "u1 = u" using assms(2) cfg ne by (simp_all add: dns_section_def)
  then show ?thesis using that Cons m ne cfg \<open>truthy s\<close> by auto
next
  case Nil
  have "sectionName_acl JUndef = JUndef" by code_simp
  then have cfg: "dc_section (getDnsConfig R u) = JUndef" "dc_servers (getDnsConfig R u) = []"
    using Nil by (simp_all add: getDnsConfig_def Let_def)
  obtain u2 where add: "ru_add R ''dhcp'' ''dnsmasq'' u = (n, u2)" "u1 = ru_set R ''dhcp'' n [(''freenetic_managed'', JStr ''1'')] u2"
    using assms(2) cfg(1) by (auto simp: dns_section_def split: prod.splits)
  note new = ru_add_new [OF add(1)]
  have only: "s = get u2 ''dhcp'' n" if mem: "s \<in> set (ru_sections R u2 ''dhcp'' ''dnsmasq'')" for s
  proof (rule ccontr)
    assume "s \<noteq> get u2 ''dhcp'' n"
    moreover obtain m where m: "get u2 ''dhcp'' m = s" "field s ''.type'' = JStr ''dnsmasq''" using section_is [OF mem] by blast
    ultimately have "m \<noteq> n" by blast
    then have "get u ''dhcp'' m = s" using ru_add_get [OF add(1), of "''dhcp''" m] m(1) by simp
    then show False using listed [of u "''dhcp''" m "''dnsmasq''"] m(2) Nil by simp
  qed
  have "get u2 ''dhcp'' n \<in> set (ru_sections R u2 ''dhcp'' ''dnsmasq'')" using new by (intro listed) simp
  then obtain ss where two: "ru_sections R u2 ''dhcp'' ''dnsmasq'' = get u2 ''dhcp'' n # ss"
    using only by (cases "ru_sections R u2 ''dhcp'' ''dnsmasq''") auto
  have h2: "holds u2 ''dhcp'' n (field (get u2 ''dhcp'' n))" using new by (intro holds_get) simp
  have names: "section_names (ru_sections R u1 ''dhcp'' ''dnsmasq'') = section_names (ru_sections R u2 ''dhcp'' ''dnsmasq'')"
    unfolding add(2) ru_set_def au_set_def set_options_def
    using set_order [OF holds_null [OF h2]] by simp
  obtain ss' where one: "ru_sections R u1 ''dhcp'' ''dnsmasq'' = get u1 ''dhcp'' n # ss'" "named n (get u1 ''dhcp'' n)" "truthy (get u1 ''dhcp'' n)"
    by (rule hd_kept [OF names two holds_name [OF h2]])
  have "field (get u1 ''dhcp'' n) ''server'' = JUndef"
    using holds_set [OF h2, of "''freenetic_managed''" "JStr ''1''"] new unfolding add(2) by (simp add: holds_def)
  then show ?thesis using that [OF one(1,2) _ refl one(3)] new cfg(2) by (simp add: listValue_route_def)
qed

lemma no_section_no_servers:
  assumes "dns_named R u" "\<not> truthy (dc_section (getDnsConfig R u))"
  shows "dc_servers (getDnsConfig R u) = []"
proof (cases "ru_sections R u ''dhcp'' ''dnsmasq''")
  case Nil
  then show ?thesis by (simp add: getDnsConfig_def Let_def)
next
  case (Cons s ss)
  then obtain m where m: "named m s" "field s ''.type'' = JStr ''dnsmasq''"
    using section_is [of s u "''dhcp''" "''dnsmasq''"] by auto
  have "m \<noteq> []" using assms(1) Cons m(1) by (auto simp: dns_named_def named_def)
  moreover have "truthy s" using m(2) by (cases s) (auto simp: field_def truthy_def)
  ultimately show ?thesis using config_of_hd [OF Cons m(1)] assms(2) by simp
qed

lemma set_servers_get:
  assumes "dns_named R u"
  shows "dc_servers (getDnsConfig R (set_servers R (dc_section (getDnsConfig R u)) servers u))
    = (if truthy (dc_section (getDnsConfig R u)) then servers else [])"
proof (cases "truthy (dc_section (getDnsConfig R u))")
  case True
  obtain n where sec: "dns_section R u = (n, u)" "to_str (dc_section (getDnsConfig R u)) = n"
    using True by (simp add: dns_section_def)
  obtain x xs where x: "ru_sections R u ''dhcp'' ''dnsmasq'' = x # xs" "named n x" "n \<noteq> []" "get u ''dhcp'' n = x"
    using dns_section_first [OF assms sec(1)] by metis
  have "is_object x" using x(2) by (auto simp: named_def field_def is_object_def split: jsval.splits)
  then have h: "holds u ''dhcp'' n (field x)" using holds_get x(4) by metis
  show ?thesis
  proof (cases "servers = []")
    case False
    have u': "set_servers R (dc_section (getDnsConfig R u)) servers u = ru_set R ''dhcp'' n [(''server'', JArr servers)] u"
      using True False sec(2) by (simp add: set_servers_def)
    have names: "section_names (ru_sections R (ru_set R ''dhcp'' n [(''server'', JArr servers)] u) ''dhcp'' ''dnsmasq'')
        = section_names (ru_sections R u ''dhcp'' ''dnsmasq'')"
      unfolding ru_set_def au_set_def set_options_def using set_order [OF holds_null [OF h]] by simp
    show ?thesis
      unfolding u' servers_after [OF names x(1,2,3) holds_set [OF h option_names(10)]]
      using True by (simp add: listValue_route_def is_array_def elements_def)
  next
    case nil: True
    have u': "set_servers R (dc_section (getDnsConfig R u)) servers u = au_unset (ru_base R) u ''dhcp'' n ''server''"
      using True nil sec(2) by (simp add: set_servers_def)
    show ?thesis
      unfolding u' servers_after [OF unset_order [OF holds_null [OF h] option_names(10)] x(1,2,3) holds_unset [OF h option_names(10)]]
      using True nil by (simp add: listValue_route_def)
  qed
qed (simp add: set_servers_def no_section_no_servers [OF assms])

end

section \<open>The properties of the handlers\<close>

text \<open>A store with a resolver that has three servers.\<close>

definition routes_store :: list_store where
  "routes_store = [((''network'', ''lan''), [(''.type'', JStr ''interface'')]),
     ((''dhcp'', ''dns''), [(''.type'', JStr ''dnsmasq''),
        (''server'', JArr [JStr ''/lan/10.0.0.1'', JStr ''9.9.9.9'', JStr ''/vpn/10.1.0.1'']) ])]"

definition typed_fields :: route_fields where
  "typed_fields = \<lparr>rt_family = ''ipv4'', rt_routeType = ''network'', rt_target = ''10.9.0.0/16'', rt_gateway = ''10.0.0.2'',
     rt_interface = ''lan'', rt_metric = ''5'', rt_description = ''office'', rt_automatic = True\<rparr>"

text \<open>C24: a route that is saved, new or edited, is read back with the address and the prefix length of its
  destination, the gateway, the interface, the metric, the state and a description that were entered; in the
  section of an IPv4 route are the address and the netmask of that many ones.  The type is read back too, but
  for a network with the prefix length 0, which is read back as the default route.\<close>

theorem route_saved:
  assumes "route_store R" and saved: "sr_saved (saveRoute R sv editingSection f u)" and f: "accepted f"
    and old: "editingSection \<noteq> [] \<Longrightarrow>
      field (au_get (ru_base R) u ''network'' editingSection) ''.type'' = JStr (route_type (rt_family f))"
  shows "\<exists>n. (editingSection \<noteq> [] \<longrightarrow> n = editingSection)
    \<and> (let u' = sr_store (saveRoute R sv editingSection f u); s = au_get (ru_base R) u' ''network'' n;
           r = configured_route_of (rt_family f) s
       in r \<in> set (getConfiguredRoutes R u' (rt_family f)) \<and> gr_section r = JStr n
          \<and> gr_target r = destination f @ ''/'' @ destination_prefix f \<and> routeTypeFor s (rt_family f) = shown_type f
          \<and> (rt_family f = ''ipv4'' \<longrightarrow> field s ''target'' = JStr (destination f)
               \<and> field s ''netmask'' = JStr (dotted (2 ^ 32 - 2 ^ nat (32 - num_val 10 (destination_prefix f)))))
          \<and> gr_gateway r = rt_gateway f \<and> gr_interface r = rt_interface f \<and> gr_metric r = rt_metric f
          \<and> gr_automatic r = rt_automatic f
          \<and> (rt_description f \<noteq> [] \<longrightarrow> gr_description r = JStr (rt_description f)))"
proof -
  obtain t nm where v: "validateRoute f = Inr (t, nm)"
    using saved by (cases "validateRoute f") (auto simp: saveRoute_def warn_def)
  obtain n u' where e: "edit_route R editingSection f t nm u = (n, u')" by fastforce
  have u': "sr_store (saveRoute R sv editingSection f u) = u'" by (simp add: saveRoute_def v e)
  obtain g where n: "n \<noteq> []" "editingSection \<noteq> [] \<Longrightarrow> n = editingSection \<and> g = field (au_get (ru_base R) u ''network'' n)"
    and h: "route_store.holds R u' ''network'' n (saved_options f t nm g)" and g: "g ''.type'' = JStr (route_type (rt_family f))"
    "editingSection = [] \<Longrightarrow> g ''netmask'' = JUndef"
    using route_store.edit_route_holds [OF assms(1) old e] by metis
  define s where "s = au_get (ru_base R) u' ''network'' n"
  have k: "field s j = saved_options f t nm g j" for j using h route_store.holds_def [OF assms(1)] by (simp add: s_def)
  have mem: "s \<in> set (ru_sections R u' ''network'' (route_type (rt_family f)))"
    unfolding s_def by (rule route_store.holds_listed [OF assms(1) h]) (simp add: saved_options_def g)
  have name: "sectionName_acl s = JStr n"
    using route_store.holds_name [OF assms(1) h] n(1) k [of "''.type''"] g(1)
    by (cases s) (auto simp: s_def [symmetric] sectionName_acl_def named_def and_then_def or_else_def field_def truthy_def saved_options_def)
  have target: "routeTypeFor s (rt_family f) = shown_type f \<and> routeTarget s (rt_family f) = destination f @ ''/'' @ destination_prefix f
    \<and> (rt_family f = ''ipv4'' \<longrightarrow> field s ''target'' = JStr (destination f)
         \<and> field s ''netmask'' = JStr (dotted (2 ^ 32 - 2 ^ nat (32 - num_val 10 (destination_prefix f)))))"
  proof (cases "rt_family f = ''ipv4''")
    case True
    then show ?thesis using validate_v4 [OF v True f, of s] by (simp add: k saved_options_def netmask_def)
  next
    case False
    then have six: "rt_family f = ''ipv6''" using f by (auto simp: accepted_def)
    obtain s0 where "field s0 ''target'' = JStr t" "field s0 ''netmask'' = JUndef"
      by (rule that [of "JObj [(''target'', JStr t)]"]) (simp_all add: field_def)
    then have "CHR ''/'' \<in> set t" using validate_v6 [OF v six f, of s0] by blast
    then have "field s ''target'' = JStr t" "field s ''netmask'' = JUndef" using six by (simp_all add: k saved_options_def)
    from validate_v6 [OF v six f this] show ?thesis unfolding six by auto
  qed
  have "configured_route_of (rt_family f) s \<in> set (getConfiguredRoutes R u' (rt_family f))"
    using mem by (auto simp: getConfiguredRoutes_def)
  then show ?thesis
    unfolding u' Let_def using target name n(2)
    by (intro exI [of _ n])
       (simp add: s_def [symmetric] configured_route_of_def, auto simp: k saved_options_def text_option_def or_else_def)
qed

theorem route_saved_witness:
  "\<exists>n. let s = au_get list_acl (sr_store (saveRoute list_route ready_services [] typed_fields routes_store)) ''network'' n
    in routeTypeFor s ''ipv4'' = ''network'' \<and> gr_gateway (configured_route_of ''ipv4'' s) = ''10.0.0.2''
       \<and> gr_target (configured_route_of ''ipv4'' s) = ''10.9.0.0/16''"
proof -
  have a: "accepted typed_fields" "sr_saved (saveRoute list_route ready_services [] typed_fields routes_store)"
    "shown_type typed_fields = ''network''" "destination typed_fields @ ''/'' @ destination_prefix typed_fields = ''10.9.0.0/16''" by code_simp+
  have b: "rt_family typed_fields = ''ipv4''" "rt_gateway typed_fields = ''10.0.0.2''" "ru_base list_route = list_acl"
    by (simp_all add: typed_fields_def list_route_def)
  show ?thesis
    using route_saved [OF list_route.route_store_axioms a(2,1)] unfolding a(3,4) b Let_def by blast
qed

text \<open>C25: a DNS route that is saved is the entry that is read back at its place; the other servers of
  the resolver are kept, in their order.\<close>

theorem dns_saved:
  assumes "route_store R" "dns_named R u" and saved: "sr_saved (saveDnsRoute R sv editingDnsIndex d s u)"
    and "\<not> list_ex line_end s"
  shows "let servers = dc_servers (getDnsConfig R u); raw = JStr (encodeDnsServer d s);
             i = (case editingDnsIndex of Some i \<Rightarrow> if 0 \<le> i \<and> i < int (length servers) then nat i else length servers
                  | None \<Rightarrow> length servers);
             c = getDnsConfig R (sr_store (saveDnsRoute R sv editingDnsIndex d s u))
         in dc_servers c = take i servers @ [raw] @ drop (i + 1) servers
            \<and> (i, \<lparr>dr_raw = raw, dr_domain = d, dr_server = s\<rparr>) \<in> set (dc_entries c)"
proof -
  define servers where "servers = dc_servers (getDnsConfig R u)"
  define raw where "raw = JStr (encodeDnsServer d s)"
  define i where "i = (case editingDnsIndex of Some i \<Rightarrow> if 0 \<le> i \<and> i < int (length servers) then nat i else length servers
                  | None \<Rightarrow> length servers)"
  define new where "new = take i servers @ [raw] @ drop (i + 1) servers"
  have v: "validateDns d s = None" using saved by (auto simp: saveDnsRoute_def warn_def split: option.splits)
  obtain n u1 where sec: "dns_section R u = (n, u1)" by fastforce
  obtain x xs where x: "ru_sections R u1 ''dhcp'' ''dnsmasq'' = x # xs" "named n x" "n \<noteq> []" "au_get (ru_base R) u1 ''dhcp'' n = x"
    "truthy x" "listValue_route (field x ''server'') = servers"
    using route_store.dns_section_first [OF assms(1,2) sec] unfolding servers_def by metis
  have one: "dc_servers (getDnsConfig R u1) = servers" using config_of_hd [OF x(1,2,3,5)] x(6) by simp
  have new': "(case editingDnsIndex of Some i \<Rightarrow> if 0 \<le> i \<and> i < int (length servers) then servers[nat i := raw] else servers @ [raw]
           | None \<Rightarrow> servers @ [raw]) = new"
    by (auto simp: new_def i_def upd_conv_take_nth_drop split: option.splits)
  define u2 where "u2 = ru_set R ''dhcp'' n [(''server'', JArr new)] u1"
  have u2: "sr_store (saveDnsRoute R sv editingDnsIndex d s u) = u2"
    by (simp add: saveDnsRoute_def v edit_dns_def sec one raw_def [symmetric] new' u2_def)
  have "is_object x" using x(2) by (auto simp: named_def field_def is_object_def split: jsval.splits)
  then have h1: "route_store.holds R u1 ''dhcp'' n (field x)" using route_store.holds_get [OF assms(1)] x(4) by metis
  have h2: "route_store.holds R u2 ''dhcp'' n ((field x)(''server'' := JArr new))"
    unfolding u2_def by (rule route_store.holds_set [OF assms(1) h1]) simp
  have names: "section_names (ru_sections R u2 ''dhcp'' ''dnsmasq'') = section_names (ru_sections R u1 ''dhcp'' ''dnsmasq'')"
    unfolding u2_def ru_set_def au_set_def set_options_def
    using route_store.set_order [OF assms(1) route_store.holds_null [OF assms(1) h1]] by simp
  have c: "dc_servers (getDnsConfig R u2) = new"
    using route_store.servers_after [OF assms(1) names x(1,2,3) h2] by (simp add: listValue_route_def is_array_def elements_def)
  have "i \<le> length servers" by (auto simp: i_def split: option.splits)
  then have "i < length new" "new ! i = raw" by (simp_all add: new_def nth_append)
  then have "(i, \<lparr>dr_raw = raw, dr_domain = d, dr_server = s\<rparr>) \<in> set (dc_entries (getDnsConfig R u2))"
    using getDnsConfig_entry [of i R u2] encode_parse [OF v assms(4)] unfolding c raw_def by simp
  then show ?thesis
    unfolding Let_def u2 servers_def [symmetric] raw_def [symmetric] i_def [symmetric] using c new_def by simp
qed

theorem dns_saved_witness:
  "dc_servers (getDnsConfig list_route (sr_store (saveDnsRoute list_route ready_services (Some 1) ''example.org'' ''1.1.1.1#53'' routes_store)))
    = [JStr ''/lan/10.0.0.1'', JStr ''/example.org/1.1.1.1#53'', JStr ''/vpn/10.1.0.1'']"
proof -
  have a: "dns_named list_route routes_store"
    "sr_saved (saveDnsRoute list_route ready_services (Some 1) ''example.org'' ''1.1.1.1#53'' routes_store)"
    "\<not> list_ex line_end ''1.1.1.1#53''"
    "dc_servers (getDnsConfig list_route routes_store) = [JStr ''/lan/10.0.0.1'', JStr ''9.9.9.9'', JStr ''/vpn/10.1.0.1'']"
    "encodeDnsServer ''example.org'' ''1.1.1.1#53'' = ''/example.org/1.1.1.1#53''" by code_simp+
  show ?thesis using dns_saved [OF list_route.route_store_axioms a(1,2,3)] unfolding a(4,5) Let_def by simp
qed

lemma nths_outside: "length xs \<le> d \<Longrightarrow> nths xs (- insert d A) = nths xs (- A)"
  unfolding nths_def by (intro arg_cong [where f = "map fst"] filter_cong) (auto simp: set_zip)

lemma nths_keep: "\<forall>i < length xs. i \<in> A \<Longrightarrow> nths xs A = xs"
proof -
  assume "\<forall>i < length xs. i \<in> A"
  then have "filter (\<lambda>p. snd p \<in> A) (zip xs [0..<length xs]) = zip xs [0..<length xs]"
    by (intro filter_True) (auto simp: set_zip)
  then show ?thesis by (simp add: nths_def)
qed

lemma nths_remove_at:
  assumes "d < length xs" "\<forall>e \<in> A. e < d"
  shows "nths (remove_at d xs) (- A) = nths xs (- insert d A)"
proof -
  have len: "length (take d xs) = d" using assms(1) by simp
  have xs: "xs = take d xs @ [xs ! d] @ drop (d + 1) xs" using assms(1) by (simp add: id_take_nth_drop [symmetric])
  have low: "nths (take d xs) (- insert d A) = nths (take d xs) (- A)" by (intro nths_outside) simp
  have tail: "nths (drop (d + 1) xs) {j. j + d \<in> - A} = drop (d + 1) xs"
      "nths (drop (d + 1) xs) {j. j + 1 + d \<in> - insert d A} = drop (d + 1) xs"
    using assms(2) by (intro nths_keep; fastforce)+
  have "nths xs (- insert d A) = nths (take d xs) (- insert d A)
      @ nths ([xs ! d] @ drop (d + 1) xs) {j. j + d \<in> - insert d A}"
    by (subst xs) (simp only: nths_append len)
  also have "\<dots> = nths (take d xs) (- A) @ drop (d + 1) xs"
    using tail(2) unfolding low by (simp add: nths_Cons)
  finally show ?thesis using tail(1) unfolding remove_at_def nths_append len by simp
qed

lemma splice_descending:
  "sorted_wrt (>) ds \<Longrightarrow> foldl splice_server xs (map int ds) = nths xs (- set ds)"
proof (induction ds arbitrary: xs)
  case (Cons d ds)
  then have IH: "foldl splice_server ys (map int ds) = nths ys (- set ds)" for ys by simp
  have "splice_server xs (int d) = (if d < length xs then remove_at d xs else xs)" by (simp add: splice_server_def)
  then have "foldl splice_server xs (map int (d # ds)) = nths (if d < length xs then remove_at d xs else xs) (- set ds)"
    by (simp only: list.map foldl.simps IH)
  then show ?case
    using Cons.prems nths_remove_at [of d xs "set ds"] nths_outside [of xs d "set ds"] by simp
qed (simp add: nths_keep)

lemma splice_servers_nths:
  assumes "distinct is"
  shows "splice_servers (map int is) servers = nths servers (- set is)"
proof -
  have "sort (map int is) = map int (sort is)"
    by (rule properties_for_sort) (simp_all add: sorted_map)
  moreover have "sorted_wrt (<) (sort is)" using assms by (simp add: strict_sorted_iff)
  then have "sorted_wrt (>) (rev (sort is))" by (simp add: sorted_wrt_rev)
  ultimately show ?thesis
    using splice_descending [of "rev (sort is)" servers] by (simp add: splice_servers_def rev_map)
qed

text \<open>Deleting selected DNS routes removes exactly the servers at the selected places, in whatever order
  they were selected; the others keep their order.\<close>

theorem dns_deleted:
  assumes "route_store R" "dns_named R u" "distinct is" "is \<noteq> []" "\<forall>i \<in> set is. i < 10 ^ 9"
  shows "dc_servers (getDnsConfig R (sr_store (deleteSelectedRoutes R sv True ''dns'' (map (\<lambda>i. selectionKey ''dns'' (dec (int i))) is) u)))
    = nths (dc_servers (getDnsConfig R u)) (- set is)"
proof -
  let ?keys = "map (\<lambda>i. selectionKey ''dns'' (dec (int i))) is"
  have sel: "selectedRouteKeys ''dns'' ?keys = ?keys"
    by (simp add: selectedRouteKeys_def selectionKey_def)
  have num: "int_of (number_of_str (dec (int i))) = int i" if "i \<in> set is" for i
  proof -
    have "(10 :: int) ^ 9 \<le> 10 ^ 300" by (intro power_increasing) auto
    moreover have "int i < 10 ^ 9" using assms(5) that by fastforce
    ultimately show ?thesis using number_of_dec [of "int i"] by simp
  qed
  have vals: "map (\<lambda>key. int_of (number_of_str (key_value ''dns'' key))) ?keys = map int is"
    using num by (simp add: key_value_def selectionKey_def)
  have "sr_store (deleteSelectedRoutes R sv True ''dns'' ?keys u)
      = set_servers R (dc_section (getDnsConfig R u)) (nths (dc_servers (getDnsConfig R u)) (- set is)) u"
    unfolding deleteSelectedRoutes_def Let_def sel delete_selected_def vals splice_servers_nths [OF assms(3)]
    using assms(4) by simp
  then show ?thesis
    using route_store.set_servers_get [OF assms(1,2)] route_store.no_section_no_servers [OF assms(1,2)] by simp
qed

theorem dns_deleted_witness:
  "dc_servers (getDnsConfig list_route (sr_store (deleteSelectedRoutes list_route ready_services True ''dns''
      (map (\<lambda>i. selectionKey ''dns'' (dec (int i))) [0, 2]) routes_store))) = [JStr ''9.9.9.9'']"
proof -
  have a: "dns_named list_route routes_store"
    "dc_servers (getDnsConfig list_route routes_store) = [JStr ''/lan/10.0.0.1'', JStr ''9.9.9.9'', JStr ''/vpn/10.1.0.1'']"
    by code_simp+
  have "distinct [0, 2 :: nat]" "[0, 2 :: nat] \<noteq> []" "\<forall>i \<in> set [0, 2]. i < (10 :: nat) ^ 9" by simp_all
  from dns_deleted [OF list_route.route_store_axioms a(1) this] show ?thesis unfolding a(2) by (simp add: nths_Cons)
qed

end
