(* ===== verification/Portforward.thy ===== *)
theory Portforward
  imports Multiwan Routing_Store
begin

text \<open>
  Port forwarding (\<open>view/network/freenetic-portforward.js\<close>): the zones of the firewall, the network of a
  destination, the form of a rule with its checks, and the handlers that edit \<open>firewall\<close>.
\<close>

section \<open>Addresses\<close>

definition comma_space :: "char \<Rightarrow> char" where
  "comma_space c = (if c = CHR '','' then CHR '' '' else c)"

definition listValue_pf :: "jsval \<Rightarrow> jsval list" where
  "listValue_pf v = (if is_array v then elements v
     else if truthy v then map JStr (tokens (map comma_space (to_str v))) else [])"

definition pf_octet :: "string \<Rightarrow> bool" where
  "pf_octet part \<longleftrightarrow> all_digits part \<and> length part \<le> 3 \<and> num_le (number_of_str part) (Num 255)"

definition ipv4ToUint :: "jsval \<Rightarrow> int option" where
  "ipv4ToUint address =
     (let parts = split_on CHR ''.'' (arg_str address)
      in if length parts \<noteq> 4 \<or> \<not> list_all pf_octet parts then None
         else Some (foldl (\<lambda>v part. to_uint32 (v * 256 + int_of (number_of_str part))) 0 parts))"

text \<open>The loop over the bits, from the highest of \<open>n\<close> bits down.\<close>

fun mask_loop :: "int \<Rightarrow> nat \<Rightarrow> int \<Rightarrow> bool \<Rightarrow> int option" where
  "mask_loop v 0 p zeroSeen = Some p"
| "mask_loop v (Suc b) p zeroSeen =
     (let set = (js_and v (js_shl 1 b) \<noteq> 0)
      in if set \<and> zeroSeen then None else mask_loop v b (if set then p + 1 else p) (zeroSeen \<or> \<not> set))"

definition prefixFromNetmask :: "jsval \<Rightarrow> int option" where
  "prefixFromNetmask v = (case ipv4ToUint v of None \<Rightarrow> None | Some m \<Rightarrow> mask_loop m 32 0 False)"

definition raw_prefix :: "jsval \<Rightarrow> string list \<Rightarrow> jsnum" where
  "raw_prefix iface parts =
     (if 1 < length parts then number_of_str (parts ! 1)
      else case prefixFromNetmask (or_else (field iface ''netmask'') (JStr ''255.255.255.0'')) of
          None \<Rightarrow> NaN | Some p \<Rightarrow> num_of_int p)"

definition addressInInterface :: "jsval \<Rightarrow> jsval \<Rightarrow> bool" where
  "addressInInterface address iface =
     (case ipv4ToUint address of
        None \<Rightarrow> False
      | Some target \<Rightarrow> list_ex (\<lambda>raw.
          let parts = split_on CHR ''/'' (to_str raw); p = raw_prefix iface parts
          in case ipv4ToUint (JStr (parts ! 0)) of
               None \<Rightarrow> False
             | Some l \<Rightarrow> if \<not> is_integer p \<or> num_less p (Num 0) \<or> num_less (Num 32) p then False
                 else let n = 2 ^ nat (32 - int_of p) in l div n = target div n)
          (listValue_pf (and_then iface (field iface ''ipaddr''))))"

section \<open>Zones\<close>

record zones =
  z_wan :: jsval
  z_lan :: jsval
  z_wanNetworks :: "jsval list"

definition concat_value :: "jsval \<Rightarrow> jsval list" where
  "concat_value v = (let w = or_else v (JArr []) in if is_array w then elements w else [w])"

definition detect_zone :: "zones \<Rightarrow> jsval \<Rightarrow> zones" where
  "detect_zone s z =
     (if field z ''.type'' \<noteq> JStr ''zone'' then s
      else let nets = concat_value (field z ''network'');
               s = (if field z ''masq'' = JStr ''1''
                    then s\<lparr>z_wan := (if \<not> truthy (z_wan s) then field z ''name'' else z_wan s),
                           z_wanNetworks := (if z_wanNetworks s = [] then nets else z_wanNetworks s)\<rparr> else s)
           in if JStr ''lan'' \<in> set nets \<and> \<not> truthy (z_lan s) then s\<lparr>z_lan := field z ''name''\<rparr> else s)"

definition detectZones :: "jsval \<Rightarrow> zones" where
  "detectZones firewall =
     (let s = foldl detect_zone \<lparr>z_wan = JNull, z_lan = JNull, z_wanNetworks = []\<rparr> (map snd (properties firewall))
      in \<lparr>z_wan = or_else (z_wan s) (JStr ''wan''), z_lan = or_else (z_lan s) (JStr ''lan''),
          z_wanNetworks = (if z_wanNetworks s \<noteq> [] then z_wanNetworks s else [JStr ''wan''])\<rparr>)"

definition protoLabel :: "jsval \<Rightarrow> string" where
  "protoLabel protos =
     (let ps = map (lower \<circ> to_str) (concat_value protos)
      in if ''tcp'' \<in> set ps \<and> ''udp'' \<in> set ps then ''TCP+UDP'' else if ''udp'' \<in> set ps then ''UDP'' else ''TCP'')"

text \<open>What the page has read.\<close>

record pf_view =
  pv_firewall :: jsval
  pv_leases :: "jsval list"
  pv_network :: jsval

definition pv_zones :: "pf_view \<Rightarrow> zones" where
  "pv_zones V = detectZones (pv_firewall V)"

definition destinationZoneForAddress :: "pf_view \<Rightarrow> string \<Rightarrow> jsval \<Rightarrow> jsval" where
  "destinationZoneForAddress V address fallback =
     (let fallback = or_else fallback (z_lan (pv_zones V))
      in case find (\<lambda>(name, iface). truthy iface \<and> field iface ''.type'' = JStr ''interface''
             \<and> addressInInterface (JStr address) iface) (properties (pv_network V)) of
           None \<Rightarrow> fallback
         | Some (ifaceName, _) \<Rightarrow>
             if ifaceName = [] then fallback
             else case find (\<lambda>section. truthy section \<and> field section ''.type'' = JStr ''zone''
                    \<and> JStr ifaceName \<in> set (listValue_pf (field section ''network''))) (map snd (properties (pv_firewall V))) of
                  None \<Rightarrow> fallback
                | Some zone \<Rightarrow> or_else (field zone ''name'') fallback)"

section \<open>The rules\<close>

definition is_v6 :: "jsval \<Rightarrow> bool" where
  "is_v6 s \<longleftrightarrow> field s ''family'' = JStr ''ipv6'' \<or> field s ''ip6'' = JStr ''1''"

definition is_rule :: "string \<Rightarrow> jsval \<Rightarrow> bool" where
  "is_rule activeFamily s \<longleftrightarrow> field s ''.type'' = JStr ''redirect'' \<and> field s ''target'' \<noteq> JStr ''SNAT''
     \<and> (if activeFamily = ''ipv6'' then is_v6 s else \<not> is_v6 s)"

definition getRules :: "pf_view \<Rightarrow> string \<Rightarrow> jsval list" where
  "getRules V activeFamily = filter (is_rule activeFamily) (map snd (properties (pv_firewall V)))"

text \<open>The choices of the protocol, with their texts.\<close>

definition proto_options :: "(string \<times> string) list" where
  "proto_options = [(''tcp'', ''TCP''), (''udp'', ''UDP''), (''tcp udp'', ''TCP+UDP'')]"

record rule_row =
  rr_name :: string
  rr_proto :: string
  rr_port :: string
  rr_address :: string
  rr_enabled :: bool

definition rule_row_of :: "jsval \<Rightarrow> rule_row" where
  "rule_row_of rule =
     \<lparr>rr_name = to_str (or_else (field rule ''name'') (JStr en_dash)), rr_proto = protoLabel (field rule ''proto''),
      rr_port = to_str (or_else (field rule ''src_dport'') (JStr en_dash)),
      rr_address = to_str (or_else (field rule ''dest_ip'') (JStr en_dash))
        @ (if truthy (field rule ''dest_port'') then '':'' @ to_str (field rule ''dest_port'') else []),
      rr_enabled = (field rule ''enabled'' \<noteq> JStr ''0'')\<rparr>"

section \<open>The form\<close>

definition interface_named :: "'u route_uci \<Rightarrow> 'u \<Rightarrow> jsval \<Rightarrow> jsval" where
  "interface_named R u name =
     (case find (\<lambda>item. field item ''.name'' = name) (ru_sections R u ''network'' ''interface'') of
        None \<Rightarrow> JUndef | Some s \<Rightarrow> s)"

definition looks_ipv6 :: "'u route_uci \<Rightarrow> 'u \<Rightarrow> jsval \<Rightarrow> bool" where
  "looks_ipv6 R u name \<longleftrightarrow> CHR ''6'' \<in> set (lower (to_str name))
     \<or> (let section = interface_named R u name
        in truthy section \<and> lower (to_str (or_else (field section ''proto'') (JStr []))) \<in> {''dhcpv6'', ''static6''})"

definition networkNames :: "'u route_uci \<Rightarrow> 'u \<Rightarrow> pf_view \<Rightarrow> string \<Rightarrow> jsval list" where
  "networkNames R u V activeFamily =
     (let all = z_wanNetworks (pv_zones V);
          familyNetworks = filter (\<lambda>name. if activeFamily = ''ipv6'' then looks_ipv6 R u name else \<not> looks_ipv6 R u name) all
      in if familyNetworks \<noteq> [] then familyNetworks else all)"

definition network_option :: "'u route_uci \<Rightarrow> 'u \<Rightarrow> jsval \<Rightarrow> string \<times> string" where
  "network_option R u name =
     (let section = interface_named R u name;
          label = and_then section (or_else (field section ''label'') (field section ''description''));
          proto = and_then section (field section ''proto'')
      in (to_str name, to_str (or_else label (JStr (to_str name @ (if truthy proto then '' ('' @ upper (to_str proto) @ '')'' else []))))))"

text \<open>The option of the select that is shown first: the source of the rule, or the first one.\<close>

definition initial_input :: "'u route_uci \<Rightarrow> 'u \<Rightarrow> pf_view \<Rightarrow> string \<Rightarrow> jsval option \<Rightarrow> string" where
  "initial_input R u V activeFamily rule =
     (let wan = z_wan (pv_zones V);
          inputNetwork = to_str (case rule of None \<Rightarrow> wan | Some r \<Rightarrow> or_else (field r ''src'') wan);
          names = map to_str (networkNames R u V activeFamily)
      in if inputNetwork \<in> set names then inputNetwork else case names of [] \<Rightarrow> [] | n # _ \<Rightarrow> n)"

definition existingDestination :: "pf_view \<Rightarrow> jsval option \<Rightarrow> jsval" where
  "existingDestination V rule =
     (let lan = z_lan (pv_zones V) in case rule of None \<Rightarrow> lan | Some r \<Rightarrow> or_else (field r ''dest'') lan)"

text \<open>The known destinations with their zones.\<close>

definition add_output :: "pf_view \<Rightarrow> (string \<times> jsval) list \<Rightarrow> jsval \<Rightarrow> (string \<times> jsval) list" where
  "add_output V outs lease =
     (let ip = field lease ''ipaddr''
      in if \<not> truthy ip \<or> to_str ip \<in> fst ` set outs then outs
         else outs @ [(to_str ip, destinationZoneForAddress V (to_str ip) (z_lan (pv_zones V)))])"

definition outputs :: "pf_view \<Rightarrow> jsval option \<Rightarrow> (string \<times> jsval) list" where
  "outputs V rule =
     (let outs = foldl (add_output V) [] (pv_leases V)
      in case rule of
           None \<Rightarrow> outs
         | Some r \<Rightarrow> if truthy (field r ''dest_ip'') \<and> to_str (field r ''dest_ip'') \<notin> fst ` set outs
                     then outs @ [(to_str (field r ''dest_ip''), existingDestination V rule)] else outs)"

record pf_form =
  ff_name :: string
  ff_enabled :: bool
  ff_input :: string
  ff_output :: string
  ff_custom :: string
  ff_proto :: string
  ff_range :: bool
  ff_port :: string
  ff_start :: string
  ff_end :: string
  ff_internal :: string

definition custom_output :: string where "custom_output = ''__custom__''"

definition getOutputAddress :: "pf_form \<Rightarrow> string" where
  "getOutputAddress f = (if ff_output f = custom_output then trim (ff_custom f) else ff_output f)"

text \<open>The messages of the fields that are not valid.\<close>

definition form_errors :: "string \<Rightarrow> pf_form \<Rightarrow> (string \<times> string) list" where
  "form_errors activeFamily f =
     (let address = getOutputAddress f; port = (\<lambda>s. validPort (JStr (trim s)) False); fill = ''Fill in this field''
      in (if address = [] \<or> \<not> validAddress (JStr address) (if activeFamily = ''ipv6'' then ''ipv6'' else ''ipv4'') False
          then [(''output'', fill)] else [])
         @ (if \<not> ff_range f \<and> \<not> port (ff_port f) then [(''port'', fill)] else [])
         @ (if \<not> ff_range f \<and> trim (ff_internal f) \<noteq> [] \<and> \<not> port (ff_internal f)
            then [(''internal'', ''Enter a port from 1 to 65535'')] else [])
         @ (if ff_range f \<and> \<not> port (ff_start f) then [(''start'', fill)] else [])
         @ (if ff_range f \<and> \<not> port (ff_end f) then [(''end'', fill)] else [])
         @ (if ff_range f \<and> port (ff_start f) \<and> port (ff_end f) \<and> num_less (number_of_str (ff_end f)) (number_of_str (ff_start f))
            then [(''end'', ''The end port must not be lower than the start port'')] else []))"

record pf_fields =
  pf_name :: string
  pf_enabled :: bool
  pf_family :: string
  pf_inputNetwork :: string
  pf_proto :: string
  pf_extPort :: string
  pf_ip :: string
  pf_destZone :: jsval
  pf_intPort :: string

definition form_fields :: "pf_view \<Rightarrow> string \<Rightarrow> jsval option \<Rightarrow> pf_form \<Rightarrow> pf_fields" where
  "form_fields V activeFamily rule f =
     (let destination = existingDestination V rule
      in \<lparr>pf_name = trim (ff_name f), pf_enabled = ff_enabled f,
          pf_family = (if activeFamily = ''ipv6'' then ''ipv6'' else ''ipv4''), pf_inputNetwork = ff_input f,
          pf_proto = ff_proto f,
          pf_extPort = (if ff_range f then trim (ff_start f) @ ''-'' @ trim (ff_end f) else trim (ff_port f)),
          pf_ip = getOutputAddress f,
          pf_destZone = (if ff_output f = custom_output then destinationZoneForAddress V (getOutputAddress f) destination
             else case map_of (outputs V rule) (ff_output f) of None \<Rightarrow> destination
                  | Some z \<Rightarrow> or_else (JStr (to_str z)) destination),
          pf_intPort = (if ff_range f then [] else trim (ff_internal f))\<rparr>)"

section \<open>The handlers\<close>

definition rule_options :: "pf_view \<Rightarrow> pf_fields \<Rightarrow> (string \<times> jsval) list" where
  "rule_options V f =
     [(''target'', JStr ''DNAT''), (''src'', or_else (JStr (pf_inputNetwork f)) (z_wan (pv_zones V))),
      (''dest'', or_else (pf_destZone f) (destinationZoneForAddress V (pf_ip f) (z_lan (pv_zones V)))),
      (''name'', JStr (pf_name f)), (''proto'', JArr (map JStr (split_on CHR '' '' (pf_proto f)))),
      (''src_dport'', JStr (pf_extPort f)), (''dest_ip'', JStr (pf_ip f))]"

definition write_rule :: "'u route_uci \<Rightarrow> pf_view \<Rightarrow> string \<Rightarrow> pf_fields \<Rightarrow> 'u \<Rightarrow> 'u" where
  "write_rule R V n f u =
     (let u = ru_set R ''firewall'' n (rule_options V f) u;
          u = (if pf_family f = ''ipv6'' then ru_set R ''firewall'' n [(''family'', JStr ''ipv6'')] u
               else au_unset (ru_base R) u ''firewall'' n ''family'');
          u = (if pf_enabled f then au_unset (ru_base R) u ''firewall'' n ''enabled''
               else ru_set R ''firewall'' n [(''enabled'', JStr ''0'')] u)
      in ru_set_or_unset R ''firewall'' n ''dest_port'' (pf_intPort f) u)"

definition edit_rule :: "'u route_uci \<Rightarrow> pf_view \<Rightarrow> string \<Rightarrow> pf_fields \<Rightarrow> 'u \<Rightarrow> string \<times> 'u" where
  "edit_rule R V editingSection f u =
     (if editingSection \<noteq> [] then (editingSection, write_rule R V editingSection f u)
      else let (n, u) = ru_add R ''firewall'' ''redirect'' u
           in (n, write_rule R V n f (ru_set R ''firewall'' n [(''freenetic_managed'', JStr ''1'')] u)))"

definition saveRule :: "'u route_uci \<Rightarrow> acl_services \<Rightarrow> pf_view \<Rightarrow> string \<Rightarrow> pf_fields \<Rightarrow> 'u \<Rightarrow> 'u save_result" where
  "saveRule R sv V editingSection f u =
     (if pf_extPort f = [] then warn u ''Please enter an external port.''
      else if \<not> validPort (JStr (pf_extPort f)) True
      then warn u ''External port must be a number or a range (e.g. 8080-8090).''
      else if pf_intPort f \<noteq> [] \<and> \<not> validPort (JStr (pf_intPort f)) False
      then warn u ''Internal port must be a number from 1 to 65535.''
      else if \<not> validAddress (JStr (pf_ip f)) (pf_family f) False
      then warn u (if pf_family f = ''ipv6'' then ''Please enter a valid internal IPv6 address.''
                   else ''Please enter a valid internal IPv4 address.'')
      else run_save sv False (\<lambda>u. (snd (edit_rule R V editingSection f u), None)) ''Failed to save rule: '' []
             (if editingSection \<noteq> [] then ''Rule saved.'' else ''Rule added.'') u)"

text \<open>A handler that reports errors only.\<close>

definition quiet_pf :: "'u save_result \<Rightarrow> 'u save_result" where
  "quiet_pf r = r\<lparr>sr_notices := filter (\<lambda>(kind, message). kind \<noteq> ''info'') (sr_notices r)\<rparr>"

definition toggleRule :: "'u route_uci \<Rightarrow> acl_services \<Rightarrow> string \<Rightarrow> bool \<Rightarrow> 'u \<Rightarrow> 'u save_result" where
  "toggleRule R sv n enable u =
     quiet_pf (run_save sv False (\<lambda>u. (ru_set R ''firewall'' n [(''enabled'', JStr (if enable then ''1'' else ''0''))] u, None))
       ''Failed to apply change: '' [] [] u)"

definition deleteRule :: "'u route_uci \<Rightarrow> acl_services \<Rightarrow> string \<Rightarrow> 'u \<Rightarrow> 'u save_result" where
  "deleteRule R sv n u =
     run_save sv False (\<lambda>u. (au_remove (ru_base R) ''firewall'' n u, None)) ''Failed to delete rule: '' [] ''Rule deleted.'' u"

text \<open>A click on the button of the form.\<close>

definition submit :: "'u route_uci \<Rightarrow> acl_services \<Rightarrow> pf_view \<Rightarrow> string \<Rightarrow> string \<Rightarrow> jsval option \<Rightarrow> pf_form \<Rightarrow> 'u \<Rightarrow> 'u save_result" where
  "submit R sv V activeFamily editingSection rule f u =
     (if form_errors activeFamily f \<noteq> [] then nothing u
      else saveRule R sv V editingSection (form_fields V activeFamily rule f) u)"

end
