(* ===== verification/Portforward_Properties.thy ===== *)
theory Portforward_Properties
  imports Portforward Routing_Properties
begin

text \<open>
  Properties of port forwarding: a rule that is saved is read back, on the tab of its family only, and
  the source that a rule of the IPv6 tab gets.
\<close>

lemma pf_option_names [simp]:
  "option_name ''family''" "option_name ''enabled''" "option_name ''dest_port''" "option_name ''freenetic_managed''"
  by (simp_all add: option_name_def)

lemma rule_option_names: "\<forall>(k, v) \<in> set (rule_options V f). option_name k"
  by (simp add: rule_options_def option_name_def)

text \<open>The options that a save leaves in a section with the options \<open>g\<close>.\<close>

definition saved_rule :: "pf_view \<Rightarrow> pf_fields \<Rightarrow> (string \<Rightarrow> jsval) \<Rightarrow> string \<Rightarrow> jsval" where
  "saved_rule V f g =
     (\<lambda>k. case map_of (rev (rule_options V f)) k of Some v \<Rightarrow> v | None \<Rightarrow> g k)
       (''family'' := if pf_family f = ''ipv6'' then JStr ''ipv6'' else JUndef,
        ''enabled'' := if pf_enabled f then JUndef else JStr ''0'',
        ''dest_port'' := if pf_intPort f \<noteq> [] then JStr (pf_intPort f) else JUndef)"

context route_store
begin

lemma write_rule_holds:
  assumes "holds u ''firewall'' n g"
  shows "holds (write_rule R V n f u) ''firewall'' n (saved_rule V f g)"
proof -
  note 1 = holds_sets [OF assms rule_option_names, of V f]
  define g1 where "g1 = (\<lambda>k. case map_of (rev (rule_options V f)) k of Some v \<Rightarrow> v | None \<Rightarrow> g k)"
  define u1 where "u1 = ru_set R ''firewall'' n (rule_options V f) u"
  define u2 where "u2 = (if pf_family f = ''ipv6'' then ru_set R ''firewall'' n [(''family'', JStr ''ipv6'')] u1
    else au_unset (ru_base R) u1 ''firewall'' n ''family'')"
  define g2 where "g2 = g1(''family'' := if pf_family f = ''ipv6'' then JStr ''ipv6'' else JUndef)"
  have h1: "holds u1 ''firewall'' n g1" using 1 by (simp add: u1_def g1_def)
  then have h2: "holds u2 ''firewall'' n g2" by (simp add: u2_def g2_def holds_set holds_unset)
  define u3 where "u3 = (if pf_enabled f then au_unset (ru_base R) u2 ''firewall'' n ''enabled''
    else ru_set R ''firewall'' n [(''enabled'', JStr ''0'')] u2)"
  have h3: "holds u3 ''firewall'' n (g2(''enabled'' := if pf_enabled f then JUndef else JStr ''0''))"
    using h2 by (simp add: u3_def holds_set holds_unset)
  have "write_rule R V n f u = ru_set_or_unset R ''firewall'' n ''dest_port'' (pf_intPort f) u3"
    by (simp add: write_rule_def Let_def u1_def u2_def u3_def)
  moreover have "saved_rule V f g = (g2(''enabled'' := if pf_enabled f then JUndef else JStr ''0''))
      (''dest_port'' := if pf_intPort f \<noteq> [] then JStr (pf_intPort f) else JUndef)"
    by (simp only: saved_rule_def g2_def g1_def)
  ultimately show ?thesis using holds_set_or_unset [OF h3] by simp
qed

lemma edit_rule_holds:
  assumes old: "editingSection \<noteq> [] \<Longrightarrow> field (get u ''firewall'' editingSection) ''.type'' = JStr ''redirect''"
    and e: "edit_rule R V editingSection f u = (n, u')"
  obtains g where "editingSection \<noteq> [] \<Longrightarrow> n = editingSection \<and> g = field (get u ''firewall'' n)"
    "holds u' ''firewall'' n (saved_rule V f g)" "g ''.type'' = JStr ''redirect''"
    "editingSection = [] \<Longrightarrow> g ''ip6'' = JUndef"
proof (cases "editingSection = []")
  case False
  then have u': "n = editingSection" "u' = write_rule R V n f u" using e by (auto simp: edit_rule_def)
  have t: "field (get u ''firewall'' n) ''.type'' = JStr ''redirect''" using old False u'(1) by simp
  then have "is_object (get u ''firewall'' n)" by (auto simp: field_def is_object_def split: jsval.splits)
  from write_rule_holds [OF holds_get [OF this]] show ?thesis using that False t u' by blast
next
  case True
  obtain u1 where add: "ru_add R ''firewall'' ''redirect'' u = (n, u1)"
    and u': "u' = write_rule R V n f (ru_set R ''firewall'' n [(''freenetic_managed'', JStr ''1'')] u1)"
    using e True by (auto simp: edit_rule_def split: prod.splits)
  note new = ru_add_new [OF add]
  have "holds u1 ''firewall'' n (field (get u1 ''firewall'' n))" using new by (intro holds_get) simp
  then have "holds (ru_set R ''firewall'' n [(''freenetic_managed'', JStr ''1'')] u1) ''firewall'' n
      ((field (get u1 ''firewall'' n))(''freenetic_managed'' := JStr ''1''))" by (rule holds_set) simp
  from write_rule_holds [OF this, of V f] show ?thesis
    by (intro that [of "(field (get u1 ''firewall'' n))(''freenetic_managed'' := JStr ''1'')"])
      (use True new u' in \<open>simp_all add: option_name_def\<close>)
qed

end

lemma run_save_done:
  "sr_saved (run_save sv r edit failed unloaded msg u) \<Longrightarrow>
   sv_load sv = None \<and> sr_store (run_save sv r edit failed unloaded msg u) = fst (edit u)"
  by (auto simp: run_save_def Let_def split: option.splits prod.splits)

text \<open>The section of a rule that was saved.\<close>

lemma saved_section:
  assumes "route_store R" and saved: "sr_saved (saveRule R sv V editingSection f u)"
    and old: "editingSection \<noteq> [] \<longrightarrow> field (au_get (ru_base R) u ''firewall'' editingSection) ''.type'' = JStr ''redirect''"
  obtains n s g where "editingSection \<noteq> [] \<longrightarrow> n = editingSection \<and> g = field (au_get (ru_base R) u ''firewall'' n)"
    "editingSection = [] \<longrightarrow> g ''ip6'' = JUndef" "g ''.type'' = JStr ''redirect''"
    "s = au_get (ru_base R) (sr_store (saveRule R sv V editingSection f u)) ''firewall'' n"
    "s \<in> set (ru_sections R (sr_store (saveRule R sv V editingSection f u)) ''firewall'' ''redirect'')"
    "field s = saved_rule V f g" "pf_extPort f \<noteq> []" "validPort (JStr (pf_extPort f)) True" "validAddress (JStr (pf_ip f)) (pf_family f) False"
proof -
  have port: "\<not> pf_extPort f = []" "\<not> \<not> validPort (JStr (pf_extPort f)) True"
    and internal: "\<not> (pf_intPort f \<noteq> [] \<and> \<not> validPort (JStr (pf_intPort f)) False)"
    and ip: "\<not> \<not> validAddress (JStr (pf_ip f)) (pf_family f) False"
    using saved by (auto simp: saveRule_def warn_def split: if_splits)
  note save = run_save_done [OF saved [unfolded saveRule_def if_not_P [OF port(1)] if_not_P [OF port(2)] if_not_P [OF internal] if_not_P [OF ip]]]
  obtain n u' where e: "edit_rule R V editingSection f u = (n, u')" by fastforce
  have u': "sr_store (saveRule R sv V editingSection f u) = u'"
    unfolding saveRule_def if_not_P [OF port(1)] if_not_P [OF port(2)] if_not_P [OF internal] if_not_P [OF ip]
    using save e by simp
  obtain g where n: "editingSection \<noteq> [] \<Longrightarrow> n = editingSection \<and> g = field (au_get (ru_base R) u ''firewall'' n)"
    and h: "route_store.holds R u' ''firewall'' n (saved_rule V f g)" and g: "g ''.type'' = JStr ''redirect''"
    "editingSection = [] \<Longrightarrow> g ''ip6'' = JUndef"
    using route_store.edit_rule_holds [OF assms(1) old [rule_format] e] by metis
  have k: "field (au_get (ru_base R) u' ''firewall'' n) = saved_rule V f g"
    using h route_store.holds_def [OF assms(1)] by (simp add: fun_eq_iff)
  have mem: "au_get (ru_base R) u' ''firewall'' n \<in> set (ru_sections R u' ''firewall'' ''redirect'')"
    by (rule route_store.holds_listed [OF assms(1) h]) (simp add: saved_rule_def rule_options_def g)
  show ?thesis
    by (rule that [of n g "au_get (ru_base R) u' ''firewall'' n"]) (use n g mem k port ip in \<open>simp_all add: u'\<close>)
qed

section \<open>The properties\<close>

lemma protocol_labels: "\<forall>(v, label) \<in> set proto_options. protoLabel (JArr (map JStr (split_on CHR '' '' v))) = label"
  by code_simp

text \<open>C27: a rule that is saved, new or edited on the tab of its family, is a redirect of the firewall with the
  name, the protocol, the ports, the address and the state that were entered: its row on the page shows them, and
  the option of the protocol is the list of the chosen names.  It is listed on the tab of its family and on no
  other.  A rule that is edited keeps the older flag \<open>ip6\<close>, so one that has it is an IPv6 rule.\<close>

theorem rule_saved:
  assumes "route_store R" and saved: "sr_saved (saveRule R sv V editingSection f u)"
    and family: "pf_family f \<in> {''ipv4'', ''ipv6''}" and proto: "(pf_proto f, label) \<in> set proto_options"
    and old: "editingSection \<noteq> [] \<Longrightarrow> field (au_get (ru_base R) u ''firewall'' editingSection) ''.type'' = JStr ''redirect''
      \<and> (field (au_get (ru_base R) u ''firewall'' editingSection) ''ip6'' = JStr ''1'' \<longrightarrow> pf_family f = ''ipv6'')"
  shows "\<exists>n. (editingSection \<noteq> [] \<longrightarrow> n = editingSection)
    \<and> (let u' = sr_store (saveRule R sv V editingSection f u); s = au_get (ru_base R) u' ''firewall'' n; row = rule_row_of s
       in s \<in> set (ru_sections R u' ''firewall'' ''redirect'')
          \<and> (\<forall>family \<in> {''ipv4'', ''ipv6''}. is_rule family s \<longleftrightarrow> family = pf_family f)
          \<and> (pf_name f \<noteq> [] \<longrightarrow> rr_name row = pf_name f) \<and> rr_proto row = label
          \<and> (\<exists>names. field s ''proto'' = JArr (map JStr names) \<and> join '' '' names = pf_proto f
               \<and> (\<forall>p \<in> set names. CHR '' '' \<notin> set p))
          \<and> rr_port row = pf_extPort f
          \<and> rr_address row = pf_ip f @ (if pf_intPort f \<noteq> [] then '':'' @ pf_intPort f else [])
          \<and> rr_enabled row = pf_enabled f \<and> validPort (JStr (rr_port row)) True)"
proof -
  have old': "editingSection \<noteq> [] \<longrightarrow> field (au_get (ru_base R) u ''firewall'' editingSection) ''.type'' = JStr ''redirect''"
    using old by blast
  obtain n s g where n: "editingSection \<noteq> [] \<longrightarrow> n = editingSection \<and> g = field (au_get (ru_base R) u ''firewall'' n)"
    and g: "editingSection = [] \<longrightarrow> g ''ip6'' = JUndef" "g ''.type'' = JStr ''redirect''"
    and s: "s = au_get (ru_base R) (sr_store (saveRule R sv V editingSection f u)) ''firewall'' n"
    and mem: "s \<in> set (ru_sections R (sr_store (saveRule R sv V editingSection f u)) ''firewall'' ''redirect'')"
    and k: "field s = saved_rule V f g"
    and port: "pf_extPort f \<noteq> []" "validPort (JStr (pf_extPort f)) True" and ip: "validAddress (JStr (pf_ip f)) (pf_family f) False"
    by (rule saved_section [OF assms(1) saved old'])
  have ip_ne: "pf_ip f \<noteq> []"
  proof
    assume "pf_ip f = []"
    moreover have "\<not> validAddress (JStr []) ''ipv4'' False" "\<not> validAddress (JStr []) ''ipv6'' False" by code_simp+
    ultimately show False using ip family by auto
  qed
  have six: "g ''ip6'' = JStr ''1'' \<longrightarrow> pf_family f = ''ipv6''" using g(1) n old by (cases "editingSection = []") auto
  let ?names = "split_on CHR '' '' (pf_proto f)"
  have fields: "field s ''.type'' = JStr ''redirect''" "field s ''target'' = JStr ''DNAT''" "field s ''ip6'' = g ''ip6''"
    "field s ''family'' = (if pf_family f = ''ipv6'' then JStr ''ipv6'' else JUndef)"
    "field s ''src_dport'' = JStr (pf_extPort f)" "field s ''dest_ip'' = JStr (pf_ip f)" "field s ''name'' = JStr (pf_name f)"
    "field s ''dest_port'' = (if pf_intPort f \<noteq> [] then JStr (pf_intPort f) else JUndef)"
    "field s ''enabled'' = (if pf_enabled f then JUndef else JStr ''0'')" "field s ''proto'' = JArr (map JStr ?names)"
    by (simp_all add: k saved_rule_def rule_options_def g)
  have tabs: "\<forall>family \<in> {''ipv4'', ''ipv6''}. is_rule family s \<longleftrightarrow> family = pf_family f"
    using family six fields(1-4) by (auto simp: is_rule_def is_v6_def)
  have row: "rr_port (rule_row_of s) = pf_extPort f" "pf_name f \<noteq> [] \<longrightarrow> rr_name (rule_row_of s) = pf_name f"
      "rr_address (rule_row_of s) = pf_ip f @ (if pf_intPort f \<noteq> [] then '':'' @ pf_intPort f else [])"
      "rr_enabled (rule_row_of s) = pf_enabled f" "rr_proto (rule_row_of s) = label"
    using port(1) ip_ne protocol_labels proto by (auto simp: rule_row_of_def fields or_else_def truthy_def)
  have names: "\<exists>names. field s ''proto'' = JArr (map JStr names) \<and> join '' '' names = pf_proto f \<and> (\<forall>p \<in> set names. CHR '' '' \<notin> set p)"
    using split_on_parts by (intro exI [of _ ?names]) (auto simp: fields(10))
  show ?thesis
    unfolding Let_def s [symmetric] using mem tabs row names port(2) n by (intro exI [of _ n]) (simp add: s [symmetric])
qed

text \<open>The firewall of a new system: the zone \<open>wan\<close> has the networks \<open>wan\<close> and \<open>wan6\<close>.\<close>

definition default_firewall :: jsval where
  "default_firewall = JObj [
     (''cfg1'', JObj [(''.name'', JStr ''cfg1''), (''.type'', JStr ''zone''), (''name'', JStr ''lan''), (''network'', JArr [JStr ''lan''])]),
     (''cfg2'', JObj [(''.name'', JStr ''cfg2''), (''.type'', JStr ''zone''), (''name'', JStr ''wan''), (''masq'', JStr ''1''),
        (''network'', JArr [JStr ''wan'', JStr ''wan6''])])]"

definition default_view :: pf_view where
  "default_view = \<lparr>pv_firewall = default_firewall, pv_leases = [], pv_network = JObj []\<rparr>"

definition default_store :: list_store where
  "default_store = [((''network'', ''wan''), [(''.type'', JStr ''interface''), (''proto'', JStr ''dhcp'')]),
     ((''network'', ''wan6''), [(''.type'', JStr ''interface''), (''proto'', JStr ''dhcpv6'')])]"

definition pinhole :: pf_form where
  "pinhole = \<lparr>ff_name = ''web'', ff_enabled = True,
     ff_input = initial_input list_route default_store default_view ''ipv6'' None, ff_output = custom_output,
     ff_custom = ''2001:db8::10'', ff_proto = ''tcp'', ff_range = False, ff_port = ''443'', ff_start = [], ff_end = [],
     ff_internal = []\<rparr>"

definition plain_rule :: pf_fields where
  "plain_rule = \<lparr>pf_name = ''web'', pf_enabled = True, pf_family = ''ipv4'', pf_inputNetwork = ''wan'', pf_proto = ''tcp udp'',
     pf_extPort = ''8080-8090'', pf_ip = ''192.168.1.9'', pf_destZone = JStr ''lan'', pf_intPort = []\<rparr>"

lemma ready_saved: "sr_saved (run_save ready_services False (\<lambda>u. (e u, None)) failed [] msg u)"
  by (simp add: run_save_def ready_services_def Let_def)

theorem rule_saved_witness:
  "\<exists>n. let s = au_get list_acl (sr_store (saveRule list_route ready_services default_view [] plain_rule default_store)) ''firewall'' n
     in is_rule ''ipv4'' s \<and> \<not> is_rule ''ipv6'' s \<and> rr_port (rule_row_of s) = ''8080-8090'' \<and> rr_address (rule_row_of s) = ''192.168.1.9''
       \<and> rr_proto (rule_row_of s) = ''TCP+UDP''"
proof -
  have b: "pf_family plain_rule = ''ipv4''" "pf_extPort plain_rule = ''8080-8090''" "pf_ip plain_rule = ''192.168.1.9''"
    "pf_intPort plain_rule = []" "ru_base list_route = list_acl" by (simp_all add: plain_rule_def list_route_def)
  have v: "validPort (JStr ''8080-8090'') True" "validAddress (JStr ''192.168.1.9'') ''ipv4'' False" by code_simp+
  have a: "sr_saved (saveRule list_route ready_services default_view [] plain_rule default_store)"
    by (simp add: saveRule_def b v ready_saved)
  have c: "pf_family plain_rule \<in> {''ipv4'', ''ipv6''}" by (simp add: b)
  have d: "(pf_proto plain_rule, ''TCP+UDP'') \<in> set proto_options" by (simp add: plain_rule_def proto_options_def)
  show ?thesis using rule_saved [OF list_route.route_store_axioms a c d] unfolding b Let_def by auto
qed

text \<open>On the firewall of a new system the form of a rule of the IPv6 tab is sent with the source
  \<open>wan6\<close>, the name of a network, and the rule is saved with it; no zone has this name.\<close>

theorem ipv6_rule_source:
  "ff_input pinhole = initial_input list_route default_store default_view ''ipv6'' None
   \<and> sr_notices (submit list_route ready_services default_view ''ipv6'' [] None pinhole default_store) = [(''info'', ''Rule added.'')]
   \<and> (\<exists>s \<in> set (ru_sections list_route
          (sr_store (submit list_route ready_services default_view ''ipv6'' [] None pinhole default_store)) ''firewall'' ''redirect'').
        field s ''src'' = JStr ''wan6'')
   \<and> list_all (\<lambda>z. field z ''name'' \<noteq> JStr ''wan6'') (map snd (properties default_firewall))"
proof -
  let ?f = "form_fields default_view ''ipv6'' None pinhole"
  have i: "initial_input list_route default_store default_view ''ipv6'' None = ''wan6''" by code_simp
  have none: "form_errors ''ipv6'' pinhole = []" by code_simp
  have f: "pf_inputNetwork ?f = ''wan6''" "pf_extPort ?f = ''443''" "pf_intPort ?f = []" "pf_ip ?f = ''2001:db8::10''" "pf_family ?f = ''ipv6''"
    by code_simp+
  have v: "validPort (JStr ''443'') True" "validAddress (JStr ''2001:db8::10'') ''ipv6'' False" by code_simp+
  have saved: "sr_saved (saveRule list_route ready_services default_view [] ?f default_store)"
    and notices: "sr_notices (saveRule list_route ready_services default_view [] ?f default_store) = [(''info'', ''Rule added.'')]"
    by (simp_all add: saveRule_def f v ready_saved) (simp add: run_save_def ready_services_def Let_def truthy_def field_def)
  obtain n s g where s: "s \<in> set (ru_sections list_route (sr_store (saveRule list_route ready_services default_view [] ?f default_store)) ''firewall'' ''redirect'')"
    "field s = saved_rule default_view ?f g"
    by (rule saved_section [OF list_route.route_store_axioms saved]) (simp, blast)
  have "field s ''src'' = JStr ''wan6''"
    unfolding s(2) by (simp add: saved_rule_def rule_options_def f or_else_def truthy_def)
  moreover have "list_all (\<lambda>z. field z ''name'' \<noteq> JStr ''wan6'') (map snd (properties default_firewall))" by code_simp
  moreover have "ff_input pinhole = initial_input list_route default_store default_view ''ipv6'' None" by (simp add: pinhole_def)
  ultimately show ?thesis using s(1) notices none by (auto simp: submit_def)
qed

end
