(* ===== verification/Zapret.thy ===== *)
theory Zapret
  imports Portforward
begin

text \<open>
  The browser model of Zapret2 (\<open>zapret2/v4r30/strategy.js\<close>, \<open>fields.js\<close>, \<open>rpc.js\<close>, \<open>ui.js\<close>): capabilities,
  validators, the candidate that is sent to the compiler, labels of the fields, and the unwrapping of
  answers.  A string is the list of its UTF-8 bytes.
\<close>

section \<open>Capabilities\<close>

record zinfo =
  zi_limits :: jsval
  zi_l7 :: "jsval list"
  zi_payload :: "jsval list"
  zi_conditions :: "jsval list"
  zi_actions :: "jsval list"
  zi_action_parameters :: jsval
  zi_list_limits :: jsval

definition object_or_empty :: "jsval \<Rightarrow> jsval" where
  "object_or_empty v = or_else v (JObj [])"

text \<open>Without a value the capabilities of before are kept.\<close>

definition setInfo :: "zinfo \<Rightarrow> jsval \<Rightarrow> zinfo" where
  "setInfo info v =
     (if \<not> truthy v then info
      else \<lparr>zi_limits = object_or_empty (field v ''limits''), zi_l7 = elements (field v ''l7''),
        zi_payload = elements (field v ''payload''), zi_conditions = elements (field v ''conditions''),
        zi_actions = elements (field v ''actions''), zi_action_parameters = object_or_empty (field v ''action_parameters''),
        zi_list_limits = object_or_empty (field v ''list_limits'')\<rparr>)"

definition zsupports :: "zinfo \<Rightarrow> string \<Rightarrow> string \<Rightarrow> bool" where
  "zsupports info type option \<longleftrightarrow> JStr option \<in> set (elements (field (zi_action_parameters info) type))"

definition stepTypes :: "zinfo \<Rightarrow> jsval list" where
  "stepTypes info = zi_conditions info @ zi_actions info"

section \<open>Validators\<close>

text \<open>\<open>/^[a-z0-9][a-z0-9_]{0,31}$/\<close>\<close>

definition id_char :: "char \<Rightarrow> bool" where
  "id_char c \<longleftrightarrow> is_lower c \<or> is_digit c"

definition zvalidId :: "jsval \<Rightarrow> bool" where
  "zvalidId v = (let s = arg_str v
     in s \<noteq> [] \<and> length s \<le> 32 \<and> id_char (hd s) \<and> list_all (\<lambda>c. id_char c \<or> c = CHR ''_'') s)"

definition domain_label :: "string \<Rightarrow> bool" where
  "domain_label l \<longleftrightarrow> l \<noteq> [] \<and> length l \<le> 63 \<and> is_alnum (hd l) \<and> is_alnum (last l) \<and> list_all (\<lambda>c. is_alnum c \<or> c = CHR ''-'') l"

definition zvalidDomain :: "jsval \<Rightarrow> bool" where
  "zvalidDomain v =
     (let s = arg_str v; d = (if starts_with ''^'' s then tl s else s)
      in length s \<le> 253 \<and> list_all domain_label (split_on CHR ''.'' d))"

definition zvalidHostname :: "jsval \<Rightarrow> bool" where
  "zvalidHostname v \<longleftrightarrow> \<not> starts_with ''^'' (arg_str v) \<and> zvalidDomain v"

definition mark_text :: "string \<Rightarrow> bool" where
  "mark_text s \<longleftrightarrow> starts_with ''0x'' s \<and> 3 \<le> length s \<and> length s \<le> 10 \<and> list_all is_xdigit (drop 2 s)"

definition mark_value :: "string \<Rightarrow> int" where
  "mark_value s = to_uint32 (num_val 16 (drop 2 s))"

definition zvalidMark :: "jsval \<Rightarrow> bool" where
  "zvalidMark v = mark_text (arg_str v)"

definition validSingleBitMark :: "jsval \<Rightarrow> bool" where
  "validSingleBitMark v =
     (if \<not> zvalidMark v then False
      else let n = mark_value (to_str v) in n \<noteq> 0 \<and> js_and n (n - 1) = 0)"

definition validMatchMark :: "jsval \<Rightarrow> bool" where
  "validMatchMark v =
     (case split_on CHR ''/'' (arg_str v) of
        [a, m] \<Rightarrow> mark_text a \<and> mark_text m
          \<and> (let v = mark_value a; mask = mark_value m in mask \<noteq> 0 \<and> to_uint32 (js_and v mask) = v)
      | _ \<Rightarrow> False)"

text \<open>A number of at most \<open>n\<close> digits, and one or two of them with a separator.\<close>

definition short_number :: "nat \<Rightarrow> string \<Rightarrow> bool" where
  "short_number n s \<longleftrightarrow> all_digits s \<and> length s \<le> n"

definition number_pair :: "char \<Rightarrow> nat \<Rightarrow> string \<Rightarrow> (int \<times> int option) option" where
  "number_pair sep n s =
     (case split_on sep s of
        [a] \<Rightarrow> if short_number n a then Some (num_val 10 a, None) else None
      | [a, b] \<Rightarrow> if short_number n a \<and> short_number n b then Some (num_val 10 a, Some (num_val 10 b)) else None
      | _ \<Rightarrow> None)"

definition zvalidPort :: "jsval \<Rightarrow> bool" where
  "zvalidPort v =
     (let s = arg_str v; raw = (if starts_with ''~'' s then tl s else s)
      in raw = ''*'' \<or>
         (case number_pair CHR ''-'' 5 raw of
            None \<Rightarrow> False
          | Some (a, b') \<Rightarrow> (let b = (case b' of None \<Rightarrow> a | Some b \<Rightarrow> b) in 1 \<le> a \<and> b \<le> 65535 \<and> a \<le> b)))"

definition validIcmp :: "jsval \<Rightarrow> bool" where
  "validIcmp v =
     (let s = arg_str v
      in s = ''*'' \<or>
         (case number_pair CHR '':'' 3 s of
            None \<Rightarrow> False
          | Some (a, b) \<Rightarrow> a \<le> 255 \<and> (case b of None \<Rightarrow> True | Some b \<Rightarrow> b \<le> 255)))"

definition validProtocol :: "jsval \<Rightarrow> bool" where
  "validProtocol v \<longleftrightarrow> v = JStr ''*''
     \<or> (let s = arg_str v in short_number 3 s \<and> num_val 10 s \<le> 255 \<and> (1 < length s \<longrightarrow> hd s \<noteq> CHR ''0''))"

definition validAutottl :: "jsval \<Rightarrow> bool" where
  "validAutottl v =
     (case split_on CHR '','' (arg_str v) of
        [d, r] \<Rightarrow>
          integer_text d \<and>
          (case split_on CHR ''-'' r of
             [a, b] \<Rightarrow> all_digits a \<and> all_digits b
               \<and> num_le (Num (- 20)) (number_of_str d) \<and> num_le (number_of_str d) (Num 20)
               \<and> num_le (Num 1) (number_of_str a) \<and> num_le (number_of_str b) (Num 255)
               \<and> num_le (number_of_str a) (number_of_str b)
           | _ \<Rightarrow> False)
      | _ \<Rightarrow> False)"

definition validFragPos :: "jsval \<Rightarrow> bool" where
  "validFragPos v \<longleftrightarrow> all_digits (arg_str v) \<and> num_le (Num 8) (to_number v) \<and> num_le (to_number v) (Num 1480)
     \<and> int_of (to_number v) mod 8 = 0"

text \<open>\<open>/^(?:a|x|(?:[nadspb]\d+)?(?:-|<)(?:[nadspb]\d+)?)$/\<close> without the bare signs.\<close>

definition range_end :: "string \<Rightarrow> bool" where
  "range_end s \<longleftrightarrow> s = [] \<or> hd s \<in> set ''nadspb'' \<and> all_digits (tl s)"

definition validRange :: "jsval \<Rightarrow> bool" where
  "validRange v =
     (let s = arg_str v; l = takeWhile (\<lambda>c. c \<notin> set ''-<'') s; r = dropWhile (\<lambda>c. c \<notin> set ''-<'') s
      in s \<noteq> ''-'' \<and> s \<noteq> ''<'' \<and> (s = ''a'' \<or> s = ''x'' \<or> r \<noteq> [] \<and> range_end l \<and> range_end (tl r)))"

definition validPosition :: "jsval \<Rightarrow> bool" where
  "validPosition v =
     (let s = arg_str v in 0 < length s \<and> length s \<le> 128 \<and> list_all (\<lambda>c. is_alnum c \<or> c \<in> set ''_+,-'') s)"

text \<open>Addresses with an optional prefix.\<close>

definition zoctet :: "string \<Rightarrow> bool" where
  "zoctet v \<longleftrightarrow> all_digits v \<and> num_le (number_of_str v) (Num 255)"

definition dotted_quad :: "string \<Rightarrow> bool" where
  "dotted_quad s = (let o4 = split_on CHR ''.'' s in length o4 = 4 \<and> list_all zoctet o4)"

text \<open>The 16-bit units of the groups; \<open>None\<close> when a group is not valid.\<close>

fun group_units :: "string list \<Rightarrow> nat option" where
  "group_units [] = Some 0"
| "group_units (g # gs) =
     (case group_units gs of
        None \<Rightarrow> None
      | Some n \<Rightarrow>
          if g = [] then Some n
          else if CHR ''.'' \<in> set g then (if gs = [] \<and> dotted_quad g then Some (n + 2) else None)
          else if length g \<le> 4 \<and> list_all is_xdigit g then Some (n + 1) else None)"

definition ipv6_text :: "string \<Rightarrow> bool" where
  "ipv6_text address =
     (let compressed = contains ''::'' address
      in list_all (\<lambda>c. is_xdigit c \<or> c \<in> set '':.'') address \<and> \<not> contains '':::'' address \<and> count_pairs address \<le> 1
         \<and> (compressed \<or> hd address \<noteq> CHR '':'' \<and> last address \<noteq> CHR '':'')
         \<and> (case group_units (split_on CHR '':'' address) of
              None \<Rightarrow> False | Some units \<Rightarrow> if compressed then units < 8 else units = 8))"

definition validIp :: "jsval \<Rightarrow> bool" where
  "validIp v =
     (let parts = split_on CHR ''/'' (arg_str v); address = hd parts;
          suffix = (case tl parts of [] \<Rightarrow> None | p # _ \<Rightarrow> Some p);
          in_bound = (\<lambda>n. case suffix of None \<Rightarrow> True | Some p \<Rightarrow> num_le (number_of_str p) (num_of_int n))
      in length parts \<le> 2 \<and> (case suffix of None \<Rightarrow> True | Some p \<Rightarrow> all_digits p)
         \<and> (if CHR '':'' \<in> set address then in_bound 128 \<and> ipv6_text address else dotted_quad address \<and> in_bound 32))"

section \<open>The candidate\<close>

text \<open>\<open>JSON.stringify\<close>: the text of a string, and of the other values; a property that is undefined is left out.\<close>

definition json_char :: "char \<Rightarrow> string" where
  "json_char c =
     (if c = CHR 0x22 then [CHR 0x5C, CHR 0x22] else if c = CHR 0x5C then [CHR 0x5C, CHR 0x5C]
      else if cc c = 8 then CHR 0x5C # ''b'' else if cc c = 9 then CHR 0x5C # ''t'' else if cc c = 10 then CHR 0x5C # ''n''
      else if cc c = 12 then CHR 0x5C # ''f'' else if cc c = 13 then CHR 0x5C # ''r''
      else if cc c < 32 then CHR 0x5C # ''u00'' @ (if cc c < 16 then ''0'' else []) @ hex (cc c) else [c])"

definition json_string :: "string \<Rightarrow> string" where
  "json_string s = CHR 0x22 # concat (map json_char s) @ [CHR 0x22]"

fun json_text :: "jsval \<Rightarrow> string" where
  "json_text JUndef = ''null''"
| "json_text JNull = ''null''"
| "json_text (JBool b) = (if b then ''true'' else ''false'')"
| "json_text (JNum n) = (if is_finite n then num_str n else ''null'')"
| "json_text (JStr s) = json_string s"
| "json_text (JArr xs) = ''['' @ join '','' (map json_text xs) @ '']''"
| "json_text (JObj ps) = ''{'' @ join '','' (map (\<lambda>(k, v). json_string k @ '':'' @ json_text v)
     (filter (\<lambda>(k, v). v \<noteq> JUndef) ps)) @ ''}''"

definition API_VERSION :: int where "API_VERSION = 1"
definition SCHEMA_VERSION :: int where "SCHEMA_VERSION = 2"
definition MAX_CANDIDATE_BYTES :: nat where "MAX_CANDIDATE_BYTES = 128 * 1024"

definition section_options :: "jsval \<Rightarrow> (string \<times> jsval) list" where
  "section_options section =
     filter (\<lambda>(k, v). \<not> starts_with ''.'' k \<and> \<not> is_array v \<and> \<not> nullish v) (properties section)"

definition section_lists :: "jsval \<Rightarrow> (string \<times> jsval) list" where
  "section_lists section =
     map (\<lambda>(k, v). (k, JArr (filter (\<lambda>x. x \<noteq> JStr []) (elements v))))
       (filter (\<lambda>(k, v). \<not> starts_with ''.'' k \<and> is_array v) (properties section))"

definition candidate_section :: "jsval \<Rightarrow> jsval" where
  "candidate_section section =
     JObj [(''name'', field section ''.name''), (''type'', field section ''.type''),
       (''options'', JObj (section_options section)), (''lists'', JObj (section_lists section))]"

definition candidateFromSections :: "jsval list \<Rightarrow> string + jsval" where
  "candidateFromSections source =
     (let result = JObj [(''api_version'', JNum (num_of_int API_VERSION)), (''schema_version'', JNum (num_of_int SCHEMA_VERSION)),
            (''sections'', JArr (map candidate_section source))]
      in if MAX_CANDIDATE_BYTES < length (json_text result) then Inl ''The configuration exceeds the 128 KiB limit.''
         else Inr result)"

section \<open>Answers of the service\<close>

record zerror =
  ze_message :: string
  ze_code :: jsval
  ze_section :: jsval
  ze_option :: jsval
  ze_step :: jsval
  ze_line :: jsnum

definition version_error :: zerror where
  "version_error = \<lparr>ze_message = ''This LuCI application requires Zapret2 API v1 and UCI schema v2.'',
     ze_code = JStr ''incompatible_api'', ze_section = JUndef, ze_option = JUndef, ze_step = JUndef, ze_line = NaN\<rparr>"

definition unwrap :: "jsval \<Rightarrow> zerror + jsval" where
  "unwrap reply =
     (if \<not> truthy reply \<or> field reply ''api_version'' \<noteq> JNum (num_of_int API_VERSION)
          \<or> field reply ''schema_version'' \<noteq> JNum (num_of_int SCHEMA_VERSION) then Inl version_error
      else if field reply ''ok'' \<noteq> JBool True
      then let detail = object_or_empty (field reply ''error'')
           in Inl \<lparr>ze_message = to_str (or_else (field detail ''message'') (JStr ''Zapret2 returned an invalid response.'')),
                ze_code = or_else (field detail ''code'') (JStr ''rpc_error''), ze_section = or_else (field detail ''section'') (JStr []),
                ze_option = or_else (field detail ''option'') (JStr []), ze_step = or_else (field detail ''step'') (JStr []),
                ze_line = to_number (or_else (field detail ''line'') (JNum (Num 0)))\<rparr>
      else Inr (object_or_empty (field reply ''data'')))"

text \<open>The text of an error, with its place; \<open>line %d\<close> prints the integer part.\<close>

definition error_places :: "zerror \<Rightarrow> string list" where
  "error_places e =
     (if truthy (ze_section e) then [''section '' @ to_str (ze_section e)] else [])
     @ (if truthy (ze_option e) then [''option '' @ to_str (ze_option e)] else [])
     @ (if truthy (ze_step e) then [''step '' @ to_str (ze_step e)] else [])
     @ (if truthy (JNum (ze_line e)) then [''line '' @ num_str (num_of_int (int_of (ze_line e)))] else [])"

definition errorText :: "zerror option \<Rightarrow> string" where
  "errorText error =
     (case error of
        None \<Rightarrow> ''Unknown error''
      | Some e \<Rightarrow> (if ze_message e \<noteq> [] then ze_message e else ''Error'')
          @ (if error_places e \<noteq> [] then CHR 0x0A # ''('' @ join '', '' (error_places e) @ '')'' else []))"

definition counter :: "jsval \<Rightarrow> string \<Rightarrow> jsnum" where
  "counter d key =
     (let v = and_then (and_then d (field d ''counters'')) (field (field d ''counters'') key);
          n = to_number (field v ''packets'')
      in if truthy v \<and> truthy (JNum n) then n else Num 0)"

definition warning_texts :: "jsval \<Rightarrow> string list" where
  "warning_texts diagnostics =
     map (\<lambda>item. to_str (or_else (field item ''message'') (JStr (to_str item))))
       (elements (or_else (and_then diagnostics (field diagnostics ''warnings'')) (JArr [])))"

section \<open>Labels of the fields\<close>

definition parameter_labels :: "(string \<times> string) list" where
  "parameter_labels = [
     (''value'', ''Payload values''), (''range'', ''Range expression''), (''direction'', ''Direction''),
     (''delay'', ''Delay (milliseconds)''), (''repeats'', ''Repeats''), (''spell'', ''HTTP Host spelling''),
     (''size'', ''Window size''), (''scale'', ''Window scale''), (''forced_cutoff'', ''Forced cutoff payloads''),
     (''blob'', ''Blob or clone ID''), (''fallback'', ''Clone fallback blob''),
     (''sni_del_ext'', ''Delete the SNI extension''), (''sni_del'', ''Delete existing SNI names''),
     (''sni_first'', ''Insert the SNI name first''), (''sni_last'', ''Append the SNI name last''),
     (''optional'', ''Skip if optional data is unavailable''), (''nodrop'', ''Keep the original packet''),
     (''nofake1'', ''Skip fake packet 1''), (''nofake2'', ''Skip fake packet 2''),
     (''nofake3'', ''Skip fake packet 3''), (''nofake4'', ''Skip fake packet 4''), (''rstack'', ''Send RST with ACK''),
     (''sni_snt'', ''Existing SNI name type''), (''sni_snt_new'', ''New SNI name type''),
     (''tls_mod'', ''TLS modifications''), (''tls_sni'', ''TLS SNI hostname''),
     (''position'', ''Position expression''), (''host'', ''Host template''),
     (''disorder_after'', ''Disorder-after position''), (''seqovl_pattern'', ''Sequence overlap pattern''),
     (''pattern'', ''Fake packet pattern''), (''seqovl'', ''Sequence overlap''), (''byte'', ''OOB byte''),
     (''urp'', ''OOB urgent pointer''), (''increment'', ''UDP length increment''), (''min'', ''Minimum UDP length''),
     (''max'', ''Maximum UDP length''), (''pattern_offset'', ''Pattern offset''), (''dn'', ''DHT directory number''),
     (''mode'', ''SYN/ACK split mode''), (''ip_ttl'', ''IPv4 TTL''), (''ip6_ttl'', ''IPv6 Hop Limit''),
     (''ip_autottl'', ''IPv4 automatic TTL''), (''ip6_autottl'', ''IPv6 automatic Hop Limit''),
     (''tcp_seq'', ''TCP sequence offset''), (''tcp_ack'', ''TCP acknowledgement offset''),
     (''tcp_ts'', ''TCP timestamp offset''), (''tcp_ts_up'', ''Move TCP timestamp first''),
     (''tcp_nop_del'', ''Remove TCP NOP options''), (''badsum'', ''Corrupt the transport checksum''),
     (''tcp_md5'', ''Add a TCP MD5 option''), (''ip_id'', ''IPv4 IP ID policy''),
     (''ip_id_conn'', ''Keep IP ID sequence between packets''), (''ipfrag'', ''Enable IP fragmentation''),
     (''ipfrag_disorder'', ''Reverse fragment order''), (''ipfrag_next'', ''Next-header value''),
     (''ipfrag_pos_tcp'', ''TCP fragment position''), (''ipfrag_pos_udp'', ''UDP fragment position''),
     (''ipfrag_pos_icmp'', ''ICMP fragment position''), (''ipfrag_pos'', ''IP fragment position'')]"

definition parameterLabel :: "string \<Rightarrow> string" where
  "parameterLabel name = (case map_of parameter_labels name of Some l \<Rightarrow> l | None \<Rightarrow> name)"

definition listFields :: "string list" where
  "listFields = [''value'', ''forced_cutoff'', ''tls_mod'']"

definition flagFields :: "string list" where
  "flagFields = [
     ''sni_del_ext'', ''sni_del'', ''sni_first'', ''sni_last'', ''optional'', ''nodrop'', ''nofake1'', ''nofake2'',
     ''nofake3'', ''nofake4'', ''rstack'', ''tcp_ts_up'', ''tcp_nop_del'', ''badsum'', ''tcp_md5'', ''ip_id_conn'',
     ''ipfrag'', ''ipfrag_disorder'']"

definition parameter_names :: "string list" where
  "parameter_names = [
     ''value'', ''range'', ''direction'', ''delay'', ''repeats'', ''spell'', ''size'', ''scale'', ''forced_cutoff'',
     ''blob'', ''fallback'', ''sni_del_ext'', ''sni_del'', ''sni_first'', ''sni_last'', ''optional'', ''nodrop'',
     ''nofake1'', ''nofake2'', ''nofake3'', ''nofake4'', ''rstack'', ''sni_snt'', ''sni_snt_new'', ''tls_mod'',
     ''tls_sni'', ''position'', ''host'', ''disorder_after'', ''seqovl_pattern'', ''pattern'', ''seqovl'', ''byte'',
     ''urp'', ''increment'', ''min'', ''max'', ''pattern_offset'', ''dn'', ''mode'', ''ip_ttl'', ''ip6_ttl'',
     ''ip_autottl'', ''ip6_autottl'', ''tcp_seq'', ''tcp_ack'', ''tcp_ts'', ''tcp_ts_up'', ''tcp_nop_del'', ''badsum'',
     ''tcp_md5'', ''ip_id'', ''ip_id_conn'', ''ipfrag'', ''ipfrag_disorder'', ''ipfrag_next'', ''ipfrag_pos_tcp'',
     ''ipfrag_pos_udp'', ''ipfrag_pos_icmp'', ''ipfrag_pos'']"

definition parameterColumns :: "(string \<times> string \<times> string option) list" where
  "parameterColumns =
     map (\<lambda>name. (name, parameterLabel name,
       if name \<in> set listFields then Some ''list'' else if name \<in> set flagFields then Some ''flag'' else None)) parameter_names"

section \<open>The state of the service\<close>

text \<open>The badge and the buttons of the configuration page (\<open>view/zapret2/v4r30/config.js\<close>).\<close>

definition serviceState :: "jsval \<Rightarrow> string \<times> string" where
  "serviceState status =
     (if \<not> truthy status then (''Unknown'', ''notice'')
      else if truthy (field status ''running'') then (''Running'', ''success'')
      else if truthy (field status ''enabled'') then (''Stopped unexpectedly'', ''danger'') else (''Disabled'', ''notice''))"

definition start_disabled :: "bool \<Rightarrow> jsval \<Rightarrow> bool" where
  "start_disabled serviceBusy status \<longleftrightarrow> serviceBusy \<or> \<not> truthy status \<or> \<not> truthy (field status ''enabled'')
     \<or> truthy (field status ''running'') \<or> field status ''config_state'' = JStr ''incompatible''"

definition reload_disabled :: "bool \<Rightarrow> jsval \<Rightarrow> bool" where
  "reload_disabled serviceBusy status \<longleftrightarrow> serviceBusy \<or> \<not> truthy status \<or> \<not> truthy (field status ''enabled'')
     \<or> field status ''config_state'' = JStr ''incompatible''"

definition stop_disabled :: "bool \<Rightarrow> jsval \<Rightarrow> bool" where
  "stop_disabled serviceBusy status \<longleftrightarrow> serviceBusy \<or> \<not> truthy status
     \<or> \<not> truthy (field status ''running'') \<and> \<not> truthy (field status ''table_present'')"

end
