(* ===== verification/Zapret_Profiles.thy ===== *)
theory Zapret_Profiles
  imports Zapret Comparators
begin

text \<open>
  The profiles of Zapret2 and their ordered steps (\<open>view/zapret2/v4r30/profiles.js\<close>).  Parameters: the
  store, \<open>collate\<close> for \<open>localeCompare\<close>, \<open>toArray\<close> for \<open>L.toArray\<close>, and the clock.
\<close>

section \<open>Labels and order\<close>

definition step_labels :: "(string \<times> string) list" where
  "step_labels = [
     (''payload'', ''Payload filter''), (''out_range'', ''Outbound range''), (''in_range'', ''Inbound range''),
     (''drop'', ''Drop packet''), (''send'', ''Send packet''), (''pktmod'', ''Modify packet''),
     (''rst'', ''TCP reset''), (''http_hostcase'', ''HTTP Host header case''),
     (''http_domcase'', ''HTTP domain case''), (''http_methodeol'', ''HTTP method line break''),
     (''http_unixeol'', ''HTTP Unix line endings''), (''wsize'', ''SYN/ACK window size''),
     (''wssize'', ''Flow window size''), (''syndata'', ''SYN payload''),
     (''tls_client_hello_clone'', ''Clone TLS ClientHello''), (''fake'', ''Fake packet''),
     (''multisplit'', ''Multiple split''), (''multidisorder'', ''Multiple disorder''),
     (''multidisorder_legacy'', ''Legacy multiple disorder''), (''fakedsplit'', ''Fake split''),
     (''fakeddisorder'', ''Fake disorder''), (''hostfakesplit'', ''Fake host split''), (''tcpseg'', ''TCP segment''),
     (''oob'', ''TCP out-of-band''), (''udplen'', ''UDP length''), (''dht_dn'', ''DHT directory number''),
     (''synack'', ''Synthetic SYN/ACK''), (''synack_split'', ''Split SYN/ACK'')]"

definition label :: "jsval \<Rightarrow> string" where
  "label type = (case map_of step_labels (to_str type) of Some l \<Rightarrow> l
     | None \<Rightarrow> to_str (or_else type (JStr ''Unknown step'')))"

definition section_order :: "jsval \<Rightarrow> jsnum" where
  "section_order section =
     (let v = to_number (or_else (field section ''order'') (JNum (Num 100))) in if v = NaN then Num 100 else v)"

definition profileId :: "jsval \<Rightarrow> jsval" where
  "profileId section = and_then section (or_else (field section ''id'') (field section ''.name''))"

text \<open>The sign of a difference; the difference of equal infinities is not a number, which counts as 0.\<close>

definition num_sign :: "jsnum \<Rightarrow> jsnum \<Rightarrow> int" where
  "num_sign a b = (if num_less a b then - 1 else if num_less b a then 1 else 0)"

definition compare_sections :: "(string \<Rightarrow> string \<Rightarrow> int) \<Rightarrow> jsval \<Rightarrow> jsval \<Rightarrow> int" where
  "compare_sections collate a b =
     or_zero (num_sign (section_order a) (section_order b)) (collate (to_str (field a ''.name'')) (to_str (field b ''.name'')))"

definition of_profile :: "jsval \<Rightarrow> jsval \<Rightarrow> bool" where
  "of_profile profile section \<longleftrightarrow> nullish profile \<or> field section ''profile'' = profile"

definition sorted_sections :: "'u route_uci \<Rightarrow> (string \<Rightarrow> string \<Rightarrow> int) \<Rightarrow> 'u \<Rightarrow> string \<Rightarrow> jsval \<Rightarrow> jsval list" where
  "sorted_sections R collate u type profile =
     sort_by (compare_sections collate) (filter (of_profile profile) (ru_sections R u ''zapret2'' type))"

definition add_ten :: "jsnum \<Rightarrow> jsnum" where
  "add_ten n = (case n of Num q \<Rightarrow> Num (min 9999 (q + 10)) | Inf True \<Rightarrow> Num 9999 | _ \<Rightarrow> n)"

definition nextOrder :: "'u route_uci \<Rightarrow> (string \<Rightarrow> string \<Rightarrow> int) \<Rightarrow> 'u \<Rightarrow> string \<Rightarrow> jsval \<Rightarrow> jsnum" where
  "nextOrder R collate u type profile =
     (let items = sorted_sections R collate u type profile
      in if items \<noteq> [] then add_ten (section_order (last items)) else Num 10)"

section \<open>New names\<close>

definition name_char :: "char \<Rightarrow> char" where
  "name_char c = (if is_lower c \<or> is_digit c \<or> c = CHR ''_'' then c else CHR ''_'')"

definition seed_name :: "string \<Rightarrow> int \<Rightarrow> string" where
  "seed_name prefix seed = take 32 (map name_char (lower (prefix @ ''_'' @ base_str 36 seed)))"

text \<open>The loop ends when a name is free; it is a partial function.\<close>

partial_function (option) uniqueId :: "'u route_uci \<Rightarrow> 'u \<Rightarrow> string \<Rightarrow> int \<Rightarrow> string option" where
  "uniqueId R u prefix seed =
     (if truthy (au_get (ru_base R) u ''zapret2'' (seed_name prefix seed)) then uniqueId R u prefix (seed + 1)
      else Some (seed_name prefix seed))"

section \<open>The state of the page\<close>

definition notValidatedMessage :: string where
  "notValidatedMessage = ''Changes have not been validated. Saving validates them before writing.''"

record 'u zpage =
  zp_store :: 'u
  zp_active :: jsval
  zp_status :: "string \<times> string"
  zp_errors :: "string list"

text \<open>\<open>parse\<close> is the error of reading the form, when there is one; a callback can throw, or never return.\<close>

definition mutate :: "string option \<Rightarrow> ('u zpage \<Rightarrow> (string + 'u zpage) option) \<Rightarrow> 'u zpage \<Rightarrow> 'u zpage option" where
  "mutate parse callback st =
     (let notify = (\<lambda>e. st\<lparr>zp_errors := zp_errors st @ [e]\<rparr>)
      in case parse of
           Some e \<Rightarrow> Some (notify e)
         | None \<Rightarrow> map_option (\<lambda>r. case r of Inl e \<Rightarrow> notify e
             | Inr st' \<Rightarrow> st'\<lparr>zp_status := (''notice'', notValidatedMessage)\<rparr>) (callback st))"

definition zset :: "'u route_uci \<Rightarrow> string \<Rightarrow> (string \<times> jsval) list \<Rightarrow> 'u \<Rightarrow> 'u" where
  "zset R = ru_set R ''zapret2''"

definition zadd :: "'u route_uci \<Rightarrow> string \<Rightarrow> string \<Rightarrow> 'u \<Rightarrow> 'u" where
  "zadd R type n u = uci_add (au_base (ru_base R)) u ''zapret2'' type n"

definition toggleProfile :: "'u route_uci \<Rightarrow> string option \<Rightarrow> string \<Rightarrow> bool \<Rightarrow> 'u zpage \<Rightarrow> 'u zpage option" where
  "toggleProfile R parse sectionId enabled =
     mutate parse (\<lambda>st. Some (Inr (st\<lparr>zp_store :=
       zset R sectionId [(''enabled'', JStr (if enabled then ''1'' else ''0''))] (zp_store st)\<rparr>)))"

definition addStep ::
    "'u route_uci \<Rightarrow> (string \<Rightarrow> string \<Rightarrow> int) \<Rightarrow> int \<Rightarrow> string \<Rightarrow> string \<Rightarrow> (string \<times> jsval) list \<Rightarrow> 'u \<Rightarrow> (string \<times> 'u) option" where
  "addStep R collate now profile type vals u =
     (case uniqueId R u type now of
        None \<Rightarrow> None
      | Some sid \<Rightarrow>
          let u = zset R sid [(''id'', JStr sid), (''profile'', JStr profile)] (zadd R ''step'' sid u);
              u = zset R sid [(''order'', JStr (num_str (nextOrder R collate u ''step'' (JStr profile))))] u
          in Some (sid, zset R sid ((''type'', JStr type) # vals) u))"

text \<open>The options and the two steps of a template.\<close>

definition preset_options :: "string \<Rightarrow> (string \<times> jsval) list" where
  "preset_options kind =
     (if kind = ''blank'' then [(''name'', JStr ''New profile''), (''enabled'', JStr ''0'')]
      else if kind = ''http'' then [(''name'', JStr ''HTTP conservative''), (''enabled'', JStr ''1''),
        (''tcp_port'', JArr [JStr ''80'']), (''l7'', JArr [JStr ''http''])]
      else if kind = ''tls'' then [(''name'', JStr ''TLS conservative''), (''enabled'', JStr ''1''),
        (''tcp_port'', JArr [JStr ''443'']), (''l7'', JArr [JStr ''tls''])]
      else [(''name'', JStr ''QUIC standard''), (''enabled'', JStr ''0''),
        (''udp_port'', JArr [JStr ''443'']), (''l7'', JArr [JStr ''quic''])])"

definition preset_steps :: "string \<Rightarrow> (string \<times> (string \<times> jsval) list) list" where
  "preset_steps kind =
     (if kind = ''blank'' then []
      else if kind = ''http'' then [(''payload'', [(''value'', JArr [JStr ''http_req''])]), (''multisplit'', [(''position'', JStr ''1'')])]
      else if kind = ''tls'' then [(''payload'', [(''value'', JArr [JStr ''tls_client_hello''])]), (''multisplit'', [(''position'', JStr ''1'')])]
      else [(''payload'', [(''value'', JArr [JStr ''quic_initial''])]),
        (''fake'', [(''blob'', JStr ''fake_default_quic''), (''repeats'', JStr ''6'')])])"

text \<open>Each step has its own reading of the clock.\<close>

fun add_steps ::
    "'u route_uci \<Rightarrow> (string \<Rightarrow> string \<Rightarrow> int) \<Rightarrow> string \<Rightarrow> (int \<times> string \<times> (string \<times> jsval) list) list \<Rightarrow> 'u \<Rightarrow> 'u option" where
  "add_steps R collate profile [] u = Some u"
| "add_steps R collate profile ((now, type, vals) # steps) u =
     (case addStep R collate now profile type vals u of None \<Rightarrow> None | Some (sid, u) \<Rightarrow> add_steps R collate profile steps u)"

definition limit_reached :: "zinfo \<Rightarrow> string \<Rightarrow> int \<Rightarrow> nat \<Rightarrow> bool" where
  "limit_reached info name usual n \<longleftrightarrow>
     num_le (to_number (or_else (field (zi_limits info) name) (JNum (num_of_int usual)))) (num_of_int (int n))"

definition addPreset ::
    "'u route_uci \<Rightarrow> (string \<Rightarrow> string \<Rightarrow> int) \<Rightarrow> zinfo \<Rightarrow> string option \<Rightarrow> int \<Rightarrow> int \<times> int \<Rightarrow> string \<Rightarrow> 'u zpage \<Rightarrow> 'u zpage option" where
  "addPreset R collate info parse now nows kind =
     mutate parse (\<lambda>st.
       if limit_reached info ''profiles'' 8 (length (sorted_sections R collate (zp_store st) ''profile'' JUndef))
       then Some (Inl ''The maximum number of Profiles has been reached.'')
       else case uniqueId R (zp_store st) kind now of
              None \<Rightarrow> None
            | Some sid \<Rightarrow>
                let u = zset R sid [(''id'', JStr sid)] (zadd R ''profile'' sid (zp_store st));
                    u = zset R sid [(''order'', JStr (num_str (nextOrder R collate u ''profile'' JUndef)))] u;
                    u = zset R sid ([(''family'', JStr ''dual''), (''queue_mode'', JStr ''initial'')] @ preset_options kind) u
                in map_option (\<lambda>u. Inr (st\<lparr>zp_store := u, zp_active := JStr sid\<rparr>))
                     (add_steps R collate sid (zip [fst nows, snd nows] (preset_steps kind)) u))"

definition addStepDialog ::
    "'u route_uci \<Rightarrow> (string \<Rightarrow> string \<Rightarrow> int) \<Rightarrow> zinfo \<Rightarrow> string \<Rightarrow> 'u \<Rightarrow> string option" where
  "addStepDialog R collate info profile u =
     (if \<not> truthy (au_get (ru_base R) u ''zapret2'' profile) then Some ''Create a Profile before adding a step.''
      else if limit_reached info ''steps'' 128 (length (sorted_sections R collate u ''step'' JUndef))
        \<or> limit_reached info ''profile_steps'' 32 (length (sorted_sections R collate u ''step'' (JStr profile)))
      then Some ''The step limit has been reached.'' else None)"

section \<open>Moving and removing\<close>

definition name_index :: "string \<Rightarrow> jsval list \<Rightarrow> nat option" where
  "name_index sectionId items =
     (case filter (\<lambda>i. field (items ! i) ''.name'' = JStr sectionId) [0..<length items] of
        [] \<Rightarrow> None | is \<Rightarrow> Some (last is))"

definition set_orders :: "'u route_uci \<Rightarrow> jsval list \<Rightarrow> 'u \<Rightarrow> 'u" where
  "set_orders R items u =
     foldl (\<lambda>u (i, item). zset R (to_str (field item ''.name'')) [(''order'', JStr (dec ((int i + 1) * 10)))] u)
       u (zip [0..<length items] items)"

definition move_item :: "'u route_uci \<Rightarrow> (string \<Rightarrow> string \<Rightarrow> int) \<Rightarrow> string \<Rightarrow> string \<Rightarrow> int \<Rightarrow> 'u \<Rightarrow> 'u" where
  "move_item R collate sectionId type direction u =
     (let current = au_get (ru_base R) u ''zapret2'' sectionId;
          items = sorted_sections R collate u type
            (if type = ''step'' then and_then current (field current ''profile'') else JNull)
      in case name_index sectionId items of
           None \<Rightarrow> u
         | Some index \<Rightarrow>
             let target = int index + direction; others = remove_at index items
             in if target < 0 \<or> int (length items) \<le> target then u
                else set_orders R (take (nat target) others @ [current] @ drop (nat target) others) u)"

definition move_z ::
    "'u route_uci \<Rightarrow> (string \<Rightarrow> string \<Rightarrow> int) \<Rightarrow> string option \<Rightarrow> string \<Rightarrow> string \<Rightarrow> int \<Rightarrow> 'u zpage \<Rightarrow> 'u zpage option" where
  "move_z R collate parse sectionId type direction =
     mutate parse (\<lambda>st. Some (Inr (st\<lparr>zp_store := move_item R collate sectionId type direction (zp_store st)\<rparr>)))"

definition first_index :: "string \<Rightarrow> jsval list \<Rightarrow> int" where
  "first_index sid items =
     (case find (\<lambda>i. field (items ! i) ''.name'' = JStr sid) [0..<length items] of None \<Rightarrow> - 1 | Some i \<Rightarrow> int i)"

definition item_at :: "jsval list \<Rightarrow> int \<Rightarrow> jsval" where
  "item_at items i = (if 0 \<le> i \<and> i < int (length items) then items ! nat i else JUndef)"

definition remove_profile :: "'u route_uci \<Rightarrow> (string \<Rightarrow> string \<Rightarrow> int) \<Rightarrow> string \<Rightarrow> 'u \<Rightarrow> 'u" where
  "remove_profile R collate sid u =
     au_remove (ru_base R) ''zapret2'' sid
       (foldl (\<lambda>u' step. au_remove (ru_base R) ''zapret2'' (to_str (field step ''.name'')) u') u
          (sorted_sections R collate u ''step'' (profileId (au_get (ru_base R) u ''zapret2'' sid))))"

definition removeProfile ::
    "'u route_uci \<Rightarrow> (string \<Rightarrow> string \<Rightarrow> int) \<Rightarrow> bool \<Rightarrow> string option \<Rightarrow> string \<Rightarrow> 'u zpage \<Rightarrow> 'u zpage option" where
  "removeProfile R collate confirmed parse sid st =
     (if \<not> confirmed then Some st
      else mutate parse (\<lambda>st.
        let profiles = sorted_sections R collate (zp_store st) ''profile'' JUndef; index = first_index sid profiles;
            following = or_else (item_at profiles (index + 1)) (item_at profiles (index - 1))
        in Some (Inr (st\<lparr>zp_store := remove_profile R collate sid (zp_store st),
             zp_active := (if zp_active st = JStr sid then (if truthy following then profileId following else JNull)
                           else zp_active st)\<rparr>))) st)"

definition removeStep :: "'u route_uci \<Rightarrow> bool \<Rightarrow> string option \<Rightarrow> string \<Rightarrow> 'u zpage \<Rightarrow> 'u zpage option" where
  "removeStep R confirmed parse sid st =
     (if \<not> confirmed then Some st
      else mutate parse (\<lambda>st. Some (Inr (st\<lparr>zp_store := au_remove (ru_base R) ''zapret2'' sid (zp_store st)\<rparr>))) st)"

text \<open>The profile that is shown: the active one, or the first.\<close>

definition active_profile :: "jsval list \<Rightarrow> jsval \<Rightarrow> jsval" where
  "active_profile profiles active =
     (if list_ex (\<lambda>p. field p ''.name'' = active) profiles then active
      else case profiles of [] \<Rightarrow> JNull | p # _ \<Rightarrow> field p ''.name'')"

section \<open>Validation\<close>

definition validation_status :: "jsval \<Rightarrow> string \<times> string" where
  "validation_status result =
     (let diagnostics = field result ''diagnostics'';
          warnings = elements (or_else (and_then diagnostics (field diagnostics ''warnings'')) (JArr []))
      in if warnings \<noteq> []
         then (''warning'', ''Validation passed with '' @ dec (int (length warnings)) @ '' warnings. Changes have not been saved or applied.'')
         else (''success'', ''Validation passed. Changes have not been saved or applied.''))"

definition validateCurrentChanges :: "string + jsval \<Rightarrow> 'u zpage \<Rightarrow> 'u zpage" where
  "validateCurrentChanges answer st =
     (case answer of
        Inl e \<Rightarrow> st\<lparr>zp_status := (''error'', ''Validation failed: '' @ (if e \<noteq> [] then e else ''Unknown error'')),
                   zp_errors := zp_errors st @ [e]\<rparr>
      | Inr result \<Rightarrow> st\<lparr>zp_status := validation_status result\<rparr>)"

section \<open>Summaries\<close>

definition dot_between :: string where "dot_between = '' '' @ [CHR 0xC2, CHR 0xB7] @ '' ''"
definition right_arrow :: string where "right_arrow = '' '' @ [CHR 0xE2, CHR 0x86, CHR 0x92] @ '' ''"
definition minus_sign :: string where "minus_sign = [CHR 0xE2, CHR 0x88, CHR 0x92]"

definition join_values :: "string \<Rightarrow> jsval list \<Rightarrow> string" where
  "join_values sep xs = join sep (map (\<lambda>x. if nullish x then [] else to_str x) xs)"

definition traffic_part :: "(jsval \<Rightarrow> jsval list) \<Rightarrow> jsval \<Rightarrow> string \<times> string \<Rightarrow> string list" where
  "traffic_part toArray profile = (\<lambda>(option, text).
     let xs = toArray (field profile option) in if xs \<noteq> [] then [text @ '' '' @ join_values '','' xs] else [])"

definition profileTraffic :: "(jsval \<Rightarrow> jsval list) \<Rightarrow> jsval \<Rightarrow> string" where
  "profileTraffic toArray profile =
     join dot_between ((if field profile ''family'' = JStr ''ipv4'' then ''IPv4''
        else if field profile ''family'' = JStr ''ipv6'' then ''IPv6'' else ''IPv4 + IPv6'')
       # concat (map (traffic_part toArray profile)
           [(''tcp_port'', ''TCP''), (''udp_port'', ''UDP''), (''icmp'', ''ICMP''), (''ip_protocol'', ''IP protocols''), (''l7'', ''L7'')]))"

definition filterSummary :: "(jsval \<Rightarrow> jsval list) \<Rightarrow> jsval \<Rightarrow> string" where
  "filterSummary toArray profile =
     (let count = (\<lambda>a b. length (toArray (field profile a)) + length (toArray (field profile b)));
          domainIn = count ''include_domain'' ''domain_list''; domainOut = count ''exclude_domain'' ''domain_exclude_list'';
          ipIn = count ''include_ip'' ''ip_list''; ipOut = count ''exclude_ip'' ''ip_exclude_list'';
          text = (\<lambda>name a b. name @ '' +'' @ dec (int a) @ '' / '' @ minus_sign @ dec (int b));
          parts = (if domainIn \<noteq> 0 \<or> domainOut \<noteq> 0 then [text ''Domains'' domainIn domainOut] else [])
            @ (if ipIn \<noteq> 0 \<or> ipOut \<noteq> 0 then [text ''IPs'' ipIn ipOut] else [])
            @ (if field profile ''autohostlist'' = JStr ''1'' then [''Automatic hostlist''] else [])
      in if parts \<noteq> [] then join dot_between parts else ''No domain or IP filter'')"

definition pipelineOverview :: "'u route_uci \<Rightarrow> (string \<Rightarrow> string \<Rightarrow> int) \<Rightarrow> 'u \<Rightarrow> jsval \<Rightarrow> string" where
  "pipelineOverview R collate u profile =
     (let values = map (\<lambda>step. label (field step ''type'')) (sorted_sections R collate u ''step'' (profileId profile))
      in if values = [] then ''No processing steps''
         else dec (int (length values)) @ '' steps'' @ dot_between @ join right_arrow (take 3 values)
              @ (if 3 < length values then '' '' @ ellipsis else []))"

record step_context =
  sc_payload :: "jsval list"
  sc_outRange :: string
  sc_inRange :: string

definition context_step :: "(jsval \<Rightarrow> jsval list) \<Rightarrow> step_context \<Rightarrow> jsval \<Rightarrow> step_context" where
  "context_step toArray c item =
     (if field item ''type'' = JStr ''payload'' then c\<lparr>sc_payload := toArray (field item ''value'')\<rparr>
      else if field item ''type'' = JStr ''out_range'' then c\<lparr>sc_outRange := or_text (field item ''range'')\<rparr>
      else if field item ''type'' = JStr ''in_range'' then c\<lparr>sc_inRange := or_text (field item ''range'')\<rparr> else c)"

definition stepContext ::
    "'u route_uci \<Rightarrow> (string \<Rightarrow> string \<Rightarrow> int) \<Rightarrow> (jsval \<Rightarrow> jsval list) \<Rightarrow> 'u \<Rightarrow> jsval \<Rightarrow> step_context" where
  "stepContext R collate toArray u step =
     foldl (context_step toArray) \<lparr>sc_payload = [], sc_outRange = [], sc_inRange = []\<rparr>
       (takeWhile (\<lambda>item. field item ''.name'' \<noteq> and_then step (field step ''.name''))
         (sorted_sections R collate u ''step'' (and_then step (field step ''profile''))))"

definition is_condition :: "jsval \<Rightarrow> bool" where
  "is_condition type \<longleftrightarrow> type = JStr ''payload'' \<or> type = JStr ''out_range'' \<or> type = JStr ''in_range''"

definition stepContextSummary ::
    "'u route_uci \<Rightarrow> (string \<Rightarrow> string \<Rightarrow> int) \<Rightarrow> (jsval \<Rightarrow> jsval list) \<Rightarrow> 'u \<Rightarrow> jsval \<Rightarrow> string" where
  "stepContextSummary R collate toArray u step =
     (if is_condition (field step ''type'') then ''Updates following steps''
      else let c = stepContext R collate toArray u step;
               parts = (if sc_payload c \<noteq> [] then [''Payload='' @ join_values '','' (sc_payload c)] else [])
                 @ (if sc_outRange c \<noteq> [] then [''out='' @ sc_outRange c] else [])
                 @ (if sc_inRange c \<noteq> [] then [''in='' @ sc_inRange c] else [])
           in if parts \<noteq> [] then join dot_between parts else em_dash)"

definition stepParameterValue :: "zinfo \<Rightarrow> (jsval \<Rightarrow> jsval list) \<Rightarrow> jsval \<Rightarrow> string \<times> string \<times> string option \<Rightarrow> string" where
  "stepParameterValue info toArray step = (\<lambda>(key, title, kind).
     let type = field step ''type'';
         supported = (if key = ''value'' then type = JStr ''payload''
           else if key = ''range'' then type = JStr ''out_range'' \<or> type = JStr ''in_range''
           else zsupports info (to_str type) key);
         v = (if kind = Some ''list'' then JStr (join_values '', '' (toArray (field step key))) else field step key)
     in if \<not> supported then em_dash
        else if kind = Some ''flag'' then (if field step key = JStr ''1'' then ''Yes'' else ''No'')
        else if nullish v \<or> v = JStr [] then em_dash else to_str v)"

definition stepSummary :: "(jsval \<Rightarrow> jsval list) \<Rightarrow> jsval \<Rightarrow> string" where
  "stepSummary toArray step =
     (let type = field step ''type''; or_missing = (\<lambda>s. if s \<noteq> [] then s else ''Not configured'')
      in if type = JStr ''payload'' then or_missing (join_values '', '' (toArray (field step ''value'')))
         else if type = JStr ''out_range'' \<or> type = JStr ''in_range'' then or_missing (or_text (field step ''range''))
         else let parts = map (\<lambda>key. key @ ''='' @ to_str (field step key))
                (filter (\<lambda>key. truthy (field step key))
                  [''direction'', ''position'', ''blob'', ''host'', ''repeats'', ''increment'', ''mode''])
              in if parts \<noteq> [] then join dot_between parts else ''Function defaults'')"

definition supporting :: "zinfo \<Rightarrow> string \<Rightarrow> jsval list" where
  "supporting info option = filter (\<lambda>type. zsupports info (to_str type) option) (zi_actions info)"

end
