(* ===== verification/Zapret_Properties.thy ===== *)
theory Zapret_Properties
  imports Zapret_Profiles Routing_Properties
begin

text \<open>
  Properties of Zapret2: new names are found and free, moving an item of an ordered list moves exactly
  this item, deleting a profile removes exactly the profile and its steps, and the marks with one bit.
\<close>

section \<open>New names\<close>

lemma name_char_base: "name_char (lower_char c) = c" if "is_lower c \<or> is_digit c"
  using that by (auto simp: name_char_def lower_char_def is_lower_def is_upper_def is_digit_def)

lemma base36_chars: "0 \<le> n \<Longrightarrow> c \<in> set (base_str 36 n) \<Longrightarrow> is_lower c \<or> is_digit c"
proof -
  assume n: "0 \<le> n" and c: "c \<in> set (base_str 36 n)"
  have "\<forall>c \<in> set (base_str 36 n). is_lower c \<or> is_digit c"
    by (rule base_str_chars) (use n digit_char_alnum in auto)
  with c show ?thesis by blast
qed

lemma seed_name_split:
  assumes "length prefix \<le> 22" "0 \<le> seed" "seed < 36 ^ 9"
  shows "seed_name prefix seed = map name_char (lower prefix) @ ''_'' @ base_str 36 seed"
proof -
  have len: "length (base_str 36 seed) \<le> 9" using assms(2,3) by (intro base_str_len) auto
  have id: "map name_char (lower (base_str 36 seed)) = base_str 36 seed"
    unfolding lower_def map_map comp_def using base36_chars [OF assms(2)] by (intro map_idI) (simp add: name_char_base)
  have "name_char (lower_char CHR ''_'') = CHR ''_''" by code_simp
  then have "map name_char (lower (prefix @ ''_'' @ base_str 36 seed)) = map name_char (lower prefix) @ ''_'' @ base_str 36 seed"
    using id by (simp add: lower_def)
  then show ?thesis using len assms(1) by (simp add: seed_name_def)
qed

lemma seed_name_inj:
  assumes "length prefix \<le> 22" "0 \<le> a" "a < 36 ^ 9" "0 \<le> b" "b < 36 ^ 9" "seed_name prefix a = seed_name prefix b"
  shows "a = b"
proof -
  have "base_str 36 a = base_str 36 b"
    using assms(6) unfolding seed_name_split [OF assms(1-3)] seed_name_split [OF assms(1,4,5)] by simp
  then have "num_val 36 (base_str 36 a) = num_val 36 (base_str 36 b)" by (rule arg_cong)
  moreover have "num_val 36 (base_str 36 a) = a" "num_val 36 (base_str 36 b) = b"
    by (rule num_val_base_str; use assms in simp)+
  ultimately show ?thesis by simp
qed

lemma uniqueId_reaches:
  assumes "\<not> truthy (au_get (ru_base R) u ''zapret2'' (seed_name prefix (seed + int k)))"
  shows "\<exists>n. uniqueId R u prefix seed = Some n \<and> \<not> truthy (au_get (ru_base R) u ''zapret2'' n) \<and> length n \<le> 32"
  using assms
proof (induction k arbitrary: seed)
  case 0
  then show ?case by (subst uniqueId.simps) (simp add: seed_name_def)
next
  case (Suc k)
  then have "\<not> truthy (au_get (ru_base R) u ''zapret2'' (seed_name prefix ((seed + 1) + int k)))" by (simp add: algebra_simps)
  from Suc.IH [OF this] show ?case by (subst uniqueId.simps) (auto simp: seed_name_def)
qed

section \<open>Marks\<close>

lemma single_bit:
  assumes "0 < n" "n < 2 ^ 32"
  shows "js_and n (n - 1) = 0 \<longleftrightarrow> (\<exists>k < 32. n = 2 ^ k)"
proof
  assume "\<exists>k < 32. n = 2 ^ k"
  then obtain k where k: "k < 32" "n = 2 ^ k" by blast
  show "js_and n (n - 1) = 0"
  proof (rule bit_eqI)
    fix i
    have "n - 1 = mask k" by (simp add: k mask_eq_exp_minus_1)
    then show "bit (js_and n (n - 1)) i = bit (0 :: int) i"
      using k by (auto simp: js_and_def bit_to_int32 bit_and_iff bit_exp_iff bit_mask_iff)
  qed
next
  assume z: "js_and n (n - 1) = 0"
  have "\<exists>k. 2 ^ k \<le> nat n \<and> nat n < 2 ^ (k + 1)" using ex_power_ivl1 [of 2 "nat n"] assms(1) by force
  then obtain k where "2 ^ k \<le> nat n" "nat n < 2 ^ (k + 1)" by blast
  then have k: "2 ^ k \<le> n" "n < 2 ^ (k + 1)" using assms(1) by (simp_all add: le_nat_iff nat_less_iff)
  have "k < 32"
  proof (rule ccontr)
    assume "\<not> k < 32"
    then have "(2 :: int) ^ 32 \<le> 2 ^ k" by (intro power_increasing) auto
    then show False using k(1) assms(2) by simp
  qed
  have "n = 2 ^ k"
  proof (rule ccontr)
    assume "n \<noteq> 2 ^ k"
    then have "2 ^ k \<le> n - 1" using k(1) by simp
    then have div: "n div 2 ^ k = 1" "(n - 1) div 2 ^ k = 1"
      using k int_div_pos_eq [of n "2 ^ k" 1 "n - 2 ^ k"] int_div_pos_eq [of "n - 1" "2 ^ k" 1 "n - 1 - 2 ^ k"] by simp_all
    from div have "bit n k" "bit (n - 1) k" by (simp_all add: bit_iff_odd)
    then have "bit (js_and n (n - 1)) k" using \<open>k < 32\<close> by (simp add: js_and_def bit_to_int32 bit_and_iff)
    then show False using z by simp
  qed
  then show "\<exists>k < 32. n = 2 ^ k" using \<open>k < 32\<close> by blast
qed


section \<open>Sorting by distinct keys\<close>

lemma sorted_unique:
  fixes h :: "'a \<Rightarrow> rat"
  assumes "mset xs = mset ys" "sorted (map h xs)" "sorted_wrt (<) (map h ys)"
  shows "xs = ys"
proof -
  have "sorted (map h ys)" "distinct (map h ys)" using assms(3) by (simp_all add: strict_sorted_iff)
  moreover have "mset (map h xs) = mset (map h ys)" using assms(1) by simp
  ultimately have "map h xs = map h ys" using assms(2) by (metis sorted_list_of_multiset_mset sorted_sort_id)
  moreover have "inj_on h (set xs \<union> set ys)"
    using \<open>distinct (map h ys)\<close> assms(1) by (metis Un_absorb distinct_map set_mset_mset)
  ultimately show ?thesis using map_inj_on by blast
qed

lemma num_sign_Num: "num_sign (Num p) (Num q) = sign_of p q"
  by (auto simp: num_sign_def sign_of_def num_less_def num_le_def)

text \<open>The order of a section that has a numeric order.\<close>

definition order_of :: "jsval \<Rightarrow> rat" where
  "order_of s = (case section_order s of Num q \<Rightarrow> q | _ \<Rightarrow> 0)"

lemma sort_orders:
  assumes "\<forall>s \<in> set xs. \<exists>q. section_order s = Num q" "mset xs = mset ys" "sorted_wrt (<) (map order_of ys)"
  shows "sort_by (compare_sections collate) xs = ys"
proof (rule sorted_unique [OF _ _ assms(3)])
  have cmp: "comparison (\<lambda>s. \<exists>q. section_order s = Num q) (\<lambda>a b. num_sign (section_order a) (section_order b))"
    by (rule comparison_cong [OF comparison_sign [of _ order_of]]) (auto simp: num_sign_Num order_of_def)
  have "sorted_wrt (\<lambda>a b. num_sign (section_order a) (section_order b) \<le> 0) (sort_by (compare_sections collate) xs)"
    using comparison.sort_sorted [OF cmp assms(1)] unfolding compare_sections_def .
  moreover have "order_of a \<le> order_of b" if le: "num_sign (section_order a) (section_order b) \<le> 0" and mem: "a \<in> set xs" "b \<in> set xs" for a b
  proof -
    obtain p q where "section_order a = Num p" "section_order b = Num q" using mem assms(1) by blast
    with le show ?thesis by (simp add: num_sign_Num order_of_def sign_of_def split: if_splits)
  qed
  ultimately show "sorted (map order_of (sort_by (compare_sections collate) xs))"
    unfolding sorted_map by (rule sorted_wrt_mono_rel [rotated]) (auto simp: set_sort_by)
  show "mset (sort_by (compare_sections collate) xs) = mset ys" using assms(2) by simp
qed

section \<open>Moving and removing in the store\<close>

lemma name_index_Some:
  assumes "name_index sid items = Some i"
  shows "i < length items \<and> field (items ! i) ''.name'' = JStr sid"
proof -
  let ?is = "filter (\<lambda>i. field (items ! i) ''.name'' = JStr sid) [0..<length items]"
  have "?is \<noteq> [] \<and> i = last ?is" using assms by (auto simp: name_index_def split: list.splits)
  then have "i \<in> set ?is" using last_in_set by metis
  then show ?thesis by simp
qed

lemma names_remove_at: "section_names (remove_at i xs) = remove_at i (section_names xs)"
  by (simp add: section_names_def remove_at_def take_map drop_map)

lemma mset_remove_at: "i < length xs \<Longrightarrow> mset xs = add_mset (xs ! i) (mset (remove_at i xs))"
  by (metis Suc_eq_plus1 add_mset_add_single id_take_nth_drop mset.simps(2) mset_append remove_at_def union_mset_add_mset_right)

definition order_text :: "nat \<Rightarrow> string" where
  "order_text i = dec ((int i + 1) * 10)"

context route_store
begin

text \<open>The new orders of sections with different names: each gets its own, nothing else changes.\<close>

abbreviation item_name :: "nat \<times> jsval \<Rightarrow> string" where
  "item_name p \<equiv> to_str (field (snd p) ''.name'')"

abbreviation new_order :: "'u \<Rightarrow> nat \<times> jsval \<Rightarrow> 'u" where
  "new_order u p \<equiv> zset R (item_name p) [(''order'', JStr (order_text (fst p)))] u"

lemma new_orders:
  assumes "distinct (map item_name ps)" "\<forall>p \<in> set ps. get u ''zapret2'' (item_name p) \<noteq> JNull"
  shows "(\<forall>n. (\<forall>p \<in> set ps. item_name p \<noteq> n) \<longrightarrow> get (foldl new_order u ps) ''zapret2'' n = get u ''zapret2'' n)
    \<and> (\<forall>p \<in> set ps. holds (foldl new_order u ps) ''zapret2'' (item_name p)
        ((field (get u ''zapret2'' (item_name p)))(''order'' := JStr (order_text (fst p)))))
    \<and> section_names (ru_sections R (foldl new_order u ps) ''zapret2'' t) = section_names (ru_sections R u ''zapret2'' t)"
  using assms
proof (induction ps arbitrary: u)
  case Nil
  then show ?case by simp
next
  case (Cons p ps)
  let ?u = "new_order u p"
  have opt: "option_name ''order''" by (simp add: option_name_def)
  have obj: "is_object (get u ''zapret2'' (item_name p))"
    using Cons.prems(2) get_shape [of u "''zapret2''" "item_name p"] by (auto simp: au_get_def)
  have new: "holds ?u ''zapret2'' (item_name p)
      ((field (get u ''zapret2'' (item_name p)))(''order'' := JStr (order_text (fst p))))"
    unfolding zset_def by (rule holds_set [OF holds_get [OF obj] opt])
  have other: "get ?u ''zapret2'' m = get u ''zapret2'' m" if "item_name p \<noteq> m" for m
    unfolding zset_def by (rule ru_set_get) (use that in simp)
  have names: "section_names (ru_sections R ?u ''zapret2'' t) = section_names (ru_sections R u ''zapret2'' t)"
    using set_order [of u "''zapret2''" "item_name p" "''order''"] Cons.prems(2) opt
    by (simp add: zset_def ru_set_def au_set_def set_options_def)
  have old: "get ?u ''zapret2'' (item_name q) = get u ''zapret2'' (item_name q)" if "q \<in> set ps" for q
    by (rule other) (use Cons.prems(1) that in force)
  have ih: "distinct (map item_name ps)" "\<forall>q \<in> set ps. get ?u ''zapret2'' (item_name q) \<noteq> JNull"
    using Cons.prems by simp (metis Cons.prems(2) list.set_intros(2) old)
  note rest = Cons.IH [OF ih]
  have fresh: "item_name p \<noteq> item_name q" if "q \<in> set ps" for q using Cons.prems(1) that by force
  show ?case
  proof (intro conjI allI impI)
    fix n assume n: "\<forall>q \<in> set (p # ps). item_name q \<noteq> n"
    then show "get (foldl new_order u (p # ps)) ''zapret2'' n = get u ''zapret2'' n"
      using rest other [of n] by simp
  next
    have "holds (foldl new_order ?u ps) ''zapret2'' (item_name p)
        ((field (get u ''zapret2'' (item_name p)))(''order'' := JStr (order_text (fst p))))"
      using new rest not_sym [OF fresh] unfolding holds_def by simp
    moreover have "holds (foldl new_order ?u ps) ''zapret2'' (item_name q)
        ((field (get u ''zapret2'' (item_name q)))(''order'' := JStr (order_text (fst q))))" if mem: "q \<in> set ps" for q
      by (rule subst [OF old [OF mem], of "\<lambda>v. holds _ _ _ ((field v)(_ := _))"]) (rule bspec [OF conjunct1 [OF conjunct2 [OF rest]] mem])
    ultimately show "\<forall>q \<in> set (p # ps). holds (foldl new_order u (p # ps)) ''zapret2'' (item_name q)
        ((field (get u ''zapret2'' (item_name q)))(''order'' := JStr (order_text (fst q))))" by simp
  next
    show "section_names (ru_sections R (foldl new_order u (p # ps)) ''zapret2'' t) = section_names (ru_sections R u ''zapret2'' t)"
      using rest names by simp
  qed
qed

lemma sections_as_named:
  "ru_sections R u c t = map (\<lambda>s. get u c (to_str (field s ''.name''))) (ru_sections R u c t)"
  by (rule sym, rule map_idI) (use section_is in \<open>force simp: named_def\<close>)

lemma sections_of_names:
  assumes "section_names (ru_sections R u' c t) = section_names (ru_sections R u c t)"
  shows "ru_sections R u' c t = map (\<lambda>s. get u' c (to_str (field s ''.name''))) (ru_sections R u c t)"
proof -
  have "ru_sections R u' c t = map (\<lambda>v. get u' c (to_str v)) (section_names (ru_sections R u' c t))"
    using sections_as_named [of u' c t] by (simp add: section_names_def comp_def)
  then show ?thesis unfolding assms by (simp add: section_names_def comp_def)
qed

text \<open>After new orders, the sections come in the order in which they got them.\<close>

lemma order_of_text:
  assumes "field s ''order'' = JStr (order_text i)" "i < 1000"
  shows "section_order s = Num (of_int ((int i + 1) * 10))"
proof -
  have "number_of_str (order_text i) = num_of_int ((int i + 1) * 10)"
    unfolding order_text_def
  proof (rule number_of_dec)
    have "(int i + 1) * 10 \<le> 10000" "(10000 :: int) < 10 ^ 300" using assms(2) by simp_all
    then show "(int i + 1) * 10 < 10 ^ 300" by (rule le_less_trans)
  qed simp
  moreover have "order_text i \<noteq> []" unfolding order_text_def by (rule base_str_not_Nil)
  ultimately show ?thesis using assms(1)
    unfolding section_order_def Let_def or_else_def assms(1) truthy_JStr by (simp add: num_of_int_def)
qed

lemma set_orders_sorted:
  fixes u :: 'u and items ys :: "jsval list"
  defines "u' \<equiv> set_orders R ys u"
  assumes items: "items = sorted_sections R collate u t p" and perm: "mset ys = mset items"
    and distinct: "distinct (section_names items)" and few: "length items \<le> 1000"
  shows "sorted_sections R collate u' t p = map (\<lambda>s. get u' ''zapret2'' (to_str (field s ''.name''))) ys"
    and "k \<noteq> ''order'' \<Longrightarrow> field (get u' ''zapret2'' n) k = field (get u ''zapret2'' n) k"
proof -
  let ?ps = "zip [0..<length ys] ys"
  let ?h = "\<lambda>s. get u' ''zapret2'' (to_str (field s ''.name''))"
  have u': "u' = foldl new_order u ?ps" by (simp add: u'_def set_orders_def case_prod_unfold order_text_def)
  have mem: "set ys = set items" using perm by (metis set_mset_mset)
  have sub: "set items \<subseteq> set (ru_sections R u ''zapret2'' t)" by (auto simp: items sorted_sections_def set_sort_by)
  have "distinct (section_names ys)" using distinct perm unfolding section_names_def
    by (metis distinct_count_atmost_1 mset_map set_mset_mset)
  moreover have "\<forall>v \<in> set (section_names ys). \<exists>n. v = JStr n"
  proof
    fix v assume "v \<in> set (section_names ys)"
    then obtain s where "s \<in> set (ru_sections R u ''zapret2'' t)" "v = field s ''.name''"
      using sub mem by (auto simp: section_names_def)
    then show "\<exists>n. v = JStr n" using section_is unfolding named_def by metis
  qed
  then have "inj_on to_str (set (section_names ys))" by (intro inj_onI) (metis to_str.simps)
  ultimately have "distinct (map to_str (section_names ys))" by (simp add: distinct_map)
  moreover have "map item_name ?ps = map (\<lambda>s. to_str (field s ''.name'')) (map snd ?ps)" by (simp only: map_map comp_def)
  then have "map item_name ?ps = map to_str (section_names ys)" by (simp add: section_names_def comp_def)
  ultimately have dist: "distinct (map item_name ?ps)" by simp
  have get_name: "get u ''zapret2'' (to_str (field s ''.name'')) = s \<and> s \<noteq> JNull" if "s \<in> set (ru_sections R u ''zapret2'' t)" for s
    using section_is [OF that] by (auto simp: named_def field_def)
  have "\<forall>p \<in> set ?ps. get u ''zapret2'' (item_name p) \<noteq> JNull"
    using get_name sub mem by (force dest: set_zip_rightD)
  note new = new_orders [OF dist this, folded u']
  show same: "field (get u' ''zapret2'' n) k = field (get u ''zapret2'' n) k" if "k \<noteq> ''order''" for n k
  proof (cases "\<exists>p \<in> set ?ps. item_name p = n")
    case True
    then obtain q where q: "q \<in> set ?ps" "item_name q = n" by blast
    have "holds u' ''zapret2'' (item_name q) ((field (get u ''zapret2'' (item_name q)))(''order'' := JStr (order_text (fst q))))"
      using new q(1) by blast
    then show ?thesis using that unfolding q(2) holds_def by simp
  next
    case False
    then show ?thesis using new by auto
  qed
  have "of_profile p (?h s) = of_profile p s" if "s \<in> set (ru_sections R u ''zapret2'' t)" for s
    using same [of "''profile''"] get_name [OF that] by (simp add: of_profile_def)
  moreover have "ru_sections R u' ''zapret2'' t = map ?h (ru_sections R u ''zapret2'' t)"
    using new by (intro sections_of_names) blast
  ultimately have chosen: "filter (of_profile p) (ru_sections R u' ''zapret2'' t) = map ?h (filter (of_profile p) (ru_sections R u ''zapret2'' t))"
    by (simp add: filter_map comp_def cong: filter_cong)
  have len: "length ys \<le> 1000" using few perm by (metis size_mset)
  have order: "section_order (?h (ys ! i)) = Num (of_int ((int i + 1) * 10))" if "i < length ys" for i
  proof (rule order_of_text)
    have "(i, ys ! i) \<in> set ?ps" using that by (auto simp: set_zip intro!: exI [of _ i])
    then show "field (?h (ys ! i)) ''order'' = JStr (order_text i)" using new unfolding holds_def by fastforce
  qed (use that len in simp)
  show "sorted_sections R collate u' t p = map ?h ys"
    unfolding sorted_sections_def
  proof (rule sort_orders)
    show perm': "mset (filter (of_profile p) (ru_sections R u' ''zapret2'' t)) = mset (map ?h ys)"
      using perm by (simp add: chosen items sorted_sections_def)
    then have "set (filter (of_profile p) (ru_sections R u' ''zapret2'' t)) = set (map ?h ys)" by (metis set_mset_mset)
    then show "\<forall>s \<in> set (filter (of_profile p) (ru_sections R u' ''zapret2'' t)). \<exists>q. section_order s = Num q"
      using order by (auto simp: in_set_conv_nth)
    show "sorted_wrt (<) (map order_of (map ?h ys))"
      by (simp add: sorted_wrt_iff_nth_less order_of_def order)
  qed
qed

lemma moved:
  fixes u :: 'u and items :: "jsval list"
  assumes items: "items = sorted_sections R collate u t (if t = ''step'' then field (get u ''zapret2'' sid) ''profile'' else JNull)"
    and index: "name_index sid items = Some i" and target: "0 \<le> int i + d" "int i + d < int (length items)"
    and distinct: "distinct (section_names items)" and few: "length items \<le> 1000"
  shows "section_names (sorted_sections R collate (move_item R collate sid t d u) t
        (if t = ''step'' then field (get u ''zapret2'' sid) ''profile'' else JNull))
      = take (nat (int i + d)) (remove_at i (section_names items)) @ [JStr sid] @ drop (nat (int i + d)) (remove_at i (section_names items))"
    and "k \<noteq> ''order'' \<Longrightarrow>
      field (get (move_item R collate sid t d u) ''zapret2'' n) k = field (get u ''zapret2'' n) k"
proof -
  let ?others = "remove_at i items" and ?j = "nat (int i + d)"
  let ?ys = "take ?j ?others @ [items ! i] @ drop ?j ?others"
  let ?p = "if t = ''step'' then field (get u ''zapret2'' sid) ''profile'' else JNull"
  have i: "i < length items" "field (items ! i) ''.name'' = JStr sid" using name_index_Some [OF index] by auto
  have "items ! i \<in> set (ru_sections R u ''zapret2'' t)"
    using i(1) nth_mem [OF i(1)] by (auto simp: items sorted_sections_def set_sort_by)
  from section_is [OF this] have cur: "get u ''zapret2'' sid = items ! i" "items ! i \<noteq> JNull" "items ! i \<noteq> JUndef"
    using i(2) by (auto simp: named_def field_def)
  have "truthy (items ! i)"
    using get_shape [of u "''zapret2''" sid] cur by (auto simp: au_get_def is_object_def truthy_def split: jsval.splits)
  then have "(if t = ''step'' then and_then (items ! i) (field (items ! i) ''profile'') else JNull) = ?p"
    using cur(1) by (simp add: and_then_def)
  then have "sorted_sections R collate u t (if t = ''step'' then and_then (items ! i) (field (items ! i) ''profile'') else JNull) = items"
    by (simp only: items)
  then have moved: "move_item R collate sid t d u = set_orders R ?ys u"
    using index target unfolding move_item_def Let_def cur(1) by simp
  have perm: "mset ?ys = mset items"
    using mset_remove_at [OF i(1)] by (metis append_take_drop_id mset_append union_code union_mset_add_mset_left add_mset_add_single mset.simps union_commute union_assoc)
  have names: "map (\<lambda>s. field (get (set_orders R ?ys u) ''zapret2'' (to_str (field s ''.name''))) ''.name'') ?ys = section_names ?ys"
    unfolding section_names_def
  proof (rule map_cong [OF refl])
    fix s assume "s \<in> set ?ys"
    then have "s \<in> set items" using perm by (metis set_mset_mset)
    then have "s \<in> set (ru_sections R u ''zapret2'' t)" by (auto simp: items sorted_sections_def set_sort_by)
    from section_is [OF this] have "get u ''zapret2'' (to_str (field s ''.name'')) = s" by (auto simp: named_def)
    then show "field (get (set_orders R ?ys u) ''zapret2'' (to_str (field s ''.name''))) ''.name'' = field s ''.name''"
      using set_orders_sorted(2) [OF items perm distinct few, of "''.name''" "to_str (field s ''.name'')"] by simp
  qed
  show "section_names (sorted_sections R collate (move_item R collate sid t d u) t ?p)
      = take ?j (remove_at i (section_names items)) @ [JStr sid] @ drop ?j (remove_at i (section_names items))"
    unfolding moved set_orders_sorted(1) [OF items perm distinct few] names_remove_at [symmetric]
    using names i(2) by (simp add: section_names_def comp_def take_map drop_map)
  show "field (get (move_item R collate sid t d u) ''zapret2'' n) k = field (get u ''zapret2'' n) k" if "k \<noteq> ''order''"
    unfolding moved by (rule set_orders_sorted(2) [OF items perm distinct few that])
qed

text \<open>Removing several sections.\<close>

lemma removed_get:
  "get (au_remove (ru_base R) d m u) c n = (if c = d \<and> n = m then JNull else get u c n)"
  using remove_this [of u d m] remove_other [of c n d m u] by (auto simp: au_remove_def au_get_def)

lemma remove_sections:
  "get (foldl (\<lambda>u' s. au_remove (ru_base R) ''zapret2'' (to_str (field s ''.name'')) u') u ss) c n
   = (if c = ''zapret2'' \<and> (\<exists>s \<in> set ss. to_str (field s ''.name'') = n) then JNull else get u c n)"
proof (induction ss arbitrary: u)
  case (Cons s ss)
  then show ?case by (auto simp: removed_get)
qed simp

lemma profile_removed:
  assumes "get u ''zapret2'' sid \<noteq> JNull"
  shows "get (remove_profile R collate sid u) c n =
      (if c = ''zapret2'' \<and> (n = sid \<or> field (get u c n) ''.type'' = JStr ''step''
           \<and> field (get u c n) ''profile'' = profileId (get u c sid))
       then JNull else get u c n)"
proof -
  let ?p = "profileId (get u ''zapret2'' sid)"
  have "truthy (get u ''zapret2'' sid)"
    using get_shape [of u "''zapret2''" sid] assms by (auto simp: au_get_def is_object_def truthy_def split: jsval.splits)
  moreover have "field (get u ''zapret2'' sid) ''.name'' = JStr sid" using get_name [OF assms] by (simp add: named_def)
  ultimately have p: "\<not> nullish ?p" by (auto simp: profileId_def and_then_def or_else_def truthy_def nullish_def split: jsval.splits)
  let ?steps = "sorted_sections R collate u ''step'' ?p"
  have steps: "(\<exists>s \<in> set ?steps. to_str (field s ''.name'') = n)
      \<longleftrightarrow> field (get u ''zapret2'' n) ''.type'' = JStr ''step'' \<and> field (get u ''zapret2'' n) ''profile'' = ?p" for n
  proof
    assume "\<exists>s \<in> set ?steps. to_str (field s ''.name'') = n"
    then obtain s where s: "s \<in> set (ru_sections R u ''zapret2'' ''step'')" "field s ''profile'' = ?p" "to_str (field s ''.name'') = n"
      using p by (auto simp: sorted_sections_def set_sort_by of_profile_def)
    then show "field (get u ''zapret2'' n) ''.type'' = JStr ''step'' \<and> field (get u ''zapret2'' n) ''profile'' = ?p"
      using section_is [OF s(1)] by (auto simp: named_def)
  next
    assume n: "field (get u ''zapret2'' n) ''.type'' = JStr ''step'' \<and> field (get u ''zapret2'' n) ''profile'' = ?p"
    then have "get u ''zapret2'' n \<in> set ?steps"
      using listed [of u "''zapret2''" n "''step''"] by (auto simp: sorted_sections_def set_sort_by of_profile_def)
    moreover have "to_str (field (get u ''zapret2'' n) ''.name'') = n"
      using get_name [OF typed_not_null, of u "''zapret2''" n] n by (auto simp: named_def)
    ultimately show "\<exists>s \<in> set ?steps. to_str (field s ''.name'') = n" by blast
  qed
  show ?thesis
    unfolding remove_profile_def removed_get remove_sections steps by auto
qed

end

section \<open>Match marks\<close>

lemma starts_with_head: "starts_with p s \<Longrightarrow> take (length p) s = p"
  by (induction p s rule: starts_with.induct) auto

lemma mark_no_slash: "mark_text a \<Longrightarrow> CHR ''/'' \<notin> set a"
proof
  assume a: "mark_text a" and s: "CHR ''/'' \<in> set a"
  then have "set a \<subseteq> set (take 2 a) \<union> set (drop 2 a)" by (metis append_take_drop_id set_append subset_refl)
  moreover have "take 2 a = ''0x''" using a starts_with_head [of "''0x''" a] by (simp add: mark_text_def numeral_2_eq_2)
  moreover have "CHR ''/'' \<notin> set (drop 2 a)" using a by (auto simp: mark_text_def list_all_iff is_xdigit_def is_digit_def cc_def)
  ultimately show False using s by auto
qed

lemma mark_range: "0 \<le> mark_value a \<and> mark_value a < 2 ^ 32"
  unfolding mark_value_def to_uint32_def using take_bit_int_less_exp [of 32] by simp

lemma match_bits:
  assumes "0 \<le> v" "v < 2 ^ 32"
  shows "to_uint32 (js_and v m) = v \<longleftrightarrow> (\<forall>i < 32. bit v i \<longrightarrow> bit m i)"
proof -
  have low: "i < 32" if "bit v i" for i
    using assms that by (metis bit_take_bit_iff take_bit_int_eq_self)
  have and_bit: "bit (to_uint32 (js_and v m)) i \<longleftrightarrow> i < 32 \<and> bit v i \<and> bit m i" for i
    by (auto simp: to_uint32_def js_and_def bit_take_bit_iff bit_and_iff bit_to_int32_low)
  show ?thesis unfolding bit_eq_iff [of "to_uint32 (js_and v m)" v] and_bit using low by auto
qed

section \<open>The properties\<close>

text \<open>C38: the search for the name of a new profile or step ends, with a name that is free and short enough,
  as long as the clock leaves room for the names that are taken.\<close>

theorem uniqueId_fresh:
  assumes "length prefix \<le> 22" "0 \<le> seed"
    and "finite {n. truthy (au_get (ru_base R) u ''zapret2'' n)}"
    and "seed + int (card {n. truthy (au_get (ru_base R) u ''zapret2'' n)}) < 36 ^ 9"
  shows "\<exists>n. uniqueId R u prefix seed = Some n \<and> \<not> truthy (au_get (ru_base R) u ''zapret2'' n) \<and> length n \<le> 32"
proof -
  let ?taken = "{n. truthy (au_get (ru_base R) u ''zapret2'' n)}"
  let ?names = "(\<lambda>k. seed_name prefix (seed + int k)) ` {.. card ?taken}"
  have "\<exists>k \<le> card ?taken. \<not> truthy (au_get (ru_base R) u ''zapret2'' (seed_name prefix (seed + int k)))"
  proof (rule ccontr)
    assume "\<not> (\<exists>k \<le> card ?taken. \<not> truthy (au_get (ru_base R) u ''zapret2'' (seed_name prefix (seed + int k))))"
    then have "?names \<subseteq> ?taken" by auto
    then have "card ?names \<le> card ?taken" by (rule card_mono [OF assms(3)])
    moreover have "inj_on (\<lambda>k. seed_name prefix (seed + int k)) {.. card ?taken}"
    proof (rule inj_onI)
      fix j k assume "j \<in> {.. card ?taken}" "k \<in> {.. card ?taken}"
        and same: "seed_name prefix (seed + int j) = seed_name prefix (seed + int k)"
      then have "int j \<le> int (card ?taken)" "int k \<le> int (card ?taken)" by (simp_all only: atMost_iff of_nat_le_iff)
      then have "seed + int j < 36 ^ 9" "seed + int k < 36 ^ 9" using assms(4) by linarith+
      moreover have "0 \<le> seed + int j" "0 \<le> seed + int k" using assms(2) by linarith+
      ultimately have "seed + int j = seed + int k" by (intro seed_name_inj [OF assms(1) _ _ _ _ same])
      then show "j = k" by simp
    qed
    then have "card ?names = card {.. card ?taken}" by (rule card_image)
    ultimately show False unfolding card_atMost by linarith
  qed
  then obtain k where "\<not> truthy (au_get (ru_base R) u ''zapret2'' (seed_name prefix (seed + int k)))" by blast
  then show ?thesis by (rule uniqueId_reaches)
qed

definition step_store :: list_store where
  "step_store =
     [((''zapret2'', ''web''), [(''.type'', JStr ''profile''), (''name'', JStr ''Web'')]),
      ((''zapret2'', ''video''), [(''.type'', JStr ''profile''), (''name'', JStr ''Video'')]),
      ((''zapret2'', ''first''), [(''.type'', JStr ''step''), (''profile'', JStr ''web''), (''order'', JStr ''10''), (''type'', JStr ''payload'')]),
      ((''zapret2'', ''other''), [(''.type'', JStr ''step''), (''profile'', JStr ''video''), (''order'', JStr ''10''), (''type'', JStr ''fake'')]),
      ((''zapret2'', ''second''), [(''.type'', JStr ''step''), (''profile'', JStr ''web''), (''order'', JStr ''20''), (''type'', JStr ''multisplit'')]),
      ((''zapret2'', ''step_rs''), [(''.type'', JStr ''step''), (''profile'', JStr ''web''), (''order'', JStr ''30''), (''type'', JStr ''fake'')])]"

lemma step_store_names:
  "{n. truthy (au_get (ru_base list_route) step_store ''zapret2'' n)} = set (map (snd \<circ> fst) step_store)"
  by (auto simp: list_route_def list_acl_def au_get_def named_get_def step_store_def truthy_def split: if_splits)

theorem uniqueId_fresh_witness:
  "\<exists>n. uniqueId list_route step_store ''step'' 1000 = Some n
     \<and> \<not> truthy (au_get (ru_base list_route) step_store ''zapret2'' n) \<and> length n \<le> 32"
  by (rule uniqueId_fresh) (unfold step_store_names, simp_all add: step_store_def)

text \<open>C39: moving a profile or a step by some places takes it out of the list and puts it back there:
  the other items keep their order, the list as it is shown afterwards is the new one, and no
  option but the orders changes.\<close>

theorem move:
  fixes R :: "'u route_uci"
  assumes "route_store R"
    and "items = sorted_sections R collate u t
           (if t = ''step'' then field (au_get (ru_base R) u ''zapret2'' sid) ''profile'' else JNull)"
    and "name_index sid items = Some i" "0 \<le> int i + d" "int i + d < int (length items)"
    and "distinct (section_names items)" "length items \<le> 1000"
  shows "section_names (sorted_sections R collate (move_item R collate sid t d u) t
        (if t = ''step'' then field (au_get (ru_base R) u ''zapret2'' sid) ''profile'' else JNull))
      = take (nat (int i + d)) (remove_at i (section_names items)) @ [JStr sid]
        @ drop (nat (int i + d)) (remove_at i (section_names items))
    \<and> (\<forall>n k. k \<noteq> ''order'' \<longrightarrow>
        field (au_get (ru_base R) (move_item R collate sid t d u) ''zapret2'' n) k = field (au_get (ru_base R) u ''zapret2'' n) k)"
  using route_store.moved [OF assms] by blast

theorem move_witness:
  "section_names (sorted_sections list_route (\<lambda>a b. 0) (move_item list_route (\<lambda>a b. 0) ''first'' ''step'' 1 step_store) ''step'' (JStr ''web''))
   = [JStr ''second'', JStr ''first'', JStr ''step_rs'']"
proof -
  have profile: "field (au_get (ru_base list_route) step_store ''zapret2'' ''first'') ''profile'' = JStr ''web''" by code_simp
  let ?items = "sorted_sections list_route (\<lambda>a b. 0) step_store ''step'' (JStr ''web'')"
  have names: "section_names ?items = [JStr ''first'', JStr ''second'', JStr ''step_rs'']" by code_simp
  have index: "name_index ''first'' ?items = Some 0" by code_simp
  have len: "length ?items = 3" using arg_cong [OF names, of length] by (simp add: section_names_def)
  show ?thesis
    using move [OF list_route.route_store_axioms, of ?items "\<lambda>a b. 0" step_store "''step''" "''first''" 0 1]
    by (simp add: profile index len names remove_at_def)
qed

text \<open>Deleting a profile removes its section and the steps that belong to it, and nothing else.\<close>

theorem remove_profile_exact:
  assumes "route_store R" "au_get (ru_base R) u ''zapret2'' sid \<noteq> JNull"
  shows "au_get (ru_base R) (remove_profile R collate sid u) c n =
      (if c = ''zapret2'' \<and> (n = sid \<or> field (au_get (ru_base R) u c n) ''.type'' = JStr ''step''
           \<and> field (au_get (ru_base R) u c n) ''profile'' = profileId (au_get (ru_base R) u c sid))
       then JNull else au_get (ru_base R) u c n)"
  by (rule route_store.profile_removed [OF assms])

theorem remove_profile_exact_witness:
  "au_get (ru_base list_route) (remove_profile list_route (\<lambda>a b. 0) ''web'' step_store) ''zapret2'' ''second'' = JNull
   \<and> au_get (ru_base list_route) (remove_profile list_route (\<lambda>a b. 0) ''web'' step_store) ''zapret2'' ''other'' \<noteq> JNull"
proof -
  have there: "au_get (ru_base list_route) step_store ''zapret2'' ''web'' \<noteq> JNull" by code_simp
  have facts: "field (au_get (ru_base list_route) step_store ''zapret2'' ''second'') ''.type'' = JStr ''step''"
    "field (au_get (ru_base list_route) step_store ''zapret2'' ''second'') ''profile'' = JStr ''web''"
    "field (au_get (ru_base list_route) step_store ''zapret2'' ''other'') ''profile'' = JStr ''video''"
    "profileId (au_get (ru_base list_route) step_store ''zapret2'' ''web'') = JStr ''web''"
    "au_get (ru_base list_route) step_store ''zapret2'' ''other'' \<noteq> JNull" by code_simp+
  show ?thesis
    unfolding remove_profile_exact [OF list_route.route_store_axioms there] by (simp add: facts)
qed

text \<open>The digits of a mark of 32 bits.\<close>

definition mark_digits :: "string \<Rightarrow> bool" where
  "mark_digits ds \<longleftrightarrow> ds \<noteq> [] \<and> length ds \<le> 8 \<and> list_all is_xdigit ds"

lemma xdigit_val: "is_xdigit c \<Longrightarrow> 0 \<le> digit_val c \<and> digit_val c < 16"
  by (auto simp: is_xdigit_def is_digit_def is_upper_def is_lower_def digit_val_def)

lemma mark_text_iff: "mark_text s \<longleftrightarrow> (\<exists>ds. s = ''0x'' @ ds \<and> mark_digits ds)"
proof
  assume m: "mark_text s"
  then have "take 2 s = ''0x''" using starts_with_head [of "''0x''" s] by (simp add: mark_text_def numeral_2_eq_2)
  then have "s = ''0x'' @ drop 2 s" by (metis append_take_drop_id)
  moreover have "mark_digits (drop 2 s)" using m by (auto simp: mark_text_def mark_digits_def)
  ultimately show "\<exists>ds. s = ''0x'' @ ds \<and> mark_digits ds" by blast
next
  assume "\<exists>ds. s = ''0x'' @ ds \<and> mark_digits ds"
  then obtain ds where "s = ''0x'' @ ds" "mark_digits ds" by blast
  moreover from this have "0 < length ds" by (simp add: mark_digits_def)
  ultimately show "mark_text s" by (auto simp: mark_text_def mark_digits_def Suc_le_eq)
qed

lemma mark_value_digits:
  assumes "mark_digits ds"
  shows "mark_value (''0x'' @ ds) = num_val 16 ds"
proof -
  have digits: "\<forall>c \<in> set ds. 0 \<le> digit_val c \<and> digit_val c < 16"
    using assms xdigit_val by (auto simp: mark_digits_def list_all_iff)
  then have "num_val 16 ds < 16 ^ length ds" by (intro num_val_less) simp_all
  also have "(16::int) ^ length ds \<le> 16 ^ 8" using assms by (intro power_increasing) (simp_all add: mark_digits_def)
  finally have "num_val 16 ds < 2 ^ 32" by simp
  moreover have "0 \<le> num_val 16 ds" using digits by (intro num_val_nonneg) simp_all
  ultimately show ?thesis by (simp add: mark_value_def to_uint32_id)
qed

lemma split_mark:
  assumes "mark_digits a"
  shows "split_on CHR ''/'' s = [''0x'' @ a, t] \<longleftrightarrow> s = ''0x'' @ a @ ''/'' @ t \<and> CHR ''/'' \<notin> set t"
proof
  assume split: "split_on CHR ''/'' s = [''0x'' @ a, t]"
  have "s = join ''/'' (split_on CHR ''/'' s)" by simp
  then have "s = ''0x'' @ a @ ''/'' @ t" unfolding split by simp
  moreover have "CHR ''/'' \<notin> set t" using split_on_parts [of t "CHR ''/''" s] split by simp
  ultimately show "s = ''0x'' @ a @ ''/'' @ t \<and> CHR ''/'' \<notin> set t" by blast
next
  assume s: "s = ''0x'' @ a @ ''/'' @ t \<and> CHR ''/'' \<notin> set t"
  have "CHR ''/'' \<notin> set (''0x'' @ a)" using assms by (intro mark_no_slash) (auto simp: mark_text_iff)
  then show "split_on CHR ''/'' s = [''0x'' @ a, t]"
    using s split_on_append [of "CHR ''/''" "''0x'' @ a" t] by (simp add: split_on_no_sep)
qed

text \<open>C40: a text is accepted as the mark of a single bit exactly when it is \<open>0x\<close> with one to eight
  hexadecimal digits whose value is a power of two; and as a mark with a mask exactly when it is two such numbers
  with a slash between, the mask is not zero, and it has every bit of the mark.  The values are those of the
  digits, with nothing cut off.\<close>

theorem mark_bits:
  "(validSingleBitMark (JStr s) \<longleftrightarrow> (\<exists>ds k. s = ''0x'' @ ds \<and> mark_digits ds \<and> num_val 16 ds = 2 ^ k))
   \<and> (validMatchMark (JStr s) \<longleftrightarrow>
        (\<exists>a m. s = ''0x'' @ a @ ''/0x'' @ m \<and> mark_digits a \<and> mark_digits m
           \<and> num_val 16 m \<noteq> 0 \<and> (\<forall>i. bit (num_val 16 a) i \<longrightarrow> bit (num_val 16 m) i)))"
proof
  have single: "validSingleBitMark (JStr (''0x'' @ ds)) \<longleftrightarrow> (\<exists>k. num_val 16 ds = 2 ^ k)" if "mark_digits ds" for ds
  proof -
    have is_mark: "mark_text (''0x'' @ ds)" using that mark_text_iff by blast
    note n = mark_range [of "''0x'' @ ds", unfolded mark_value_digits [OF that]]
    have "validSingleBitMark (JStr (''0x'' @ ds)) \<longleftrightarrow> (\<exists>k < 32. num_val 16 ds = 2 ^ k)"
      using single_bit [of "num_val 16 ds"] n is_mark mark_value_digits [OF that]
      by (cases "num_val 16 ds = 0") (auto simp: validSingleBitMark_def zvalidMark_def)
    moreover have "k < 32" if "num_val 16 ds = 2 ^ k" for k
      using n that power_strict_increasing_iff [of "2::int" k 32] by simp
    ultimately show ?thesis by blast
  qed
  show "validSingleBitMark (JStr s) \<longleftrightarrow> (\<exists>ds k. s = ''0x'' @ ds \<and> mark_digits ds \<and> num_val 16 ds = 2 ^ k)"
  proof
    assume ok: "validSingleBitMark (JStr s)"
    then have "mark_text s" by (auto simp: validSingleBitMark_def zvalidMark_def split: if_splits)
    then obtain ds where ds: "s = ''0x'' @ ds" "mark_digits ds" unfolding mark_text_iff by (elim exE conjE)
    then obtain k where "num_val 16 ds = 2 ^ k" using ok single [OF ds(2)] by blast
    then show "\<exists>ds k. s = ''0x'' @ ds \<and> mark_digits ds \<and> num_val 16 ds = 2 ^ k"
      using ds by (intro exI [of _ ds] exI [of _ k] conjI)
  next
    assume "\<exists>ds k. s = ''0x'' @ ds \<and> mark_digits ds \<and> num_val 16 ds = 2 ^ k"
    then obtain ds k where ds: "s = ''0x'' @ ds" "mark_digits ds" "num_val 16 ds = 2 ^ k" by (elim exE conjE)
    show "validSingleBitMark (JStr s)" unfolding ds(1) single [OF ds(2)] using ds(3) by (rule exI)
  qed
  have bits: "mark_value (''0x'' @ m) \<noteq> 0 \<and> to_uint32 (js_and (mark_value (''0x'' @ a)) (mark_value (''0x'' @ m))) = mark_value (''0x'' @ a)
      \<longleftrightarrow> num_val 16 m \<noteq> 0 \<and> (\<forall>i. bit (num_val 16 a) i \<longrightarrow> bit (num_val 16 m) i)" if "mark_digits a" "mark_digits m" for a m
  proof -
    note n = mark_range [of "''0x'' @ a", unfolded mark_value_digits [OF that(1)]]
    have "i < 32" if "bit (num_val 16 a) i" for i
      using n that by (metis bit_take_bit_iff take_bit_int_eq_self)
    then show ?thesis unfolding mark_value_digits [OF that(1)] mark_value_digits [OF that(2)] using match_bits [of "num_val 16 a" "num_val 16 m"] n by blast
  qed
  have slash: "CHR ''/'' \<notin> set (''0x'' @ m)" if "mark_digits m" for m
    using that by (intro mark_no_slash) (auto simp: mark_text_iff)
  have split: "split_on CHR ''/'' s = [''0x'' @ a, ''0x'' @ m] \<longleftrightarrow> s = ''0x'' @ a @ ''/0x'' @ m" if "mark_digits a" "mark_digits m" for a m
    unfolding split_mark [OF that(1)] using slash [OF that(2)] by (simp only: append.simps simp_thms)
  show "validMatchMark (JStr s) \<longleftrightarrow> (\<exists>a m. s = ''0x'' @ a @ ''/0x'' @ m \<and> mark_digits a \<and> mark_digits m
      \<and> num_val 16 m \<noteq> 0 \<and> (\<forall>i. bit (num_val 16 a) i \<longrightarrow> bit (num_val 16 m) i))"
  proof
    assume ok: "validMatchMark (JStr s)"
    then obtain x y where xy: "split_on CHR ''/'' s = [x, y]" "mark_text x" "mark_text y"
        "mark_value y \<noteq> 0 \<and> to_uint32 (js_and (mark_value x) (mark_value y)) = mark_value x"
      by (auto simp: validMatchMark_def Let_def split: list.splits)
    obtain a m where am: "x = ''0x'' @ a" "mark_digits a" "y = ''0x'' @ m" "mark_digits m"
      using xy(2,3) unfolding mark_text_iff by (elim exE conjE)
    have "s = ''0x'' @ a @ ''/0x'' @ m" using xy(1) split [OF am(2,4)] unfolding am(1,3) by (rule_tac iffD1)
    moreover have "num_val 16 m \<noteq> 0 \<and> (\<forall>i. bit (num_val 16 a) i \<longrightarrow> bit (num_val 16 m) i)"
      using xy(4) unfolding am(1,3) bits [OF am(2,4)] .
    ultimately show "\<exists>a m. s = ''0x'' @ a @ ''/0x'' @ m \<and> mark_digits a \<and> mark_digits m
      \<and> num_val 16 m \<noteq> 0 \<and> (\<forall>i. bit (num_val 16 a) i \<longrightarrow> bit (num_val 16 m) i)"
      using am(2,4) by (intro exI [of _ a] exI [of _ m] conjI) (assumption | elim conjE, assumption)+
  next
    assume "\<exists>a m. s = ''0x'' @ a @ ''/0x'' @ m \<and> mark_digits a \<and> mark_digits m
      \<and> num_val 16 m \<noteq> 0 \<and> (\<forall>i. bit (num_val 16 a) i \<longrightarrow> bit (num_val 16 m) i)"
    then obtain a m where am: "s = ''0x'' @ a @ ''/0x'' @ m" "mark_digits a" "mark_digits m"
        "num_val 16 m \<noteq> 0 \<and> (\<forall>i. bit (num_val 16 a) i \<longrightarrow> bit (num_val 16 m) i)"
      by (elim exE conjE) (intro that conjI)
    have "split_on CHR ''/'' s = [''0x'' @ a, ''0x'' @ m]" using am(1) split [OF am(2,3)] by (rule_tac iffD2)
    moreover have "mark_text (''0x'' @ a)" "mark_text (''0x'' @ m)" using am(2,3) mark_text_iff by blast+
    ultimately show "validMatchMark (JStr s)"
      using am(4) [folded bits [OF am(2,3)]] by (simp add: validMatchMark_def)
  qed
qed

theorem mark_bits_witness:
  "validSingleBitMark (JStr ''0x40000000'') \<and> validMatchMark (JStr ''0x0c/0xff'')"
proof
  have "mark_digits ''40000000''" "num_val 16 ''40000000'' = 2 ^ 30" by code_simp+
  then have "''0x40000000'' = ''0x'' @ ''40000000'' \<and> mark_digits ''40000000'' \<and> num_val 16 ''40000000'' = 2 ^ 30" by simp
  then show "validSingleBitMark (JStr ''0x40000000'')"
    using mark_bits [of "''0x40000000''", THEN conjunct1] by blast
  have "num_val 16 ''0c'' = 12" "num_val 16 ''ff'' = 255" by code_simp+
  moreover have "bit (255 :: int) i" if "bit (12 :: int) i" for i
  proof -
    have "(12 :: int) AND 255 = 12" by simp
    then show ?thesis using that by (metis bit_and_iff)
  qed
  moreover have "mark_digits ''0c''" "mark_digits ''ff''" by code_simp+
  ultimately have "''0x0c/0xff'' = ''0x'' @ ''0c'' @ ''/0x'' @ ''ff'' \<and> mark_digits ''0c'' \<and> mark_digits ''ff''
      \<and> num_val 16 ''ff'' \<noteq> 0 \<and> (\<forall>i. bit (num_val 16 ''0c'') i \<longrightarrow> bit (num_val 16 ''ff'') i)" by simp
  then show "validMatchMark (JStr ''0x0c/0xff'')"
    using mark_bits [of "''0x0c/0xff''", THEN conjunct2] by blast
qed

end
