(* ===== verification/Segments.thy ===== *)
theory Segments
  imports Guest_Network Portforward
begin

text \<open>
  The home and the guest segment of the page \<open>view/network/freenetic-mynetworks.js\<close>: the form that is
  made from the configuration, its checks, and the edits of network, dhcp, firewall and wireless that saving
  and deleting make.  Parameters: the store, the services, and the answers of the confirmations.
\<close>

section \<open>Addresses\<close>

definition cidrToMask :: "nat \<Rightarrow> string" where
  "cidrToMask bits = (let n = (if bits = 0 then 0 else to_uint32 (js_shl 0xffffffff (32 - bits)))
     in join ''.'' (map dec [js_and (js_ushr n 24) 255, js_and (js_ushr n 16) 255, js_and (js_ushr n 8) 255, js_and n 255]))"

definition MASKS :: "(string \<times> string) list" where
  "MASKS = map (\<lambda>bits. (cidrToMask bits, ''/'' @ dec (int bits))) [4..<31]"

definition seg_ip2int :: "string \<Rightarrow> int option" where
  "seg_ip2int ip =
     (let p = map number_of_str (split_on CHR ''.'' ip); i = num_int32
      in if length p = 4 \<and> list_all (\<lambda>n. num_le (Num 0) n \<and> num_le n (Num 255)) p
         then Some (to_uint32 (js_or (js_or (js_or (js_shl (i (p ! 0)) 24) (js_shl (i (p ! 1)) 16)) (js_shl (i (p ! 2)) 8)) (i (p ! 3))))
         else None)"

definition seg_int2ip :: "int \<Rightarrow> string" where
  "seg_int2ip n = join ''.'' (map dec [js_and (js_ushr n 24) 255, js_and (js_ushr n 16) 255, js_and (js_ushr n 8) 255, js_and n 255])"

definition maskBits :: "string \<Rightarrow> nat" where
  "maskBits m = (case seg_ip2int m of None \<Rightarrow> 24 | Some n \<Rightarrow> leading_ones n 32)"

text \<open>The start of a pool is stored as an offset from the address of the network.\<close>

definition poolStartToAddress :: "string \<Rightarrow> string \<Rightarrow> jsval \<Rightarrow> string" where
  "poolStartToAddress ipaddr netm start =
     (case (seg_ip2int ipaddr, seg_ip2int netm) of
        (Some base, Some m) \<Rightarrow>
          (let net = to_uint32 (js_and base m)
           in seg_int2ip (to_uint32 (net + (case parse_int 10 (to_str start) of Some n \<Rightarrow> n | None \<Rightarrow> 0))))
      | _ \<Rightarrow> [])"

definition addressToPoolStart :: "string \<Rightarrow> string \<Rightarrow> string \<Rightarrow> int option" where
  "addressToPoolStart ipaddr netm addr =
     (case (seg_ip2int ipaddr, seg_ip2int netm, seg_ip2int addr) of
        (Some base, Some m, Some a) \<Rightarrow>
          (let net = to_uint32 (js_and base m) in if net \<le> a then Some (a - net) else None)
      | _ \<Rightarrow> None)"

definition utf8Length :: "string \<Rightarrow> nat" where
  "utf8Length s = sum_list (map (\<lambda>c. if cc c < 128 then 1 else 2) s)"

section \<open>DHCP options\<close>

definition lease_unit :: "string \<Rightarrow> int option" where
  "lease_unit s = (if s = [] \<or> s = ''s'' then Some 1 else if s = ''m'' then Some 60
     else if s = ''h'' then Some 3600 else if s = ''d'' then Some 86400 else None)"

definition parseLeaseSeconds :: "jsval \<Rightarrow> int" where
  "parseLeaseSeconds v =
     (if \<not> truthy v then 43200
      else let s = trim (to_str v); ds = takeWhile is_digit s
           in case lease_unit (dropWhile is_digit s) of
                Some k \<Rightarrow> if ds = [] then 43200 else num_val 10 ds * k
              | None \<Rightarrow> 43200)"

definition dhcp_list :: "jsval \<Rightarrow> jsval list" where
  "dhcp_list dhcpSec =
     (let v = field dhcpSec ''dhcp_option'' in if is_array v then elements v else if truthy v then [v] else [])"

definition read_option :: "string \<times> string list \<Rightarrow> jsval \<Rightarrow> string \<times> string list" where
  "read_option = (\<lambda>(gateway, dns) entry.
     let parts = split_on CHR '','' (to_str entry)
     in (if hd parts = ''3'' \<and> 2 \<le> length parts \<and> parts ! 1 \<noteq> [] then parts ! 1 else gateway,
         if hd parts = ''6'' then tl parts else dns))"

definition parseDhcpOptions :: "jsval \<Rightarrow> jsval list \<times> string \<times> string list" where
  "parseDhcpOptions dhcpSec = (dhcp_list dhcpSec, foldl read_option ([], []) (dhcp_list dhcpSec))"

definition option_code :: "jsval \<Rightarrow> string" where
  "option_code e = hd (split_on CHR '','' (to_str e))"

definition buildDhcpOptionList :: "jsval list \<Rightarrow> string \<Rightarrow> string list \<Rightarrow> jsval list" where
  "buildDhcpOptionList existingList gateway dns =
     (let dnsList = filter (\<lambda>d. d \<noteq> []) dns
      in filter (\<lambda>e. option_code e \<noteq> ''3'' \<and> option_code e \<noteq> ''6'') existingList
         @ (if gateway \<noteq> [] then [JStr (''3,'' @ gateway)] else [])
         @ (if dnsList \<noteq> [] then [JStr (''6,'' @ join '','' dnsList)] else []))"

definition applyDhcpOptions ::
    "'u route_uci \<Rightarrow> string \<Rightarrow> jsval list \<Rightarrow> string \<Rightarrow> string list \<Rightarrow> 'u \<Rightarrow> 'u" where
  "applyDhcpOptions R section existingList gateway dns u =
     (let xs = buildDhcpOptionList existingList gateway dns
      in if xs \<noteq> [] then ru_set R ''dhcp'' section [(''dhcp_option'', JArr xs)] u
         else au_unset (ru_base R) u ''dhcp'' section ''dhcp_option'')"

section \<open>Radios\<close>

definition defaultHtmodeForBand :: "jsval \<Rightarrow> string list \<Rightarrow> string" where
  "defaultHtmodeForBand band htmodes =
     (let preferred = (if band = JStr ''5g''
            then [''HE80'', ''VHT80'', ''HE40'', ''VHT40'', ''HT40'', ''HE20'', ''VHT20'', ''HT20'']
            else [''HE20'', ''HT20'', ''HE40'', ''HT40''])
      in case find (\<lambda>m. m \<in> set htmodes) preferred of Some m \<Rightarrow> m
         | None \<Rightarrow> if htmodes \<noteq> [] then hd htmodes else [])"

text \<open>What the hardware reports: width modes, power steps, channels, and regions with the active one.\<close>

record radio_hw =
  hw_htmodes :: "string list"
  hw_txpower :: "string list"
  hw_channels :: "string list"
  hw_countries :: "(string \<times> bool) list"

record radio_form =
  rf_channel :: string
  rf_htmode :: string
  rf_txpower :: string
  rf_country :: string

definition radio_original :: "jsval \<Rightarrow> radio_hw \<Rightarrow> radio_form" where
  "radio_original radio hw =
     \<lparr>rf_channel = (let c = field radio ''channel'' in if truthy c \<and> c \<noteq> JStr ''auto'' then to_str c else ''auto''),
      rf_htmode = or_text (field radio ''htmode''),
      rf_txpower = (let p = field radio ''txpower'' in if \<not> nullish p then to_str p else []),
      rf_country = (let c = field radio ''country''; active = find snd (hw_countries hw)
        in if truthy c then to_str c
           else case active of Some (code, a) \<Rightarrow> if code \<noteq> [] then code else ''00'' | None \<Rightarrow> ''00'')\<rparr>"

text \<open>The values that are selected when the form is shown, and the options of the four lists.\<close>

definition radio_shown :: "jsval \<Rightarrow> radio_hw \<Rightarrow> radio_form" where
  "radio_shown radio hw =
     (let original = radio_original radio hw
      in original\<lparr>rf_htmode := (if rf_htmode original \<noteq> [] then rf_htmode original
           else defaultHtmodeForBand (field radio ''band'') (hw_htmodes hw))\<rparr>)"

definition channel_values :: "radio_hw \<Rightarrow> string \<Rightarrow> string list" where
  "channel_values hw current = ''auto'' # hw_channels hw
     @ (if current \<noteq> ''auto'' \<and> current \<notin> set (hw_channels hw) then [current] else [])"

definition htmode_values :: "radio_hw \<Rightarrow> string \<Rightarrow> string list" where
  "htmode_values hw current =
     (let xs = hw_htmodes hw @ (if current \<noteq> [] \<and> current \<notin> set (hw_htmodes hw) then [current] else [])
      in if xs = [] then [[]] else xs)"

definition txpower_values :: "radio_hw \<Rightarrow> string \<Rightarrow> string list" where
  "txpower_values hw current = [] # hw_txpower hw
     @ (if current \<notin> set (hw_txpower hw) \<and> current \<noteq> [] then [current] else [])"

definition country_values :: "radio_hw \<Rightarrow> string \<Rightarrow> string list" where
  "country_values hw current = ''00'' # map fst (hw_countries hw)
     @ (if current \<notin> set (map fst (hw_countries hw)) \<and> current \<noteq> ''00'' then [current] else [])"

section \<open>Wi-Fi cards\<close>

text \<open>A card of the form; \<open>wc_link\<close> is there when the card can follow another one: is it checked, and
  the name, security and password of the other card.\<close>

record wifi_card =
  wc_band :: string
  wc_radio :: string
  wc_section :: string
  wc_enabled :: bool
  wc_ssid :: string
  wc_security :: string
  wc_key :: string
  wc_shown :: radio_form
  wc_original :: radio_form
  wc_link :: "(bool \<times> string \<times> string \<times> string) option"

definition effectiveWifi :: "wifi_card \<Rightarrow> string \<times> string \<times> string" where
  "effectiveWifi c =
     (case wc_link c of
        Some (True, ssid, enc, key) \<Rightarrow> (trim ssid, enc, key)
      | _ \<Rightarrow> (trim (wc_ssid c), wc_security c, wc_key c))"

definition wifi_card_of :: "jsval \<Rightarrow> jsval \<Rightarrow> radio_hw \<Rightarrow> wifi_card" where
  "wifi_card_of radio iface hw =
     (let configured = truthy iface; one = JStr ''1'';
          disabled = (if configured then field iface ''disabled'' = one \<or> field radio ''disabled'' = one else True)
      in \<lparr>wc_band = (if field radio ''band'' = JStr ''5g'' then ''5 GHz'' else ''2.4 GHz''),
          wc_radio = to_str (field radio ''.name''), wc_section = (if configured then to_str (field iface ''.name'') else []),
          wc_enabled = configured \<and> \<not> disabled, wc_ssid = or_text (field iface ''ssid''),
          wc_security = to_str (or_else (field iface ''encryption'') (JStr ''psk2'')), wc_key = or_text (field iface ''key''),
          wc_shown = radio_shown radio hw, wc_original = radio_original radio hw, wc_link = None\<rparr>)"

definition linkWifiCard :: "wifi_card \<Rightarrow> wifi_card \<Rightarrow> wifi_card" where
  "linkWifiCard secondary primary =
     secondary\<lparr>wc_link := Some (wc_ssid primary \<noteq> [] \<and> wc_ssid secondary = wc_ssid primary
         \<and> wc_security secondary = wc_security primary \<and> wc_key secondary = wc_key primary,
       wc_ssid primary, wc_security primary, wc_key primary)\<rparr>"

definition link_cards :: "wifi_card list \<Rightarrow> wifi_card list" where
  "link_cards cs =
     (let on = (\<lambda>band. filter (\<lambda>i. wc_band (cs ! i) = band) [0..<length cs])
      in case (on ''2.4 GHz'', on ''5 GHz'') of
           (i # _, j # _) \<Rightarrow> cs[j := linkWifiCard (cs ! j) (cs ! i)]
         | _ \<Rightarrow> cs)"

section \<open>The form of a segment\<close>

record seg_form =
  sf_label :: string
  sf_mdns :: bool
  sf_ipv4 :: bool
  sf_ipaddr :: string
  sf_netmask :: string
  sf_dhcpOn :: bool
  sf_start :: string
  sf_limit :: string
  sf_lease :: string
  sf_gateway :: string
  sf_dns1 :: string
  sf_dns2 :: string
  sf_existing :: "jsval list"
  sf_cards :: "wifi_card list"

definition raw_address :: "jsval \<Rightarrow> jsval" where
  "raw_address net = (let a = field net ''ipaddr'' in if is_array a then (if elements a = [] then JUndef else hd (elements a)) else a)"

text \<open>The address without the prefix behind a slash, and the mask.\<close>

definition net_address :: "jsval \<Rightarrow> jsval \<times> string" where
  "net_address net =
     (let raw = raw_address net; m = or_text (field net ''netmask''); parts = split_on CHR ''/'' (to_str raw)
      in if truthy raw \<and> 2 \<le> length parts
         then (JStr (hd parts), if m \<noteq> [] then m
               else case find (\<lambda>p. snd p = ''/'' @ parts ! 1) MASKS of Some p \<Rightarrow> fst p | None \<Rightarrow> ''255.255.255.0'')
         else (raw, if m \<noteq> [] then m else ''255.255.255.0''))"

text \<open>A list without a selected option shows its first.\<close>

definition shown_mask :: "string \<Rightarrow> string" where
  "shown_mask m = (if m \<in> fst ` set MASKS then m else fst (hd MASKS))"

definition nth_text :: "string list \<Rightarrow> nat \<Rightarrow> string" where
  "nth_text xs i = (if i < length xs then xs ! i else [])"

definition segment_ifaces :: "string \<Rightarrow> bool \<Rightarrow> jsval \<Rightarrow> jsval list" where
  "segment_ifaces ifaceName isGuest wireless =
     filter (\<lambda>s. field s ''.type'' = JStr ''wifi-iface'' \<and> or_else (field s ''mode'') (JStr ''ap'') = JStr ''ap''
         \<and> (or_else (field s ''network'') (JStr ''lan'') = JStr ifaceName \<or> isGuest \<and> field s ''network'' = JStr ''guest''))
       (map snd (properties wireless))"

definition segment_cards :: "string \<Rightarrow> bool \<Rightarrow> (string \<Rightarrow> radio_hw) \<Rightarrow> jsval \<Rightarrow> wifi_card list" where
  "segment_cards ifaceName isGuest radioAdv wireless =
     (let radios = filter (\<lambda>s. field s ''.type'' = JStr ''wifi-device'') (map snd (properties wireless))
      in link_cards (map (\<lambda>radio. wifi_card_of radio
           (case find (\<lambda>i. field i ''device'' = field radio ''.name'') (segment_ifaces ifaceName isGuest wireless) of
              Some i \<Rightarrow> i | None \<Rightarrow> JUndef)
           (radioAdv (to_str (field radio ''.name'')))) radios))"

definition segment_form ::
    "string \<Rightarrow> string \<Rightarrow> bool \<times> bool \<Rightarrow> (string \<Rightarrow> radio_hw) \<Rightarrow> jsval \<Rightarrow> jsval \<Rightarrow> jsval \<Rightarrow> seg_form" where
  "segment_form kind ifaceName mdns radioAdv wireless net dhcpSec =
     (let isGuest = (kind = ''guest''); (raw, m) = net_address net;
          baseIp = (if truthy raw then to_str raw else if isGuest then ''192.168.3.1'' else ''192.168.1.1'');
          (existing, gateway, dns) = parseDhcpOptions dhcpSec; start = field dhcpSec ''start''
      in \<lparr>sf_label = to_str (or_else (field net ''label'') (JStr (if isGuest then ''Guest network'' else ''Home network''))),
          sf_mdns = fst mdns \<and> snd mdns,
          sf_ipv4 = (\<not> truthy (field net ''.type'') \<or> field net ''proto'' \<noteq> JStr ''none'' \<and> seg_ip2int (or_text raw) \<noteq> None),
          sf_ipaddr = baseIp, sf_netmask = shown_mask m, sf_dhcpOn = (field dhcpSec ''ignore'' \<noteq> JStr ''1''),
          sf_start = poolStartToAddress baseIp m (if \<not> nullish start then start else JNum (num_of_int 100)),
          sf_limit = to_str (or_else (field dhcpSec ''limit'') (JStr ''150'')),
          sf_lease = dec (parseLeaseSeconds (field dhcpSec ''leasetime'')),
          sf_gateway = gateway, sf_dns1 = nth_text dns 0, sf_dns2 = nth_text dns 1, sf_existing = existing,
          sf_cards = segment_cards ifaceName isGuest radioAdv wireless\<rparr>)"

record seg_opts =
  so_label :: string
  so_mdns :: bool
  so_ipv4 :: bool
  so_ipaddr :: string
  so_netmask :: string
  so_dhcpOn :: bool
  so_start :: "int option"
  so_limit :: string
  so_lease :: string
  so_gateway :: string
  so_dns :: "string list"
  so_existing :: "jsval list"
  so_cards :: "wifi_card list"

definition seg_opts_of :: "seg_form \<Rightarrow> seg_opts" where
  "seg_opts_of f =
     \<lparr>so_label = trim (sf_label f), so_mdns = sf_mdns f, so_ipv4 = sf_ipv4 f, so_ipaddr = trim (sf_ipaddr f),
      so_netmask = sf_netmask f, so_dhcpOn = sf_dhcpOn f,
      so_start = addressToPoolStart (trim (sf_ipaddr f)) (sf_netmask f) (trim (sf_start f)),
      so_limit = trim (sf_limit f), so_lease = trim (sf_lease f), so_gateway = trim (sf_gateway f),
      so_dns = [trim (sf_dns1 f), trim (sf_dns2 f)], so_existing = sf_existing f, so_cards = sf_cards f\<rparr>"

end
