(* ===== verification/Segments_Save.thy ===== *)
theory Segments_Save
  imports Segments
begin

text \<open>
  Saving and deleting a segment (\<open>saveSegment\<close> and \<open>deleteGuestSegment\<close> of
  \<open>view/network/freenetic-mynetworks.js\<close>).  An exception of the ownership checks of
  \<open>Guest_Network\<close> stops the edit and leaves the store as it is then.
\<close>

section \<open>The checks\<close>

definition supportedSecurity :: "string list" where
  "supportedSecurity = [''none'', ''psk2'', ''sae'', ''sae-mixed'']"

definition wifi_key :: "string \<Rightarrow> bool" where
  "wifi_key key \<longleftrightarrow> 8 \<le> length key \<and> length key \<le> 63 \<or> length key = 64 \<and> list_all is_xdigit key"

definition card_warning :: "wifi_card \<Rightarrow> string option" where
  "card_warning c =
     (if \<not> wc_enabled c then None
      else let (ssid, enc, key) = effectiveWifi c
           in if ssid = [] then Some ''Please enter a network name (SSID).''
              else if 32 < utf8Length ssid then Some ''A Wi-Fi network name must not exceed 32 bytes.''
              else if enc \<in> set supportedSecurity \<and> enc \<noteq> ''none'' \<and> \<not> wifi_key key
              then Some (''A Wi-Fi password must contain 8'' @ en_dash @ ''63 characters, or exactly 64 hexadecimal characters.'')
              else None)"

text \<open>The pool check; a size that is no list of digits has no last address, and \<open>null\<close> compares as 0.\<close>

definition pool_last :: "int \<Rightarrow> string \<Rightarrow> int option" where
  "pool_last first limit =
     (if \<not> all_digits limit \<or> \<not> is_integer (number_of_str limit) then None
      else Some (first + int_of (number_of_str limit) - 1))"

definition pool_refused :: "seg_opts \<Rightarrow> bool" where
  "pool_refused opts =
     (case (seg_ip2int (so_ipaddr opts), seg_ip2int (so_netmask opts), so_start opts) of
        (Some address, Some m, Some start) \<Rightarrow>
          (let network = to_uint32 (js_and address m);
               broadcast = to_uint32 (js_or network (to_uint32 (- m - 1)));
               first = network + start;
               last = (case pool_last first (so_limit opts) of Some l \<Rightarrow> l | None \<Rightarrow> 0)
           in num_less (number_of_str (so_limit opts)) (Num 1) \<or> first \<le> network \<or> broadcast \<le> last
              \<or> first \<le> address \<and> address \<le> last)
      | _ \<Rightarrow> True)"

definition lease_refused :: "string \<Rightarrow> bool" where
  "lease_refused lease \<longleftrightarrow> \<not> all_digits lease \<or> num_less (number_of_str lease) (Num 60)
     \<or> num_less (Num 2147483647) (number_of_str lease)"

definition ipv4_warning :: "seg_opts \<Rightarrow> string option" where
  "ipv4_warning opts =
     (let bad = (\<lambda>v. v \<noteq> [] \<and> \<not> validIPv4 (JStr v))
      in if \<not> so_ipv4 opts then None
         else if \<not> validIPv4 (JStr (so_ipaddr opts)) \<or> \<not> validIPv4Netmask (JStr (so_netmask opts))
         then Some ''Enter a valid IPv4 address and subnet mask.''
         else if bad (so_gateway opts) \<or> list_ex bad (so_dns opts)
         then Some ''Gateway and DNS servers must be valid IPv4 addresses.''
         else if pool_refused opts
         then Some ''The DHCP pool must stay inside the subnet, exclude the router address, and contain at least one address.''
         else if lease_refused (so_lease opts)
         then Some ''Lease time must be between 60 and 2147483647 seconds.'' else None)"

definition segment_warning :: "seg_opts \<Rightarrow> string option" where
  "segment_warning opts =
     (case List.map_filter card_warning (so_cards opts) of
        w # _ \<Rightarrow> Some w | [] \<Rightarrow> ipv4_warning opts)"

section \<open>Edits of the network\<close>

text \<open>A step that can throw, and what follows when it did not.\<close>

definition then_step :: "'u \<times> string option \<Rightarrow> ('u \<Rightarrow> 'u \<times> string option) \<Rightarrow> 'u \<times> string option" where
  "then_step r g = (case snd r of None \<Rightarrow> g (fst r) | Some e \<Rightarrow> r)"

text \<open>\<open>uci.get(config, section, option) != null\<close>, and the marker of the program.\<close>

definition has_option :: "'u route_uci \<Rightarrow> 'u \<Rightarrow> string \<Rightarrow> string \<Rightarrow> string \<Rightarrow> bool" where
  "has_option R u c n k \<longleftrightarrow> \<not> nullish (field (au_get (ru_base R) u c n) k)"

definition owned :: "'u route_uci \<Rightarrow> 'u \<Rightarrow> string \<Rightarrow> string \<Rightarrow> bool" where
  "owned R u c n \<longleftrightarrow> field (au_get (ru_base R) u c n) ''freenetic_managed'' = JStr ''1''"

definition dhcp_values :: "seg_opts \<Rightarrow> (string \<times> jsval) list" where
  "dhcp_values opts =
     [(''start'', JStr (case so_start opts of Some s \<Rightarrow> num_str (num_of_int s) | None \<Rightarrow> ''null'')),
      (''limit'', JStr (so_limit opts)), (''leasetime'', JStr (so_lease opts)),
      (''ignore'', JStr (if so_dhcpOn opts then ''0'' else ''1''))]"

definition write_dhcp :: "'u route_uci \<Rightarrow> string \<Rightarrow> seg_opts \<Rightarrow> 'u \<Rightarrow> 'u" where
  "write_dhcp R section opts u =
     applyDhcpOptions R section (so_existing opts) (so_gateway opts) (so_dns opts)
       (ru_set R ''dhcp'' section (dhcp_values opts) u)"

text \<open>Without IPv4 the address goes, and the server of the segment stops.\<close>

definition no_address :: "'u route_uci \<Rightarrow> string \<Rightarrow> 'u \<Rightarrow> 'u" where
  "no_address R n u =
     (let u = au_unset (ru_base R) (ru_set R ''network'' n [(''proto'', JStr ''none'')] u) ''network'' n ''ipaddr'';
          u = au_unset (ru_base R) u ''network'' n ''netmask''
      in if has_option R u ''dhcp'' n ''interface'' then ru_set R ''dhcp'' n [(''ignore'', JStr ''1'')] u else u)"

definition set_label :: "'u route_uci \<Rightarrow> string \<Rightarrow> seg_opts \<Rightarrow> 'u \<Rightarrow> 'u" where
  "set_label R n opts u =
     (if has_option R u ''network'' n ''proto'' then ru_set R ''network'' n [(''label'', JStr (so_label opts))] u else u)"

definition home_network :: "'u route_uci \<Rightarrow> string \<Rightarrow> seg_opts \<Rightarrow> 'u \<Rightarrow> 'u" where
  "home_network R n opts u =
     (if so_ipv4 opts
      then let u = (if field (au_get (ru_base R) u ''network'' n) ''proto'' = JStr ''none''
                 then ru_set R ''network'' n [(''proto'', JStr ''static'')] u else u);
               u = ru_set R ''network'' n [(''ipaddr'', JStr (so_ipaddr opts)), (''netmask'', JStr (so_netmask opts))] u
           in if has_option R u ''dhcp'' n ''interface'' then write_dhcp R n opts u else u
      else no_address R n u)"

definition guest_bridge :: "'u route_uci \<Rightarrow> 'u \<Rightarrow> 'u" where
  "guest_bridge R u =
     (if list_ex (\<lambda>s. field s ''name'' = JStr ''br-guest'') (ru_sections R u ''network'' ''device'') then u
      else let (sid, u) = ru_add R ''network'' ''device'' u
           in ru_set R ''network'' sid [(''name'', JStr ''br-guest''), (''type'', JStr ''bridge''),
                (''bridge_empty'', JStr ''1''), (''freenetic_managed'', JStr ''1'')] u)"

definition guest_interface :: "'u route_uci \<Rightarrow> seg_opts \<Rightarrow> 'u \<Rightarrow> 'u" where
  "guest_interface R opts u =
     (let u = (if has_option R u ''network'' ''guest'' ''proto'' then u
            else named_add R ''network'' ''interface'' ''guest''
              [(''proto'', JStr (if so_ipv4 opts then ''static'' else ''none'')), (''device'', JStr ''br-guest''),
               (''label'', JStr (so_label opts)), (''freenetic_managed'', JStr ''1'')] u)
      in if so_ipv4 opts
         then ru_set R ''network'' ''guest'' [(''proto'', JStr ''static''), (''ipaddr'', JStr (so_ipaddr opts)),
                (''netmask'', JStr (so_netmask opts))] u
         else no_address R ''guest'' u)"

definition guest_dhcp :: "'u route_uci \<Rightarrow> seg_opts \<Rightarrow> 'u \<Rightarrow> 'u" where
  "guest_dhcp R opts u =
     (if \<not> so_ipv4 opts then u
      else write_dhcp R ''guest'' opts
        (if has_option R u ''dhcp'' ''guest'' ''interface'' then u
         else named_add R ''dhcp'' ''dhcp'' ''guest''
           [(''interface'', JStr ''guest''), (''dhcpv4'', JStr ''server''), (''freenetic_managed'', JStr ''1'')] u))"

definition guest_zone :: "'u route_uci \<Rightarrow> 'u \<Rightarrow> 'u" where
  "guest_zone R u =
     (if \<not> nullish (au_get (ru_base R) u ''firewall'' ''guest'') then u
      else named_add R ''firewall'' ''zone'' ''guest''
        [(''name'', JStr ''guest''), (''network'', JStr ''guest''), (''output'', JStr ''ACCEPT''),
         (''forward'', JStr ''REJECT''), (''freenetic_managed'', JStr ''1'')] u)"

definition guest_forwarding :: "'u route_uci \<Rightarrow> 'u \<Rightarrow> 'u" where
  "guest_forwarding R u =
     (if \<not> nullish (au_get (ru_base R) u ''firewall'' ''guest_wan_fwd'') then u
      else named_add R ''firewall'' ''forwarding'' ''guest_wan_fwd''
        [(''src'', JStr ''guest''), (''dest'', JStr ''wan''), (''freenetic_managed'', JStr ''1'')] u)"

definition any_enabled :: "seg_opts \<Rightarrow> bool" where
  "any_enabled opts \<longleftrightarrow> list_ex wc_enabled (so_cards opts)"

definition guest_network :: "'u route_uci \<Rightarrow> seg_opts \<Rightarrow> 'u \<Rightarrow> 'u \<times> string option" where
  "guest_network R opts u =
     (if \<not> any_enabled opts then (u, None)
      else then_step (ensureGuestFirewall (au_base (ru_base R))
             (guest_zone R (guest_dhcp R opts (guest_interface R opts (guest_bridge R u)))))
             (\<lambda>u. (guest_forwarding R u, None)))"

section \<open>Edits of the Wi-Fi\<close>

definition writeOptionalRadioSetting :: "'u route_uci \<Rightarrow> string \<Rightarrow> string \<Rightarrow> string \<Rightarrow> string \<Rightarrow> 'u \<Rightarrow> 'u" where
  "writeOptionalRadioSetting R radioName option v originalValue u =
     (if v = originalValue then u
      else if v = [] then au_unset (ru_base R) u ''wireless'' radioName option
      else ru_set R ''wireless'' radioName [(option, JStr v)] u)"

definition write_radio :: "'u route_uci \<Rightarrow> string \<Rightarrow> radio_form \<Rightarrow> radio_form \<Rightarrow> 'u \<Rightarrow> 'u" where
  "write_radio R radioName shown original u =
     (let put = (\<lambda>k v u. ru_set R ''wireless'' radioName [(k, JStr v)] u);
          u = (if rf_channel shown \<noteq> rf_channel original then put ''channel'' (rf_channel shown) u else u);
          u = (if rf_htmode shown \<noteq> [] \<and> rf_htmode shown \<noteq> rf_htmode original then put ''htmode'' (rf_htmode shown) u else u);
          u = writeOptionalRadioSetting R radioName ''txpower'' (rf_txpower shown) (rf_txpower original) u
      in if rf_country shown = rf_country original then u
         else if rf_country shown \<noteq> ''00'' then put ''country'' (rf_country shown) u
         else au_unset (ru_base R) u ''wireless'' radioName ''country'')"

definition write_wifi :: "'u route_uci \<Rightarrow> string \<Rightarrow> string \<Rightarrow> string \<times> string \<times> string \<Rightarrow> 'u \<Rightarrow> 'u" where
  "write_wifi R radioName n = (\<lambda>(ssid, enc, key) u.
     let u = ru_set R ''wireless'' radioName [(''disabled'', JStr ''0'')] u;
         u = ru_set R ''wireless'' n [(''disabled'', JStr ''0''), (''ssid'', JStr ssid)] u
     in if enc \<notin> set supportedSecurity then u
        else let u = ru_set R ''wireless'' n [(''encryption'', JStr enc)] u
             in if enc \<noteq> ''none'' then ru_set R ''wireless'' n [(''key'', JStr key)] u
                else au_unset (ru_base R) u ''wireless'' n ''key'')"

definition fallback_name :: "bool \<Rightarrow> wifi_card \<Rightarrow> string" where
  "fallback_name isGuest c = (if isGuest then ''guest_'' else ''default_'') @ wc_radio c"

definition card_name :: "bool \<Rightarrow> wifi_card \<Rightarrow> string" where
  "card_name isGuest c = (if wc_section c \<noteq> [] then wc_section c else fallback_name isGuest c)"

definition ensure_card :: "'u route_uci \<Rightarrow> string \<Rightarrow> wifi_card \<Rightarrow> 'u \<Rightarrow> 'u \<times> string option" where
  "ensure_card R ifaceName c u =
     (let (u, r) = ensureGuestWifi (au_base (ru_base R)) (card_name True c) (JStr (wc_radio c)) (JStr ifaceName) u
      in (u, case r of Inl e \<Rightarrow> Some e | Inr n \<Rightarrow> None))"

definition guest_named :: "bool \<Rightarrow> wifi_card \<Rightarrow> bool" where
  "guest_named isGuest c \<longleftrightarrow> isGuest \<and> card_name isGuest c = fallback_name isGuest c"

definition write_card :: "'u route_uci \<Rightarrow> bool \<Rightarrow> string \<Rightarrow> wifi_card \<Rightarrow> 'u \<Rightarrow> 'u \<times> string option" where
  "write_card R isGuest ifaceName c u =
     (let n = card_name isGuest c; put = write_wifi R (wc_radio c) n (effectiveWifi c)
      in if \<not> wc_enabled c
         then (if has_option R u ''wireless'' n ''device'' then ru_set R ''wireless'' n [(''disabled'', JStr ''1'')] u else u, None)
         else if guest_named isGuest c then then_step (ensure_card R ifaceName c u) (\<lambda>u. (put u, None))
         else (put (if has_option R u ''wireless'' n ''device'' then u
                 else named_add R ''wireless'' ''wifi-iface'' n [(''device'', JStr (wc_radio c)), (''mode'', JStr ''ap''),
                   (''network'', JStr ifaceName)] u), None))"

definition save_card :: "'u route_uci \<Rightarrow> bool \<Rightarrow> string \<Rightarrow> wifi_card \<Rightarrow> 'u \<Rightarrow> 'u \<times> string option" where
  "save_card R isGuest ifaceName c u =
     (let u = write_radio R (wc_radio c) (wc_shown c) (wc_original c) u
      in then_step (if guest_named isGuest c \<and> \<not> nullish (au_get (ru_base R) u ''wireless'' (card_name isGuest c))
                    then ensure_card R ifaceName c u else (u, None))
           (write_card R isGuest ifaceName c))"

section \<open>The handlers\<close>

definition edit_segment :: "'u route_uci \<Rightarrow> bool \<Rightarrow> string \<Rightarrow> seg_opts \<Rightarrow> 'u \<Rightarrow> 'u \<times> string option" where
  "edit_segment R isGuest ifaceName opts u =
     (let U = au_base (ru_base R); cards = for_each (save_card R isGuest ifaceName) (so_cards opts)
      in if \<not> isGuest then cards (home_network R ifaceName opts (set_label R ifaceName opts u))
         else then_step (u, assertGuestFirewallOwnership U u)
           (\<lambda>u. then_step (guest_network R opts (set_label R ifaceName opts (adoptLegacyGuest U u))) cards))"

text \<open>What follows a change that is applied: the first service that fails is reported.\<close>

definition then_service :: "string option \<Rightarrow> 'u save_result \<Rightarrow> 'u save_result" where
  "then_service e r =
     (case e of
        Some m \<Rightarrow> if sr_refreshed r then r\<lparr>sr_notices := [(''danger'', ''Failed to save: '' @ m)], sr_refreshed := False\<rparr> else r
      | None \<Rightarrow> r)"

record seg_services =
  ss_base :: acl_services
  ss_confirmed :: bool
  ss_avahi :: bool
  ss_mdns :: bool
  ss_reflector :: "string option"
  ss_ifup :: "string option"

definition saveSegment ::
    "'u route_uci \<Rightarrow> seg_services \<Rightarrow> string \<Rightarrow> string \<Rightarrow> seg_opts \<Rightarrow> 'u \<Rightarrow> 'u save_result" where
  "saveSegment R ss kind ifaceName opts u =
     (let isGuest = (kind = ''guest'')
      in case segment_warning opts of
           Some w \<Rightarrow> warn u w
         | None \<Rightarrow>
             if \<not> isGuest \<and> \<not> so_ipv4 opts \<and> \<not> ss_confirmed ss then nothing u
             else then_service (if isGuest \<and> any_enabled opts then ss_ifup ss else None)
                    (then_service (if ss_avahi ss \<and> so_mdns opts \<noteq> ss_mdns ss then ss_reflector ss else None)
                      (run_save (ss_base ss) False (edit_segment R isGuest ifaceName opts) ''Failed to save: '' [] ''Settings saved.'' u)))"

definition remove_owned :: "'u route_uci \<Rightarrow> string \<Rightarrow> string \<Rightarrow> 'u \<Rightarrow> 'u" where
  "remove_owned R c n u = (if owned R u c n then au_remove (ru_base R) c n u else u)"

definition delete_guest :: "'u route_uci \<Rightarrow> 'u \<Rightarrow> 'u" where
  "delete_guest R u =
     (let u = foldl (\<lambda>u s. if isManaged s \<and> field s ''network'' = JStr ''guest''
              then au_remove (ru_base R) ''wireless'' (to_str (field s ''.name'')) u else u)
            u (ru_sections R u ''wireless'' ''wifi-iface'');
          u = remove_owned R ''dhcp'' ''guest'' u;
          u = removeGuestFirewallRules (au_base (ru_base R)) u;
          u = remove_owned R ''firewall'' ''guest_wan_fwd'' u;
          u = remove_owned R ''firewall'' ''guest'' u;
          u = remove_owned R ''network'' ''guest'' u
      in case find (\<lambda>s. field s ''name'' = JStr ''br-guest'' \<and> field s ''freenetic_managed'' = JStr ''1'')
                (ru_sections R u ''network'' ''device'') of
           Some s \<Rightarrow> au_remove (ru_base R) ''network'' (to_str (field s ''.name'')) u
         | None \<Rightarrow> u)"

definition deleteGuestSegment :: "'u route_uci \<Rightarrow> seg_services \<Rightarrow> 'u \<Rightarrow> 'u save_result" where
  "deleteGuestSegment R ss u =
     (if \<not> ss_confirmed ss then nothing u
      else run_save (ss_base ss) False (\<lambda>u. (delete_guest R u, None)) ''Failed to delete: '' [] ''Guest network deleted.'' u)"

end
