(* ===== verification/Segments_Pool.thy ===== *)
theory Segments_Pool
  imports Segments_Save Dashboard_Properties Routing_Edit
begin

text \<open>
  The addresses of a segment: masks, the pool of the DHCP server, and what the checks of the form give.
\<close>

section \<open>Addresses and masks\<close>

lemma js_and_255: "js_and x 255 = x mod 256"
proof -
  have m: "bit (255 :: int) i \<longleftrightarrow> i < 8" for i
    using bit_mask_iff [of 8 i, where ?'a = int] by (simp add: mask_eq_exp_minus_1)
  have "js_and x 255 = x AND 255"
    by (rule bit_eqI) (auto simp: js_and_def bit_and_iff bit_to_int32 m min_def)
  also have "\<dots> = x mod 256"
    using take_bit_eq_mask [of 8 x] by (simp add: mask_eq_exp_minus_1 take_bit_eq_mod)
  finally show ?thesis .
qed

lemma seg_int2ip_dotted:
  assumes "ipv4 n"
  shows "seg_int2ip n = dotted n"
proof -
  have "js_ushr n k = n div 2 ^ k" if "k < 32" for k
    using assms that by (simp add: js_ushr_less to_uint32_id ipv4_def drop_bit_eq_div)
  moreover have "n div 2 ^ 24 mod 256 = n div 2 ^ 24"
    using octets_range [OF assms, of "n div 2 ^ 24"] by (intro mod_pos_pos_trivial) (simp_all add: octets_def)
  ultimately show ?thesis unfolding seg_int2ip_def dotted_def octets_def js_and_255 by simp
qed

lemma ipv4_uint32: "ipv4 (to_uint32 n)"
  using to_uint32_range [of n] by (simp add: ipv4_def)

lemma seg_ip2int_range: "seg_ip2int s = Some n \<Longrightarrow> ipv4 n"
  by (auto simp: seg_ip2int_def Let_def ipv4_uint32 split: if_splits)

lemma seg_ip2int_dotted:
  assumes "ipv4 n"
  shows "seg_ip2int (dotted n) = Some n"
proof -
  have p: "map number_of_str (split_on CHR ''.'' (dotted n)) = map num_of_int (octets n)"
    unfolding split_dotted [OF assms] map_map comp_def
    using octets_range [OF assms] number_of_octet by (intro map_cong) auto
  have int32: "num_int32 (num_of_int x) = x" if "x \<in> set (octets n)" for x
    using octets_range [OF assms that] by (simp add: num_int32_def num_of_int_def to_int32_id)
  have len: "length (octets n) = 4" by (simp add: octets_def)
  have nth: "num_int32 (map num_of_int (octets n) ! i) = octets n ! i" if "i < 4" for i
    using that len int32 [OF nth_mem, of i] by simp
  have ints: "num_int32 (map num_of_int (octets n) ! 0) = n div 2 ^ 24" "num_int32 (map num_of_int (octets n) ! 1) = n div 2 ^ 16 mod 256"
    "num_int32 (map num_of_int (octets n) ! 2) = n div 2 ^ 8 mod 256" "num_int32 (map num_of_int (octets n) ! 3) = n mod 256"
    by (rule trans [OF nth], simp, simp add: octets_def)+
  have ok: "length (map num_of_int (octets n)) = 4 \<and> list_all (\<lambda>n. num_le (Num 0) n \<and> num_le n (Num 255)) (map num_of_int (octets n))"
    using octets_range [OF assms] len by (simp add: list_all_iff)
  show ?thesis unfolding seg_ip2int_def Let_def p ints ipv4_value [OF assms] if_P [OF ok] by (rule refl)
qed

lemma mask_value:
  assumes "p \<le> 32"
  shows "seg_ip2int (cidrToMask p) = Some (if p = 0 then 0 else to_uint32 (js_shl 0xffffffff (32 - p)))"
proof -
  have "cidrToMask p = seg_int2ip (if p = 0 then 0 else to_uint32 (js_shl 0xffffffff (32 - p)))"
    by (simp add: cidrToMask_def seg_int2ip_def Let_def)
  moreover have "ipv4 (if p = 0 then 0 else to_uint32 (js_shl 0xffffffff (32 - p)))" by (simp add: ipv4_uint32) (simp add: ipv4_def)
  ultimately show ?thesis by (simp only: seg_int2ip_dotted seg_ip2int_dotted)
qed

text \<open>The network and the broadcast address.\<close>

lemma segment_network:
  assumes "ipv4 a" "p \<le> 32" "seg_ip2int (cidrToMask p) = Some m"
  shows "to_uint32 (js_and a m) = a div 2 ^ (32 - p) * 2 ^ (32 - p)"
proof -
  have "m = (if int p = 0 then 0 else to_uint32 (js_shl 0xffffffff (nat (32 - int p))))"
    using assms(2,3) mask_value [OF assms(2)] by (auto simp: nat_diff_distrib')
  then show ?thesis using ipv4_mask [OF assms(1), of "int p"] assms(2) by (simp add: nat_diff_distrib')
qed

lemma segment_broadcast:
  assumes "ipv4 a" "p \<le> 32" "seg_ip2int (cidrToMask p) = Some m"
  defines "net \<equiv> a div 2 ^ (32 - p) * 2 ^ (32 - p)"
  shows "to_uint32 (js_or net (to_uint32 (- m - 1))) = net + 2 ^ (32 - p) - 1"
proof -
  define k where "k = 32 - p"
  have k: "k \<le> 32" by (simp add: k_def)
  have ones: "bit (0xffffffff :: int) j \<longleftrightarrow> j < 32" for j
    using bit_mask_iff [of 32 j, where ?'a = int] by (simp add: mask_eq_exp_minus_1)
  have m: "m = (if p = 0 then 0 else to_uint32 (js_shl 0xffffffff k))"
    using trans [OF assms(3) [symmetric] mask_value [OF assms(2)]] unfolding option.inject k_def .
  have mbit: "bit m i \<longleftrightarrow> k \<le> i \<and> i < 32" for i
    unfolding m using assms(2) by (auto simp: bit_to_uint32 to_uint32_shl bit_push_bit_iff ones k_def)
  have net: "net = push_bit k (drop_bit k a)" by (simp add: net_def k_def push_bit_eq_mult drop_bit_eq_div)
  have "a = take_bit 32 a" using assms(1) by (simp add: ipv4_def take_bit_int_eq_self)
  then have high: "bit a i \<Longrightarrow> i < 32" for i by (metis bit_take_bit_iff)
  have "to_uint32 (js_or net (to_uint32 (- m - 1))) = net OR mask k"
  proof (rule bit_eqI)
    fix i
    have "bit (- m - 1) i \<longleftrightarrow> \<not> bit m i" using bit_not_int_iff' [of m i] by simp
    then show "bit (to_uint32 (js_or net (to_uint32 (- m - 1)))) i = bit (net OR mask k) i"
      unfolding to_uint32_or using k high [of i]
      by (auto simp: bit_or_iff bit_to_uint32 mbit bit_mask_iff net bit_push_bit_iff bit_drop_bit_eq)
  qed
  also have "\<dots> = net + mask k"
  proof (rule disjunctive_add [symmetric])
    show "\<not> bit net i \<or> \<not> bit (mask k :: int) i" for i by (auto simp: net bit_push_bit_iff bit_mask_iff)
  qed
  finally show ?thesis by (simp add: mask_eq_exp_minus_1 k_def)
qed

section \<open>The pool\<close>

lemma pool_checked:
  assumes ok: "\<not> pool_refused opts" and m: "so_netmask opts = cidrToMask p" "p \<le> 32"
    and limit: "all_digits (so_limit opts)" "length (so_limit opts) \<le> 300"
  obtains a s where "seg_ip2int (so_ipaddr opts) = Some a" "so_start opts = Some s" "0 < s" "1 \<le> num_val 10 (so_limit opts)"
    "a div 2 ^ (32 - p) * 2 ^ (32 - p) + s + num_val 10 (so_limit opts) - 1 < a div 2 ^ (32 - p) * 2 ^ (32 - p) + 2 ^ (32 - p) - 1"
    "\<not> (a div 2 ^ (32 - p) * 2 ^ (32 - p) + s \<le> a \<and> a \<le> a div 2 ^ (32 - p) * 2 ^ (32 - p) + s + num_val 10 (so_limit opts) - 1)"
proof -
  obtain a where a: "seg_ip2int (so_ipaddr opts) = Some a" using ok by (auto simp: pool_refused_def split: option.splits)
  obtain w where w: "seg_ip2int (so_netmask opts) = Some w" using mask_value [OF m(2)] m(1) by simp
  obtain s where s: "so_start opts = Some s" using ok a w by (auto simp: pool_refused_def split: option.splits)
  have range: "ipv4 a" using seg_ip2int_range [OF a] .
  note net = segment_network [OF range m(2) w [unfolded m(1)]] segment_broadcast [OF range m(2) w [unfolded m(1)]]
  have n: "number_of_str (so_limit opts) = num_of_int (num_val 10 (so_limit opts))" using number_of_digits [OF limit] .
  have last: "pool_last first (so_limit opts) = Some (first + num_val 10 (so_limit opts) - 1)" for first
    using limit(1) by (simp add: pool_last_def n)
  show ?thesis
    by (rule that [OF a s])
      (use ok in \<open>auto simp: pool_refused_def a w s Let_def net last n\<close>)
qed

text \<open>Every address of the pool is a host of the subnet other than the router.\<close>

lemma pool_hosts:
  assumes ok: "\<not> pool_refused opts" and m: "so_netmask opts = cidrToMask p" "p \<le> 32"
    and limit: "all_digits (so_limit opts)" "length (so_limit opts) \<le> 300"
  shows "\<exists>a s. seg_ip2int (so_ipaddr opts) = Some a \<and> so_start opts = Some s \<and> 1 \<le> num_val 10 (so_limit opts)
    \<and> (let net = a div 2 ^ (32 - p) * 2 ^ (32 - p)
       in \<forall>x \<in> {net + s ..< net + s + num_val 10 (so_limit opts)}.
            x div 2 ^ (32 - p) = a div 2 ^ (32 - p) \<and> x \<noteq> a \<and> x \<noteq> net \<and> x \<noteq> net + 2 ^ (32 - p) - 1)"
proof -
  define k :: int where "k = 2 ^ (32 - p)"
  obtain a s where pool: "seg_ip2int (so_ipaddr opts) = Some a" "so_start opts = Some s" "0 < s" "1 \<le> num_val 10 (so_limit opts)"
    "a div k * k + s + num_val 10 (so_limit opts) - 1 < a div k * k + k - 1"
    "\<not> (a div k * k + s \<le> a \<and> a \<le> a div k * k + s + num_val 10 (so_limit opts) - 1)"
    unfolding k_def by (rule pool_checked [OF assms])
  have "x div k = a div k \<and> x \<noteq> a \<and> x \<noteq> a div k * k \<and> x \<noteq> a div k * k + k - 1"
    if "x \<in> {a div k * k + s ..< a div k * k + s + num_val 10 (so_limit opts)}" for x
  proof -
    have "x div k = a div k" using that pool(3,5) int_div_pos_eq [of x k "a div k" "x - a div k * k"] by (simp add: mult.commute)
    then show ?thesis using that pool(3,5,6) by auto
  qed
  then show ?thesis using pool(1,2,4) unfolding Let_def k_def [symmetric] by blast
qed

lemma dec_parse: "0 \<le> n \<Longrightarrow> parse_int 10 (dec n) = Some n"
proof -
  assume n: "0 \<le> n"
  have digit: "is_digit c" if "c \<in> set (dec n)" for c using dec_chars [OF n that] .
  have "\<not> is_ws c" if "c \<in> set (dec n)" for c using digit [OF that] by (auto simp: is_digit_def is_ws_def)
  then have ws: "dropWhile is_ws (dec n) = dec n" by (metis dropWhile_eq_self_iff hd_in_set)
  have sign: "\<not> starts_with ''-'' (dec n)" "\<not> starts_with ''+'' (dec n)"
    using digit [of "CHR ''-''"] digit [of "CHR ''+''"] by (auto simp: starts_with_iff is_digit_def cc_def)
  have all: "takeWhile (\<lambda>c. digit_val c < 10) (dec n) = dec n"
    unfolding takeWhile_eq_all_conv using digit digit_val_digit by fastforce
  show ?thesis using n unfolding parse_int_def Let_def ws by (simp add: sign all del: takeWhile_eq_all_conv)
qed

text \<open>The start of a pool is read back.\<close>

lemma pool_start_roundtrip:
  assumes "seg_ip2int ip = Some a" "seg_ip2int m = Some w" "0 \<le> s" "to_uint32 (js_and a w) + s < 2 ^ 32"
  shows "addressToPoolStart ip m (poolStartToAddress ip m (JStr (dec s))) = Some s"
    and "poolStartToAddress ip m (JStr (dec s)) = dotted (to_uint32 (js_and a w) + s)"
proof -
  let ?x = "to_uint32 (js_and a w) + s"
  have x: "ipv4 ?x" using assms(3,4) to_uint32_range [of "js_and a w"] by (simp add: ipv4_def)
  then have "to_uint32 ?x = ?x" by (intro to_uint32_id) (simp_all add: ipv4_def)
  then show eq: "poolStartToAddress ip m (JStr (dec s)) = dotted ?x"
    using assms seg_int2ip_dotted [OF x] by (simp add: poolStartToAddress_def Let_def dec_parse)
  show "addressToPoolStart ip m (poolStartToAddress ip m (JStr (dec s))) = Some s"
    unfolding eq using assms by (simp add: addressToPoolStart_def seg_ip2int_dotted [OF x] Let_def)
qed

section \<open>Texts\<close>

lemma valid_ipv4_text:
  assumes "validIPv4 (JStr a)"
  shows "a \<noteq> []" "CHR ''/'' \<notin> set a" "CHR '','' \<notin> set a" "trim a = a"
proof -
  have chars: "is_digit c \<or> c = CHR ''.''" if "c \<in> set a" for c
    using ipv4_chars [of a c] assms that by (simp add: route_ipv4_def)
  then show "a \<noteq> []" "CHR ''/'' \<notin> set a" "CHR '','' \<notin> set a"
    using assms chars [of "CHR ''/''"] chars [of "CHR '',''"] by (auto simp: validIPv4_def is_digit_def cc_def)
  show "trim a = a"
  proof (rule trim_id)
    have "\<not> is_ws c" if "is_digit c \<or> c = CHR ''.''" for c
      using that by (auto simp: is_digit_def is_ws_def cc_def)
    then show "\<forall>c \<in> set a. \<not> is_ws c" using chars by blast
  qed
qed

section \<open>DHCP options\<close>

lemma read_kept: "option_code e \<noteq> ''3'' \<Longrightarrow> option_code e \<noteq> ''6'' \<Longrightarrow> read_option acc e = acc"
  by (cases acc) (simp add: read_option_def option_code_def Let_def)

lemma fold_kept: "\<forall>e \<in> set es. option_code e \<noteq> ''3'' \<and> option_code e \<noteq> ''6'' \<Longrightarrow> foldl read_option acc es = acc"
  by (induction es arbitrary: acc) (simp_all add: read_kept)

lemma split_gateway: "CHR '','' \<notin> set g \<Longrightarrow> split_on CHR '','' (''3,'' @ g) = [''3'', g]"
  using split_join [of "[''3'', g]" "CHR '',''"] by simp

lemma split_servers:
  "ds \<noteq> [] \<Longrightarrow> \<forall>d \<in> set ds. CHR '','' \<notin> set d \<Longrightarrow> split_on CHR '','' (''6,'' @ join '','' ds) = ''6'' # ds"
  using split_join [of "''6'' # ds" "CHR '',''"] by (simp add: join_Cons)

lemma options_read_back:
  assumes "CHR '','' \<notin> set g" "\<forall>d \<in> set dns. CHR '','' \<notin> set d"
  shows "foldl read_option ([], []) (buildDhcpOptionList existing g dns) = (g, filter (\<lambda>d. d \<noteq> []) dns)"
    and "filter (\<lambda>e. option_code e \<noteq> ''3'' \<and> option_code e \<noteq> ''6'') (buildDhcpOptionList existing g dns)
      = filter (\<lambda>e. option_code e \<noteq> ''3'' \<and> option_code e \<noteq> ''6'') existing"
proof -
  let ?ds = "filter (\<lambda>d. d \<noteq> []) dns"
  have g: "foldl read_option acc (if g \<noteq> [] then [JStr (''3,'' @ g)] else []) = (if g \<noteq> [] then g else fst acc, snd acc)" for acc
    using split_gateway [OF assms(1)] by (cases acc) (simp add: read_option_def)
  have d: "foldl read_option acc (if ?ds \<noteq> [] then [JStr (''6,'' @ join '','' ?ds)] else []) = (fst acc, if ?ds \<noteq> [] then ?ds else snd acc)" for acc
    using split_servers [of ?ds] assms(2) by (cases acc) (auto simp: read_option_def Let_def)
  show "foldl read_option ([], []) (buildDhcpOptionList existing g dns) = (g, ?ds)"
    unfolding buildDhcpOptionList_def Let_def foldl_append g d by (simp add: fold_kept)
  have "option_code (JStr (''3,'' @ g)) = ''3''" using split_gateway [OF assms(1)] by (simp add: option_code_def)
  moreover have "?ds \<noteq> [] \<Longrightarrow> option_code (JStr (''6,'' @ join '','' ?ds)) = ''6''"
    using split_servers [of ?ds] assms(2) by (simp add: option_code_def)
  ultimately show "filter (\<lambda>e. option_code e \<noteq> ''3'' \<and> option_code e \<noteq> ''6'') (buildDhcpOptionList existing g dns)
      = filter (\<lambda>e. option_code e \<noteq> ''3'' \<and> option_code e \<noteq> ''6'') existing"
    by (simp add: buildDhcpOptionList_def Let_def)
qed

end
