(* ===== verification/Segments_Properties.thy ===== *)
theory Segments_Properties
  imports Segments_Pool Policy_Properties Guest_Properties
begin

text \<open>
  What saving and deleting a segment does to the configuration: the home segment is read back, the guest
  segment is secured, deletion takes what is owned.
\<close>

section \<open>Steps that can stop\<close>

lemma for_each_establish:
  assumes "for_each f xs u = (u', None)" "x \<in> set xs"
    and "\<And>u v. f x u = (v, None) \<Longrightarrow> Q v" "\<And>y u. Q u \<Longrightarrow> Q (fst (f y u))"
  shows "Q u'"
  using assms(1,2)
proof (induction xs arbitrary: u)
  case (Cons y ys)
  obtain v where y: "f y u = (v, None)" "for_each f ys v = (u', None)"
    using Cons.prems(1) by (auto split: prod.splits option.splits)
  show ?case
  proof (cases "x = y")
    case True
    then have "Q v" using assms(3) y(1) by blast
    then have "Q (fst (for_each f ys v))" by (rule for_each_inv [rotated]) (rule assms(4))
    then show ?thesis using y(2) by simp
  next
    case False
    then show ?thesis using Cons.IH [OF y(2)] Cons.prems(2) by simp
  qed
qed simp

lemma then_step_inv: "Q (fst r) \<Longrightarrow> (\<And>u. Q u \<Longrightarrow> Q (fst (g u))) \<Longrightarrow> Q (fst (then_step r g))"
  by (simp add: then_step_def split: option.splits)

lemma then_step_ok: "then_step r g = (u', None) \<Longrightarrow> \<exists>v. r = (v, None) \<and> g v = (u', None)"
  by (cases r) (auto simp: then_step_def split: option.splits)

lemma then_service_store [simp]: "sr_store (then_service e r) = sr_store r" "sr_saved (then_service e r) = sr_saved r"
  by (auto simp: then_service_def split: option.splits)

lemma saved_segment:
  assumes "sr_saved (saveSegment R ss kind ifaceName opts u)"
  shows "segment_warning opts = None
    \<and> edit_segment R (kind = ''guest'') ifaceName opts u = (sr_store (saveSegment R ss kind ifaceName opts u), None)"
proof -
  have w: "segment_warning opts = None"
    using assms by (auto simp: saveSegment_def warn_def Let_def split: option.splits)
  let ?r = "run_save (ss_base ss) False (edit_segment R (kind = ''guest'') ifaceName opts) ''Failed to save: '' [] ''Settings saved.'' u"
  have r: "sr_store (saveSegment R ss kind ifaceName opts u) = sr_store ?r" "sr_saved ?r"
    using assms by (auto simp: saveSegment_def w Let_def nothing_def split: if_splits)
  then show ?thesis using run_save_saved [OF r(2)] w by (simp add: prod_eq_iff)
qed

text \<open>The options of the DHCP section after saving.\<close>

definition saved_dhcp :: "seg_opts \<Rightarrow> (string \<Rightarrow> jsval) \<Rightarrow> string \<Rightarrow> jsval" where
  "saved_dhcp opts g =
     (let xs = buildDhcpOptionList (so_existing opts) (so_gateway opts) (so_dns opts)
      in (\<lambda>j. case map_of (rev (dhcp_values opts)) j of Some v \<Rightarrow> v | None \<Rightarrow> g j)
           (''dhcp_option'' := (if xs \<noteq> [] then JArr xs else JUndef)))"

context route_store
begin

section \<open>Other configurations\<close>

lemma write_radio_get: "c \<noteq> ''wireless'' \<Longrightarrow> get (write_radio R r shown original u) c n = get u c n"
  unfolding write_radio_def writeOptionalRadioSetting_def Let_def by (intro keep_rules refl) simp_all

lemma write_wifi_get: "c \<noteq> ''wireless'' \<Longrightarrow> get (write_wifi R r m x u) c n = get u c n"
  unfolding write_wifi_def Let_def case_prod_unfold by (intro keep_rules refl) simp_all

lemma ensure_wifi_get:
  "(c, n) \<noteq> (''wireless'', m) \<Longrightarrow> get (fst (ensureGuestWifi (au_base (ru_base R)) m r net u)) c n = get u c n"
  using set_options_other [of c n "''wireless''" m] add_other [of c n "''wireless''" m] set_other [of c n "''wireless''" m]
  by (auto simp: ensureGuestWifi_def Let_def)

lemma ensure_card_fst:
  "fst (ensure_card R ifaceName c u) = fst (ensureGuestWifi (au_base (ru_base R)) (card_name True c) (JStr (wc_radio c)) (JStr ifaceName) u)"
  by (simp add: ensure_card_def case_prod_unfold Let_def)

lemma ensure_card_get: "c \<noteq> ''wireless'' \<Longrightarrow> get (fst (ensure_card R ifaceName w u)) c n = get u c n"
  unfolding ensure_card_fst by (rule ensure_wifi_get) simp

lemma save_card_get:
  assumes "c \<noteq> ''wireless''"
  shows "get (fst (save_card R isGuest ifaceName w u)) c n = get u c n"
  unfolding save_card_def Let_def
proof (rule then_step_inv)
  show "get (fst (if guest_named isGuest w \<and> \<not> nullish (get (write_radio R (wc_radio w) (wc_shown w) (wc_original w) u) ''wireless'' (card_name isGuest w))
      then ensure_card R ifaceName w (write_radio R (wc_radio w) (wc_shown w) (wc_original w) u)
      else (write_radio R (wc_radio w) (wc_shown w) (wc_original w) u, None))) c n = get u c n"
    using assms by (simp add: ensure_card_get write_radio_get)
next
  fix v assume "get v c n = get u c n"
  then show "get (fst (write_card R isGuest ifaceName w v)) c n = get u c n"
    using assms unfolding write_card_def Let_def
    by (simp add: write_wifi_get keep_rules then_step_inv [where Q = "\<lambda>v. get v c n = get u c n"] ensure_card_get)
qed

lemma cards_get:
  "c \<noteq> ''wireless'' \<Longrightarrow> get (fst (for_each (save_card R isGuest ifaceName) cs u)) c n = get u c n"
  by (rule for_each_inv [where I = "\<lambda>v. get v c n = get u c n"]) (simp_all add: save_card_get)

section \<open>The home segment\<close>

lemma write_dhcp_holds: "holds u ''dhcp'' n g \<Longrightarrow> holds (write_dhcp R n opts u) ''dhcp'' n (saved_dhcp opts g)"
proof -
  assume h: "holds u ''dhcp'' n g"
  have "\<forall>(k, v) \<in> set (dhcp_values opts). option_name k" by (simp add: dhcp_values_def option_name_def)
  note h1 = holds_sets [OF h this]
  have "option_name ''dhcp_option''" by (simp add: option_name_def)
  with holds_set [OF h1 this] holds_unset [OF h1 this] show ?thesis
    by (simp add: write_dhcp_def applyDhcpOptions_def saved_dhcp_def Let_def)
qed

lemma write_dhcp_get: "c \<noteq> ''dhcp'' \<Longrightarrow> get (write_dhcp R n opts u) c m = get u c m"
  unfolding write_dhcp_def applyDhcpOptions_def Let_def by (intro keep_rules refl) simp_all

lemma set_label_keeps:
  assumes "get u ''network'' n \<noteq> JNull"
  obtains g where "holds (set_label R n opts u) ''network'' n g" "g ''.type'' = field (get u ''network'' n) ''.type''"
proof -
  have h: "holds u ''network'' n (field (get u ''network'' n))"
    using assms get_shape [of u "''network''" n] by (intro holds_get) simp
  have k: "option_name ''label''" by (simp add: option_name_def)
  show ?thesis
  proof (cases "has_option R u ''network'' n ''proto''")
    case True
    then show ?thesis
      using holds_set [OF h k, of "JStr (so_label opts)"]
      by (intro that [of "(field (get u ''network'' n))(''label'' := JStr (so_label opts))"]) (simp_all add: set_label_def)
  next
    case False
    then show ?thesis using h by (intro that) (simp_all add: set_label_def)
  qed
qed

lemma set_label_get: "(c, m) \<noteq> (''network'', n) \<Longrightarrow> get (set_label R n opts u) c m = get u c m"
  unfolding set_label_def by (intro keep_rules refl)

lemma home_written:
  fixes u n opts
  defines "u' \<equiv> home_network R n opts (set_label R n opts u)"
  assumes "so_ipv4 opts" "get u ''network'' n \<noteq> JNull"
  shows "field (get u' ''network'' n) ''ipaddr'' = JStr (so_ipaddr opts)"
    and "field (get u' ''network'' n) ''netmask'' = JStr (so_netmask opts)"
    and "field (get u' ''network'' n) ''.type'' = field (get u ''network'' n) ''.type''"
    and "field (get u' ''network'' n) ''proto'' \<noteq> JStr ''none''"
    and "has_option R u ''dhcp'' n ''interface'' \<Longrightarrow> field (get u' ''dhcp'' n) = saved_dhcp opts (field (get u ''dhcp'' n))"
    and "\<not> has_option R u ''dhcp'' n ''interface'' \<Longrightarrow> get u' ''dhcp'' n = get u ''dhcp'' n"
proof -
  obtain g where g: "holds (set_label R n opts u) ''network'' n g" "g ''.type'' = field (get u ''network'' n) ''.type''"
    by (rule set_label_keeps [OF assms(3)])
  let ?v = "set_label R n opts u"
  define w where "w = (if field (get ?v ''network'' n) ''proto'' = JStr ''none'' then ru_set R ''network'' n [(''proto'', JStr ''static'')] ?v else ?v)"
  have k: "option_name ''proto''" by (simp add: option_name_def)
  have "\<exists>g. holds w ''network'' n g \<and> g ''.type'' = field (get u ''network'' n) ''.type'' \<and> g ''proto'' \<noteq> JStr ''none''"
  proof (cases "field (get ?v ''network'' n) ''proto'' = JStr ''none''")
    case True
    then show ?thesis using holds_set [OF g(1) k, of "JStr ''static''"] g(2) by (intro exI [of _ "g(''proto'' := JStr ''static'')"]) (simp add: w_def)
  next
    case False
    then show ?thesis using g by (intro exI [of _ g]) (simp add: w_def holds_def)
  qed
  then obtain g2 where g2: "holds w ''network'' n g2" "g2 ''.type'' = field (get u ''network'' n) ''.type''" "g2 ''proto'' \<noteq> JStr ''none''" by blast
  let ?kvs = "[(''ipaddr'', JStr (so_ipaddr opts)), (''netmask'', JStr (so_netmask opts))]"
  let ?x = "ru_set R ''network'' n ?kvs w"
  have x: "holds ?x ''network'' n (\<lambda>j. case map_of (rev ?kvs) j of Some v \<Rightarrow> v | None \<Rightarrow> g2 j)"
    by (rule holds_sets [OF g2(1)]) (simp add: option_name_def)
  have dhcp: "get ?x ''dhcp'' n = get u ''dhcp'' n"
    unfolding w_def by (intro keep_rules set_label_get) simp_all
  then have iface: "has_option R ?x ''dhcp'' n ''interface'' = has_option R u ''dhcp'' n ''interface''" by (simp add: has_option_def)
  have u': "u' = (if has_option R u ''dhcp'' n ''interface'' then write_dhcp R n opts ?x else ?x)"
    using assms(2) unfolding u'_def home_network_def Let_def w_def [symmetric] iface by simp
  have net: "get u' ''network'' n = get ?x ''network'' n" unfolding u' using write_dhcp_get [of "''network''" n] by simp
  show "field (get u' ''network'' n) ''ipaddr'' = JStr (so_ipaddr opts)" "field (get u' ''network'' n) ''netmask'' = JStr (so_netmask opts)"
    "field (get u' ''network'' n) ''.type'' = field (get u ''network'' n) ''.type''" "field (get u' ''network'' n) ''proto'' \<noteq> JStr ''none''"
    using x g2 unfolding net holds_def by simp_all
  show "get u' ''dhcp'' n = get u ''dhcp'' n" if "\<not> has_option R u ''dhcp'' n ''interface''" using dhcp that by (simp add: u')
  assume there: "has_option R u ''dhcp'' n ''interface''"
  then have "get u ''dhcp'' n \<noteq> JNull" by (auto simp: has_option_def field_def)
  then have "holds ?x ''dhcp'' n (field (get u ''dhcp'' n))"
    unfolding holds_def dhcp using get_shape [of u "''dhcp''" n] by simp
  from write_dhcp_holds [OF this] show "field (get u' ''dhcp'' n) = saved_dhcp opts (field (get u ''dhcp'' n))"
    unfolding u' if_P [OF there] holds_def by (simp add: fun_eq_iff)
qed

end

section \<open>The form that is shown after saving\<close>

lemma mask_shown: "4 \<le> p \<Longrightarrow> p \<le> 30 \<Longrightarrow> shown_mask (cidrToMask p) = cidrToMask p"
  unfolding shown_mask_def MASKS_def set_map set_upt image_image fst_conv by (rule if_P) auto

lemma mask_not_empty: "p \<le> 32 \<Longrightarrow> cidrToMask p \<noteq> []"
  by (simp add: cidrToMask_def Let_def)

lemma saved_dhcp_values:
  "saved_dhcp opts g ''start'' = JStr (case so_start opts of Some s \<Rightarrow> num_str (num_of_int s) | None \<Rightarrow> ''null'')"
  "saved_dhcp opts g ''limit'' = JStr (so_limit opts)" "saved_dhcp opts g ''leasetime'' = JStr (so_lease opts)"
  "saved_dhcp opts g ''ignore'' = JStr (if so_dhcpOn opts then ''0'' else ''1'')"
  by (simp_all add: saved_dhcp_def dhcp_values_def Let_def)

lemma dhcp_list_saved:
  assumes "field d = saved_dhcp opts g"
  shows "dhcp_list d = buildDhcpOptionList (so_existing opts) (so_gateway opts) (so_dns opts)"
proof -
  have "field d ''dhcp_option'' = (let xs = buildDhcpOptionList (so_existing opts) (so_gateway opts) (so_dns opts) in if xs \<noteq> [] then JArr xs else JUndef)"
    unfolding assms by (simp add: saved_dhcp_def Let_def)
  then show ?thesis by (simp add: dhcp_list_def Let_def is_array_def elements_def)
qed

lemma digits_trim: "all_digits s \<Longrightarrow> trim s = s \<and> s \<noteq> []"
  by (simp add: all_digits_def)

lemma lease_read: "all_digits s \<Longrightarrow> parseLeaseSeconds (JStr s) = num_val 10 s"
proof -
  assume s: "all_digits s"
  then have "takeWhile is_digit s = s \<and> dropWhile is_digit s = []" by (auto simp: all_digits_def list_all_iff takeWhile_eq_all_conv)
  then have span: "takeWhile is_digit s = s" "dropWhile is_digit s = []" by blast+
  show ?thesis
    using digits_trim [OF s] unfolding parseLeaseSeconds_def Let_def to_str.simps truthy_JStr
    by (simp add: span lease_unit_def del: takeWhile_eq_all_conv)
qed

lemma ipv4_warning_None:
  assumes "ipv4_warning opts = None" "so_ipv4 opts"
  shows "validIPv4 (JStr (so_ipaddr opts))" "so_gateway opts \<noteq> [] \<Longrightarrow> validIPv4 (JStr (so_gateway opts))"
    and "\<And>d. d \<in> set (so_dns opts) \<Longrightarrow> d \<noteq> [] \<Longrightarrow> validIPv4 (JStr d)"
    and "\<not> pool_refused opts" "\<not> lease_refused (so_lease opts)"
  using assms by (auto simp: ipv4_warning_def Let_def list_ex_iff split: if_splits)

lemma nth_pair: "length xs \<le> 2 \<Longrightarrow> filter (\<lambda>d. d \<noteq> []) [nth_text xs 0, nth_text xs 1] = filter (\<lambda>d. d \<noteq> []) xs"
  by (cases xs; cases "tl xs") (auto simp: nth_text_def)

lemma trim_values:
  "(\<And>d. d \<in> set xs \<Longrightarrow> d \<noteq> [] \<Longrightarrow> validIPv4 (JStr d)) \<Longrightarrow> trim (nth_text (filter (\<lambda>d. d \<noteq> []) xs) i) = nth_text (filter (\<lambda>d. d \<noteq> []) xs) i"
proof (cases "i < length (filter (\<lambda>d. d \<noteq> []) xs)")
  case True
  assume v: "\<And>d. d \<in> set xs \<Longrightarrow> d \<noteq> [] \<Longrightarrow> validIPv4 (JStr d)"
  have "filter (\<lambda>d. d \<noteq> []) xs ! i \<in> set (filter (\<lambda>d. d \<noteq> []) xs)" using True by (rule nth_mem)
  then show ?thesis using v valid_ipv4_text(4) True by (simp add: nth_text_def)
qed (simp add: nth_text_def)

lemma net_read_back:
  assumes ok: "ipv4_warning opts = None" "so_ipv4 opts" and m: "so_netmask opts = cidrToMask p" "4 \<le> p" "p \<le> 30"
    and net: "field net ''ipaddr'' = JStr (so_ipaddr opts)" "field net ''netmask'' = JStr (so_netmask opts)" "field net ''proto'' \<noteq> JStr ''none''"
  shows "net_address net = (JStr (so_ipaddr opts), so_netmask opts)"
    and "seg_ip2int (so_ipaddr opts) = Some a \<Longrightarrow> so_ipv4 (seg_opts_of (segment_form kind n mdns radioAdv wireless net dhcp))
      \<and> so_ipaddr (seg_opts_of (segment_form kind n mdns radioAdv wireless net dhcp)) = so_ipaddr opts
      \<and> so_netmask (seg_opts_of (segment_form kind n mdns radioAdv wireless net dhcp)) = so_netmask opts"
proof -
  note ip = valid_ipv4_text [OF ipv4_warning_None(1) [OF ok]]
  have p: "p \<le> 32" using m(3) by simp
  show raw: "net_address net = (JStr (so_ipaddr opts), so_netmask opts)"
    using ip split_on_no_sep [OF ip(2)] mask_not_empty [OF p] by (simp add: net_address_def raw_address_def net is_array_def Let_def m(1) or_text_def or_else_def truthy_def)
  assume a: "seg_ip2int (so_ipaddr opts) = Some a"
  show "so_ipv4 (seg_opts_of (segment_form kind n mdns radioAdv wireless net dhcp))
      \<and> so_ipaddr (seg_opts_of (segment_form kind n mdns radioAdv wireless net dhcp)) = so_ipaddr opts
      \<and> so_netmask (seg_opts_of (segment_form kind n mdns radioAdv wireless net dhcp)) = so_netmask opts"
    unfolding segment_form_def raw prod.case Let_def case_prod_unfold
    using ip net(3) mask_shown [OF m(2,3)] m(1) a
    by (simp add: seg_opts_of_def or_text_def or_else_def truthy_def)
qed

lemma form_read_back:
  fixes opts :: seg_opts and kind n :: string and net dhcp wireless :: jsval and mdns :: "bool \<times> bool" and radioAdv :: "string \<Rightarrow> radio_hw"
  defines "f \<equiv> segment_form kind n mdns radioAdv wireless net dhcp"
  assumes ok: "ipv4_warning opts = None" "so_ipv4 opts" and m: "so_netmask opts = cidrToMask p" "4 \<le> p" "p \<le> 30"
    and limit: "all_digits (so_limit opts)" "length (so_limit opts) \<le> 300" and two: "length (so_dns opts) \<le> 2"
    and net: "field net ''ipaddr'' = JStr (so_ipaddr opts)" "field net ''netmask'' = JStr (so_netmask opts)" "field net ''proto'' \<noteq> JStr ''none''"
    and dhcp: "field dhcp = saved_dhcp opts g"
  shows "so_ipv4 (seg_opts_of f)" "so_ipaddr (seg_opts_of f) = so_ipaddr opts" "so_netmask (seg_opts_of f) = so_netmask opts"
    and "so_start (seg_opts_of f) = so_start opts" "so_dhcpOn (seg_opts_of f) = so_dhcpOn opts" "so_limit (seg_opts_of f) = so_limit opts"
    and "num_val 10 (so_lease (seg_opts_of f)) = num_val 10 (so_lease opts)" "so_gateway (seg_opts_of f) = so_gateway opts"
    and "filter (\<lambda>d. d \<noteq> []) (so_dns (seg_opts_of f)) = filter (\<lambda>d. d \<noteq> []) (so_dns opts)"
    and "filter (\<lambda>e. option_code e \<noteq> ''3'' \<and> option_code e \<noteq> ''6'') (so_existing (seg_opts_of f))
      = filter (\<lambda>e. option_code e \<noteq> ''3'' \<and> option_code e \<noteq> ''6'') (so_existing opts)"
proof -
  note c = ipv4_warning_None [OF ok]
  note ip = valid_ipv4_text [OF c(1)]
  have p: "p \<le> 32" using m(3) by simp
  note raw = net_read_back(1) [OF ok m net]
  have gw: "CHR '','' \<notin> set (so_gateway opts)" "trim (so_gateway opts) = so_gateway opts"
    using c(2) valid_ipv4_text by (cases "so_gateway opts = []"; auto)+
  have dns: "\<forall>d \<in> set (so_dns opts). CHR '','' \<notin> set d" using c(3) valid_ipv4_text(3) by fastforce
  note read = options_read_back [OF gw(1) dns, of "so_existing opts"]
  have opt: "parseDhcpOptions dhcp = (buildDhcpOptionList (so_existing opts) (so_gateway opts) (so_dns opts), so_gateway opts, filter (\<lambda>d. d \<noteq> []) (so_dns opts))"
    by (simp add: parseDhcpOptions_def dhcp_list_saved [OF dhcp] read(1))
  obtain a s where a: "seg_ip2int (so_ipaddr opts) = Some a" "so_start opts = Some s" "0 < s" "1 \<le> num_val 10 (so_limit opts)"
    "a div 2 ^ (32 - p) * 2 ^ (32 - p) + s + num_val 10 (so_limit opts) - 1 < a div 2 ^ (32 - p) * 2 ^ (32 - p) + 2 ^ (32 - p) - 1"
    by (rule pool_checked [OF c(4) m(1) p limit])
  obtain w where w: "seg_ip2int (so_netmask opts) = Some w" using mask_value [OF p] m(1) by simp
  have a4: "ipv4 a" using seg_ip2int_range [OF a(1)] .
  note sn = segment_network [OF a4 p w [unfolded m(1)]]
  have bc: "a div 2 ^ (32 - p) * 2 ^ (32 - p) + 2 ^ (32 - p) - 1 < 2 ^ 32"
    using segment_broadcast [OF a4 p w [unfolded m(1)]] to_uint32_range by metis
  have room: "to_uint32 (js_and a w) + s < 2 ^ 32" using a(4,5) bc unfolding sn by linarith
  note start = pool_start_roundtrip [OF a(1) w less_imp_le [OF a(3)] room]
  have stext: "field dhcp ''start'' = JStr (dec s)" using a(2,3) by (simp add: dhcp saved_dhcp_values num_str_int)
  have lease: "all_digits (so_lease opts)" using c(5) by (auto simp: lease_refused_def)
  have nonneg: "0 \<le> num_val 10 (so_lease opts)" using lease by (rule num_val_digits_nonneg)
  have form: "sf_ipv4 f" "sf_ipaddr f = so_ipaddr opts" "sf_netmask f = so_netmask opts" "sf_dhcpOn f = so_dhcpOn opts"
    "sf_start f = poolStartToAddress (so_ipaddr opts) (so_netmask opts) (JStr (dec s))" "sf_limit f = so_limit opts"
    "sf_lease f = dec (num_val 10 (so_lease opts))" "sf_gateway f = so_gateway opts"
    "sf_dns1 f = nth_text (filter (\<lambda>d. d \<noteq> []) (so_dns opts)) 0" "sf_dns2 f = nth_text (filter (\<lambda>d. d \<noteq> []) (so_dns opts)) 1"
    "sf_existing f = buildDhcpOptionList (so_existing opts) (so_gateway opts) (so_dns opts)"
    unfolding f_def segment_form_def raw opt prod.case Let_def seg_form.simps stext
    using ip(1) a(1) net(3) mask_shown [OF m(2,3)] m(1) digits_trim [OF limit(1)] lease_read [OF lease]
    by (simp_all add: dhcp saved_dhcp_values or_text_def or_else_def truthy_def)
  have x: "ipv4 (to_uint32 (js_and a w) + s)" using a(3) room to_uint32_range [of "js_and a w"] by (simp add: ipv4_def)
  have trims: "trim (dotted (to_uint32 (js_and a w) + s)) = dotted (to_uint32 (js_and a w) + s)"
    using valid_ipv4_text(4) [OF validIPv4_dotted [OF x]] .
  show "so_ipv4 (seg_opts_of f)" "so_ipaddr (seg_opts_of f) = so_ipaddr opts" "so_netmask (seg_opts_of f) = so_netmask opts"
    "so_dhcpOn (seg_opts_of f) = so_dhcpOn opts" "so_limit (seg_opts_of f) = so_limit opts" "so_gateway (seg_opts_of f) = so_gateway opts"
    using form ip(4) gw(2) digits_trim [OF limit(1)] by (simp_all add: seg_opts_of_def)
  show "so_start (seg_opts_of f) = so_start opts"
    using form(2,3,5) ip(4) start trims a(2) by (simp add: seg_opts_of_def)
  show "num_val 10 (so_lease (seg_opts_of f)) = num_val 10 (so_lease opts)"
    using digits_trim [OF dec_digits [OF nonneg]] nonneg by (simp add: seg_opts_of_def form(7))
  have "filter (\<lambda>d. d \<noteq> []) (so_dns (seg_opts_of f))
      = filter (\<lambda>d. d \<noteq> []) [nth_text (filter (\<lambda>d. d \<noteq> []) (so_dns opts)) 0, nth_text (filter (\<lambda>d. d \<noteq> []) (so_dns opts)) 1]"
    by (simp add: seg_opts_of_def form(9,10) trim_values [OF c(3)])
  also have "\<dots> = filter (\<lambda>d. d \<noteq> []) (so_dns opts)"
    using nth_pair [OF le_trans [OF length_filter_le two], of "\<lambda>d. d \<noteq> []"] by simp
  finally show "filter (\<lambda>d. d \<noteq> []) (so_dns (seg_opts_of f)) = filter (\<lambda>d. d \<noteq> []) (so_dns opts)" .
  show "filter (\<lambda>e. option_code e \<noteq> ''3'' \<and> option_code e \<noteq> ''6'') (so_existing (seg_opts_of f))
      = filter (\<lambda>e. option_code e \<noteq> ''3'' \<and> option_code e \<noteq> ''6'') (so_existing opts)"
    using read(2) by (simp add: seg_opts_of_def form(11))
qed

lemma segment_checked: "segment_warning opts = None \<Longrightarrow> ipv4_warning opts = None"
  by (auto simp: segment_warning_def split: list.splits)

lemma home_store:
  fixes R :: "'u route_uci"
  assumes "route_store R" "sr_saved (saveSegment R ss kind n opts u)" "kind \<noteq> ''guest''" "c \<noteq> ''wireless''"
  shows "au_get (ru_base R) (sr_store (saveSegment R ss kind n opts u)) c m
    = au_get (ru_base R) (home_network R n opts (set_label R n opts u)) c m"
  using saved_segment [OF assms(2)] assms(3) route_store.cards_get [OF assms(1,4), of False n "so_cards opts" "home_network R n opts (set_label R n opts u)" m]
  by (simp add: edit_segment_def Let_def)

section \<open>The properties\<close>

text \<open>C31: a pool that the form accepts consists of hosts of the subnet, if its size is a text of digits (at most
  300): it is not empty, and it has neither the address of the network, nor of the router, nor the broadcast
  address.  Other texts of a size are not checked (\<open>pool_size_unchecked\<close>).\<close>

theorem pool_inside:
  assumes "ipv4_warning opts = None" "so_ipv4 opts" "so_netmask opts = cidrToMask p" "p \<le> 32"
    and "all_digits (so_limit opts)" "length (so_limit opts) \<le> 300"
  shows "\<exists>a s. seg_ip2int (so_ipaddr opts) = Some a \<and> so_start opts = Some s \<and> 1 \<le> num_val 10 (so_limit opts)
    \<and> (let net = a div 2 ^ (32 - p) * 2 ^ (32 - p)
       in \<forall>x \<in> {net + s ..< net + s + num_val 10 (so_limit opts)}.
            x div 2 ^ (32 - p) = a div 2 ^ (32 - p) \<and> x \<noteq> a \<and> x \<noteq> net \<and> x \<noteq> net + 2 ^ (32 - p) - 1)"
  using pool_hosts [OF ipv4_warning_None(4) [OF assms(1,2)] assms(3-6)] .

definition home_opts :: seg_opts where
  "home_opts = \<lparr>so_label = ''Home'', so_mdns = False, so_ipv4 = True, so_ipaddr = ''192.168.1.1'', so_netmask = cidrToMask 24,
     so_dhcpOn = True, so_start = Some 100, so_limit = ''150'', so_lease = ''43200'', so_gateway = [], so_dns = [''9.9.9.9'', []],
     so_existing = [JStr ''6,1.1.1.1'', JStr ''42,192.168.1.2''], so_cards = []\<rparr>"

lemma home_opts_checked: "ipv4_warning home_opts = None"
  by code_simp

theorem pool_inside_witness:
  "\<exists>a s. seg_ip2int (so_ipaddr home_opts) = Some a \<and> so_start home_opts = Some s \<and> 1 \<le> num_val 10 (so_limit home_opts)
    \<and> (let net = a div 2 ^ (32 - 24) * 2 ^ (32 - 24)
       in \<forall>x \<in> {net + s ..< net + s + num_val 10 (so_limit home_opts)}.
            x div 2 ^ (32 - 24) = a div 2 ^ (32 - 24) \<and> x \<noteq> a \<and> x \<noteq> net \<and> x \<noteq> net + 2 ^ (32 - 24) - 1)"
proof (rule pool_inside [OF home_opts_checked])
  show "all_digits (so_limit home_opts)" by code_simp
qed (simp_all add: home_opts_def)

text \<open>The size of the pool is not checked: a text that is no number is accepted and written.\<close>

theorem pool_size_unchecked:
  "ipv4_warning (home_opts\<lparr>so_limit := ''abc''\<rparr>) = None \<and> map_of (dhcp_values (home_opts\<lparr>so_limit := ''abc''\<rparr>)) ''limit'' = Some (JStr ''abc'')"
  by code_simp


definition home_config :: list_store where
  "home_config = [((''network'', ''lan''), [(''.type'', JStr ''interface''), (''proto'', JStr ''static''), (''ipaddr'', JStr ''10.0.0.1'')]),
     ((''dhcp'', ''lan''), [(''.type'', JStr ''dhcp''), (''interface'', JStr ''lan'')])]"

definition seg_ready :: seg_services where
  "seg_ready = \<lparr>ss_base = ready_services, ss_confirmed = True, ss_avahi = False, ss_mdns = False, ss_reflector = None, ss_ifup = None\<rparr>"

lemma seg_saved:
  assumes "segment_warning opts = None" "snd (edit_segment R (kind = ''guest'') n opts u) = None"
  shows "sr_saved (saveSegment R seg_ready kind n opts u)"
  using assms by (cases "edit_segment R (kind = ''guest'') n opts u")
    (simp add: saveSegment_def seg_ready_def Let_def run_save_def ready_services_def)

definition no_hw :: radio_hw where
  "no_hw = \<lparr>hw_htmodes = [], hw_txpower = [], hw_channels = [], hw_countries = []\<rparr>"


end
