(* ===== verification/Segments_Guest.thy ===== *)
theory Segments_Guest
  imports Segments_Properties
begin

text \<open>
  The guest segment: saving leaves it secured whatever else the form changes, and deleting takes the
  sections of the program and nothing else.
\<close>

section \<open>An isolated Wi-Fi section\<close>

text \<open>The options on which the isolation rests; no other step of the form writes them.\<close>

definition isolated :: "'u route_uci \<Rightarrow> string \<Rightarrow> string \<Rightarrow> 'u \<Rightarrow> bool" where
  "isolated R ifaceName n u =
     (let s = au_get (ru_base R) u ''wireless'' n
      in is_object s \<and> field s ''isolate'' = JStr ''1'' \<and> field s ''freenetic_managed'' = JStr ''1'' \<and> field s ''mode'' = JStr ''ap''
         \<and> field s ''network'' = JStr ifaceName \<and> \<not> nullish (field s ''device''))"

text \<open>The bridge that the program made.\<close>

definition guest_bridge_of :: "jsval \<Rightarrow> bool" where
  "guest_bridge_of s \<longleftrightarrow> field s ''name'' = JStr ''br-guest'' \<and> field s ''freenetic_managed'' = JStr ''1''"

definition isolation_options :: "string list" where
  "isolation_options = [''isolate'', ''freenetic_managed'', ''mode'', ''network'', ''device'']"

context route_store
begin

lemma isolated_set:
  assumes "isolated R i n u" "\<forall>(k, v) \<in> set kvs. option_name k \<and> k \<notin> set isolation_options"
  shows "isolated R i n (ru_set R c m kvs u)"
proof (cases "(c, m) = (''wireless'', n)")
  case True
  have "get u ''wireless'' n \<noteq> JNull" using assms(1) by (auto simp: isolated_def Let_def is_object_def)
  moreover have "\<forall>(k, v) \<in> set kvs. option_name k" using assms(2) by auto
  ultimately have f: "is_object (get (ru_set R ''wireless'' n kvs u) ''wireless'' n)
      \<and> field (get (ru_set R ''wireless'' n kvs u) ''wireless'' n) j
        = (case map_of (rev kvs) j of Some v \<Rightarrow> v | None \<Rightarrow> field (get u ''wireless'' n) j)" for j
    by (rule ru_set_field)
  have none: "map_of (rev kvs) k = None" if "k \<in> set isolation_options" for k
    using assms(2) that by (force simp: map_of_eq_None_iff)
  show ?thesis
    using True assms(1) f none [of "''isolate''"] none [of "''freenetic_managed''"] none [of "''mode''"] none [of "''network''"] none [of "''device''"]
    by (simp add: isolated_def Let_def isolation_options_def)
next
  case False
  then have "get (ru_set R c m kvs u) ''wireless'' n = get u ''wireless'' n" by (intro ru_set_get) auto
  then show ?thesis using assms(1) by (simp add: isolated_def)
qed

lemma isolated_unset:
  assumes "isolated R i n u" "option_name k" "k \<notin> set isolation_options"
  shows "isolated R i n (au_unset (ru_base R) u c m k)"
proof (cases "(c, m) = (''wireless'', n)")
  case True
  have "get u ''wireless'' n \<noteq> JNull" using assms(1) by (auto simp: isolated_def Let_def is_object_def)
  from unset_option [OF this assms(2)] True show ?thesis
    using assms(1,3) by (auto simp: isolated_def Let_def isolation_options_def)
next
  case False
  then have "get (au_unset (ru_base R) u c m k) ''wireless'' n = get u ''wireless'' n" by (intro unset_other) auto
  then show ?thesis using assms(1) by (simp add: isolated_def)
qed

lemma isolated_get: "isolated R i n u \<Longrightarrow> get v ''wireless'' n = get u ''wireless'' n \<Longrightarrow> isolated R i n v"
  by (simp add: isolated_def)

text \<open>The steps that ensure a guest section keep the isolation of every section, and establish it.\<close>

lemma isolated_ensure:
  assumes "isolated R i n u"
  shows "isolated R i n (fst (ensure_card R j c u))"
proof (cases "card_name True c = n")
  case True
  let ?s = "get u ''wireless'' n"
  have s: "?s \<noteq> JNull" "\<not> nullish ?s" using assms by (auto simp: isolated_def Let_def is_object_def nullish_def)
  have set1: "isolated R i n (uci_set (au_base (ru_base R)) u ''wireless'' n ''isolate'' (JStr ''1''))"
  proof -
    have "option_name ''isolate''" by (simp add: option_name_def)
    from set_option [OF _ this, of u "''wireless''" n "JStr ''1''"] s(1) assms show ?thesis
      by (auto simp: isolated_def Let_def)
  qed
  show ?thesis
    using s assms set1 unfolding ensure_card_fst True ensureGuestWifi_def Let_def by auto
next
  case False
  show ?thesis
    by (rule isolated_get [OF assms]) (unfold ensure_card_fst, rule ensure_wifi_get, use False in simp)
qed

lemma ensured_isolated:
  assumes "ensure_card R i c u = (v, None)"
  shows "isolated R i (card_name True c) v"
proof -
  obtain n where e: "ensureGuestWifi (au_base (ru_base R)) (card_name True c) (JStr (wc_radio c)) (JStr i) u = (v, Inr n)"
    using assms by (auto simp: ensure_card_def case_prod_unfold Let_def prod_eq_iff split: sum.splits)
  note ok = ensureGuestWifi_ok [OF e]
  have "is_object (get v ''wireless'' (card_name True c))"
    using ok(7) by (auto simp: field_def is_object_def split: jsval.splits)
  then show ?thesis using ok by (simp add: isolated_def Let_def isManaged_def)
qed

text \<open>Rules for the branches of the steps of a card.\<close>

lemma isolated_rules:
  "isolated R i n x \<Longrightarrow> isolated R i n y \<Longrightarrow> isolated R i n (if b then x else y)"
  "\<forall>(k, v) \<in> set kvs. option_name k \<and> k \<notin> set isolation_options \<Longrightarrow> isolated R i n x \<Longrightarrow> isolated R i n (ru_set R c m kvs x)"
  "option_name k \<Longrightarrow> k \<notin> set isolation_options \<Longrightarrow> isolated R i n x \<Longrightarrow> isolated R i n (au_unset (ru_base R) x c m k)"
  using isolated_set isolated_unset by simp_all

lemma isolated_radio: "isolated R i n u \<Longrightarrow> isolated R i n (write_radio R r shown original u)"
  unfolding write_radio_def writeOptionalRadioSetting_def Let_def
  by (intro isolated_rules) (simp_all add: option_name_def isolation_options_def)

lemma isolated_wifi: "isolated R i n u \<Longrightarrow> isolated R i n (write_wifi R r m x u)"
  unfolding write_wifi_def Let_def case_prod_unfold
  by (intro isolated_rules) (simp_all add: option_name_def isolation_options_def)

lemma isolated_add:
  assumes "isolated R i n u"
  shows "isolated R i n (if has_option R u ''wireless'' m ''device'' then u else named_add R ''wireless'' t m kvs u)"
proof (cases "has_option R u ''wireless'' m ''device''")
  case False
  then have "m \<noteq> n" using assms by (auto simp: has_option_def isolated_def Let_def)
  then have "get (named_add R ''wireless'' t m kvs u) ''wireless'' n = get u ''wireless'' n" by (intro keep_rules refl) simp
  then show ?thesis using False isolated_get [OF assms] by simp
qed (use assms in simp)

lemma isolated_write_card: "isolated R i n u \<Longrightarrow> isolated R i n (fst (write_card R isGuest j c u))"
proof -
  assume u: "isolated R i n u"
  have ensured: "isolated R i n (fst (then_step (ensure_card R j c u) (\<lambda>u. (write_wifi R (wc_radio c) (card_name isGuest c) (effectiveWifi c) u, None))))"
    by (rule then_step_inv) (simp_all add: isolated_ensure [OF u] isolated_wifi)
  have off: "isolated R i n (if has_option R u ''wireless'' m ''device'' then ru_set R ''wireless'' m [(''disabled'', JStr ''1'')] u else u)" for m
    by (intro isolated_rules u) (simp add: option_name_def isolation_options_def)
  show ?thesis
    using ensured off isolated_wifi [OF isolated_add [OF u]] by (simp add: write_card_def Let_def)
qed

lemma isolated_card: "isolated R i n u \<Longrightarrow> isolated R i n (fst (save_card R isGuest j c u))"
  unfolding save_card_def Let_def
  by (rule then_step_inv) (simp_all add: isolated_radio isolated_ensure isolated_write_card)

lemma card_isolated:
  assumes "save_card R True i c u = (v, None)" "wc_enabled c" "guest_named True c"
  shows "isolated R i (card_name True c) v"
proof -
  obtain w where "write_card R True i c w = (v, None)"
    using then_step_ok [OF assms(1) [unfolded save_card_def Let_def]] by blast
  then have "then_step (ensure_card R i c w) (\<lambda>u. (write_wifi R (wc_radio c) (card_name True c) (effectiveWifi c) u, None)) = (v, None)"
    using assms(2,3) by (simp add: write_card_def Let_def)
  then obtain x where "ensure_card R i c w = (x, None)" "v = write_wifi R (wc_radio c) (card_name True c) (effectiveWifi c) x"
    using then_step_ok by fastforce
  then show ?thesis using isolated_wifi ensured_isolated by simp
qed

section \<open>The guest firewall after saving\<close>

lemma forwarding_get: "n \<noteq> ''guest_wan_fwd'' \<Longrightarrow> get (guest_forwarding R u) ''firewall'' n = get u ''firewall'' n"
  unfolding guest_forwarding_def by (intro keep_rules refl) simp

lemma guest_network_secured:
  assumes "guest_network R opts u = (v, None)" "any_enabled opts"
  shows "field (get v ''firewall'' ''guest'') ''input'' = JStr ''REJECT'' \<and> list_all (rule_secured (au_base (ru_base R)) v) GUEST_INPUT_RULES"
proof -
  obtain w where w: "ensureGuestFirewall (au_base (ru_base R)) (guest_zone R (guest_dhcp R opts (guest_interface R opts (guest_bridge R u)))) = (w, None)"
    and v: "v = guest_forwarding R w"
    using assms then_step_ok by (fastforce simp: guest_network_def)
  note ok = ensureGuestFirewall_ok [OF w]
  have "field (get v ''firewall'' ''guest'') ''input'' = JStr ''REJECT''" using ok(1) by (simp add: v forwarding_get)
  moreover have "rule_secured (au_base (ru_base R)) v r" if "r \<in> set GUEST_INPUT_RULES" for r
  proof -
    have "get v ''firewall'' (fst r) = get w ''firewall'' (fst r)"
      unfolding v by (rule forwarding_get) (use that in \<open>auto simp: GUEST_INPUT_RULES_def\<close>)
    then show ?thesis using rule_secured_get [of v r w] ok(2) that by (simp add: list_all_iff)
  qed
  ultimately show ?thesis by (simp add: list_all_iff)
qed

lemma cards_firewall:
  assumes "field (get u ''firewall'' ''guest'') ''input'' = JStr ''REJECT'' \<and> list_all (rule_secured (au_base (ru_base R)) u) GUEST_INPUT_RULES"
    and "\<And>n. get v ''firewall'' n = get u ''firewall'' n"
  shows "field (get v ''firewall'' ''guest'') ''input'' = JStr ''REJECT'' \<and> list_all (rule_secured (au_base (ru_base R)) v) GUEST_INPUT_RULES"
  using assms rule_secured_get [of v _ u] by (simp add: list_all_iff)

lemma guest_edit_secured:
  assumes "edit_segment R True i opts u = (v, None)" "any_enabled opts"
  shows "field (get v ''firewall'' ''guest'') ''input'' = JStr ''REJECT'' \<and> list_all (rule_secured (au_base (ru_base R)) v) GUEST_INPUT_RULES
    \<and> (\<forall>c \<in> set (so_cards opts). wc_enabled c \<and> guest_named True c \<longrightarrow> isolated R i (card_name True c) v)"
proof -
  obtain w x where w: "guest_network R opts w = (x, None)" and cards: "for_each (save_card R True i) (so_cards opts) x = (v, None)"
    using assms(1) by (auto simp: edit_segment_def Let_def dest!: then_step_ok)
  have "get v ''firewall'' n = get x ''firewall'' n" for n
    using cards_get [of "''firewall''" True i "so_cards opts" x n] by (simp add: cards)
  note secured = cards_firewall [OF guest_network_secured [OF w assms(2)] this]
  have "isolated R i (card_name True c) v" if "c \<in> set (so_cards opts)" "wc_enabled c" "guest_named True c" for c
    by (rule for_each_establish [OF cards that(1)]) (use card_isolated that(2,3) isolated_card in blast)+
  then show ?thesis using secured by blast
qed

section \<open>Deleting\<close>

abbreviation marked_at :: "'u \<Rightarrow> string \<Rightarrow> string \<Rightarrow> bool" where
  "marked_at u c n \<equiv> field (get u c n) ''freenetic_managed'' = JStr ''1''"

lemma remove_owned_get:
  "get (remove_owned R d m u) c n = (if (c, n) = (d, m) \<and> marked_at u d m then JNull else get u c n)"
  using removed [of d m u] remove_get [of d m c n u] by (auto simp: remove_owned_def owned_def)

definition delete_wifi :: "'u \<Rightarrow> jsval list \<Rightarrow> 'u" where
  "delete_wifi u ss = foldl (\<lambda>u s. if isManaged s \<and> field s ''network'' = JStr ''guest''
     then au_remove (ru_base R) ''wireless'' (to_str (field s ''.name'')) u else u) u ss"

lemma delete_wifi_get:
  "get (delete_wifi u ss) c n = (if c = ''wireless'' \<and> (\<exists>s \<in> set ss. isManaged s \<and> field s ''network'' = JStr ''guest'' \<and> to_str (field s ''.name'') = n)
     then JNull else get u c n)"
proof (induction ss arbitrary: u)
  case (Cons s ss)
  let ?m = "to_str (field s ''.name'')"
  have "get (au_remove (ru_base R) ''wireless'' ?m u) c n = (if c = ''wireless'' \<and> n = ?m then JNull else get u c n)"
    using removed [of "''wireless''" ?m u] remove_get [of "''wireless''" ?m c n u] by auto
  moreover have "delete_wifi u (s # ss) = delete_wifi (if isManaged s \<and> field s ''network'' = JStr ''guest''
     then au_remove (ru_base R) ''wireless'' ?m u else u) ss" by (simp add: delete_wifi_def)
  ultimately show ?case using Cons by auto
qed (simp add: delete_wifi_def)

lemma remove_rules_get:
  "get (removeGuestFirewallRules (au_base (ru_base R)) u) c n = get u c n
   \<or> c = ''firewall'' \<and> marked_at u c n \<and> get (removeGuestFirewallRules (au_base (ru_base R)) u) c n = JNull"
proof -
  let ?f = "\<lambda>u (name, vals). if isManaged (uci_get (au_base (ru_base R)) u ''firewall'' name) then uci_remove (au_base (ru_base R)) u ''firewall'' name else u"
  have "get (foldl ?f v rs) c n = get u c n \<or> c = ''firewall'' \<and> marked_at u c n \<and> get (foldl ?f v rs) c n = JNull"
    if "get v c n = get u c n \<or> c = ''firewall'' \<and> marked_at u c n \<and> get v c n = JNull" for v rs
    using that
  proof (induction rs arbitrary: v)
    case (Cons r rs)
    obtain name vals where r: "r = (name, vals)" by (cases r)
    have "get (?f v r) c n = get u c n \<or> c = ''firewall'' \<and> marked_at u c n \<and> get (?f v r) c n = JNull"
    proof (cases "isManaged (get v ''firewall'' name) \<and> (c, n) = (''firewall'', name)")
      case True
      then have "get v c n \<noteq> JNull" by (auto simp: isManaged_def truthy_def)
      then show ?thesis using Cons.prems True remove_this [of v "''firewall''" name] by (auto simp: r isManaged_def)
    next
      case False
      then have "get (?f v r) c n = get v c n" using remove_other [of c n "''firewall''" name v] by (auto simp: r)
      then show ?thesis using Cons.prems by simp
    qed
    then show ?case using Cons.IH by simp
  qed simp
  from this [of u GUEST_INPUT_RULES] show ?thesis unfolding removeGuestFirewallRules_def by blast
qed

lemma managed_marked: "isManaged (get u c n) \<longleftrightarrow> marked_at u c n"
  by (cases "get u c n") (auto simp: isManaged_def field_def truthy_def)

lemma rules_gone:
  "\<forall>(name, vals) \<in> set GUEST_INPUT_RULES. \<not> marked_at (removeGuestFirewallRules (au_base (ru_base R)) u) ''firewall'' name"
proof -
  define f where "f = (\<lambda>u (name :: string, vals :: (string \<times> jsval) list). if isManaged (uci_get (au_base (ru_base R)) u ''firewall'' name)
    then uci_remove (au_base (ru_base R)) u ''firewall'' name else u)"
  have step: "get (f v r) ''firewall'' n = (if n = fst r \<and> marked_at v ''firewall'' n then JNull else get v ''firewall'' n)" for v r n
    using remove_this [of v "''firewall''" "fst r"] remove_other [of "''firewall''" n "''firewall''" "fst r" v] managed_marked [of v "''firewall''" "fst r"]
    by (cases r) (auto simp: f_def)
  have stays: "\<not> marked_at v ''firewall'' n \<Longrightarrow> \<not> marked_at (f v r) ''firewall'' n" and goes: "\<not> marked_at (f v r) ''firewall'' (fst r)" for v r n
    unfolding step by (auto simp: field_def)
  have "\<forall>r \<in> set rs. \<not> marked_at (foldl f v rs) ''firewall'' (fst r)" for v rs
    by (induction rs rule: rev_induct) (use stays goes in auto)
  then show ?thesis unfolding removeGuestFirewallRules_def f_def [symmetric] by fastforce
qed

text \<open>\<open>v\<close> is \<open>u\<close> without some of the sections of the program.\<close>

definition taken :: "'u \<Rightarrow> 'u \<Rightarrow> bool" where
  "taken u v \<longleftrightarrow> (\<forall>c n. get v c n = get u c n \<or> marked_at u c n \<and> get v c n = JNull)"

lemma taken_trans: "taken u v \<Longrightarrow> taken v w \<Longrightarrow> taken u w"
  unfolding taken_def by (metis (no_types, lifting))

lemma taken_owned: "taken u (remove_owned R d m u)"
  unfolding taken_def remove_owned_get by auto

lemma taken_rules: "taken u (removeGuestFirewallRules (au_base (ru_base R)) u)"
  using remove_rules_get [of u] unfolding taken_def by blast

lemma taken_wifi: "taken u (delete_wifi u (ru_sections R u ''wireless'' t))"
  unfolding taken_def delete_wifi_get
proof (intro allI)
  fix c n
  let ?b = "c = ''wireless'' \<and> (\<exists>s \<in> set (ru_sections R u ''wireless'' t). isManaged s \<and> field s ''network'' = JStr ''guest'' \<and> to_str (field s ''.name'') = n)"
  have "marked_at u c n" if b: ?b
  proof -
    obtain s where s: "s \<in> set (ru_sections R u ''wireless'' t)" "isManaged s" "to_str (field s ''.name'') = n" "c = ''wireless''" using b by blast
    then show ?thesis using section_is [OF s(1)] by (auto simp: named_def isManaged_def)
  qed
  then show "(if ?b then JNull else get u c n) = get u c n \<or> marked_at u c n \<and> (if ?b then JNull else get u c n) = JNull" by simp
qed

lemma taken_bridge:
  assumes "s \<in> set (ru_sections R u ''network'' t)" "field s ''freenetic_managed'' = JStr ''1''"
  shows "taken u (au_remove (ru_base R) ''network'' (to_str (field s ''.name'')) u)"
proof -
  obtain m where m: "named m s" "get u ''network'' m = s" using section_is [OF assms(1)] by blast
  then have n: "to_str (field s ''.name'') = m" by (simp add: named_def)
  have "get (au_remove (ru_base R) ''network'' m u) c n = (if (c, n) = (''network'', m) then JNull else get u c n)" for c n
    using removed [of "''network''" m u] remove_get [of "''network''" m c n u] by auto
  then show ?thesis using m(2) assms(2) unfolding taken_def n by auto
qed

lemma unmarked_stays: "\<not> marked_at u c n \<Longrightarrow> taken u v \<Longrightarrow> \<not> marked_at v c n"
  unfolding taken_def by metis

lemma owned_gone: "\<not> marked_at (remove_owned R d m u) d m"
  unfolding remove_owned_get by (simp add: field_def)

lemma null_stays: "get u c n = JNull \<Longrightarrow> taken u v \<Longrightarrow> get v c n = JNull"
  unfolding taken_def by metis

text \<open>The bridge of the program goes last.\<close>

definition delete_bridge :: "'u \<Rightarrow> 'u" where
  "delete_bridge u = (case find guest_bridge_of (ru_sections R u ''network'' ''device'') of
     Some s \<Rightarrow> au_remove (ru_base R) ''network'' (to_str (field s ''.name'')) u | None \<Rightarrow> u)"

lemma taken_delete_bridge: "taken u (delete_bridge u)"
proof (cases "find guest_bridge_of (ru_sections R u ''network'' ''device'')")
  case (Some s)
  then have "s \<in> set (ru_sections R u ''network'' ''device'')" "guest_bridge_of s" by (auto simp: find_Some_iff)
  then show ?thesis using taken_bridge Some by (simp add: delete_bridge_def guest_bridge_of_def)
qed (simp add: delete_bridge_def taken_def)

lemma taken_listed:
  assumes "taken u v" "s \<in> set (ru_sections R v d t)"
  shows "s \<in> set (ru_sections R u d t) \<and> (\<exists>n. named n s \<and> get v d n = s)"
proof -
  obtain n where n: "named n s" "field s ''.type'' = JStr t" "get v d n = s" using section_is [OF assms(2)] by blast
  have "s \<noteq> JNull" using n(2) by (rule typed_not_null)
  then have "get u d n = s" using assms(1) n(3) unfolding taken_def by metis
  then show ?thesis using listed [of u d n] n by metis
qed

lemma bridge_gone:
  assumes "taken u w" and one: "\<forall>s \<in> set (ru_sections R u ''network'' ''device''). \<forall>t \<in> set (ru_sections R u ''network'' ''device'').
      guest_bridge_of s \<and> guest_bridge_of t \<longrightarrow> s = t"
  shows "\<forall>s \<in> set (ru_sections R (delete_bridge w) ''network'' ''device''). \<not> guest_bridge_of s"
proof (intro ballI notI)
  fix s
  assume s: "s \<in> set (ru_sections R (delete_bridge w) ''network'' ''device'')" "guest_bridge_of s"
  obtain n where n: "named n s" "get (delete_bridge w) ''network'' n = s" "s \<in> set (ru_sections R w ''network'' ''device'')"
    using taken_listed [OF taken_delete_bridge s(1)] by blast
  then obtain t where t: "find guest_bridge_of (ru_sections R w ''network'' ''device'') = Some t"
    using s(2) by (cases "find guest_bridge_of (ru_sections R w ''network'' ''device'')") (auto simp: find_None_iff)
  then have "t \<in> set (ru_sections R w ''network'' ''device'')" "guest_bridge_of t" by (auto simp: find_Some_iff)
  then have "t = s" using one s(2) n(3) taken_listed [OF assms(1)] by blast
  then have "delete_bridge w = au_remove (ru_base R) ''network'' n w"
    using t n(1) by (simp add: delete_bridge_def named_def)
  then have "s = JNull" using n(2) removed [of "''network''" n w] by simp
  then show False using s(2) by (simp add: guest_bridge_of_def field_def)
qed

lemma delete_guest_steps:
  obtains a b c d e f where "a = delete_wifi u (ru_sections R u ''wireless'' ''wifi-iface'')" "b = remove_owned R ''dhcp'' ''guest'' a"
    "c = removeGuestFirewallRules (au_base (ru_base R)) b" "d = remove_owned R ''firewall'' ''guest_wan_fwd'' c"
    "e = remove_owned R ''firewall'' ''guest'' d" "f = remove_owned R ''network'' ''guest'' e" "delete_guest R u = delete_bridge f"
proof -
  define a where "a = delete_wifi u (ru_sections R u ''wireless'' ''wifi-iface'')"
  define b where "b = remove_owned R ''dhcp'' ''guest'' a"
  define c where "c = removeGuestFirewallRules (au_base (ru_base R)) b"
  define d where "d = remove_owned R ''firewall'' ''guest_wan_fwd'' c"
  define e where "e = remove_owned R ''firewall'' ''guest'' d"
  define f where "f = remove_owned R ''network'' ''guest'' e"
  have "delete_guest R u = delete_bridge f"
    unfolding delete_guest_def Let_def f_def e_def d_def c_def b_def a_def delete_wifi_def delete_bridge_def guest_bridge_of_def ..
  then show ?thesis by (rule that [OF a_def b_def c_def d_def e_def f_def])
qed

lemma delete_guest_taken:
  "taken u (delete_guest R u) \<and> \<not> marked_at (delete_guest R u) ''dhcp'' ''guest'' \<and> \<not> marked_at (delete_guest R u) ''firewall'' ''guest''
   \<and> \<not> marked_at (delete_guest R u) ''firewall'' ''guest_wan_fwd'' \<and> \<not> marked_at (delete_guest R u) ''network'' ''guest''
   \<and> (\<forall>s \<in> set (ru_sections R (delete_guest R u) ''wireless'' ''wifi-iface''). \<not> (isManaged s \<and> field s ''network'' = JStr ''guest''))
   \<and> (\<forall>(name, vals) \<in> set GUEST_INPUT_RULES. \<not> marked_at (delete_guest R u) ''firewall'' name)
   \<and> ((\<forall>s \<in> set (ru_sections R u ''network'' ''device''). \<forall>t \<in> set (ru_sections R u ''network'' ''device'').
        guest_bridge_of s \<and> guest_bridge_of t \<longrightarrow> s = t)
      \<longrightarrow> (\<forall>s \<in> set (ru_sections R (delete_guest R u) ''network'' ''device''). \<not> guest_bridge_of s))"
proof -
  obtain a b c d e f where steps: "a = delete_wifi u (ru_sections R u ''wireless'' ''wifi-iface'')" "b = remove_owned R ''dhcp'' ''guest'' a"
    "c = removeGuestFirewallRules (au_base (ru_base R)) b" "d = remove_owned R ''firewall'' ''guest_wan_fwd'' c"
    "e = remove_owned R ''firewall'' ''guest'' d" "f = remove_owned R ''network'' ''guest'' e" "delete_guest R u = delete_bridge f"
    by (rule delete_guest_steps)
  let ?v = "delete_guest R u"
  have t: "taken u a" "taken a b" "taken b c" "taken c d" "taken d e" "taken e f"
    using taken_wifi taken_owned taken_rules steps by auto
  have fv: "taken f ?v" unfolding steps(7) by (rule taken_delete_bridge)
  have uf: "taken u f" using t taken_trans by blast
  have ev: "taken e ?v" and dv: "taken d ?v" and cv: "taken c ?v" and bv: "taken b ?v" and av: "taken a ?v" and uv: "taken u ?v"
    using t fv taken_trans by blast+
  have rules: "\<forall>(name, vals) \<in> set GUEST_INPUT_RULES. \<not> marked_at ?v ''firewall'' name"
    using rules_gone [of b] unmarked_stays [OF _ cv] unfolding steps(3) by blast
  note bridge = bridge_gone [OF uf, folded steps(7)]
  have gone: "\<not> marked_at ?v ''dhcp'' ''guest''" "\<not> marked_at ?v ''firewall'' ''guest_wan_fwd''" "\<not> marked_at ?v ''firewall'' ''guest''" "\<not> marked_at ?v ''network'' ''guest''"
    using unmarked_stays [OF owned_gone] bv dv ev fv steps(2,4-6) by metis+
  have "\<not> (isManaged s \<and> field s ''network'' = JStr ''guest'')" if s: "s \<in> set (ru_sections R ?v ''wireless'' ''wifi-iface'')" for s
  proof
    assume own: "isManaged s \<and> field s ''network'' = JStr ''guest''"
    obtain n where n: "named n s" "field s ''.type'' = JStr ''wifi-iface''" "get ?v ''wireless'' n = s" using section_is [OF s] by blast
    have "s \<noteq> JNull" using n(2) by (rule typed_not_null)
    then have "get u ''wireless'' n = s" using uv n(3) unfolding taken_def by metis
    then have "s \<in> set (ru_sections R u ''wireless'' ''wifi-iface'')" using listed [of u "''wireless''" n] n(2) by metis
    then have "get a ''wireless'' n = JNull"
      unfolding steps(1) delete_wifi_get using own n(1) by (auto simp: named_def)
    then show False using null_stays [OF _ av] n(3) \<open>s \<noteq> JNull\<close> by metis
  qed
  then show ?thesis using uv gone rules bridge by blast
qed

end

section \<open>The properties\<close>

text \<open>C29: after the guest segment was saved with Wi-Fi switched on at a radio, the zone of the program rejects
  the clients of the segment except for the rules of the program, all of which are in place; and every Wi-Fi section
  of the form that has the name of the program (\<open>guest_\<close> and the radio) and is on is isolated.  A guest section that
  the user made under another name is not covered: the handler leaves its isolation as it is.\<close>

theorem guest_saved:
  fixes R :: "'u route_uci"
  assumes "route_store R" "sr_saved (saveSegment R ss ''guest'' i opts u)" "any_enabled opts"
  shows "let v = sr_store (saveSegment R ss ''guest'' i opts u)
     in field (au_get (ru_base R) v ''firewall'' ''guest'') ''input'' = JStr ''REJECT''
        \<and> (\<forall>r \<in> set GUEST_INPUT_RULES. rule_secured (au_base (ru_base R)) v r)
        \<and> (\<forall>c \<in> set (so_cards opts). wc_enabled c \<and> guest_named True c \<longrightarrow> isolated R i (card_name True c) v)"
  using route_store.guest_edit_secured [OF assms(1) conjunct2 [OF saved_segment [OF assms(2)], simplified] assms(3)]
  unfolding Let_def list_all_iff .

text \<open>A router without a guest segment, and a form that switches it on at one radio.\<close>

definition guest_card :: wifi_card where
  "guest_card = (let r = \<lparr>rf_channel = ''auto'', rf_htmode = ''HE20'', rf_txpower = [], rf_country = ''00''\<rparr>
     in \<lparr>wc_band = ''2g'', wc_radio = ''radio0'', wc_section = [], wc_enabled = True, wc_ssid = ''Guests'', wc_security = ''psk2'',
         wc_key = ''12345678'', wc_shown = r\<lparr>rf_channel := ''6''\<rparr>, wc_original = r, wc_link = None\<rparr>)"

definition guest_opts :: seg_opts where
  "guest_opts = home_opts\<lparr>so_label := ''Guest'', so_ipv4 := False, so_cards := [guest_card]\<rparr>"

definition guest_config :: list_store where
  "guest_config = [((''wireless'', ''radio0''), [(''.type'', JStr ''wifi-device''), (''band'', JStr ''2g'')])]"

text \<open>The sections that the edit makes there, before and after the firewall is secured.\<close>

definition guest_made :: "(string \<times> jsval) list \<Rightarrow> list_store" where
  "guest_made input = guest_config @
     [((''network'', ''cfgxxxxxx''), [(''.type'', JStr ''device''), (''name'', JStr ''br-guest''), (''type'', JStr ''bridge''),
         (''bridge_empty'', JStr ''1''), (''freenetic_managed'', JStr ''1'')]),
      ((''network'', ''guest''), [(''.type'', JStr ''interface''), (''proto'', JStr ''none''), (''device'', JStr ''br-guest''),
         (''label'', JStr ''Guest''), (''freenetic_managed'', JStr ''1'')]),
      ((''firewall'', ''guest''), [(''.type'', JStr ''zone''), (''name'', JStr ''guest''), (''network'', JStr ''guest''),
         (''output'', JStr ''ACCEPT''), (''forward'', JStr ''REJECT''), (''freenetic_managed'', JStr ''1'')] @ input)]"

definition guest_secured :: list_store where
  "guest_secured = guest_made [(''input'', JStr ''REJECT'')] @
     map (\<lambda>(n, vals). ((''firewall'', n), (''.type'', JStr ''rule'') # vals)) GUEST_INPUT_RULES"

lemma guest_zone_made: "guest_zone list_route (guest_interface list_route guest_opts (guest_bridge list_route guest_config)) = guest_made []"
  by code_simp

lemma guest_rules_made: "ensureGuestFirewall (au_base (ru_base list_route)) (guest_made []) = (guest_secured, None)"
  by code_simp

lemma guest_card_saved: "snd (save_card list_route True ''guest'' guest_card (guest_forwarding list_route guest_secured)) = None"
  by code_simp

lemma guest_edited: "snd (edit_segment list_route True ''guest'' guest_opts guest_config) = None"
proof -
  have start: "assertGuestFirewallOwnership (au_base (ru_base list_route)) guest_config = None"
    "set_label list_route ''guest'' guest_opts (adoptLegacyGuest (au_base (ru_base list_route)) guest_config) = guest_config" by code_simp+
  have on: "any_enabled guest_opts" "so_cards guest_opts = [guest_card]" "\<not> so_ipv4 guest_opts"
    by (simp_all add: guest_opts_def guest_card_def any_enabled_def Let_def)
  have "guest_network list_route guest_opts guest_config = (guest_forwarding list_route guest_secured, None)"
    by (simp add: guest_network_def on guest_dhcp_def guest_zone_made guest_rules_made then_step_def)
  then show ?thesis
    using guest_card_saved by (auto simp: edit_segment_def Let_def start on then_step_def split: prod.splits option.splits)
qed

lemma guest_checked: "segment_warning guest_opts = None"
proof -
  have "card_warning guest_card = None" by code_simp
  then show ?thesis by (simp add: segment_warning_def ipv4_warning_def guest_opts_def map_filter_simps)
qed

lemma guest_saving: "sr_saved (saveSegment list_route seg_ready ''guest'' ''guest'' guest_opts guest_config)"
  by (rule seg_saved) (simp_all add: guest_checked guest_edited)

theorem guest_saved_witness:
  "let v = sr_store (saveSegment list_route seg_ready ''guest'' ''guest'' guest_opts guest_config)
   in field (au_get (ru_base list_route) v ''firewall'' ''guest'') ''input'' = JStr ''REJECT''
      \<and> isolated list_route ''guest'' ''guest_radio0'' v"
proof -
  have card: "guest_card \<in> set (so_cards guest_opts)" "wc_enabled guest_card" "guest_named True guest_card" "card_name True guest_card = ''guest_radio0''"
    by (simp_all add: guest_opts_def guest_card_def Let_def guest_named_def card_name_def fallback_name_def)
  have on: "any_enabled guest_opts" using card(1,2) by (auto simp: any_enabled_def list_ex_iff)
  note saved = guest_saved [OF list_route.route_store_axioms guest_saving on, unfolded Let_def]
  show ?thesis using saved card by (metis (no_types, lifting))
qed

text \<open>C30: deleting the guest segment takes only sections of the program, all others stay as they are.  After it
  the server, the zone, the forwarding, the input rules and the interface of the segment are not those of the program,
  no Wi-Fi section of the program is on it, and its bridge is gone, when the program had one such device: the handler
  removes one.\<close>

theorem guest_deleted:
  fixes R :: "'u route_uci"
  assumes "route_store R" "sr_saved (deleteGuestSegment R ss u)"
  shows "let v = sr_store (deleteGuestSegment R ss u);
       bridge = (\<lambda>s. field s ''name'' = JStr ''br-guest'' \<and> field s ''freenetic_managed'' = JStr ''1'');
       devices = (\<lambda>w. set (ru_sections R w ''network'' ''device''))
     in (\<forall>c n. au_get (ru_base R) v c n = au_get (ru_base R) u c n \<or> owned R u c n \<and> au_get (ru_base R) v c n = JNull)
        \<and> (\<forall>(c, n) \<in> {(''dhcp'', ''guest''), (''firewall'', ''guest''), (''firewall'', ''guest_wan_fwd''), (''network'', ''guest'')}. \<not> owned R v c n)
        \<and> (\<forall>(name, vals) \<in> set GUEST_INPUT_RULES. \<not> owned R v ''firewall'' name)
        \<and> (\<forall>s \<in> set (ru_sections R v ''wireless'' ''wifi-iface''). \<not> (isManaged s \<and> field s ''network'' = JStr ''guest''))
        \<and> ((\<forall>s \<in> devices u. \<forall>t \<in> devices u. bridge s \<and> bridge t \<longrightarrow> s = t) \<longrightarrow> (\<forall>s \<in> devices v. \<not> bridge s))"
proof -
  have v: "sr_store (deleteGuestSegment R ss u) = delete_guest R u"
    using assms(2) run_save_saved [of "ss_base ss" False "\<lambda>u. (delete_guest R u, None)" "''Failed to delete: ''" "[]" "''Guest network deleted.''" u]
    by (auto simp: deleteGuestSegment_def nothing_def split: if_splits)
  show ?thesis
    using route_store.delete_guest_taken [OF assms(1), of u]
    unfolding v Let_def route_store.taken_def [OF assms(1)] guest_bridge_of_def owned_def by simp
qed

text \<open>A saved guest segment, beside a zone for visitors of the user's own making.\<close>

definition full_config :: list_store where
  "full_config = ((''firewall'', ''visitors''), [(''.type'', JStr ''zone''), (''input'', JStr ''REJECT'')]) # guest_secured"

lemma full_config_is:
  "owned list_route full_config ''firewall'' ''guest''" "\<not> owned list_route full_config ''firewall'' ''visitors''"
  by code_simp+

theorem guest_deleted_witness:
  "let v = sr_store (deleteGuestSegment list_route seg_ready full_config)
   in owned list_route full_config ''firewall'' ''guest'' \<and> \<not> owned list_route v ''firewall'' ''guest''
      \<and> au_get (ru_base list_route) v ''firewall'' ''visitors'' = au_get (ru_base list_route) full_config ''firewall'' ''visitors''"
proof -
  have saved: "sr_saved (deleteGuestSegment list_route seg_ready full_config)"
    by (simp add: deleteGuestSegment_def seg_ready_def run_save_def ready_services_def Let_def)
  show ?thesis
    using guest_deleted [OF list_route.route_store_axioms saved] full_config_is unfolding Let_def by fastforce
qed

end
