(* ===== verification/Ddns.thy ===== *)
theory Ddns
  imports Segments_Properties Wg_Config
begin

text \<open>
  The profiles of Dynamic DNS (\<open>view/network/freenetic-ddns.js\<close>): the names of providers, the
  checks, the list of profiles, the form, and the handlers that edit the \<open>ddns\<close> configuration and
  restart the service.  Tables are looked up by their own names only.
\<close>

section \<open>Names\<close>

definition DDNS_HELPER :: string where "DDNS_HELPER = ''/usr/lib/ddns/dynamic_dns_lucihelper.sh''"
definition CUSTOM_PROVIDER :: string where "CUSTOM_PROVIDER = ''__custom__''"

definition service_id :: "string \<Rightarrow> bool" where
  "service_id s \<longleftrightarrow> (case s of [] \<Rightarrow> False
     | c # cs \<Rightarrow> (is_upper c \<or> is_lower c) \<and> list_all (\<lambda>c. is_alnum c \<or> c = CHR ''_'') cs)"

definition host_label :: "string \<Rightarrow> bool" where
  "host_label s \<longleftrightarrow> s \<noteq> [] \<and> length s \<le> 63 \<and> is_alnum (hd s) \<and> is_alnum (last s)
     \<and> list_all (\<lambda>c. is_alnum c \<or> c = CHR ''-'') s"

definition PROVIDER_LABELS :: "(string \<times> string) list" where
  "PROVIDER_LABELS = [(''dyndns.org'', ''DynDNS''), (''duckdns.org'', ''DuckDNS''), (''no-ip.com'', ''No-IP''),
     (''dynv6.com'', ''dynv6''), (''cloudflare.com-v4'', ''Cloudflare (IPv4)''),
     (''afraid.org-v2-token'', ''FreeDNS (token)''), (''he.net'', ''Hurricane Electric'')]"

definition COMMON_PROVIDERS :: "string list" where
  "COMMON_PROVIDERS = [''cloudflare.com-v4'', ''duckdns.org'', ''dyndns.org'', ''dynv6.com'', ''no-ip.com'']"

definition providerLabel :: "string \<Rightarrow> string" where
  "providerLabel name = (case map_of PROVIDER_LABELS name of Some l \<Rightarrow> l | None \<Rightarrow> name)"

definition validHostname_dd :: "string \<Rightarrow> bool" where
  "validHostname_dd v0 =
     (let v = trim v0
      in if v = [] \<or> 253 < length v \<or> hd v = CHR ''.'' \<or> last v = CHR ''.'' then False
         else list_all host_label (split_on CHR ''.'' v))"

definition validUpdateUrl :: "string \<Rightarrow> bool" where
  "validUpdateUrl v0 =
     (let v = trim v0; tail = (\<lambda>p. starts_with p (lower v) \<and> drop (length p) v \<noteq> [] \<and> \<not> list_ex is_ws (drop (length p) v))
      in tail ''http://'' \<or> tail ''https://'')"

definition requireSuccessfulCommand :: "jsval \<Rightarrow> string \<Rightarrow> string + jsval" where
  "requireSuccessfulCommand result fallback =
     (if \<not> truthy result \<or> field result ''code'' \<noteq> JNum (Num 0)
      then Inl (to_str (or_else (and_then result (or_else (field result ''stderr'') (field result ''stdout''))) (JStr fallback)))
      else Inr result)"

text \<open>What the page loads; a failed call counts as no answer.\<close>

definition DDNS_PACKAGES :: "string list" where "DDNS_PACKAGES = [''ddns-scripts'', ''luci-app-ddns'']"

definition getPackageStatus_dd :: "fs_ops \<Rightarrow> jsval" where
  "getPackageStatus_dd fs =
     (case fs_exec fs ''/usr/libexec/freenetic-package-status'' DDNS_PACKAGES of
        Inl _ \<Rightarrow> JNull | Inr result \<Rightarrow> or_else (and_then result (field result ''packages'')) JNull)"

definition getDdnsState :: "ubus \<Rightarrow> jsval" where
  "getDdnsState ubusCall = (case ubusCall ''luci.ddns'' ''get_ddns_state'' (JObj []) of Inl _ \<Rightarrow> JObj [] | Inr r \<Rightarrow> r)"

definition getServicesStatus :: "ubus \<Rightarrow> jsval" where
  "getServicesStatus ubusCall = (case ubusCall ''luci.ddns'' ''get_services_status'' (JObj []) of Inl _ \<Rightarrow> JObj [] | Inr r \<Rightarrow> r)"

definition providerName :: "jsval \<Rightarrow> string" where
  "providerName entry =
     (let name = to_str (or_else (if is_string entry then entry else and_then entry (field entry ''name'')) (JStr []))
      in if ends_with ''.json'' name then take (length name - 5) name else name)"

text \<open>The order of \<open>sort()\<close>: the codes of the characters.\<close>

fun text_before :: "string \<Rightarrow> string \<Rightarrow> bool" where
  "text_before [] t = (t \<noteq> [])"
| "text_before (c # s) [] = False"
| "text_before (c # s) (d # t) = (cc c < cc d \<or> c = d \<and> text_before s t)"

definition sort_texts :: "string list \<Rightarrow> string list" where
  "sort_texts = sort_by (\<lambda>a b. if a = b then 0 else if text_before a b then - 1 else 1)"

definition getProviders :: "string + jsval list \<Rightarrow> string + jsval list \<Rightarrow> string + string \<Rightarrow> string list" where
  "getProviders defaults custom listed =
     (let entries = (\<lambda>r. case r of Inl _ \<Rightarrow> [] | Inr es \<Rightarrow> filter (\<lambda>n. n \<noteq> []) (map providerName es));
          lines = (case listed of Inl _ \<Rightarrow> [] | Inr s \<Rightarrow> filter (\<lambda>n. n \<noteq> []) (map trim (split_lines s)))
      in sort_texts (filter (\<lambda>n. n \<noteq> ''__proto__'') (remdups (COMMON_PROVIDERS @ entries defaults @ entries custom @ lines))))"

definition interfaceLabel :: "jsval \<Rightarrow> jsval" where
  "interfaceLabel name =
     (if name = JStr ''wan'' then JStr ''Internet'' else if name = JStr ''wan6'' then JStr ''Internet (IPv6)''
      else if name = JStr ''lan'' then JStr ''Home network'' else if name = JStr ''guest'' then JStr ''Guest network'' else name)"

definition statusRunning :: "jsval \<Rightarrow> bool" where
  "statusRunning status \<longleftrightarrow> truthy status \<and> num_less (Num 0) (to_number (field status ''pid''))"

section \<open>The page\<close>

definition isReady_dd :: "jsval \<Rightarrow> bool" where
  "isReady_dd packageStatus = (let state = and_then packageStatus (field packageStatus ''ddns-scripts'')
     in truthy (and_then state (field state ''installed'')))"

definition support_text :: "jsval \<Rightarrow> string option" where
  "support_text packageStatus =
     (let state = and_then packageStatus (field packageStatus ''ddns-scripts'')
      in if isReady_dd packageStatus then None
         else if truthy state \<and> truthy (field state ''available'') then Some ''Install ddns-scripts to configure Dynamic DNS profiles.''
         else Some ''This firmware does not provide a compatible ddns-scripts package.'')"

definition serviceStateText :: "jsval \<Rightarrow> jsval \<Rightarrow> string" where
  "serviceStateText packageStatus ddnsState =
     (if \<not> isReady_dd packageStatus then ''Install ddns-scripts before starting updates.''
      else if truthy ddnsState \<and> field ddnsState ''_enabled'' \<in> {JBool True, JNum (Num 1), JStr ''1''}
      then ''Autostart is enabled; profiles run on boot and interface events.''
      else ''Autostart is disabled; profiles can still be run manually.'')"

definition getInterfaces_dd :: "jsval list \<Rightarrow> (jsval \<times> jsval) list" where
  "getInterfaces_dd sections =
     (let result = foldl (\<lambda>result s.
            let name = sectionName_conn s
            in if \<not> truthy name \<or> name = JStr ''loopback'' \<or> field s ''proto'' = JStr ''none''
                  \<or> to_str name \<in> set (map (to_str \<circ> fst) result) then result
               else result @ [(name, or_else (or_else (field s ''label'') (field s ''description'')) (interfaceLabel name))])
            [] sections
      in if result = [] then [(JStr ''wan'', JStr ''Internet'')] else result)"

record dd_profile =
  dp_section :: jsval
  dp_name :: jsval
  dp_provider :: jsval
  dp_host :: jsval
  dp_domain :: jsval
  dp_username :: jsval
  dp_password :: jsval
  dp_useIpv6 :: bool
  dp_network :: jsval
  dp_enabled :: bool
  dp_status :: jsval

definition profile_of :: "jsval \<Rightarrow> jsval \<Rightarrow> dd_profile" where
  "profile_of serviceStatus s =
     (let id = sectionName_conn s; o2 = (\<lambda>a b. or_else (field s a) (field s b)); e = JStr []
      in \<lparr>dp_section = id, dp_name = or_else (o2 ''freenetic_name'' ''name'') id,
          dp_provider = or_else (field s ''service_name'') (JStr CUSTOM_PROVIDER),
          dp_host = or_else (o2 ''lookup_host'' ''domain'') e, dp_domain = or_else (o2 ''domain'' ''lookup_host'') e,
          dp_username = or_else (field s ''username'') e, dp_password = or_else (field s ''password'') e,
          dp_useIpv6 = (field s ''use_ipv6'' = JStr ''1''),
          dp_network = or_else (o2 ''ip_network'' ''interface'') (JStr ''wan''),
          dp_enabled = (field s ''enabled'' \<noteq> JStr ''0''),
          dp_status = or_else (field serviceStatus (to_str id)) (JObj [])\<rparr>)"

definition getProfiles :: "'u route_uci \<Rightarrow> jsval \<Rightarrow> 'u \<Rightarrow> dd_profile list" where
  "getProfiles R serviceStatus u = map (profile_of serviceStatus) (ru_sections R u ''ddns'' ''service'')"

definition profile_status :: "dd_profile \<Rightarrow> string" where
  "profile_status p = (if \<not> dp_enabled p then ''Disabled'' else if statusRunning (dp_status p) then ''Running'' else ''Not running'')"

definition profile_info :: "dd_profile \<Rightarrow> (string \<times> jsval) list" where
  "profile_info p =
     [(''Provider'', if dp_provider p = JStr CUSTOM_PROVIDER then JStr ''Custom provider'' else JStr (providerLabel (to_str (dp_provider p)))),
      (''Hostname'', or_else (dp_host p) (JStr ''Configuration error'')),
      (''Record'', JStr (if dp_useIpv6 p then ''AAAA (IPv6)'' else ''A (IPv4)'')),
      (''Network'', interfaceLabel (dp_network p)),
      (''Current IP'', or_else (field (dp_status p) ''ip'') (JStr ''No data'')),
      (''Last update'', or_else (field (dp_status p) ''last_update'') (JStr ''Never''))]"

section \<open>The form\<close>

record dd_fields =
  df_id :: string
  df_name :: string
  df_provider :: string
  df_host :: string
  df_username :: string
  df_password :: string
  df_useIpv6 :: bool
  df_network :: string
  df_customUrl :: string
  df_enabled :: bool

definition new_profile :: dd_profile where
  "new_profile = \<lparr>dp_section = JNull, dp_name = JStr ''myddns'', dp_provider = JStr ''duckdns.org'', dp_host = JStr [], dp_domain = JStr [],
     dp_username = JStr [], dp_password = JStr [], dp_useIpv6 = False, dp_network = JStr ''wan'', dp_enabled = True, dp_status = JObj []\<rparr>"

text \<open>A list box shows the value that is set when it is an entry, and is empty otherwise.\<close>

definition select_value :: "string list \<Rightarrow> string \<Rightarrow> string" where
  "select_value options v = (if v \<in> set options then v else [])"

definition provider_options :: "string list \<Rightarrow> dd_profile \<Rightarrow> string list" where
  "provider_options providers p =
     (let v = to_str (dp_provider p)
      in CUSTOM_PROVIDER # sort_texts (if truthy (dp_provider p) \<and> v \<noteq> CUSTOM_PROVIDER \<and> v \<notin> set providers
           then providers @ [v] else providers))"

definition network_value :: "string list \<Rightarrow> dd_profile \<Rightarrow> string" where
  "network_value networks p =
     (let v = select_value networks (if truthy (dp_network p) then to_str (dp_network p)
                else if dp_useIpv6 p \<and> ''wan6'' \<in> set networks then ''wan6'' else ''wan'')
      in if v = [] \<and> networks \<noteq> [] then hd networks else v)"

text \<open>What the buttons of the form pass to \<open>saveProfile\<close> when nothing was changed.\<close>

definition form_fields_dd :: "string list \<Rightarrow> string list \<Rightarrow> jsval \<Rightarrow> dd_profile \<Rightarrow> dd_fields" where
  "form_fields_dd providers networks update_url p =
     (let value = (\<lambda>v. to_str (or_else v (JStr [])))
      in \<lparr>df_id = trim (value (or_else (dp_section p) (dp_name p))), df_name = trim (value (dp_name p)),
          df_provider = select_value (provider_options providers p) (to_str (or_else (dp_provider p) (JStr CUSTOM_PROVIDER))),
          df_host = trim (value (dp_host p)), df_username = trim (value (dp_username p)), df_password = value (dp_password p),
          df_useIpv6 = dp_useIpv6 p, df_network = network_value networks p,
          df_customUrl = (if truthy (dp_section p) then trim (value update_url) else []), df_enabled = dp_enabled p\<rparr>)"

definition validateProfile :: "dd_fields \<Rightarrow> string option" where
  "validateProfile f =
     (if \<not> service_id (df_id f) then Some ''Profile ID must start with a letter and contain only letters, numbers or underscores.''
      else if df_name f = [] then Some ''Enter a display name.''
      else if \<not> validHostname_dd (df_host f) then Some ''Enter a valid hostname, for example home.example.com.''
      else if df_provider f = CUSTOM_PROVIDER \<and> \<not> validUpdateUrl (df_customUrl f)
      then Some ''Enter an HTTP or HTTPS update URL for the custom provider.''
      else None)"

section \<open>The handlers\<close>

definition restartDdns :: "fs_ops \<Rightarrow> bool \<Rightarrow> string + jsval" where
  "restartDdns fs ready =
     (if \<not> ready then Inr JUndef
      else and_next (fs_exec fs DDNS_HELPER [''restart'']) (\<lambda>r. requireSuccessfulCommand r ''The DDNS service could not be restarted.''))"

definition ddns_global :: "'u route_uci \<Rightarrow> 'u \<Rightarrow> 'u" where
  "ddns_global R u =
     (if truthy (au_get (ru_base R) u ''ddns'' ''global'') then u
      else named_add R ''ddns'' ''ddns'' ''global'' [(''ddns_dateformat'', JStr ''%F %R''), (''ddns_loglines'', JStr ''250''),
             (''freenetic_managed'', JStr ''1'')] u)"

definition profile_options :: "dd_fields \<Rightarrow> (string \<times> jsval) list" where
  "profile_options f =
     (let flag = (\<lambda>b. JStr (if b then ''1'' else ''0'')); network = JStr (if df_network f \<noteq> [] then df_network f else ''wan'')
      in [(''freenetic_name'', JStr (df_name f)), (''lookup_host'', JStr (df_host f)), (''domain'', JStr (df_host f)),
          (''username'', JStr (df_username f)), (''password'', JStr (df_password f)), (''enabled'', flag (df_enabled f)),
          (''use_ipv6'', flag (df_useIpv6 f)), (''ip_source'', JStr ''network''), (''ip_network'', network), (''interface'', network)])"

definition edit_profile :: "'u route_uci \<Rightarrow> string \<Rightarrow> dd_fields \<Rightarrow> 'u \<Rightarrow> 'u" where
  "edit_profile R n f u =
     (let u = ddns_global R u;
          u = (if truthy (au_get (ru_base R) u ''ddns'' n) then u
               else named_add R ''ddns'' ''service'' n [(''freenetic_managed'', JStr ''1'')] u);
          u = ru_set R ''ddns'' n (profile_options f) u
      in if df_provider f = CUSTOM_PROVIDER
         then ru_set R ''ddns'' n [(''update_url'', JStr (df_customUrl f))] (au_unset (ru_base R) u ''ddns'' n ''service_name'')
         else au_unset (ru_base R) (ru_set R ''ddns'' n [(''service_name'', JStr (df_provider f))] u) ''ddns'' n ''update_url'')"

text \<open>\<open>editing\<close> is the section that is edited; it is empty for a new profile.\<close>

definition saveProfile :: "'u route_uci \<Rightarrow> acl_services \<Rightarrow> bool \<Rightarrow> string \<Rightarrow> dd_fields \<Rightarrow> 'u \<Rightarrow> 'u save_result" where
  "saveProfile R sv ready editing f u =
     (case validateProfile f of
        Some w \<Rightarrow> warn u w
      | None \<Rightarrow>
          if editing = [] \<and> truthy (au_get (ru_base R) u ''ddns'' (df_id f)) then warn u ''That profile ID is already in use.''
          else let n = (if editing \<noteq> [] then editing else df_id f);
                   message = (if editing \<noteq> [] then ''DDNS profile saved.'' else ''DDNS profile added.'');
                   r = run_save (sv\<lparr>sv_load := None\<rparr>) False (\<lambda>u. (edit_profile R n f u, None)) ''Failed to save DDNS profile: '' [] message u
               in (case restartDdns (sv_fs sv) ready of
                     Inl e \<Rightarrow> if sr_refreshed r
                       then r\<lparr>sr_notices := [(''warning'', message @ '' The DDNS service could not be restarted: '' @ e)]\<rparr> else r
                   | Inr _ \<Rightarrow> r))"

definition forceUpdate :: "fs_ops \<Rightarrow> string \<Rightarrow> (string \<times> string) list" where
  "forceUpdate fs n =
     (if \<not> service_id n then []
      else case and_next (fs_exec fs DDNS_HELPER [''-S'', n, ''--'', ''start'']) (\<lambda>r. requireSuccessfulCommand r ''The DDNS helper failed.'') of
          Inl e \<Rightarrow> [(''danger'', ''DDNS update failed: '' @ e)]
        | Inr _ \<Rightarrow> [(''info'', ''DDNS update started for '' @ n @ ''.'')])"

definition toggleProfile_dd :: "'u route_uci \<Rightarrow> acl_services \<Rightarrow> bool \<Rightarrow> string \<Rightarrow> bool \<Rightarrow> 'u \<Rightarrow> 'u save_result" where
  "toggleProfile_dd R sv ready n enable u =
     (if \<not> service_id n then nothing u
      else let failed = ''Failed to change DDNS profile state: '';
               r = quiet_pf (run_save sv False (\<lambda>u. (ru_set R ''ddns'' n [(''enabled'', JStr (if enable then ''1'' else ''0''))] u, None)) failed [] [] u)
           in (case restartDdns (sv_fs sv) ready of
                 Inl e \<Rightarrow> if sr_refreshed r then r\<lparr>sr_notices := [(''danger'', failed @ e)], sr_refreshed := False\<rparr> else r
               | Inr _ \<Rightarrow> r))"

definition deleteProfile :: "'u route_uci \<Rightarrow> acl_services \<Rightarrow> bool \<Rightarrow> string \<Rightarrow> 'u \<Rightarrow> 'u save_result" where
  "deleteProfile R sv confirmed n u =
     (if \<not> service_id n \<or> \<not> confirmed then nothing u
      else run_save sv False (\<lambda>u. (au_remove (ru_base R) ''ddns'' n u, None)) ''Failed to delete DDNS profile: '' [] ''DDNS profile deleted.'' u)"

end
