(* ===== verification/Option_Writes.thy ===== *)
theory Option_Writes
  imports Routing_Store Conn_Core
begin

text \<open>
  Runs of \<open>uci.set\<close> and \<open>uci.unset\<close> on one section, as the forms write their fields: a list of options
  with the value to set, or none to unset the option.  The lemmas give the section after the run.
\<close>

type_synonym option_write = "string \<times> jsval option"

definition write_option :: "'u route_uci \<Rightarrow> string \<Rightarrow> string \<Rightarrow> option_write \<Rightarrow> 'u \<Rightarrow> 'u" where
  "write_option R c n = (\<lambda>(k, v) u. case v of Some x \<Rightarrow> ru_set R c n [(k, x)] u | None \<Rightarrow> au_unset (ru_base R) u c n k)"

definition write_options :: "'u route_uci \<Rightarrow> string \<Rightarrow> string \<Rightarrow> option_write list \<Rightarrow> 'u \<Rightarrow> 'u" where
  "write_options R c n ws u = foldl (\<lambda>u w. write_option R c n w u) u ws"

text \<open>\<open>setOptional\<close>, \<open>setList\<close>, and a box that is unset when it is off.\<close>

definition optional_text :: "string \<Rightarrow> jsval option" where
  "optional_text v = (if v \<noteq> [] then Some (JStr v) else None)"

definition optional_list :: "string list \<Rightarrow> jsval option" where
  "optional_list vs = (if vs \<noteq> [] then Some (JArr (map JStr vs)) else None)"

definition optional_flag :: "bool \<Rightarrow> jsval option" where
  "optional_flag b = (if b then Some (JStr ''1'') else None)"

text \<open>The options of the section after a run.\<close>

definition written :: "option_write list \<Rightarrow> (string \<Rightarrow> jsval) \<Rightarrow> string \<Rightarrow> jsval" where
  "written ws g j = (case map_of (rev ws) j of Some (Some v) \<Rightarrow> v | Some None \<Rightarrow> JUndef | None \<Rightarrow> g j)"

lemma written_Nil [simp]: "written [] g = g"
  by (simp add: written_def fun_eq_iff)

lemma written_snoc: "written (ws @ [(k, v)]) g = (written ws g)(k := case v of Some x \<Rightarrow> x | None \<Rightarrow> JUndef)"
  by (auto simp: written_def fun_eq_iff split: option.splits)

lemma written_other: "j \<notin> fst ` set ws \<Longrightarrow> written ws g j = g j"
  by (simp add: written_def map_of_eq_None_iff [THEN iffD2])

lemma written_in:
  assumes "distinct (map fst ws)" "(k, v) \<in> set ws"
  shows "written ws g k = (case v of Some x \<Rightarrow> x | None \<Rightarrow> JUndef)"
proof -
  have "map_of (rev ws) k = Some v" using assms by (intro map_of_is_SomeI) (simp_all add: rev_map [symmetric])
  then show ?thesis by (simp add: written_def)
qed

text \<open>Reading back what was written.\<close>

lemma section_name_is: "field s ''.name'' = JStr n \<Longrightarrow> n \<noteq> [] \<Longrightarrow> sectionName_conn s = JStr n"
  by (cases s) (simp_all add: sectionName_conn_def and_then_def or_else_def truthy_def field_def)

lemma read_text: "field s k = (case optional_text v of Some x \<Rightarrow> x | None \<Rightarrow> JUndef) \<Longrightarrow> to_str (or_else (field s k) (JStr [])) = v"
  by (simp add: optional_text_def or_else_def truthy_def split: if_splits)

lemma read_texts:
  "field s k = (case optional_list vs of Some x \<Rightarrow> x | None \<Rightarrow> JUndef) \<Longrightarrow> map to_str (listValue_conn (field s k)) = vs"
  by (simp add: optional_list_def listValue_conn_def nullish_def is_array_def elements_def comp_def split: if_splits)

lemma read_flag: "field s k = (case optional_flag b of Some x \<Rightarrow> x | None \<Rightarrow> JUndef) \<Longrightarrow> field s k = JStr ''1'' \<longleftrightarrow> b"
  by (simp add: optional_flag_def)

context route_store
begin

lemma write_option_holds:
  "holds u c n g \<Longrightarrow> option_name k \<Longrightarrow> holds (write_option R c n (k, v) u) c n (g(k := case v of Some x \<Rightarrow> x | None \<Rightarrow> JUndef))"
  by (cases v) (simp_all add: write_option_def holds_set holds_unset)

lemma writes_hold:
  "holds u c n g \<Longrightarrow> \<forall>(k, v) \<in> set ws. option_name k \<Longrightarrow> holds (write_options R c n ws u) c n (written ws g)"
proof (induction ws rule: rev_induct)
  case Nil
  then show ?case by (simp add: write_options_def)
next
  case (snoc w ws)
  obtain k v where w: "w = (k, v)" by (cases w)
  have "holds (write_option R c n (k, v) (write_options R c n ws u)) c n ((written ws g)(k := case v of Some x \<Rightarrow> x | None \<Rightarrow> JUndef))"
    using snoc w by (intro write_option_holds) auto
  then show ?case by (simp add: write_options_def w written_snoc fun_upd_def)
qed

lemma writes_get: "(c', m) \<noteq> (c, n) \<Longrightarrow> get (write_options R c n ws u) c' m = get u c' m"
  by (induction ws arbitrary: u) (auto simp: write_options_def write_option_def ru_set_get unset_other split: option.splits)

text \<open>The steps as rules: what is there stays, and is an object with the options written.\<close>

lemma write_rules:
  "(c', m) \<noteq> (c, n) \<Longrightarrow> get x c' m = v \<Longrightarrow> get (write_options R c n ws x) c' m = v"
  "(c', m) \<noteq> (c, n) \<Longrightarrow> get x c' m = v \<Longrightarrow> get (au_remove (ru_base R) c n x) c' m = v"
  using remove_other [of c' m c n x, folded au_get_def] by (auto simp: writes_get au_remove_def)

end

end
