(* ===== verification/Ddns_Properties.thy ===== *)
theory Ddns_Properties
  imports Ddns Option_Writes
begin

text \<open>
  The profiles of Dynamic DNS: a saved profile is listed and shown as it was entered, and two ways to
  lose one.
\<close>

text \<open>The section of the profile after the edit; its type is that it had before, or that of a service.\<close>

definition edited :: "dd_fields \<Rightarrow> (string \<Rightarrow> jsval) \<Rightarrow> string \<Rightarrow> jsval" where
  "edited f g = (let g = (\<lambda>j. case map_of (rev (profile_options f)) j of Some v \<Rightarrow> v | None \<Rightarrow> g j)
     in if df_provider f = CUSTOM_PROVIDER then g(''service_name'' := JUndef, ''update_url'' := JStr (df_customUrl f))
        else g(''service_name'' := JStr (df_provider f), ''update_url'' := JUndef))"

lemma edited_type: "edited f g ''.type'' = g ''.type''"
  by (simp add: edited_def profile_options_def Let_def)

context route_store
begin

lemma global_get: "(c, m) \<noteq> (''ddns'', ''global'') \<Longrightarrow> get (ddns_global R u) c m = get u c m"
  unfolding ddns_global_def by (intro keep_rules refl)

lemma edit_profile_get:
  "(c, m) \<noteq> (''ddns'', ''global'') \<Longrightarrow> (c, m) \<noteq> (''ddns'', n) \<Longrightarrow> get (edit_profile R n f u) c m = get u c m"
  unfolding edit_profile_def Let_def by (intro keep_rules global_get)

lemma edit_profile_holds:
  assumes "get u ''ddns'' n \<noteq> JNull \<and> field (get u ''ddns'' n) ''.type'' = JStr t \<or> get u ''ddns'' n = JNull \<and> n \<noteq> ''global'' \<and> t = ''service''
     \<or> get u ''ddns'' n = JNull \<and> n = ''global'' \<and> t = ''ddns''"
  obtains g where "holds (edit_profile R n f u) ''ddns'' n (edited f g)" "g ''.type'' = JStr t"
proof -
  let ?g = "ddns_global R u"
  let ?u = "if truthy (get ?g ''ddns'' n) then ?g else named_add R ''ddns'' ''service'' n [(''freenetic_managed'', JStr ''1'')] ?g"
  have options: "\<forall>(k, v) \<in> set (profile_options f). option_name k"
    by (simp add: profile_options_def Let_def option_name_def)
  have glob: "is_object (get ?g ''ddns'' ''global'') \<and> field (get ?g ''ddns'' ''global'') ''.type'' = JStr ''ddns''"
    if "get u ''ddns'' ''global'' = JNull"
  proof -
    have "\<not> truthy (get u ''ddns'' ''global'')" using that truthy_get by blast
    then show ?thesis
      unfolding ddns_global_def using named_add_holds [OF that, of _ "''ddns''"] by (simp add: option_name_def)
  qed
  have stays: "?g = u" if "get u ''ddns'' ''global'' \<noteq> JNull" using that by (simp add: ddns_global_def truthy_get)
  have new: "is_object (get ?u ''ddns'' n) \<and> field (get ?u ''ddns'' n) ''.type'' = JStr t"
  proof (cases "get ?g ''ddns'' n = JNull")
    case True
    have "get ?g ''ddns'' ''global'' \<noteq> JNull"
      using stays glob by (cases "get u ''ddns'' ''global'' = JNull") (auto simp: is_object_def)
    then have "n \<noteq> ''global''" using True by blast
    then have "get u ''ddns'' n = JNull" using True global_get by simp
    then have "t = ''service''" using assms \<open>n \<noteq> ''global''\<close> by auto
    moreover have "\<not> truthy (get ?g ''ddns'' n)" using True truthy_get by blast
    ultimately show ?thesis using named_add_holds [OF True, of _ "''service''"] by (simp add: option_name_def)
  next
    case False
    then have "is_object (get ?g ''ddns'' n)" using get_shape [of ?g "''ddns''" n] unfolding au_get_def by blast
    moreover have "field (get ?g ''ddns'' n) ''.type'' = JStr t"
    proof (cases "n = ''global''")
      case True
      then show ?thesis using assms glob stays by metis
    next
      case False
      then show ?thesis using assms global_get [of "''ddns''" n u] \<open>get ?g ''ddns'' n \<noteq> JNull\<close> by auto
    qed
    moreover have "truthy (get ?g ''ddns'' n)" using False truthy_get by blast
    ultimately show ?thesis by simp
  qed
  have names: "option_name ''service_name''" "option_name ''update_url''" by (simp_all add: option_name_def)
  have "holds (edit_profile R n f u) ''ddns'' n (edited f (field (get ?u ''ddns'' n)))"
    using holds_sets [OF holds_get [OF conjunct1 [OF new]] options] names
    unfolding edit_profile_def edited_def Let_def by (simp add: holds_set holds_unset)
  then show ?thesis using that new by blast
qed

end

lemma saveProfile_saved:
  assumes "sr_saved (saveProfile R sv ready editing f u)"
  shows "validateProfile f = None \<and> (editing = [] \<longrightarrow> \<not> truthy (au_get (ru_base R) u ''ddns'' (df_id f)))
    \<and> sr_store (saveProfile R sv ready editing f u) = edit_profile R (if editing \<noteq> [] then editing else df_id f) f u"
proof -
  let ?n = "if editing \<noteq> [] then editing else df_id f"
  let ?r = "run_save (sv\<lparr>sv_load := None\<rparr>) False (\<lambda>u. (edit_profile R ?n f u, None)) ''Failed to save DDNS profile: '' []
     (if editing \<noteq> [] then ''DDNS profile saved.'' else ''DDNS profile added.'') u"
  have v: "validateProfile f = None" "editing = [] \<longrightarrow> \<not> truthy (au_get (ru_base R) u ''ddns'' (df_id f))"
    using assms by (auto simp: saveProfile_def warn_def split: option.splits if_splits)
  have r: "sr_store (saveProfile R sv ready editing f u) = sr_store ?r" "sr_saved (saveProfile R sv ready editing f u) = sr_saved ?r"
    using v by (auto simp: saveProfile_def Let_def split: sum.splits)
  have "sr_store ?r = edit_profile R ?n f u"
    using run_save_saved [of "sv\<lparr>sv_load := None\<rparr>" False "\<lambda>u. (edit_profile R ?n f u, None)"] r(2) assms by fastforce
  then show ?thesis using v r(1) by simp
qed

text \<open>A profile whose section holds the options of a form is shown as that form.\<close>

lemma profile_shown:
  fixes f :: dd_fields and g :: "string \<Rightarrow> jsval"
  assumes "field s = edited f g" "field s ''.name'' = JStr (df_id f)" "df_id f \<noteq> []"
    and "\<forall>t \<in> {df_id f, df_name f, df_host f, df_username f, df_customUrl f}. trim t = t"
    and "df_name f \<noteq> []" "df_host f \<noteq> []" "df_provider f \<noteq> []" "df_network f \<noteq> []" "df_network f \<in> set networks"
  shows "form_fields_dd providers networks (field s ''update_url'') (profile_of st s)
    = f\<lparr>df_customUrl := if df_provider f = CUSTOM_PROVIDER then df_customUrl f else []\<rparr>"
proof -
  have vals: "field s ''freenetic_name'' = JStr (df_name f)" "field s ''lookup_host'' = JStr (df_host f)" "field s ''username'' = JStr (df_username f)"
    "field s ''password'' = JStr (df_password f)" "field s ''enabled'' = JStr (if df_enabled f then ''1'' else ''0'')"
    "field s ''use_ipv6'' = JStr (if df_useIpv6 f then ''1'' else ''0'')" "field s ''ip_network'' = JStr (df_network f)"
    "field s ''service_name'' = (if df_provider f = CUSTOM_PROVIDER then JUndef else JStr (df_provider f))"
    "field s ''update_url'' = (if df_provider f = CUSTOM_PROVIDER then JStr (df_customUrl f) else JUndef)"
    using assms(8) by (simp_all add: assms(1) edited_def profile_options_def Let_def)
  let ?p = "profile_of st s"
  have p: "dp_section ?p = JStr (df_id f)" "dp_name ?p = JStr (df_name f)" "dp_provider ?p = JStr (df_provider f)" "dp_host ?p = JStr (df_host f)"
    "dp_username ?p = JStr (df_username f)" "dp_password ?p = JStr (df_password f)" "dp_useIpv6 ?p = df_useIpv6 f" "dp_network ?p = JStr (df_network f)"
    "dp_enabled ?p = df_enabled f"
    using assms(3,5,6,7,8) vals section_name_is [OF assms(2,3)]
    by (auto simp: profile_of_def Let_def or_else_def truthy_def CUSTOM_PROVIDER_def)
  have provider: "select_value (provider_options providers ?p) (df_provider f) = df_provider f"
    using p(3) assms(7) by (auto simp: select_value_def provider_options_def sort_texts_def truthy_def Let_def)
  have network: "network_value networks ?p = df_network f"
    using p(8) assms(8,9) by (simp add: network_value_def select_value_def truthy_def Let_def)
  have plain: "to_str (or_else (JStr t) (JStr [])) = t" for t by (simp add: or_else_def truthy_def)
  have tr: "trim (df_id f) = df_id f" "trim (df_name f) = df_name f" "trim (df_host f) = df_host f" "trim (df_username f) = df_username f"
    "trim (df_customUrl f) = df_customUrl f" "trim [] = []" using assms(4) by (simp_all add: trim_def trim_start_def trim_end_def)
  have url: "trim (to_str (or_else (field s ''update_url'') (JStr []))) = (if df_provider f = CUSTOM_PROVIDER then df_customUrl f else [])"
    using tr(5,6) by (simp add: vals(9) plain) (simp add: or_else_def truthy_def)
  have first: "or_else (dp_section ?p) (dp_name ?p) = JStr (df_id f)" "truthy (dp_section ?p)" "or_else (dp_provider ?p) (JStr CUSTOM_PROVIDER) = JStr (df_provider f)"
    using assms(3,7) by (simp_all add: p or_else_def truthy_def)
  have id: "trim (to_str (or_else (or_else (dp_section ?p) (dp_name ?p)) (JStr []))) = df_id f" by (simp only: first plain tr)
  have provider': "select_value (provider_options providers ?p) (to_str (or_else (dp_provider ?p) (JStr CUSTOM_PROVIDER))) = df_provider f"
    by (simp only: first provider to_str.simps)
  have texts: "trim (to_str (or_else (dp_name ?p) (JStr []))) = df_name f" "trim (to_str (or_else (dp_host ?p) (JStr []))) = df_host f"
    "trim (to_str (or_else (dp_username ?p) (JStr []))) = df_username f" "to_str (or_else (dp_password ?p) (JStr [])) = df_password f"
    by (simp_all only: p plain tr)
  show ?thesis
    unfolding form_fields_dd_def Let_def id provider' texts network url p(7,9) using first(2) by simp
qed

section \<open>The properties\<close>

text \<open>C32: a saved profile is in the list of profiles, and opening it shows the form as it was saved, with every
  field (the address only of a custom provider).  The profile is a new one with an identifier other than \<open>global\<close> (\<open>ddns_global_lost\<close>), or the section of a
  profile that is edited; the texts of the form are trimmed, and its network is one of the list.  No section but that of
  the profile and \<open>ddns.global\<close> is changed.\<close>

theorem ddns_saved:
  fixes R :: "'u route_uci" and f :: dd_fields
  assumes "route_store R" "sr_saved (saveProfile R sv ready editing f u)"
    and "editing = [] \<and> df_id f \<noteq> ''global'' \<or> editing = df_id f \<and> field (au_get (ru_base R) u ''ddns'' editing) ''.type'' = JStr ''service''"
    and "\<forall>t \<in> {df_id f, df_name f, df_host f, df_username f, df_customUrl f}. trim t = t" "df_provider f \<noteq> []" "df_network f \<in> set networks" "df_network f \<noteq> []"
  shows "let v = sr_store (saveProfile R sv ready editing f u)
     in (\<exists>p \<in> set (getProfiles R st v). dp_section p = JStr (df_id f)
            \<and> form_fields_dd providers networks (field (au_get (ru_base R) v ''ddns'' (df_id f)) ''update_url'') p
              = f\<lparr>df_customUrl := if df_provider f = CUSTOM_PROVIDER then df_customUrl f else []\<rparr>)
        \<and> (\<forall>c m. (c, m) \<notin> {(''ddns'', df_id f), (''ddns'', ''global'')} \<longrightarrow> au_get (ru_base R) v c m = au_get (ru_base R) u c m)"
proof -
  note saved = saveProfile_saved [OF assms(2)] and get_named = route_store.truthy_get [OF assms(1)]
  let ?v = "sr_store (saveProfile R sv ready editing f u)" and ?n = "df_id f"
  have v: "?v = edit_profile R ?n f u" using saved assms(3) by auto
  have checked: "?n \<noteq> []" "df_name f \<noteq> []" "df_host f \<noteq> []"
    using saved by (auto simp: validateProfile_def service_id_def validHostname_dd_def trim_def trim_start_def trim_end_def split: if_splits)
  have "au_get (ru_base R) u ''ddns'' ?n \<noteq> JNull \<and> field (au_get (ru_base R) u ''ddns'' ?n) ''.type'' = JStr ''service''
     \<or> au_get (ru_base R) u ''ddns'' ?n = JNull \<and> ?n \<noteq> ''global'' \<and> ''service'' = ''service''
     \<or> au_get (ru_base R) u ''ddns'' ?n = JNull \<and> ?n = ''global'' \<and> ''service'' = ''ddns''"
    using assms(3) saved get_named by (auto simp: field_def)
  then obtain g where g: "route_store.holds R ?v ''ddns'' ?n (edited f g)" "g ''.type'' = JStr ''service''"
    unfolding v by (rule route_store.edit_profile_holds [OF assms(1)])
  let ?s = "au_get (ru_base R) ?v ''ddns'' ?n"
  have s: "field ?s = edited f g" using g(1) by (auto simp: route_store.holds_def [OF assms(1)])
  have t: "edited f g ''.type'' = JStr ''service''" using g(2) by (simp add: edited_type)
  have listed: "?s \<in> set (ru_sections R ?v ''ddns'' ''service'')" by (rule route_store.holds_listed [OF assms(1) g(1) t])
  have name: "field ?s ''.name'' = JStr ?n" using route_store.holds_name [OF assms(1) g(1)] by (simp add: named_def)
  have p: "dp_section (profile_of st ?s) = JStr ?n"
    using section_name_is [OF name checked(1)] by (simp add: profile_of_def Let_def)
  note shown = profile_shown [OF s name checked(1) assms(4) checked(2,3) assms(5,7,6)]
  have others: "au_get (ru_base R) ?v c m = au_get (ru_base R) u c m" if "(c, m) \<notin> {(''ddns'', ?n), (''ddns'', ''global'')}" for c m
    unfolding v by (rule route_store.edit_profile_get [OF assms(1)]) (use that in auto)
  show ?thesis
    unfolding Let_def getProfiles_def set_map using listed p shown others by blast
qed

text \<open>A profile that is edited in the concrete store.\<close>

definition ddns_config :: list_store where
  "ddns_config = [((''ddns'', ''global''), [(''.type'', JStr ''ddns'')]),
     ((''ddns'', ''home''), [(''.type'', JStr ''service''), (''service_name'', JStr ''duckdns.org''), (''retry_count'', JStr ''3'')])]"

definition ddns_entry :: dd_fields where
  "ddns_entry = \<lparr>df_id = ''home'', df_name = ''Home'', df_provider = CUSTOM_PROVIDER, df_host = ''home.example.com'', df_username = ''me'',
     df_password = '' secret '', df_useIpv6 = True, df_network = ''wan'', df_customUrl = ''https://dns.example/u'', df_enabled = False\<rparr>"

lemma ddns_saving: "sr_saved (saveProfile list_route ready_services False ''home'' ddns_entry ddns_config)"
proof -
  have "validateProfile ddns_entry = None" by code_simp
  then show ?thesis by (simp add: saveProfile_def restartDdns_def run_save_def ready_services_def Let_def)
qed

theorem ddns_saved_witness:
  "let v = sr_store (saveProfile list_route ready_services False ''home'' ddns_entry ddns_config)
   in \<exists>p \<in> set (getProfiles list_route JNull v). dp_section p = JStr ''home''
        \<and> form_fields_dd [] [''wan''] (field (au_get (ru_base list_route) v ''ddns'' ''home'') ''update_url'') p = ddns_entry"
proof -
  have e: "df_id ddns_entry = ''home''" "df_provider ddns_entry = CUSTOM_PROVIDER" "df_network ddns_entry = ''wan''"
    "ddns_entry\<lparr>df_customUrl := df_customUrl ddns_entry\<rparr> = ddns_entry"
    by (simp_all add: ddns_entry_def)
  have "field (au_get (ru_base list_route) ddns_config ''ddns'' ''home'') ''.type'' = JStr ''service''" by code_simp
  moreover have "\<forall>t \<in> {df_id ddns_entry, df_name ddns_entry, df_host ddns_entry, df_username ddns_entry, df_customUrl ddns_entry}. trim t = t"
    by code_simp
  moreover have "df_provider ddns_entry \<noteq> []" by (simp add: e CUSTOM_PROVIDER_def)
  ultimately show ?thesis
    using ddns_saved [OF list_route.route_store_axioms ddns_saving, where st = JNull and providers = "[]" and networks = "[''wan'']"]
    unfolding Let_def by (simp add: e)
qed

text \<open>C33: when writing the configuration fails, the section of a new profile stays in the store of the page, so
  that a second attempt is refused: the profile ID is said to be in use, whatever the services answer then.\<close>

theorem ddns_retry_refused:
  fixes R :: "'u route_uci" and f :: dd_fields
  assumes "route_store R" "validateProfile f = None" "au_get (ru_base R) u ''ddns'' (df_id f) = JNull" "sv_save sv = Some e"
  shows "let r = saveProfile R sv ready [] f u
     in sr_notices r = [(''danger'', ''Failed to save DDNS profile: '' @ e)]
        \<and> saveProfile R sv' ready' [] f (sr_store r) = warn (sr_store r) ''That profile ID is already in use.''"
proof -
  note get_named = route_store.truthy_get [OF assms(1)]
  let ?r = "saveProfile R sv ready [] f u" and ?n = "df_id f"
  have free: "\<not> truthy (au_get (ru_base R) u ''ddns'' ?n)" using assms(3) get_named by blast
  have r: "?r = \<lparr>sr_store = edit_profile R ?n f u, sr_notices = [(''danger'', ''Failed to save DDNS profile: '' @ e)],
      sr_saved = False, sr_refreshed = False\<rparr>"
    using assms(2,4) free by (simp add: saveProfile_def Let_def run_save_def split: sum.splits)
  obtain g where "route_store.holds R (edit_profile R ?n f u) ''ddns'' ?n (edited f g)"
    by (rule route_store.edit_profile_holds [OF assms(1), of u ?n "if ?n = ''global'' then ''ddns'' else ''service''" f]) (use assms(3) in auto)
  then have "truthy (au_get (ru_base R) (edit_profile R ?n f u) ''ddns'' ?n)"
    using get_named route_store.holds_null [OF assms(1)] by blast
  then show ?thesis using assms(2) unfolding Let_def r by (simp add: saveProfile_def)
qed

theorem ddns_retry_refused_witness:
  "let sv = ready_services\<lparr>sv_save := Some ''Permission denied''\<rparr>; r = saveProfile list_route sv True [] ddns_entry []
   in saveProfile list_route ready_services True [] ddns_entry (sr_store r) = warn (sr_store r) ''That profile ID is already in use.''"
proof -
  have "validateProfile ddns_entry = None" by code_simp
  moreover have "au_get (ru_base list_route) [] ''ddns'' (df_id ddns_entry) = JNull" by code_simp
  ultimately show ?thesis
    using ddns_retry_refused [OF list_route.route_store_axioms, of ddns_entry "[]" "ready_services\<lparr>sv_save := Some ''Permission denied''\<rparr>"]
    unfolding Let_def by simp
qed

text \<open>With the ID \<open>global\<close> the options of the profile go into the section of the service itself, and no profile
  of that name is listed, although the page reports success.\<close>

theorem ddns_global_lost:
  fixes R :: "'u route_uci" and f :: dd_fields
  assumes "route_store R" "df_id f = ''global''" "sr_saved (saveProfile R sv ready [] f u)"
    and "s \<in> set (ru_sections R (sr_store (saveProfile R sv ready [] f u)) ''ddns'' ''service'')"
  shows "\<not> named ''global'' s"
proof
  assume s: "named ''global'' s"
  let ?v = "sr_store (saveProfile R sv ready [] f u)"
  have none: "au_get (ru_base R) u ''ddns'' ''global'' = JNull" and v: "?v = edit_profile R ''global'' f u"
    using saveProfile_saved [OF assms(3)] assms(2) route_store.truthy_get [OF assms(1)] by auto
  obtain g where g: "route_store.holds R ?v ''ddns'' ''global'' (edited f g)" "g ''.type'' = JStr ''ddns''"
    unfolding v by (rule route_store.edit_profile_holds [OF assms(1), of u "''global''" "''ddns''" f]) (use none in auto)
  obtain n where n: "named n s" "field s ''.type'' = JStr ''service''" "au_get (ru_base R) ?v ''ddns'' n = s"
    using route_store.section_is [OF assms(1,4)] by blast
  have "n = ''global''" using s n(1) by (simp add: named_def)
  then have "field s ''.type'' = edited f g ''.type''" using g(1) n(3) by (metis route_store.holds_def [OF assms(1)])
  then show False using g(2) n(2) by (simp add: edited_type)
qed

end
