(* ===== verification/Wireguard.thy ===== *)
theory Wireguard
  imports Guest_Network Option_Writes Wg_Config
begin

text \<open>
  The editor of WireGuard and AmneziaWG connections (\<open>freenetic-connections-wireguard.js\<close>) and the
  handlers of \<open>view/network/freenetic-other-connections.js\<close> that it uses: the connections as they are read
  from the configuration, the checks of the form, saving, toggling, deleting, import and export.
  An option is taken as its text, and a section is named by a string that is empty where the code has null.
\<close>

section \<open>Connections\<close>

record wg_form_peer = wg_peer +
  fp_section :: string
  fp_managed :: bool
  fp_advanced :: bool

record wg_form =
  gf_section :: string
  gf_name :: string
  gf_protocol :: string
  gf_enabled :: bool
  gf_privateKey :: string
  gf_publicKey :: string
  gf_addresses :: "string list"
  gf_dns :: "string list"
  gf_listenPort :: string
  gf_mtu :: string
  gf_fwmark :: string
  gf_nohostroute :: bool
  gf_awg :: "(string \<times> string) list"
  gf_peers :: "wg_form_peer list"

definition section_text :: "jsval \<Rightarrow> string \<Rightarrow> string" where
  "section_text s k = to_str (or_else (field s k) (JStr []))"

definition section_texts :: "jsval \<Rightarrow> string \<Rightarrow> string list" where
  "section_texts s k = map to_str (listValue_conn (field s k))"

definition form_peer :: "jsval \<Rightarrow> wg_form_peer" where
  "form_peer peer =
     \<lparr>wp_description = section_text peer ''description'', wp_disabled = (field peer ''disabled'' = JStr ''1''),
      wp_privateKey = section_text peer ''private_key'', wp_presharedKey = section_text peer ''preshared_key'',
      wp_publicKey = section_text peer ''public_key'', wp_allowedIps = section_texts peer ''allowed_ips'',
      wp_endpointHost = section_text peer ''endpoint_host'', wp_endpointPort = section_text peer ''endpoint_port'',
      wp_keepalive = section_text peer ''persistent_keepalive'', wp_routeAllowed = (field peer ''route_allowed_ips'' = JStr ''1''),
      fp_section = to_str (sectionName_conn peer), fp_managed = isManaged peer, fp_advanced = advancedPeerOptions peer \<noteq> []\<rparr>"

definition getWireguardConnection :: "'u uci \<Rightarrow> 'u \<Rightarrow> jsval \<Rightarrow> wg_form" where
  "getWireguardConnection U u s =
     (let name = to_str (sectionName_conn s)
      in \<lparr>gf_section = name, gf_name = to_str (or_else (or_else (field s ''freenetic_name'') (field s ''description'')) (JStr name)),
          gf_protocol = lower (section_text s ''proto''), gf_enabled = (field s ''disabled'' \<noteq> JStr ''1''),
          gf_privateKey = section_text s ''private_key'', gf_publicKey = section_text s ''freenetic_public_key'',
          gf_addresses = section_texts s ''addresses'', gf_dns = section_texts s ''dns'',
          gf_listenPort = section_text s ''listen_port'', gf_mtu = section_text s ''mtu'', gf_fwmark = section_text s ''fwmark'',
          gf_nohostroute = (field s ''nohostroute'' = JStr ''1''),
          gf_awg = List.map_filter (\<lambda>(k, _). if nullish (field s k) then None else Some (k, to_str (field s k))) AWG_OPTIONS,
          gf_peers = map form_peer (peerSectionsFor U u name)\<rparr>)"

definition interfaceStatus :: "jsval \<Rightarrow> string \<Rightarrow> jsval" where
  "interfaceStatus interfaceDump name =
     (case find (\<lambda>i. field i ''interface'' = JStr name \<or> field i ''l3_device'' = JStr name)
             (elements (or_else (field interfaceDump ''interface'') (JArr []))) of
        Some i \<Rightarrow> i | None \<Rightarrow> JNull)"

definition wgStatus :: "(string \<times> jsval) list \<Rightarrow> string \<Rightarrow> jsval" where
  "wgStatus wgData name = (case map_of wgData name of Some d \<Rightarrow> or_else d JNull | None \<Rightarrow> JNull)"

definition wg_status_text :: "jsval \<Rightarrow> wg_form \<Rightarrow> string" where
  "wg_status_text status c =
     (if \<not> gf_enabled c then ''Disabled'' else if truthy status \<and> truthy (field status ''up'') then ''Connected'' else ''Not connected'')"

definition wg_info :: "wg_form \<Rightarrow> (string \<times> string) list" where
  "wg_info c =
     [(''Protocol'', if gf_protocol c = AWG_PROTO then ''AmneziaWG'' else ''WireGuard''), (''Interface'', gf_section c),
      (''Addresses'', if gf_addresses c \<noteq> [] then join '', '' (gf_addresses c) else en_dash),
      (''Peers'', dec (int (length (gf_peers c)))), (''Listen port'', if gf_listenPort c \<noteq> [] then gf_listenPort c else ''Random'')]"

text \<open>The connection that the form starts with, and a peer that is added to it.\<close>

definition new_connection :: "string \<Rightarrow> wg_form" where
  "new_connection protocol =
     \<lparr>gf_section = [], gf_name = ''New VPN connection'', gf_protocol = protocol, gf_enabled = True, gf_privateKey = [], gf_publicKey = [],
      gf_addresses = [], gf_dns = [], gf_listenPort = [], gf_mtu = ''1420'', gf_fwmark = [], gf_nohostroute = False, gf_awg = [], gf_peers = []\<rparr>"

definition new_peer :: wg_form_peer where
  "new_peer =
     \<lparr>wp_description = [], wp_disabled = False, wp_privateKey = [], wp_presharedKey = [], wp_publicKey = [], wp_allowedIps = [],
      wp_endpointHost = [], wp_endpointPort = [], wp_keepalive = [], wp_routeAllowed = False, fp_section = [], fp_managed = False, fp_advanced = False\<rparr>"

section \<open>The checks\<close>

text \<open>\<open>/^0x[0-9a-f]{1,8}$/i\<close>, and the bits that the traffic services use.\<close>

definition fwmark_hex :: "string \<Rightarrow> bool" where
  "fwmark_hex s \<longleftrightarrow> starts_with ''0x'' (lower s) \<and> 3 \<le> length s \<and> length s \<le> 10 \<and> list_all is_xdigit (drop 2 s)"

definition fwmark_reserved :: "string \<Rightarrow> bool" where
  "fwmark_reserved s \<longleftrightarrow> js_and (num_val 16 (drop 2 s)) 0x60000000 \<noteq> 0"

definition awg_value :: "wg_form \<Rightarrow> string \<Rightarrow> jsval" where
  "awg_value f k = (case map_of (gf_awg f) k of Some v \<Rightarrow> JStr v | None \<Rightarrow> JUndef)"

definition peer_problem :: "wg_form_peer \<Rightarrow> string option" where
  "peer_problem p =
     (if \<not> validKey (JStr (wp_publicKey p)) False then Some ''Every peer needs a valid Base64 public key.''
      else if wp_privateKey p \<noteq> [] \<and> \<not> validKey (JStr (wp_privateKey p)) False then Some ''A peer has an invalid private key.''
      else if wp_presharedKey p \<noteq> [] \<and> \<not> validKey (JStr (wp_presharedKey p)) False then Some ''A peer has an invalid preshared key.''
      else if list_ex (\<lambda>a. \<not> validAddress_conn (JStr a)) (wp_allowedIps p) then Some ''A peer has an invalid Allowed IPs value.''
      else if \<not> validHost (JStr (wp_endpointHost p)) \<or> \<not> validPort_conn (JStr (wp_endpointPort p)) True then Some ''A peer has an invalid endpoint.''
      else if \<not> validNumber (JStr (wp_keepalive p)) (Num 0) (Num 65535) then Some ''Persistent keepalive must be between 0 and 65535.''
      else None)"

definition awg_problem :: "wg_form \<Rightarrow> string \<times> string \<times> int \<times> int \<Rightarrow> string option" where
  "awg_problem f = (\<lambda>(k, label, low, high). if validNumber (awg_value f k) (num_of_int low) (num_of_int high) then None
     else Some (label @ '' is outside its supported range.''))"

definition first_problem :: "string option list \<Rightarrow> string option" where
  "first_problem ps = (case List.map_filter id ps of p # _ \<Rightarrow> Some p | [] \<Rightarrow> None)"

definition validateConnection :: "wg_form \<Rightarrow> string option" where
  "validateConnection f =
     (if gf_name f = [] then Some ''Enter a connection name.''
      else if \<not> validKey (JStr (gf_privateKey f)) False then Some ''Enter a valid Base64 private key or generate one.''
      else if gf_addresses f = [] \<or> \<not> list_all (\<lambda>a. validAddress_conn (JStr a)) (gf_addresses f)
      then Some ''Enter at least one valid interface address.''
      else if \<not> validPort_conn (JStr (gf_listenPort f)) True then Some ''Listen port must be between 1 and 65535.''
      else if \<not> validNumber (JStr (gf_mtu f)) (Num 576) (Num 8940) then Some ''MTU must be between 576 and 8940.''
      else if gf_fwmark f \<noteq> [] \<and> \<not> fwmark_hex (gf_fwmark f) then Some ''Firewall mark must be hexadecimal, for example 0x1000.''
      else if gf_fwmark f \<noteq> [] \<and> fwmark_reserved (gf_fwmark f) then Some ''Firewall mark overlaps bits reserved by Freenetic traffic services.''
      else if list_ex (\<lambda>d. \<not> validAddress_conn (JStr (hd (split_on CHR ''/'' d)))) (gf_dns f) then Some ''DNS servers must be valid IP addresses.''
      else first_problem ((if gf_protocol f = AWG_PROTO then map (awg_problem f) AWG_OPTIONS else []) @ map peer_problem (gf_peers f)))"

section \<open>Saving\<close>

definition setOptional :: "string \<Rightarrow> jsval option" where "setOptional v = optional_text v"
definition setList :: "string list \<Rightarrow> jsval option" where "setList vs = optional_list vs"

definition interface_writes :: "wg_form \<Rightarrow> option_write list" where
  "interface_writes f =
     [(''proto'', Some (JStr (gf_protocol f))), (''disabled'', optional_flag (\<not> gf_enabled f)), (''freenetic_name'', Some (JStr (gf_name f))),
      (''freenetic_public_key'', setOptional (gf_publicKey f)), (''private_key'', setOptional (gf_privateKey f)),
      (''addresses'', setList (gf_addresses f)), (''dns'', setList (gf_dns f)), (''listen_port'', setOptional (gf_listenPort f)),
      (''mtu'', setOptional (gf_mtu f)), (''fwmark'', setOptional (gf_fwmark f)), (''nohostroute'', optional_flag (gf_nohostroute f))]
     @ map (\<lambda>(k, _). (k, if gf_protocol f = AWG_PROTO then (case map_of (gf_awg f) k of Some v \<Rightarrow> setOptional v | None \<Rightarrow> None) else None)) AWG_OPTIONS"

definition peer_writes :: "wg_form_peer \<Rightarrow> option_write list" where
  "peer_writes p =
     [(''description'', setOptional (wp_description p)), (''disabled'', optional_flag (wp_disabled p)),
      (''public_key'', setOptional (wp_publicKey p)), (''private_key'', setOptional (wp_privateKey p)),
      (''preshared_key'', setOptional (wp_presharedKey p)), (''allowed_ips'', setList (wp_allowedIps p)),
      (''endpoint_host'', setOptional (wp_endpointHost p)), (''endpoint_port'', setOptional (wp_endpointPort p)),
      (''persistent_keepalive'', setOptional (wp_keepalive p)), (''route_allowed_ips'', optional_flag (wp_routeAllowed p))]"

definition peer_name :: "jsval \<Rightarrow> string" where
  "peer_name s = to_str (sectionName_conn s)"

text \<open>The section of a peer: that it was read from, when it is still there and keeps its type, or a new one.\<close>

definition save_peer :: "'u route_uci \<Rightarrow> bool \<Rightarrow> string list \<Rightarrow> string \<Rightarrow> string list \<times> 'u \<Rightarrow> wg_form_peer \<Rightarrow> string list \<times> 'u" where
  "save_peer R typeChanged allOldPeers newType = (\<lambda>(activePeerNames, u) p.
     let (n, u) = (if \<not> typeChanged \<and> fp_section p \<noteq> [] \<and> fp_section p \<in> set allOldPeers then (fp_section p, u)
            else let (n, u) = ru_add R ''network'' newType u in (n, ru_set R ''network'' n [(''freenetic_managed'', JStr ''1'')] u))
     in (activePeerNames @ [n], write_options R ''network'' n (peer_writes p) u))"

definition remove_peers :: "'u route_uci \<Rightarrow> (jsval \<Rightarrow> bool) \<Rightarrow> jsval list \<Rightarrow> 'u \<Rightarrow> 'u" where
  "remove_peers R gone peers u = foldl (\<lambda>u p. if gone p then au_remove (ru_base R) ''network'' (peer_name p) u else u) u peers"

definition edit_interface :: "'u route_uci \<Rightarrow> wg_form \<Rightarrow> 'u \<Rightarrow> string \<times> 'u" where
  "edit_interface R f u =
     (let (n, u) = (if gf_section f \<noteq> [] then (gf_section f, u)
            else let (n, u) = ru_add R ''network'' ''interface'' u in (n, ru_set R ''network'' n [(''freenetic_managed'', JStr ''1'')] u))
      in (n, write_options R ''network'' n (interface_writes f) u))"

definition edit_connection :: "'u route_uci \<Rightarrow> bool \<Rightarrow> jsval list \<Rightarrow> wg_form \<Rightarrow> 'u \<Rightarrow> 'u" where
  "edit_connection R typeChanged oldPeers f u =
     (let u = snd (edit_interface R f u);
          u = (if typeChanged then remove_peers R isManaged oldPeers u else u);
          (activePeerNames, u) = foldl (save_peer R typeChanged (map peer_name oldPeers) (peerType (gf_protocol f))) ([], u) (gf_peers f)
      in if typeChanged then u
         else remove_peers R (\<lambda>p. peer_name p \<notin> set activePeerNames \<and> isManaged p) oldPeers u)"

definition old_peers :: "'u route_uci \<Rightarrow> wg_form \<Rightarrow> 'u \<Rightarrow> jsval list" where
  "old_peers R f u = (if gf_section f \<noteq> [] then peerSectionsFor (au_base (ru_base R)) u (gf_section f) else [])"

definition old_protocol :: "'u route_uci \<Rightarrow> string \<Rightarrow> wg_form \<Rightarrow> 'u \<Rightarrow> jsval" where
  "old_protocol R formProtocol f u =
     or_else (or_else (if gf_section f \<noteq> [] then field (au_get (ru_base R) u ''network'' (gf_section f)) ''proto'' else JUndef)
                (JStr formProtocol)) (JStr WG_PROTO)"

definition type_changed :: "'u route_uci \<Rightarrow> string \<Rightarrow> wg_form \<Rightarrow> 'u \<Rightarrow> bool" where
  "type_changed R formProtocol f u = (old_protocol R formProtocol f u \<noteq> JStr (gf_protocol f))"

text \<open>Without the packages of AmneziaWG the dialog about them opens, and nothing is saved; a change of the
  protocol has to be confirmed when sections are made anew.\<close>

definition awgAvailable :: "jsval \<Rightarrow> (string \<times> jsval) list \<Rightarrow> bool" where
  "awgAvailable feed packages =
     (truthy feed \<and> truthy (field feed ''installed'')
      \<or> list_all (\<lambda>n. map_of packages n = Some (JBool True)) [''amneziawg-tools'', ''kmod-amneziawg'', ''luci-proto-amneziawg''])"

definition must_confirm :: "'u route_uci \<Rightarrow> string \<Rightarrow> wg_form \<Rightarrow> 'u \<Rightarrow> bool" where
  "must_confirm R formProtocol f u =
     (type_changed R formProtocol f u
      \<and> (old_peers R f u \<noteq> [] \<or> old_protocol R formProtocol f u = JStr AWG_PROTO \<or> gf_protocol f = AWG_PROTO))"

definition saveConnection ::
    "'u route_uci \<Rightarrow> acl_services \<Rightarrow> bool \<Rightarrow> bool \<Rightarrow> string \<Rightarrow> wg_form \<Rightarrow> 'u \<Rightarrow> 'u save_result" where
  "saveConnection R sv available confirmed formProtocol f u =
     (case validateConnection f of
        Some w \<Rightarrow> warn u w
      | None \<Rightarrow>
          if gf_protocol f = AWG_PROTO \<and> \<not> available then nothing u
          else if sv_load sv = None \<and> must_confirm R formProtocol f u \<and> \<not> confirmed then nothing u
          else run_save sv False (\<lambda>u. (edit_connection R (type_changed R formProtocol f u) (old_peers R f u) f u, None))
                 ''Failed to save connection: '' [] ''Connection settings saved.'' u)"

section \<open>The other handlers\<close>

definition toggleConnection :: "'u route_uci \<Rightarrow> acl_services \<Rightarrow> string \<Rightarrow> bool \<Rightarrow> 'u \<Rightarrow> 'u save_result" where
  "toggleConnection R sv n enable u =
     run_save sv False (\<lambda>u. (write_option R ''network'' n (''disabled'', optional_flag (\<not> enable)) u, None))
       ''Failed to change connection state: '' [] (if enable then ''Connection enabled.'' else ''Connection disabled.'') u"

definition deleteConnection :: "'u route_uci \<Rightarrow> acl_services \<Rightarrow> bool \<Rightarrow> string \<Rightarrow> 'u \<Rightarrow> 'u save_result" where
  "deleteConnection R sv confirmed n u =
     (if \<not> confirmed then nothing u
      else run_save sv False
             (\<lambda>u. (au_remove (ru_base R) ''network'' n (remove_peers R (\<lambda>_. True) (peerSectionsFor (au_base (ru_base R)) u n) u), None))
             ''Failed to delete connection: '' [] ''Connection deleted.'' u)"

definition wg_connection_of :: "wg_form \<Rightarrow> wg_connection" where
  "wg_connection_of f =
     \<lparr>wc_name = gf_name f, wc_protocol = gf_protocol f, wc_enabled = gf_enabled f, wc_privateKey = gf_privateKey f, wc_publicKey = gf_publicKey f,
      wc_addresses = gf_addresses f, wc_dns = gf_dns f, wc_listenPort = gf_listenPort f, wc_mtu = gf_mtu f, wc_fwmark = gf_fwmark f,
      wc_nohostroute = gf_nohostroute f, wc_awg = gf_awg f, wc_peers = map wg_peer.truncate (gf_peers f)\<rparr>"

text \<open>The name of the file and its text, or a warning; none when the user cancels.\<close>

definition exportConnection :: "bool \<Rightarrow> wg_form \<Rightarrow> string + (string \<times> string) option" where
  "exportConnection confirmed f =
     (if gf_privateKey f = [] then Inl ''This connection has no private key to export.''
      else if \<not> confirmed then Inr None
      else Inr (Some ((if gf_section f \<noteq> [] then gf_section f else ''wireguard'') @ ''.conf'', serializeConfig (wg_connection_of f))))"

datatype import_result = Import_Warning string | Import_Dialog wg_connection | Import_Form wg_connection

definition importConnection :: "bool \<Rightarrow> string option \<Rightarrow> jsval \<Rightarrow> import_result" where
  "importConnection available file txt =
     (case parseConfig txt of
        Inl e \<Rightarrow> Import_Warning e
      | Inr c \<Rightarrow>
          let c = c\<lparr>wc_name := (case file of
                None \<Rightarrow> ''Imported connection''
              | Some n \<Rightarrow> if ends_with ''.conf'' (lower n) then take (length n - 5) n else n)\<rparr>
          in if wc_protocol c = AWG_PROTO \<and> \<not> available then Import_Dialog c else Import_Form c)"

definition strip_awg :: "wg_connection \<Rightarrow> wg_connection" where
  "strip_awg draft = draft\<lparr>wc_protocol := WG_PROTO, wc_awg := []\<rparr>"

definition installAwg :: "fs_ops \<Rightarrow> bool \<Rightarrow> (string \<times> string) list" where
  "installAwg fs confirmed =
     (if \<not> confirmed then []
      else case fs_exec fs ''/usr/libexec/freenetic-awg-feed'' [''install''] of
          Inl e \<Rightarrow> [(''danger'', ''AmneziaWG installation failed: '' @ e)]
        | Inr result \<Rightarrow>
            if \<not> truthy result \<or> \<not> truthy (field result ''ok'')
            then [(''danger'', ''AmneziaWG installation failed: '' @
                    to_str (or_else (and_then result (field result ''error'')) (JStr ''No compatible AWG package was found.'')))]
            else (case restartNetifd fs of
                Inr _ \<Rightarrow> [(''info'', ''AmneziaWG support installed. Network service restarted.'')]
              | Inl e \<Rightarrow> [(''warning'', ''AmneziaWG support installed, but the network service could not be restarted: '' @ e
                  @ '' Reboot the router before starting a new AWG interface.'')]))"

section \<open>The page\<close>

text \<open>The protocols of the list of connections.\<close>

definition is_connection :: "jsval \<Rightarrow> bool" where
  "is_connection s =
     (let proto = lower (section_text s ''proto''); p = field s ''freenetic_protocol''
      in proto \<in> {WG_PROTO, AWG_PROTO, ''openvpn''} \<or> proto = ''l2tp'' \<and> p = JStr L2TP_IPSEC_PROTO \<or> proto = ''xfrm'' \<and> p = JStr ''ikev2'')"

definition missing_text :: "(string \<times> jsval) list \<Rightarrow> string list \<Rightarrow> string \<Rightarrow> string" where
  "missing_text packages needed ready_text =
     (let missing = filter (\<lambda>n. map_of packages n \<noteq> Some (JBool True)) needed
      in if missing = [] then ready_text else ''Required package(s) are missing: '' @ join '', '' missing @ ''.'')"

text \<open>The card of AmneziaWG, with the signed feed when there is one.\<close>

definition awg_card_text :: "jsval \<Rightarrow> (string \<times> jsval) list \<Rightarrow> string" where
  "awg_card_text feed packages =
     (let place = to_str (field feed ''target'') @ ''/'' @ to_str (field feed ''subtarget'')
      in if awgAvailable feed packages then ''AWG parameters are available in the connection editor.''
         else if truthy feed \<and> field feed ''ok'' \<noteq> JBool False \<and> truthy (field feed ''feed_url'')
         then (if truthy (field feed ''configured'') then ''Signed feed for '' @ place @ '' is configured, but AmneziaWG packages are not installed.''
               else ''The signed AmneziaWG feed targets '' @ place @ ''. Connect it to verify and install matching packages.'')
              @ (if field feed ''version'' = JStr ''SNAPSHOT'' then '' SNAPSHOT builds may not have a matching kernel package.'' else [])
         else ''Optional WireGuard-compatible obfuscation with AmneziaWG parameters.'')"

definition support_cards :: "jsval \<Rightarrow> (string \<times> jsval) list \<Rightarrow> (string \<times> bool \<times> string) list" where
  "support_cards feed packages =
     (let has = (\<lambda>ns. list_all (\<lambda>n. map_of packages n = Some (JBool True)) ns); wg = [''wireguard-tools'', ''kmod-wireguard'']; ov = openvpnAvailable (JObj packages)
      in [(''WireGuard'', has wg, missing_text packages wg ''Native OpenWrt kernel protocol is ready.''),
          (''OpenVPN'', ov, if ov then ''OpenVPN netifd protocol is ready.'' else ''Install an OpenVPN package to create or start an OpenVPN tunnel.''),
          (''AmneziaWG'', awgAvailable feed packages, awg_card_text feed packages),
          (''L2TP/IPsec'', has L2TP_IPSEC_PACKAGES, missing_text packages L2TP_IPSEC_PACKAGES ''xl2tpd and strongSwan are ready.''),
          (''IKEv2/IPsec'', has IKEV2_PACKAGES, missing_text packages IKEV2_PACKAGES ''strongSwan and the XFRM interface are ready.'')])"

end
