(* ===== verification/Wireguard_Properties.thy ===== *)
theory Wireguard_Properties
  imports Wireguard Policy_Properties Routing_Properties
begin

text \<open>
  Saving a WireGuard connection: what the form shows afterwards, what stays of sections that are not the
  program's, and what becomes of peers that are added in the form.
\<close>

section \<open>The writes\<close>

lemma interface_names:
  "\<forall>(k, v) \<in> set (interface_writes f). option_name k" "distinct (map fst (interface_writes f))"
  by (simp_all add: interface_writes_def AWG_OPTIONS_def option_name_def)

lemma peer_names:
  "\<forall>(k, v) \<in> set (peer_writes p). option_name k" "fst ` set (peer_writes p) \<subseteq> set EDITED_PEER_OPTIONS"
  by (simp_all add: peer_writes_def EDITED_PEER_OPTIONS_def option_name_def)

lemma type_not_edited: "''.type'' \<notin> set EDITED_PEER_OPTIONS"
  by (simp add: EDITED_PEER_OPTIONS_def)

lemma peerSections_listed:
  assumes "s \<in> set (peerSectionsFor U u n)"
  shows "s \<in> set (uci_sections U u ''network'' (WG_PEER_TYPE @ n)) \<or> s \<in> set (uci_sections U u ''network'' (AWG_PEER_TYPE @ n))"
proof -
  have acc: "set (foldl add_peer_section acc ss) \<subseteq> set acc \<union> set ss" for acc ss
  proof (induction ss arbitrary: acc)
    case (Cons s ss)
    have "set (add_peer_section acc s) \<subseteq> insert s (set acc)" by (auto simp: add_peer_section_def Let_def)
    then show ?case using Cons [of "add_peer_section acc s"] by auto
  qed simp
  let ?ss = "\<lambda>type. uci_sections U u ''network'' (type @ n)"
  have "s \<in> set (foldl add_peer_section (foldl add_peer_section [] (?ss WG_PEER_TYPE)) (?ss AWG_PEER_TYPE))"
    using assms by (simp add: peerSectionsFor_def)
  then show ?thesis using acc [of "foldl add_peer_section [] (?ss WG_PEER_TYPE)" "?ss AWG_PEER_TYPE"] acc [of "[]" "?ss WG_PEER_TYPE"] by auto
qed

text \<open>What saving a peer does to the sections that are there, and the type of new ones.\<close>

definition peers_step :: "'u route_uci \<Rightarrow> string list \<Rightarrow> string \<Rightarrow> 'u \<Rightarrow> 'u \<Rightarrow> bool" where
  "peers_step R old newType u v \<longleftrightarrow>
     (\<forall>c m. let s = au_get (ru_base R) u c m; t = au_get (ru_base R) v c m
        in if s = JNull then t = JNull \<or> field t ''.type'' = JStr newType
           else t \<noteq> JNull \<and> (\<forall>k. k \<notin> set EDITED_PEER_OPTIONS \<longrightarrow> field t k = field s k) \<and> (c = ''network'' \<and> m \<in> set old \<or> t = s))"

lemma peers_stepI:
  assumes "\<And>c m. au_get (ru_base R) u c m = JNull \<Longrightarrow> au_get (ru_base R) v c m = JNull \<or> field (au_get (ru_base R) v c m) ''.type'' = JStr newType"
    and "\<And>c m. au_get (ru_base R) u c m \<noteq> JNull \<Longrightarrow> au_get (ru_base R) v c m \<noteq> JNull
      \<and> (\<forall>k. k \<notin> set EDITED_PEER_OPTIONS \<longrightarrow> field (au_get (ru_base R) v c m) k = field (au_get (ru_base R) u c m) k)
      \<and> (c = ''network'' \<and> m \<in> set old \<or> au_get (ru_base R) v c m = au_get (ru_base R) u c m)"
  shows "peers_step R old newType u v"
  using assms unfolding peers_step_def Let_def by simp

lemma peers_stepD:
  assumes "peers_step R old newType u v"
  shows "au_get (ru_base R) u c m = JNull \<Longrightarrow> au_get (ru_base R) v c m = JNull \<or> field (au_get (ru_base R) v c m) ''.type'' = JStr newType"
    and "au_get (ru_base R) u c m \<noteq> JNull \<Longrightarrow> au_get (ru_base R) v c m \<noteq> JNull"
    and "au_get (ru_base R) u c m \<noteq> JNull \<Longrightarrow> k \<notin> set EDITED_PEER_OPTIONS \<Longrightarrow> field (au_get (ru_base R) v c m) k = field (au_get (ru_base R) u c m) k"
    and "au_get (ru_base R) u c m \<noteq> JNull \<Longrightarrow> \<not> (c = ''network'' \<and> m \<in> set old) \<Longrightarrow> au_get (ru_base R) v c m = au_get (ru_base R) u c m"
  using assms [unfolded peers_step_def Let_def, rule_format, of c m] by (auto split: if_splits)

lemma peers_step_refl: "peers_step R old newType u u"
  by (rule peers_stepI) simp_all

lemma peers_step_trans:
  assumes "peers_step R old newType u v" "peers_step R old newType v w"
  shows "peers_step R old newType u w"
proof (rule peers_stepI, goal_cases)
  case (1 c m)
  show ?case
  proof (cases "au_get (ru_base R) v c m = JNull")
    case True
    then show ?thesis by (rule peers_stepD(1) [OF assms(2)])
  next
    case False
    then show ?thesis using peers_stepD(1) [OF assms(1) 1] peers_stepD(3) [OF assms(2) False type_not_edited] by simp
  qed
next
  case (2 c m)
  note v = peers_stepD(2) [OF assms(1) 2]
  show ?case
    using peers_stepD(3) [OF assms(1) 2] peers_stepD(3) [OF assms(2) v] peers_stepD(2) [OF assms(2) v]
      peers_stepD(4) [OF assms(1) 2] peers_stepD(4) [OF assms(2) v] by auto
qed

text \<open>The edit in steps: the interface, the peers of the old protocol, the peers of the form, those that were removed.\<close>

definition edit_steps :: "'u route_uci \<Rightarrow> bool \<Rightarrow> wg_form \<Rightarrow> 'u \<Rightarrow> string \<Rightarrow> (string \<Rightarrow> jsval) \<Rightarrow> 'u \<Rightarrow> 'u \<Rightarrow> 'u \<Rightarrow> string list \<Rightarrow> bool" where
  "edit_steps R changed f u n g x y z active \<longleftrightarrow>
     edit_interface R f u = (n, x)
     \<and> is_object (au_get (ru_base R) x ''network'' n) \<and> field (au_get (ru_base R) x ''network'' n) = written (interface_writes f) g
     \<and> (\<forall>c m. (c, m) \<noteq> (''network'', n) \<longrightarrow> au_get (ru_base R) x c m = au_get (ru_base R) u c m)
     \<and> (gf_section f \<noteq> [] \<longrightarrow> n = gf_section f \<and> g = field (au_get (ru_base R) u ''network'' n))
     \<and> (gf_section f = [] \<longrightarrow> n \<noteq> [] \<and> au_get (ru_base R) u ''network'' n = JNull \<and> g ''.type'' = JStr ''interface'')
     \<and> n \<notin> set (map peer_name (old_peers R f u))
     \<and> y = (if changed then remove_peers R isManaged (old_peers R f u) x else x)
     \<and> peers_step R (if changed then [] else map peer_name (old_peers R f u)) (peerType (gf_protocol f)) y z
     \<and> (changed \<or> {fp_section p |p. p \<in> set (gf_peers f) \<and> fp_section p \<noteq> [] \<and> fp_section p \<in> set (map peer_name (old_peers R f u))} \<subseteq> set active)
     \<and> edit_connection R changed (old_peers R f u) f u
       = (if changed then z else remove_peers R (\<lambda>p. peer_name p \<notin> set active \<and> isManaged p) (old_peers R f u) z)"

lemma edit_stepsD:
  assumes "edit_steps R changed f u n g x y z active"
  shows "edit_interface R f u = (n, x)"
    and "is_object (au_get (ru_base R) x ''network'' n) \<and> field (au_get (ru_base R) x ''network'' n) = written (interface_writes f) g"
    and "\<forall>c m. (c, m) \<noteq> (''network'', n) \<longrightarrow> au_get (ru_base R) x c m = au_get (ru_base R) u c m"
    and "gf_section f \<noteq> [] \<longrightarrow> n = gf_section f \<and> g = field (au_get (ru_base R) u ''network'' n)"
    and "gf_section f = [] \<longrightarrow> n \<noteq> [] \<and> au_get (ru_base R) u ''network'' n = JNull \<and> g ''.type'' = JStr ''interface''"
    and "n \<notin> set (map peer_name (old_peers R f u))" "y = (if changed then remove_peers R isManaged (old_peers R f u) x else x)"
    and "peers_step R (if changed then [] else map peer_name (old_peers R f u)) (peerType (gf_protocol f)) y z"
    and "changed \<or> {fp_section p |p. p \<in> set (gf_peers f) \<and> fp_section p \<noteq> [] \<and> fp_section p \<in> set (map peer_name (old_peers R f u))} \<subseteq> set active"
    and "edit_connection R changed (old_peers R f u) f u
       = (if changed then z else remove_peers R (\<lambda>p. peer_name p \<notin> set active \<and> isManaged p) (old_peers R f u) z)"
  using assms unfolding edit_steps_def by - (elim conjE, assumption | (intro conjI; elim conjE, assumption))+

context route_store
begin

lemma writes_peers_step:
  assumes "get u ''network'' n = JNull \<Longrightarrow> False" "n \<in> set old"
  shows "peers_step R old t u (write_options R ''network'' n (peer_writes p) u)"
proof (rule peers_stepI, goal_cases)
  case (1 c m)
  then have "(c, m) \<noteq> (''network'', n)" using assms(1) by blast
  then show ?case using 1 writes_get by simp
next
  case (2 c m)
  show ?case
  proof (cases "(c, m) = (''network'', n)")
    case True
    have "is_object (get u ''network'' n)" using assms(1) get_shape [of u "''network''" n] unfolding au_get_def by blast
    from writes_hold [OF holds_get [OF this] peer_names(1)]
    have h: "holds (write_options R ''network'' n (peer_writes p) u) ''network'' n (written (peer_writes p) (field (get u ''network'' n)))" .
    have "written (peer_writes p) g k = g k" if "k \<notin> set EDITED_PEER_OPTIONS" for g k
      by (rule written_other) (use that peer_names(2) in blast)
    then show ?thesis using True h holds_null [OF h] assms(2) by (simp add: holds_def)
  next
    case False
    then show ?thesis using 2 writes_get by simp
  qed
qed

lemma added_peers_step:
  assumes "ru_add R ''network'' t u = (n, x)"
  shows "peers_step R old t u (write_options R ''network'' n (peer_writes p) (ru_set R ''network'' n [(''freenetic_managed'', JStr ''1'')] x))"
proof -
  let ?y = "ru_set R ''network'' n [(''freenetic_managed'', JStr ''1'')] x"
  note new = ru_add_new [OF assms]
  have "holds x ''network'' n (field (get x ''network'' n))" using new by (intro holds_get) simp
  then have "holds ?y ''network'' n ((field (get x ''network'' n))(''freenetic_managed'' := JStr ''1''))"
    by (rule holds_set) (simp add: option_name_def)
  note h = writes_hold [OF this peer_names(1) [of p]]
  have t: "field (get (write_options R ''network'' n (peer_writes p) ?y) ''network'' n) ''.type'' = JStr t"
  proof -
    have "''.type'' \<notin> fst ` set (peer_writes p)" using peer_names(2) [of p] type_not_edited by blast
    from written_other [OF this] show ?thesis using h new by (simp add: holds_def)
  qed
  have other: "get (write_options R ''network'' n (peer_writes p) ?y) c m = get u c m" if "(c, m) \<noteq> (''network'', n)" for c m
    using writes_get [OF that] ru_set_get [OF that] ru_add_get [OF assms that] by simp
  show ?thesis
    by (rule peers_stepI) (metis t new other prod.inject)+
qed

lemma save_peer_step:
  assumes "\<forall>m \<in> set old. get u ''network'' m \<noteq> JNull"
  shows "peers_step R old t u (snd (save_peer R changed old t (a, u) p))"
proof (cases "\<not> changed \<and> fp_section p \<noteq> [] \<and> fp_section p \<in> set old")
  case True
  then show ?thesis using writes_peers_step [of u "fp_section p" old t p] assms by (auto simp: save_peer_def)
next
  case False
  obtain n x where "ru_add R ''network'' t u = (n, x)" by fastforce
  then show ?thesis using added_peers_step [of t u n x old p] False by (auto simp: save_peer_def)
qed

lemma save_peers_step:
  assumes "\<forall>m \<in> set old. get u ''network'' m \<noteq> JNull"
  shows "peers_step R old t u (snd (foldl (save_peer R changed old t) (a, u) ps))"
  using assms
proof (induction ps arbitrary: a u)
  case Nil
  then show ?case by (simp add: peers_step_refl)
next
  case (Cons p ps)
  obtain a' u' where p: "save_peer R changed old t (a, u) p = (a', u')" by fastforce
  have step: "peers_step R old t u u'" using save_peer_step [OF Cons.prems, of t changed a p] by (simp add: p)
  then have "\<forall>m \<in> set old. get u' ''network'' m \<noteq> JNull" using peers_stepD(2) [OF step] Cons.prems by blast
  from Cons.IH [OF this, of a'] show ?case using peers_step_trans [OF step] by (simp add: p)
qed

lemma active_kept:
  "set a \<union> {fp_section p |p. p \<in> set ps \<and> \<not> changed \<and> fp_section p \<noteq> [] \<and> fp_section p \<in> set old}
   \<subseteq> set (fst (foldl (save_peer R changed old t) (a, u) ps))"
proof (induction ps arbitrary: a u)
  case (Cons p ps)
  obtain a' u' where p: "save_peer R changed old t (a, u) p = (a', u')" by fastforce
  have "set a \<union> (if \<not> changed \<and> fp_section p \<noteq> [] \<and> fp_section p \<in> set old then {fp_section p} else {}) \<subseteq> set a'"
    using p by (auto simp: save_peer_def case_prod_unfold Let_def)
  then show ?case using Cons.IH [of a' u'] by (auto simp: p)
qed auto

lemma remove_peers_get:
  "get (remove_peers R gone ps u) c m = (if c = ''network'' \<and> (\<exists>p \<in> set ps. gone p \<and> peer_name p = m) then JNull else get u c m)"
proof (induction ps arbitrary: u)
  case (Cons p ps)
  let ?u = "if gone p then au_remove (ru_base R) ''network'' (peer_name p) u else u"
  have "get ?u c m = (if gone p \<and> c = ''network'' \<and> m = peer_name p then JNull else get u c m)"
    using remove_this [of u "''network''" "peer_name p"] remove_other [of c m "''network''" "peer_name p" u] unfolding au_get_def au_remove_def by auto
  moreover have "remove_peers R gone (p # ps) u = remove_peers R gone ps ?u" by (simp add: remove_peers_def)
  ultimately show ?case using Cons by auto
qed (simp add: remove_peers_def)

section \<open>The whole edit\<close>

lemma old_peer:
  assumes "s \<in> set (old_peers R f u)" "get u ''network'' [] = JNull"
  shows "get u ''network'' (peer_name s) = s \<and> named (peer_name s) s \<and> s \<noteq> JNull"
proof -
  obtain t where "s \<in> set (ru_sections R u ''network'' t)"
  proof (cases "gf_section f = []")
    case False
    then have "s \<in> set (peerSectionsFor (au_base (ru_base R)) u (gf_section f))" using assms(1) by (simp add: old_peers_def)
    from peerSections_listed [OF this] show ?thesis
      using that [of "WG_PEER_TYPE @ gf_section f"] that [of "AWG_PEER_TYPE @ gf_section f"] unfolding ru_sections_def au_sections_def by blast
  qed (use assms(1) in \<open>simp add: old_peers_def\<close>)
  then obtain n where n: "named n s" "field s ''.type'' = JStr t" "get u ''network'' n = s" using section_is by blast
  have "s \<noteq> JNull" using n(2) by (rule typed_not_null)
  then have "n \<noteq> []" using n(3) assms(2) by auto
  then have "peer_name s = n" using section_name_is n(1) by (simp add: peer_name_def named_def)
  then show ?thesis using n \<open>s \<noteq> JNull\<close> by simp
qed

lemma interface_edited:
  assumes "edit_interface R f u = (n, x)" "gf_section f \<noteq> [] \<Longrightarrow> get u ''network'' (gf_section f) \<noteq> JNull"
  obtains g where "holds x ''network'' n (written (interface_writes f) g)" "\<forall>c m. (c, m) \<noteq> (''network'', n) \<longrightarrow> get x c m = get u c m"
    "gf_section f \<noteq> [] \<longrightarrow> n = gf_section f \<and> g = field (get u ''network'' n)"
    "gf_section f = [] \<longrightarrow> n \<noteq> [] \<and> get u ''network'' n = JNull \<and> g ''.type'' = JStr ''interface''"
proof (cases "gf_section f = []")
  case True
  obtain y where y: "ru_add R ''network'' ''interface'' u = (n, y)" "x = write_options R ''network'' n (interface_writes f) (ru_set R ''network'' n [(''freenetic_managed'', JStr ''1'')] y)"
    using assms(1) True by (auto simp: edit_interface_def split: prod.splits)
  note new = ru_add_new [OF y(1)]
  let ?g = "(field (get y ''network'' n))(''freenetic_managed'' := JStr ''1'')"
  have "holds (ru_set R ''network'' n [(''freenetic_managed'', JStr ''1'')] y) ''network'' n ?g"
    by (rule holds_set [OF holds_get]) (use new in \<open>simp_all add: option_name_def\<close>)
  from writes_hold [OF this interface_names(1)]
  show ?thesis using that [of ?g] new True writes_get ru_set_get ru_add_get [OF y(1)] by (simp add: y(2))
next
  case False
  then have x: "n = gf_section f" "x = write_options R ''network'' n (interface_writes f) u"
    using assms(1) by (auto simp: edit_interface_def)
  have "is_object (get u ''network'' n)" using assms(2) [OF False] get_shape [of u "''network''" n] x(1) unfolding au_get_def by blast
  from writes_hold [OF holds_get [OF this] interface_names(1)]
  show ?thesis using that [of "field (get u ''network'' n)"] False x writes_get by simp
qed

lemma unused_old: "save_peer R True old t = save_peer R True [] t"
  by (simp add: save_peer_def fun_eq_iff)

lemma edit_connection_steps:
  assumes "get u ''network'' [] = JNull" "gf_section f \<noteq> [] \<Longrightarrow> get u ''network'' (gf_section f) \<noteq> JNull"
    and "gf_section f \<notin> set (map peer_name (old_peers R f u))"
  obtains n g x y z active where "edit_steps R changed f u n g x y z active"
proof -
  let ?old = "old_peers R f u" and ?t = "peerType (gf_protocol f)"
  let ?names = "map peer_name ?old"
  obtain n x where i: "edit_interface R f u = (n, x)" by fastforce
  obtain g where g: "holds x ''network'' n (written (interface_writes f) g)" "\<forall>c m. (c, m) \<noteq> (''network'', n) \<longrightarrow> get x c m = get u c m"
    "gf_section f \<noteq> [] \<longrightarrow> n = gf_section f \<and> g = field (get u ''network'' n)"
    "gf_section f = [] \<longrightarrow> n \<noteq> [] \<and> get u ''network'' n = JNull \<and> g ''.type'' = JStr ''interface''"
    by (rule interface_edited [OF i assms(2)])
  have n: "n \<notin> set ?names" using assms(3) g(3) by (cases "gf_section f = []") (auto simp: old_peers_def)
  define y where "y = (if changed then remove_peers R isManaged ?old x else x)"
  obtain active z where z: "foldl (save_peer R changed ?names ?t) ([], y) (gf_peers f) = (active, z)" by fastforce
  have there: "\<forall>m \<in> set ?names. get x ''network'' m \<noteq> JNull"
  proof
    fix m assume m: "m \<in> set ?names"
    then obtain p where p: "p \<in> set ?old" "m = peer_name p" by auto
    have "m \<noteq> n" using n m by blast
    then have "get x ''network'' m = get u ''network'' m" using g(2) by simp
    then show "get x ''network'' m \<noteq> JNull" using old_peer [OF p(1) assms(1)] p(2) by metis
  qed
  have step: "peers_step R (if changed then [] else ?names) ?t y z"
    using save_peers_step [of "if changed then [] else ?names" y ?t changed "[]" "gf_peers f"] there z
    by (cases changed) (simp_all add: y_def unused_old [of ?names])
  have kept: "changed \<or> {fp_section p |p. p \<in> set (gf_peers f) \<and> fp_section p \<noteq> [] \<and> fp_section p \<in> set ?names} \<subseteq> set active"
    using active_kept [of "[]" "gf_peers f" changed ?names ?t y] by (auto simp: z)
  have "field (get x ''network'' n) = written (interface_writes f) g" "is_object (get x ''network'' n)" using g(1) by (auto simp: holds_def)
  moreover have "edit_connection R changed ?old f u = (if changed then z else remove_peers R (\<lambda>p. peer_name p \<notin> set active \<and> isManaged p) ?old z)"
    by (simp add: edit_connection_def Let_def i z y_def [symmetric])
  ultimately have "edit_steps R changed f u n g x y z active"
    unfolding edit_steps_def using i g(2-4) n y_def step kept by blast
  then show ?thesis by (rule that)
qed

end

section \<open>Reading back\<close>

text \<open>The parameters of AmneziaWG that are kept: those with a value, when the protocol is AmneziaWG.\<close>

definition kept_awg :: "wg_form \<Rightarrow> (string \<times> string) list" where
  "kept_awg f = List.map_filter (\<lambda>(k, _). if gf_protocol f \<noteq> AWG_PROTO then None
     else case map_of (gf_awg f) k of Some v \<Rightarrow> if v = [] then None else Some (k, v) | None \<Rightarrow> None) AWG_OPTIONS"

lemma map_filter_same: "\<forall>x \<in> set xs. f x = g x \<Longrightarrow> List.map_filter f xs = List.map_filter g xs"
  by (induction xs) (simp_all add: map_filter_simps split: option.splits)

lemma connection_read:
  assumes s: "field s = written (interface_writes f) g" and n: "field s ''.name'' = JStr n" "n \<noteq> []"
    and f: "gf_name f \<noteq> []" "gf_protocol f \<in> {WG_PROTO, AWG_PROTO}"
  shows "(getWireguardConnection U v s)\<lparr>gf_peers := []\<rparr> = f\<lparr>gf_section := n, gf_awg := kept_awg f, gf_peers := []\<rparr>"
proof -
  let ?w = "\<lambda>v. case v of Some x \<Rightarrow> x | None \<Rightarrow> JUndef"
  have k: "field s k = ?w v" if "(k, v) \<in> set (interface_writes f)" for k v
    unfolding s by (rule written_in [OF interface_names(2) that])
  have proto: "field s ''proto'' = JStr (gf_protocol f)" "field s ''freenetic_name'' = JStr (gf_name f)"
    using k [of "''proto''" "Some (JStr (gf_protocol f))"] k [of "''freenetic_name''" "Some (JStr (gf_name f))"] by (simp_all add: interface_writes_def)
  have texts: "section_text s ''freenetic_public_key'' = gf_publicKey f" "section_text s ''private_key'' = gf_privateKey f"
    "section_text s ''listen_port'' = gf_listenPort f" "section_text s ''mtu'' = gf_mtu f" "section_text s ''fwmark'' = gf_fwmark f"
    unfolding section_text_def by (intro read_text k; simp add: interface_writes_def setOptional_def)+
  have lists: "section_texts s ''addresses'' = gf_addresses f" "section_texts s ''dns'' = gf_dns f"
    unfolding section_texts_def by (intro read_texts k; simp add: interface_writes_def setList_def)+
  have flags: "field s ''disabled'' = JStr ''1'' \<longleftrightarrow> \<not> gf_enabled f" "field s ''nohostroute'' = JStr ''1'' \<longleftrightarrow> gf_nohostroute f"
    by (intro read_flag k; simp add: interface_writes_def)+
  have lower: "lower (section_text s ''proto'') = gf_protocol f"
  proof -
    have "lower WG_PROTO = WG_PROTO" "lower AWG_PROTO = AWG_PROTO" "WG_PROTO \<noteq> []" "AWG_PROTO \<noteq> []" by code_simp+
    then show ?thesis using f(2) by (auto simp: section_text_def proto or_else_def truthy_def)
  qed
  have awg: "List.map_filter (\<lambda>(k, _). if nullish (field s k) then None else Some (k, to_str (field s k))) AWG_OPTIONS = kept_awg f"
    unfolding kept_awg_def
  proof (rule map_filter_same, clarify)
    fix k label low high assume o: "(k, label, low, high) \<in> set AWG_OPTIONS"
    have "(k, if gf_protocol f = AWG_PROTO then (case map_of (gf_awg f) k of Some v \<Rightarrow> setOptional v | None \<Rightarrow> None) else None) \<in> set (interface_writes f)"
      unfolding interface_writes_def set_append set_map by (rule UnI2, rule image_eqI [OF _ o]) simp
    from k [OF this] show "(if nullish (field s k) then None else Some (k, to_str (field s k)))
        = (if gf_protocol f \<noteq> AWG_PROTO then None else case map_of (gf_awg f) k of Some v \<Rightarrow> if v = [] then None else Some (k, v) | None \<Rightarrow> None)"
      by (auto simp: nullish_def setOptional_def optional_text_def split: option.splits)
  qed
  have name: "to_str (sectionName_conn s) = n" "to_str (or_else (or_else (field s ''freenetic_name'') (field s ''description'')) (JStr n)) = gf_name f"
    using section_name_is [OF n] f(1) by (simp_all add: proto or_else_def truthy_def)
  show ?thesis
    unfolding getWireguardConnection_def Let_def name texts lists flags lower awg by simp
qed

section \<open>What the edit keeps\<close>

text \<open>A peer of the program that goes: the protocol changed, or it is no longer in the form.\<close>

definition dropped :: "bool \<Rightarrow> jsval list \<Rightarrow> string list \<Rightarrow> string \<Rightarrow> bool" where
  "dropped changed old active m \<longleftrightarrow> (\<exists>p \<in> set old. isManaged p \<and> peer_name p = m \<and> (changed \<or> m \<notin> set active))"

lemma not_dropped:
  assumes "edit_steps R changed f u n g x y z active"
    and "list_all (\<lambda>p. \<not> isManaged p) (filter (\<lambda>p. peer_name p = m) (old_peers R f u)) \<or> \<not> changed \<and> m \<noteq> [] \<and> m \<in> fp_section ` set (gf_peers f)"
  shows "\<not> dropped changed (old_peers R f u) active m"
proof
  assume g: "dropped changed (old_peers R f u) active m"
  then have form: "\<not> changed" "m \<noteq> []" "m \<in> fp_section ` set (gf_peers f)" using assms(2) by (auto simp: list_all_iff dropped_def)
  have "m \<in> set (map peer_name (old_peers R f u))" using g by (auto simp: dropped_def)
  moreover obtain q where "q \<in> set (gf_peers f)" "m = fp_section q" using form(3) by blast
  ultimately have "m \<in> set active" using edit_stepsD(9) [OF assms(1)] form(1,2) by blast
  then show False using g form(1) by (auto simp: dropped_def)
qed

context route_store
begin

lemma edit_get:
  assumes "edit_steps R changed f u n g x y z active"
  shows "get (edit_connection R changed (old_peers R f u) f u) c m
     = (if c = ''network'' \<and> dropped changed (old_peers R f u) active m \<and> \<not> changed then JNull else get z c m)"
    and "get y c m = (if c = ''network'' \<and> changed \<and> dropped changed (old_peers R f u) active m then JNull else get x c m)"
  using edit_stepsD(7,10) [OF assms] remove_peers_get by (auto simp: dropped_def)

lemma edit_steps_kept:
  assumes "edit_steps R changed f u n g x y z active" "get u c m \<noteq> JNull" "(c, m) \<noteq> (''network'', gf_section f)"
    and "\<not> (c = ''network'' \<and> dropped changed (old_peers R f u) active m)"
  shows "let v = edit_connection R changed (old_peers R f u) f u
     in get v c m \<noteq> JNull \<and> (\<forall>k. k \<notin> set EDITED_PEER_OPTIONS \<longrightarrow> field (get v c m) k = field (get u c m) k)
        \<and> (c = ''network'' \<and> m \<in> set (map peer_name (old_peers R f u)) \<or> get v c m = get u c m)"
proof -
  note st = edit_stepsD [OF assms(1)]
  have "(c, m) \<noteq> (''network'', n)" using st(4,5) assms(2,3) by (cases "gf_section f = []") auto
  then have y: "get y c m = get u c m" using edit_get(2) [OF assms(1)] assms(4) st(3) by auto
  then have "get y c m \<noteq> JNull" using assms(2) by simp
  note step = peers_stepD(2,3,4) [OF st(8) this]
  have v: "get (edit_connection R changed (old_peers R f u) f u) c m = get z c m" using edit_get(1) [OF assms(1)] assms(4) by auto
  have "c = ''network'' \<and> m \<in> set (map peer_name (old_peers R f u)) \<or> get z c m = get u c m"
    using step(3) y by (cases changed) auto
  then show ?thesis unfolding Let_def v using step(1,2) y by simp
qed

text \<open>A section of another type than those that the edit adds was there before.\<close>

lemma edit_steps_type:
  assumes "edit_steps R changed f u n g x y z active" "gf_section f \<noteq> [] \<Longrightarrow> get u ''network'' (gf_section f) \<noteq> JNull"
    and "field (get (edit_connection R changed (old_peers R f u) f u) ''network'' m) ''.type'' = JStr t" "t \<noteq> peerType (gf_protocol f)" "t \<noteq> ''interface''"
  shows "get u ''network'' m \<noteq> JNull"
proof
  note st = edit_stepsD [OF assms(1)]
  assume gone: "get u ''network'' m = JNull"
  have z: "field (get z ''network'' m) ''.type'' = JStr t"
    using assms(3) unfolding edit_get(1) [OF assms(1)] by (auto simp: field_def split: if_splits)
  show False
  proof (cases "m = n")
    case True
    have "gf_section f = []" using gone True st(4) assms(2) by auto
    then have i: "field (get x ''network'' n) ''.type'' = JStr ''interface''"
      using st(2,5) written_other [of "''.type''" "interface_writes f" g] by (auto simp: interface_writes_def AWG_OPTIONS_def)
    have "\<not> dropped changed (old_peers R f u) active n" using st(6) by (auto simp: dropped_def)
    then have y: "get y ''network'' n = get x ''network'' n" using edit_get(2) [OF assms(1)] by simp
    then have "get y ''network'' n \<noteq> JNull" using i by (auto simp: field_def)
    from peers_stepD(3) [OF st(8) this type_not_edited] show False using i y z assms(5) True by simp
  next
    case False
    then have "get y ''network'' m = JNull" using gone st(3) edit_get(2) [OF assms(1)] by simp
    from peers_stepD(1) [OF st(8) this] show False using z assms(4) by (auto simp: field_def)
  qed
qed

end

section \<open>The properties\<close>

lemma saveConnection_saved:
  assumes "sr_saved (saveConnection R sv available confirmed formProtocol f u)"
  shows "validateConnection f = None
    \<and> sr_store (saveConnection R sv available confirmed formProtocol f u) = edit_connection R (type_changed R formProtocol f u) (old_peers R f u) f u"
proof -
  let ?r = "run_save sv False (\<lambda>u. (edit_connection R (type_changed R formProtocol f u) (old_peers R f u) f u, None))
     ''Failed to save connection: '' [] ''Connection settings saved.'' u"
  have v: "validateConnection f = None" using assms by (auto simp: saveConnection_def warn_def split: option.splits)
  then have r: "saveConnection R sv available confirmed formProtocol f u = ?r"
    using assms by (auto simp: saveConnection_def nothing_def split: if_splits)
  then show ?thesis using v run_save_saved [of sv False] assms by fastforce
qed

text \<open>The name of the interface: that of the form, or the new one.\<close>

definition saved_interface :: "'u route_uci \<Rightarrow> wg_form \<Rightarrow> 'u \<Rightarrow> string" where
  "saved_interface R f u = (if gf_section f \<noteq> [] then gf_section f else ru_new R u ''network'' ''interface'')"

lemma saved_interface_is: "edit_interface R f u = (n, x) \<Longrightarrow> n = saved_interface R f u"
  by (auto simp: edit_interface_def saved_interface_def ru_add_def)

text \<open>C34: after a save, the connection that is read from the configuration has every field of the form but the
  peers: name, protocol, state, keys, addresses, servers, port, size, mark, routes, and the parameters of AmneziaWG
  when that is the protocol.\<close>

theorem wg_saved:
  fixes R :: "'u route_uci"
  assumes "route_store R" "sr_saved (saveConnection R sv available confirmed formProtocol f u)"
    and "au_get (ru_base R) u ''network'' [] = JNull" "gf_section f \<noteq> [] \<Longrightarrow> au_get (ru_base R) u ''network'' (gf_section f) \<noteq> JNull"
    and "gf_section f \<notin> set (map peer_name (old_peers R f u))" "gf_protocol f \<in> {WG_PROTO, AWG_PROTO}"
  shows "let v = sr_store (saveConnection R sv available confirmed formProtocol f u); n = saved_interface R f u
     in (getWireguardConnection (au_base (ru_base R)) v (au_get (ru_base R) v ''network'' n))\<lparr>gf_peers := []\<rparr>
        = f\<lparr>gf_section := n, gf_awg := kept_awg f, gf_peers := []\<rparr>"
proof -
  let ?v = "sr_store (saveConnection R sv available confirmed formProtocol f u)"
  note saved = saveConnection_saved [OF assms(2)]
  let ?ch = "type_changed R formProtocol f u" and ?old = "old_peers R f u"
  obtain n g x y z active where "edit_steps R ?ch f u n g x y z active"
    by (rule route_store.edit_connection_steps [OF assms(1,3,4,5)])
  note st = edit_stepsD [OF this]
  note kept = route_store.remove_peers_get [OF assms(1)]
  have gone: "\<not> (\<exists>p \<in> set (old_peers R f u). P p \<and> peer_name p = n)" for P using st(6) by auto
  have y: "au_get (ru_base R) y ''network'' n = au_get (ru_base R) x ''network'' n" using st(7) kept gone by simp
  then have "au_get (ru_base R) y ''network'' n \<noteq> JNull" using st(2) by (auto simp: is_object_def)
  then have "au_get (ru_base R) z ''network'' n = au_get (ru_base R) x ''network'' n"
    using peers_stepD(4) [OF st(8), of "''network''" n] st(6) y by (auto split: if_splits)
  then have v: "au_get (ru_base R) ?v ''network'' n = au_get (ru_base R) x ''network'' n"
    using saved st(10) kept gone by simp
  have s: "field (au_get (ru_base R) x ''network'' n) = written (interface_writes f) g"
    using st(2) by blast
  have n: "field (au_get (ru_base R) x ''network'' n) ''.name'' = JStr n" "n \<noteq> []"
  proof -
    have "au_get (ru_base R) x ''network'' n \<noteq> JNull" using st(2) by (auto simp: is_object_def)
    from acl_store.get_name [OF route_store.axioms(1) [OF assms(1)] this] show "field (au_get (ru_base R) x ''network'' n) ''.name'' = JStr n"
      by (simp add: named_def)
    show "n \<noteq> []" using st(4,5) by (cases "gf_section f = []") auto
  qed
  have "gf_name f \<noteq> []" using saved by (auto simp: validateConnection_def split: if_splits)
  note read = connection_read [OF s n this assms(6)]
  show ?thesis
    unfolding Let_def saved_interface_is [OF st(1), symmetric] v by (rule read)
qed

text \<open>C35: saving a connection leaves every section that is no peer of it as it was.  A peer that is not the
  program's stays, with every option that the form does not edit; and unless the protocol changes, so does a
  peer of the program that is in the form.\<close>

theorem wg_keeps_foreign:
  fixes R :: "'u route_uci"
  assumes "route_store R" "sr_saved (saveConnection R sv available confirmed formProtocol f u)"
    and "au_get (ru_base R) u ''network'' [] = JNull" "gf_section f \<noteq> [] \<Longrightarrow> au_get (ru_base R) u ''network'' (gf_section f) \<noteq> JNull"
    and "gf_section f \<notin> set (map peer_name (old_peers R f u))"
    and there: "au_get (ru_base R) u c m \<noteq> JNull" "(c, m) \<noteq> (''network'', gf_section f)"
  shows "let s = au_get (ru_base R) u c m; t = au_get (ru_base R) (sr_store (saveConnection R sv available confirmed formProtocol f u)) c m;
      peers = filter (\<lambda>p. peer_name p = m) (old_peers R f u)
    in (c = ''network'' \<and> peers \<noteq> [] \<or> t = s)
       \<and> (list_all (\<lambda>p. \<not> isManaged p) peers
            \<or> \<not> type_changed R formProtocol f u \<and> m \<noteq> [] \<and> m \<in> fp_section ` set (gf_peers f)
            \<longrightarrow> t \<noteq> JNull \<and> (\<forall>k. k \<notin> set EDITED_PEER_OPTIONS \<longrightarrow> field t k = field s k))"
proof -
  let ?v = "sr_store (saveConnection R sv available confirmed formProtocol f u)"
  let ?ch = "type_changed R formProtocol f u" and ?old = "old_peers R f u"
  obtain n g x y z active where st: "edit_steps R ?ch f u n g x y z active"
    by (rule route_store.edit_connection_steps [OF assms(1,3,4,5)])
  have v: "?v = edit_connection R ?ch ?old f u" using saveConnection_saved [OF assms(2)] by simp
  note kept = route_store.edit_steps_kept [OF assms(1) st there, folded v, unfolded Let_def]
  have own: "m \<in> set (map peer_name ?old) \<longleftrightarrow> filter (\<lambda>p. peer_name p = m) ?old \<noteq> []" by (auto simp: filter_empty_conv)
  have "c = ''network'' \<and> filter (\<lambda>p. peer_name p = m) ?old \<noteq> [] \<or> au_get (ru_base R) ?v c m = au_get (ru_base R) u c m"
  proof (cases "c = ''network'' \<and> dropped ?ch ?old active m")
    case True
    then show ?thesis unfolding own [symmetric] by (auto simp: dropped_def)
  qed (use kept own in blast)
  then show ?thesis unfolding Let_def using kept not_dropped [OF st] by blast
qed

text \<open>C36: a peer that is added in the form never belongs to the connection.  The type of its section is the
  bare prefix of the types of peers, without the name of the interface, so that after a save every peer of the
  connection was there before; a new connection has none, whatever was entered.\<close>

theorem wg_new_peers_unlisted:
  fixes R :: "'u route_uci"
  assumes "route_store R" "sr_saved (saveConnection R sv available confirmed formProtocol f u)"
    and "au_get (ru_base R) u ''network'' [] = JNull" "gf_section f \<noteq> [] \<Longrightarrow> au_get (ru_base R) u ''network'' (gf_section f) \<noteq> JNull"
    and "gf_section f \<notin> set (map peer_name (old_peers R f u))"
  shows "let v = sr_store (saveConnection R sv available confirmed formProtocol f u); n = saved_interface R f u
     in \<forall>s \<in> set (peerSectionsFor (au_base (ru_base R)) v n). \<exists>m. named m s \<and> au_get (ru_base R) u ''network'' m \<noteq> JNull"
proof -
  let ?v = "sr_store (saveConnection R sv available confirmed formProtocol f u)"
  let ?ch = "type_changed R formProtocol f u" and ?old = "old_peers R f u"
  obtain n g x y z active where st: "edit_steps R ?ch f u n g x y z active"
    by (rule route_store.edit_connection_steps [OF assms(1,3,4,5)])
  have n: "n = saved_interface R f u" "n \<noteq> []"
    using saved_interface_is [OF edit_stepsD(1) [OF st]] edit_stepsD(4,5) [OF st] by auto
  have v: "?v = edit_connection R ?ch ?old f u" using saveConnection_saved [OF assms(2)] by simp
  have "\<exists>m. named m s \<and> au_get (ru_base R) u ''network'' m \<noteq> JNull" if s: "s \<in> set (peerSectionsFor (au_base (ru_base R)) ?v n)" for s
  proof -
    obtain t where t: "s \<in> set (ru_sections R ?v ''network'' t)" "t \<noteq> peerType (gf_protocol f)" "t \<noteq> ''interface''"
      using peerSections_listed [OF s] n(2) that [of "WG_PEER_TYPE @ n"] that [of "AWG_PEER_TYPE @ n"]
      unfolding ru_sections_def au_sections_def by (auto simp: peerType_def WG_PEER_TYPE_def AWG_PEER_TYPE_def)
    obtain m where m: "named m s" "field s ''.type'' = JStr t" "au_get (ru_base R) ?v ''network'' m = s"
      using route_store.section_is [OF assms(1) t(1)] by blast
    have "field (au_get (ru_base R) (edit_connection R ?ch ?old f u) ''network'' m) ''.type'' = JStr t"
      using m(2,3) by (simp add: v)
    from route_store.edit_steps_type [OF assms(1) st assms(4) this t(2,3)] show ?thesis using m(1) by blast
  qed
  then show ?thesis unfolding Let_def n(1) by blast
qed

section \<open>Witnesses\<close>

definition sample_key :: string where "sample_key = replicate 43 CHR ''A'' @ ''=''"

definition wg_config :: list_store where
  "wg_config = [((''network'', ''wg0''), [(''.type'', JStr ''interface''), (''proto'', JStr ''wireguard'')]),
     ((''network'', ''mine''), [(''.type'', JStr ''wireguard_wg0''), (''public_key'', JStr sample_key), (''route_metric'', JStr ''7'')])]"

definition wg_entry :: "string \<Rightarrow> wg_form" where
  "wg_entry section = (new_connection WG_PROTO)\<lparr>gf_section := section, gf_name := ''Office'', gf_privateKey := sample_key, gf_addresses := [''10.0.0.2/32''],
     gf_peers := [new_peer\<lparr>wp_publicKey := sample_key, wp_allowedIps := [''10.0.0.0/8'']\<rparr>]\<rparr>"

lemma wg_entry_saved:
  assumes "\<not> must_confirm list_route WG_PROTO (wg_entry section) u"
  shows "sr_saved (saveConnection list_route ready_services True False WG_PROTO (wg_entry section) u)"
proof -
  have "validateConnection (wg_entry section) = validateConnection (wg_entry [])"
    by (simp add: validateConnection_def wg_entry_def new_connection_def awg_problem_def [abs_def] awg_value_def)
  also have "\<dots> = None" by code_simp
  finally have "validateConnection (wg_entry section) = None" .
  then show ?thesis using assms by (simp add: saveConnection_def run_save_def ready_services_def Let_def)
qed

lemma wg_config_ready:
  "sr_saved (saveConnection list_route ready_services True False WG_PROTO (wg_entry ''wg0'') wg_config)"
  "au_get (ru_base list_route) wg_config ''network'' [] = JNull"
  "au_get (ru_base list_route) wg_config ''network'' (gf_section (wg_entry ''wg0'')) \<noteq> JNull"
  "gf_section (wg_entry ''wg0'') \<notin> set (map peer_name (old_peers list_route (wg_entry ''wg0'') wg_config))"
  "gf_protocol (wg_entry ''wg0'') \<in> {WG_PROTO, AWG_PROTO}"
  by (rule wg_entry_saved) code_simp+

theorem wg_saved_witness:
  "let v = sr_store (saveConnection list_route ready_services True False WG_PROTO (wg_entry ''wg0'') wg_config)
   in gf_name (getWireguardConnection (au_base (ru_base list_route)) v (au_get (ru_base list_route) v ''network'' ''wg0'')) = ''Office''"
proof -
  have w: "saved_interface list_route (wg_entry ''wg0'') wg_config = ''wg0''" "gf_name (wg_entry ''wg0'') = ''Office''"
    by (simp_all add: saved_interface_def wg_entry_def)
  have "gf_name c = gf_name f" if "c\<lparr>gf_peers := []\<rparr> = f\<lparr>gf_section := n, gf_awg := a, gf_peers := []\<rparr>" for c f n a
    using arg_cong [OF that, of gf_name] by simp
  from this [OF wg_saved [OF list_route.route_store_axioms wg_config_ready(1,2) _ wg_config_ready(4,5), unfolded Let_def]]
  show ?thesis using wg_config_ready(3) w unfolding Let_def by simp
qed

theorem wg_keeps_foreign_witness:
  "let v = sr_store (saveConnection list_route ready_services True False WG_PROTO (wg_entry ''wg0'') wg_config)
   in field (au_get (ru_base list_route) v ''network'' ''mine'') ''route_metric'' = JStr ''7''"
proof -
  have there: "au_get (ru_base list_route) wg_config ''network'' ''mine'' \<noteq> JNull" "(''network'', ''mine'') \<noteq> (''network'', gf_section (wg_entry ''wg0''))"
    "field (au_get (ru_base list_route) wg_config ''network'' ''mine'') ''route_metric'' = JStr ''7''" by code_simp+
  have foreign: "list_all (\<lambda>p. \<not> isManaged p) (filter (\<lambda>p. peer_name p = ''mine'') (old_peers list_route (wg_entry ''wg0'') wg_config))" by code_simp
  have "''route_metric'' \<notin> set EDITED_PEER_OPTIONS" by code_simp
  then show ?thesis
    using wg_keeps_foreign [OF list_route.route_store_axioms wg_config_ready(1,2) _ wg_config_ready(4) there(1,2)] wg_config_ready(3) foreign there(3)
    unfolding Let_def by simp
qed

theorem wg_new_peers_unlisted_witness:
  "let v = sr_store (saveConnection list_route ready_services True False WG_PROTO (wg_entry []) [])
   in length (gf_peers (wg_entry [])) = 1 \<and> peerSectionsFor (au_base (ru_base list_route)) v (saved_interface list_route (wg_entry []) []) = []"
proof -
  let ?v = "sr_store (saveConnection list_route ready_services True False WG_PROTO (wg_entry []) [])"
  have saved: "sr_saved (saveConnection list_route ready_services True False WG_PROTO (wg_entry []) [])"
    by (rule wg_entry_saved) code_simp
  have start: "au_get (ru_base list_route) [] ''network'' m = JNull" for m
    by (simp add: list_route_def list_acl_def au_get_def named_get_def)
  have e: "gf_section (wg_entry []) = []" "length (gf_peers (wg_entry [])) = 1" by (simp_all add: wg_entry_def)
  have "\<forall>s \<in> set (peerSectionsFor (au_base (ru_base list_route)) ?v (saved_interface list_route (wg_entry []) [])). False"
    using wg_new_peers_unlisted [OF list_route.route_store_axioms saved] start e by (simp add: Let_def old_peers_def)
  then show ?thesis using e unfolding Let_def by simp
qed

end
