(* ===== verification/Wan.thy ===== *)
theory Wan
  imports Policy_Save Option_Writes
begin

text \<open>
  The internet connection (\<open>view/network/freenetic-wan.js\<close>): the VLAN device behind the connection, the
  forms for IPv4 and IPv6 as they are read from the configuration, the status texts, and the two handlers
  that edit the sections \<open>wan\<close> and \<open>wan6\<close> and the VLAN device.  The view keeps the base interface, the VLAN
  it found, and the section of the VLAN device when it is the program's (empty where the code has null).
\<close>

section \<open>Texts\<close>

definition two_digits :: "int \<Rightarrow> string" where
  "two_digits n = (if n < 10 then ''0'' @ dec n else dec n)"

text \<open>Whole seconds.\<close>

definition fmtUptime :: "int \<Rightarrow> string" where
  "fmtUptime seconds =
     (let d = seconds div 86400; h = seconds mod 86400 div 3600; m = seconds mod 3600 div 60; s = seconds mod 60;
          clock = join '':'' [two_digits h, two_digits m, two_digits s]
      in if 0 < d then dec d @ '' d '' @ clock else clock)"

definition listValue_wan :: "jsval \<Rightarrow> jsval list" where
  "listValue_wan v = (if is_array v then elements v else if truthy v then [v] else [])"

definition EDITED_WAN4_OPTIONS :: "string list" where
  "EDITED_WAN4_OPTIONS = [''disabled'', ''proto'', ''username'', ''password'', ''ipaddr'', ''netmask'', ''gateway'',
     ''dns'', ''peerdns'', ''device'']"

definition EDITED_WAN6_OPTIONS :: "string list" where
  "EDITED_WAN6_OPTIONS = [''disabled'', ''proto'', ''device'', ''ip6addr'', ''ip6gw'', ''ip6prefix'',
     ''reqaddress'', ''reqprefix'', ''dns'', ''peerdns'']"

definition advancedInterfaceOptions :: "jsval \<Rightarrow> string list \<Rightarrow> string list" where
  "advancedInterfaceOptions s editedOptions =
     filter (\<lambda>k. \<not> starts_with ''.'' k \<and> k \<notin> set editedOptions) (map fst (object_properties (or_else s (JObj []))))"

definition WAN4_PROTOCOLS :: "string list" where "WAN4_PROTOCOLS = [''dhcp'', ''pppoe'', ''static'']"
definition WAN6_PROTOCOLS :: "string list" where "WAN6_PROTOCOLS = [''dhcpv6'', ''static'']"

definition protocolOptions :: "string \<Rightarrow> bool \<Rightarrow> (string \<times> string) list" where
  "protocolOptions protocol ipv6 =
     (if ipv6 then [(''dhcpv6'', ''Automatic (DHCPv6)''), (''static'', ''Static IPv6'')]
      else [(''dhcp'', ''Automatic (DHCP)''), (''pppoe'', ''PPPoE''), (''static'', ''Static IP'')])
     @ (if protocol \<in> set (if ipv6 then WAN6_PROTOCOLS else WAN4_PROTOCOLS) then []
        else [(protocol, ''Existing protocol: '' @ upper protocol @ '' (preserved)'')])"

section \<open>VLAN devices\<close>

record vlan_info =
  vi_vid :: jsval
  vi_base :: jsval
  vi_section :: jsval
  vi_device :: jsval
  vi_managed :: bool
  vi_legacy :: bool

definition device_info :: "string \<Rightarrow> vlan_info \<Rightarrow> jsval \<Rightarrow> vlan_info" where
  "device_info deviceName result s =
     (if field s ''type'' = JStr ''8021q'' \<and> field s ''name'' = JStr deviceName
      then \<lparr>vi_vid = or_else (field s ''vid'') (JStr []), vi_base = or_else (field s ''ifname'') (JStr deviceName),
            vi_section = field s ''.name'', vi_device = field s ''name'', vi_managed = (field s ''freenetic_managed'' = JStr ''1''), vi_legacy = False\<rparr>
      else result)"

text \<open>\<open>/^(.*)\.(\d{1,4})$/\<close>\<close>

definition legacy_vlan :: "string \<Rightarrow> (string \<times> string) option" where
  "legacy_vlan name =
     (case last_index_of CHR ''.'' name of
        None \<Rightarrow> None
      | Some i \<Rightarrow> let base = take i name; vid = drop (Suc i) name
          in if all_digits vid \<and> length vid \<le> 4 \<and> list_all (\<lambda>c. cc c \<noteq> 13 \<and> cc c \<noteq> 10) base
                \<and> 1 \<le> num_val 10 vid \<and> num_val 10 vid \<le> 4094 then Some (base, vid) else None)"

definition findVlanDevice :: "'u route_uci \<Rightarrow> 'u \<Rightarrow> string \<Rightarrow> vlan_info" where
  "findVlanDevice R u deviceName =
     (let devices = ru_sections R u ''network'' ''device'';
          none = \<lparr>vi_vid = JStr [], vi_base = JStr deviceName, vi_section = JNull, vi_device = JNull, vi_managed = False, vi_legacy = False\<rparr>;
          result = foldl (device_info deviceName) none devices
      in if list_ex (\<lambda>s. field s ''name'' = JStr deviceName) devices then result
         else case legacy_vlan deviceName of
             None \<Rightarrow> result
           | Some (base, vid) \<Rightarrow> result\<lparr>vi_vid := JStr vid, vi_base := JStr base, vi_device := JStr deviceName, vi_legacy := True\<rparr>)"

definition hasForeignDeviceReferences :: "'u route_uci \<Rightarrow> 'u \<Rightarrow> jsval \<Rightarrow> string \<Rightarrow> bool" where
  "hasForeignDeviceReferences R u deviceName own \<longleftrightarrow>
     truthy deviceName
     \<and> (list_ex (\<lambda>s. field s ''.name'' \<notin> {JStr ''wan'', JStr ''wan6''} \<and> field s ''device'' = deviceName) (ru_sections R u ''network'' ''interface'')
        \<or> list_ex (\<lambda>s. field s ''.name'' \<noteq> JStr own \<and> field s ''type'' = JStr ''bridge'' \<and> deviceName \<in> set (listValue_wan (field s ''ports'')))
            (ru_sections R u ''network'' ''device''))"

definition is_managed_vlan :: "'u route_uci \<Rightarrow> 'u \<Rightarrow> string \<Rightarrow> bool" where
  "is_managed_vlan R u n \<longleftrightarrow> n \<noteq> [] \<and> field (au_get (ru_base R) u ''network'' n) ''freenetic_managed'' = JStr ''1''"

definition releaseManagedVlan :: "'u route_uci \<Rightarrow> string \<Rightarrow> 'u \<Rightarrow> 'u" where
  "releaseManagedVlan R n u =
     (if \<not> is_managed_vlan R u n then u
      else if hasForeignDeviceReferences R u (field (au_get (ru_base R) u ''network'' n) ''name'') n
      then au_unset (ru_base R) u ''network'' n ''freenetic_managed''
      else au_remove (ru_base R) ''network'' n u)"

record wan_view =
  wn_base :: string
  wn_info :: vlan_info
  wn_section :: string

definition option_or :: "'u route_uci \<Rightarrow> 'u \<Rightarrow> string \<Rightarrow> string \<Rightarrow> string \<Rightarrow> string" where
  "option_or R u n k v = to_str (or_else (field (au_get (ru_base R) u ''network'' n) k) (JStr v))"

definition wan_view_of :: "'u route_uci \<Rightarrow> 'u \<Rightarrow> wan_view" where
  "wan_view_of R u =
     (let i = findVlanDevice R u (option_or R u ''wan'' ''device'' ''wan'')
      in \<lparr>wn_base = to_str (vi_base i), wn_info = i, wn_section = (if vi_managed i then to_str (vi_section i) else [])\<rparr>)"

section \<open>The forms\<close>

record wan4_fields =
  w4_enabled :: bool
  w4_proto :: string
  w4_username :: string
  w4_password :: string
  w4_ipaddr :: string
  w4_netmask :: string
  w4_gateway :: string
  w4_vlan :: string
  w4_dns1 :: string
  w4_dns2 :: string

definition nth_value :: "jsval list \<Rightarrow> nat \<Rightarrow> string" where
  "nth_value vs i = (if i < length vs then to_str (or_else (vs ! i) (JStr [])) else [])"

definition wan4_form :: "'u route_uci \<Rightarrow> 'u \<Rightarrow> wan4_fields" where
  "wan4_form R u =
     (let s = au_get (ru_base R) u ''network'' ''wan''; o' = \<lambda>k. option_or R u ''wan'' k [];
          dns = (let d = or_else (field s ''dns'') (JArr []) in if is_array d then elements d else [d])
      in \<lparr>w4_enabled = (field s ''disabled'' \<noteq> JStr ''1''), w4_proto = option_or R u ''wan'' ''proto'' ''dhcp'', w4_username = trim (o' ''username''),
          w4_password = o' ''password'', w4_ipaddr = trim (o' ''ipaddr''), w4_netmask = trim (o' ''netmask''), w4_gateway = trim (o' ''gateway''),
          w4_vlan = trim (to_str (or_else (vi_vid (wn_info (wan_view_of R u))) (JStr []))),
          w4_dns1 = trim (nth_value dns 0), w4_dns2 = trim (nth_value dns 1)\<rparr>)"

record wan6_fields =
  w6_enabled :: bool
  w6_proto :: string
  w6_address :: string
  w6_gateway :: string
  w6_prefix :: string
  w6_reqaddress :: string
  w6_reqprefix :: string
  w6_dns1 :: string
  w6_dns2 :: string

definition wan6_form :: "'u route_uci \<Rightarrow> 'u \<Rightarrow> wan6_fields" where
  "wan6_form R u =
     (let s = au_get (ru_base R) u ''network'' ''wan6''; l = \<lambda>k i. trim (nth_value (listValue_wan (field s k)) i)
      in \<lparr>w6_enabled = (field s ''disabled'' \<noteq> JStr ''1''), w6_proto = option_or R u ''wan6'' ''proto'' ''dhcpv6'', w6_address = l ''ip6addr'' 0,
          w6_gateway = trim (option_or R u ''wan6'' ''ip6gw'' []), w6_prefix = l ''ip6prefix'' 0,
          w6_reqaddress = option_or R u ''wan6'' ''reqaddress'' ''try'', w6_reqprefix = option_or R u ''wan6'' ''reqprefix'' ''auto'',
          w6_dns1 = l ''dns'' 0, w6_dns2 = l ''dns'' 1\<rparr>)"

section \<open>The status\<close>

definition address_texts :: "jsval \<Rightarrow> string \<Rightarrow> string list" where
  "address_texts wan k = (if \<not> truthy wan then []
     else map (\<lambda>a. to_str (field a ''address'') @ ''/'' @ to_str (field a ''mask'')) (elements (or_else (field wan k) (JArr []))))"

definition or_dash :: "string list \<Rightarrow> string" where
  "or_dash xs = (if xs \<noteq> [] then join '', '' xs else en_dash)"

definition wan_gateway :: "(jsval \<Rightarrow> bool) \<Rightarrow> jsval \<Rightarrow> string" where
  "wan_gateway P wan = (if \<not> truthy wan then en_dash
     else case find P (elements (or_else (field wan ''route'') (JArr []))) of Some r \<Rightarrow> to_str (field r ''nexthop'') | None \<Rightarrow> en_dash)"

definition wan_protocol :: "jsval \<Rightarrow> string" where
  "wan_protocol wan = (if truthy wan \<and> truthy (field wan ''proto'') then upper (to_str (field wan ''proto'')) else en_dash)"

definition wan_uptime :: "jsval \<Rightarrow> string" where
  "wan_uptime wan = (if truthy wan \<and> num_less (Num 0) (to_number (field wan ''uptime''))
     then fmtUptime (int_of (to_number (field wan ''uptime''))) else en_dash)"

definition wan_dns :: "jsval \<Rightarrow> string list" where
  "wan_dns wan = map to_str (elements (or_else (and_then wan (field wan ''dns-server'')) (JArr [])))"

definition mask_zero :: "jsval \<Rightarrow> bool" where
  "mask_zero r \<longleftrightarrow> \<not> nullish (field r ''mask'') \<and> to_number (field r ''mask'') = Num 0"

definition wan_status :: "jsval \<Rightarrow> string" where
  "wan_status wan = (if truthy wan \<and> truthy (field wan ''up'') then ''Connected'' else ''Not connected'')"

definition fillStatus :: "jsval \<Rightarrow> (string \<times> string) list" where
  "fillStatus wan =
     [(''Protocol'', wan_protocol wan), (''IP address'', or_dash (address_texts wan ''ipv4-address'')),
      (''Gateway'', wan_gateway (\<lambda>r. to_str (field r ''target'') = ''0.0.0.0'' \<and> mask_zero r) wan),
      (''DNS'', or_dash (wan_dns wan)), (''Connected'', wan_uptime wan)]"

definition fillStatus6 :: "jsval \<Rightarrow> (string \<times> string) list" where
  "fillStatus6 wan =
     [(''Protocol'', wan_protocol wan), (''IPv6 address'', or_dash (address_texts wan ''ipv6-address'')),
      (''Gateway'', wan_gateway (\<lambda>r. field r ''target'' = JStr ''::'' \<and> mask_zero r \<or> field r ''source'' = JStr ''::/0'') wan),
      (''Delegated prefix'', or_dash (address_texts wan ''ipv6-prefix'')), (''DNS'', or_dash (wan_dns wan)), (''Connected'', wan_uptime wan)]"

section \<open>Saving the IPv4 connection\<close>

definition wan4_warning :: "wan4_fields \<Rightarrow> string option" where
  "wan4_warning f =
     (let bad = (\<lambda>v. \<not> validIPv4 (JStr v)); vlan = number_of_str (w4_vlan f)
      in if w4_proto f = ''pppoe'' \<and> (w4_username f = [] \<or> w4_password f = []) then Some ''Please enter the PPPoE login and password.''
         else if w4_proto f = ''static'' \<and> (bad (w4_ipaddr f) \<or> \<not> validIPv4Netmask (JStr (w4_netmask f)) \<or> bad (w4_gateway f))
         then Some ''Please enter a valid IP address, subnet mask and gateway.''
         else if w4_vlan f \<noteq> [] \<and> \<not> all_digits (w4_vlan f) then Some ''VLAN ID must be a number.''
         else if w4_vlan f \<noteq> [] \<and> (num_less vlan (Num 1) \<or> num_less (Num 4094) vlan) then Some ''VLAN ID must be between 1 and 4094.''
         else if w4_dns1 f \<noteq> [] \<and> bad (w4_dns1 f) \<or> w4_dns2 f \<noteq> [] \<and> bad (w4_dns2 f) then Some ''Please enter a valid DNS server address.''
         else None)"

definition wan4_proto_writes :: "wan4_fields \<Rightarrow> option_write list" where
  "wan4_proto_writes f =
     (let set = (\<lambda>k v. (k, Some (JStr v))); unset = (\<lambda>k. (k, None))
      in (''disabled'', optional_flag (\<not> w4_enabled f))
         # (if w4_proto f = ''pppoe''
            then [set ''proto'' (w4_proto f), set ''username'' (w4_username f), set ''password'' (w4_password f),
                  unset ''ipaddr'', unset ''netmask'', unset ''gateway'']
            else if w4_proto f = ''static''
            then [set ''proto'' (w4_proto f), set ''ipaddr'' (w4_ipaddr f), set ''netmask'' (w4_netmask f), set ''gateway'' (w4_gateway f),
                  unset ''username'', unset ''password'']
            else if w4_proto f \<in> List.set WAN4_PROTOCOLS
            then [set ''proto'' (w4_proto f), unset ''username'', unset ''password'', unset ''ipaddr'', unset ''netmask'', unset ''gateway'']
            else []))"

definition dns_writes :: "string \<Rightarrow> string \<Rightarrow> option_write list" where
  "dns_writes dns1 dns2 =
     (let dns = filter (\<lambda>d. d \<noteq> []) [dns1, dns2]
      in if dns \<noteq> [] then [(''dns'', Some (JArr (map JStr dns))), (''peerdns'', Some (JStr ''0''))] else [(''dns'', None), (''peerdns'', None)])"

text \<open>A VLAN device of the user is used as it is; one of the program that others use is left to them.\<close>

definition pick_section :: "'u route_uci \<Rightarrow> wan_view \<Rightarrow> string \<Rightarrow> string \<Rightarrow> vlan_info \<Rightarrow> bool \<Rightarrow> 'u \<Rightarrow> string \<times> 'u" where
  "pick_section R V vlan desired t matches u =
     (let n = wn_section V; cur = au_get (ru_base R) u ''network'' n;
          changes = is_managed_vlan R u n \<and> (field cur ''name'' \<noteq> JStr desired \<or> field cur ''ifname'' \<noteq> JStr (wn_base V)
            \<or> to_str (or_else (field cur ''vid'') (JStr [])) \<noteq> vlan);
          (n, u) = (if changes \<and> hasForeignDeviceReferences R u (field cur ''name'') n
                    then ([], au_unset (ru_base R) u ''network'' n ''freenetic_managed'') else (n, u));
          (n, u) = (if matches \<and> vi_managed t
                    then (to_str (vi_section t), if n \<noteq> [] \<and> JStr n \<noteq> vi_section t then releaseManagedVlan R n u else u) else (n, u))
      in if is_managed_vlan R u n then (n, u) else ru_add R ''network'' ''device'' u)"

definition save_vlan :: "'u route_uci \<Rightarrow> wan_view \<Rightarrow> string \<Rightarrow> 'u \<Rightarrow> wan_view \<times> string \<times> 'u" where
  "save_vlan R V vlan u =
     (let base = wn_base V; desired = base @ ''.'' @ vlan; t = findVlanDevice R u desired;
          matches = truthy (vi_section t) \<and> vi_base t = JStr base; n = wn_section V
      in if vi_legacy (wn_info V) \<and> vi_device (wn_info V) = JStr desired then (V, desired, u)
         else if matches \<and> \<not> vi_managed t
         then (V\<lparr>wn_section := [], wn_info := t\<rparr>, desired, if n \<noteq> [] \<and> JStr n \<noteq> vi_section t then releaseManagedVlan R n u else u)
         else let (n, u) = pick_section R V vlan desired t matches u
              in (V\<lparr>wn_section := n, wn_info := \<lparr>vi_vid = JStr vlan, vi_base = JStr base, vi_section = JStr n, vi_device = JStr desired,
                      vi_managed = True, vi_legacy = False\<rparr>\<rparr>, desired,
                  ru_set R ''network'' n [(''type'', JStr ''8021q''), (''ifname'', JStr base), (''vid'', JStr vlan), (''name'', JStr desired),
                    (''freenetic_managed'', JStr ''1'')] u))"

definition drop_vlan :: "'u route_uci \<Rightarrow> wan_view \<Rightarrow> 'u \<Rightarrow> wan_view \<times> string \<times> 'u" where
  "drop_vlan R V u =
     (let base = wn_base V
      in if wn_section V = [] then (V, base, u)
         else (V\<lparr>wn_section := [], wn_info := \<lparr>vi_vid = JStr [], vi_base = JStr base, vi_section = JNull, vi_device = JStr base,
                   vi_managed = False, vi_legacy = False\<rparr>\<rparr>, base, releaseManagedVlan R (wn_section V) u))"

definition edit_wan4 :: "'u route_uci \<Rightarrow> wan_view \<Rightarrow> wan4_fields \<Rightarrow> 'u \<Rightarrow> wan_view \<times> 'u" where
  "edit_wan4 R V f u =
     (let u = write_options R ''network'' ''wan'' (wan4_proto_writes f) u
      in if w4_proto f \<notin> set WAN4_PROTOCOLS then (V, u)
         else let u = write_options R ''network'' ''wan'' (dns_writes (w4_dns1 f) (w4_dns2 f)) u;
                  oldDevice = or_else (field (au_get (ru_base R) u ''network'' ''wan'') ''device'') (JStr (wn_base V));
                  (V, newDevice, u) = (if w4_vlan f \<noteq> [] then save_vlan R V (w4_vlan f) u else drop_vlan R V u);
                  u = ru_set R ''network'' ''wan'' [(''device'', JStr newDevice)] u
              in (V, if field (au_get (ru_base R) u ''network'' ''wan6'') ''device'' = oldDevice
                     then ru_set R ''network'' ''wan6'' [(''device'', JStr newDevice)] u else u))"

definition save_wan4 :: "'u route_uci \<Rightarrow> acl_services \<Rightarrow> wan_view \<Rightarrow> wan4_fields \<Rightarrow> 'u \<Rightarrow> wan_view \<times> 'u save_result" where
  "save_wan4 R sv V f u =
     (case wan4_warning f of
        Some w \<Rightarrow> (V, warn u w)
      | None \<Rightarrow> (if sv_load sv = None then fst (edit_wan4 R V f u) else V,
          run_save sv False (\<lambda>u. (snd (edit_wan4 R V f u), None)) ''Failed to save: '' [] ''IPv4 connection settings saved.'' u))"

section \<open>Saving the IPv6 connection\<close>

definition wan6_warning :: "wan6_fields \<Rightarrow> string option" where
  "wan6_warning f =
     (let bad_dns = (\<lambda>d. d \<noteq> [] \<and> \<not> validIPv4 (JStr d) \<and> \<not> validIPv6 (JStr d) (Some False))
      in if w6_proto f = ''static'' \<and> (\<not> validIPv6 (JStr (w6_address f)) (Some True) \<or> w6_gateway f \<noteq> [] \<and> \<not> validIPv6 (JStr (w6_gateway f)) (Some False))
         then Some ''Please enter a valid IPv6 address with prefix and gateway.''
         else if w6_proto f = ''static'' \<and> w6_prefix f \<noteq> [] \<and> \<not> validIPv6 (JStr (w6_prefix f)) (Some True)
         then Some ''Please enter a valid delegated IPv6 prefix.''
         else if bad_dns (w6_dns1 f) \<or> bad_dns (w6_dns2 f) then Some ''Please enter a valid IPv6 DNS server address.''
         else None)"

definition wan6_proto_writes :: "wan6_fields \<Rightarrow> option_write list" where
  "wan6_proto_writes f =
     (if w6_proto f = ''static''
      then [(''ip6addr'', Some (JArr [JStr (w6_address f)])), (''ip6gw'', optional_text (w6_gateway f)),
            (''ip6prefix'', if w6_prefix f \<noteq> [] then Some (JArr [JStr (w6_prefix f)]) else None), (''reqaddress'', None), (''reqprefix'', None)]
      else [(''ip6addr'', None), (''ip6gw'', None), (''ip6prefix'', None), (''reqaddress'', Some (JStr (w6_reqaddress f))),
            (''reqprefix'', Some (JStr (w6_reqprefix f)))])"

definition edit_wan6 :: "'u route_uci \<Rightarrow> wan_view \<Rightarrow> wan6_fields \<Rightarrow> 'u \<Rightarrow> 'u" where
  "edit_wan6 R V f u =
     (let write = write_options R ''network'' ''wan6'';
          u = (if list_ex (\<lambda>s. field s ''.name'' = JStr ''wan6'') (ru_sections R u ''network'' ''interface'') then u
               else uci_add (au_base (ru_base R)) u ''network'' ''interface'' ''wan6'');
          u = write [(''disabled'', optional_flag (\<not> w6_enabled f))] u
      in if w6_proto f \<notin> set WAN6_PROTOCOLS then u
         else let u = write [(''proto'', Some (JStr (w6_proto f)))] u;
                  u = (if truthy (field (au_get (ru_base R) u ''network'' ''wan6'') ''device'') then u
                       else write [(''device'', Some (or_else (field (au_get (ru_base R) u ''network'' ''wan'') ''device'') (JStr (wn_base V))))] u);
                  u = write (wan6_proto_writes f) u
              in write (dns_writes (w6_dns1 f) (w6_dns2 f)) u)"

definition saveIpv6 :: "'u route_uci \<Rightarrow> acl_services \<Rightarrow> wan_view \<Rightarrow> wan6_fields \<Rightarrow> 'u \<Rightarrow> 'u save_result" where
  "saveIpv6 R sv V f u =
     (case wan6_warning f of
        Some w \<Rightarrow> warn u w
      | None \<Rightarrow> run_save sv False (\<lambda>u. (edit_wan6 R V f u, None)) ''Failed to save IPv6 settings: '' [] ''IPv6 connection settings saved.'' u)"

end
