(* ===== verification/Wan_Properties.thy ===== *)
theory Wan_Properties
  imports Wan Policy_Properties Routing_Properties
begin

text \<open>
  What saving the internet connection leaves alone: the sections that are neither \<open>wan\<close>, \<open>wan6\<close> nor the
  program's, whatever VLAN the form asks for.
\<close>

section \<open>The sections that may be written\<close>

definition may_write :: "'u route_uci \<Rightarrow> 'u \<Rightarrow> string \<Rightarrow> bool" where
  "may_write R u n \<longleftrightarrow> n \<in> {''wan'', ''wan6''} \<or> au_get (ru_base R) u ''network'' n = JNull
     \<or> field (au_get (ru_base R) u ''network'' n) ''freenetic_managed'' = JStr ''1''"

definition keeps_foreign :: "'u route_uci \<Rightarrow> 'u \<Rightarrow> 'u \<Rightarrow> bool" where
  "keeps_foreign R u v \<longleftrightarrow> (\<forall>c n. c = ''network'' \<and> may_write R u n \<or> au_get (ru_base R) v c n = au_get (ru_base R) u c n)"

context route_store
begin

lemma keeps_refl: "keeps_foreign R u u"
  by (simp add: keeps_foreign_def)

lemma keeps_change:
  assumes "keeps_foreign R u v" "may_write R u n" "\<And>c m. (c, m) \<noteq> (''network'', n) \<Longrightarrow> get w c m = get v c m"
  shows "keeps_foreign R u w"
  using assms unfolding keeps_foreign_def by (metis prod.inject)

text \<open>The steps of the handlers as rules.\<close>

lemma keeps_rules:
  "keeps_foreign R u v \<Longrightarrow> may_write R u n \<Longrightarrow> keeps_foreign R u (write_options R ''network'' n ws v)"
  "keeps_foreign R u v \<Longrightarrow> may_write R u n \<Longrightarrow> keeps_foreign R u (ru_set R ''network'' n kvs v)"
  "keeps_foreign R u v \<Longrightarrow> may_write R u n \<Longrightarrow> keeps_foreign R u (au_unset (ru_base R) v ''network'' n k)"
  "keeps_foreign R u v \<Longrightarrow> may_write R u n \<Longrightarrow> keeps_foreign R u (au_remove (ru_base R) ''network'' n v)"
  "keeps_foreign R u v \<Longrightarrow> may_write R u n \<Longrightarrow> keeps_foreign R u (uci_add (au_base (ru_base R)) v ''network'' t n)"
  "(b \<Longrightarrow> keeps_foreign R u v) \<Longrightarrow> (\<not> b \<Longrightarrow> keeps_foreign R u w) \<Longrightarrow> keeps_foreign R u (if b then v else w)"
proof -
  assume k: "keeps_foreign R u v" "may_write R u n"
  show "keeps_foreign R u (write_options R ''network'' n ws v)" by (rule keeps_change [OF k writes_get])
  show "keeps_foreign R u (ru_set R ''network'' n kvs v)" by (rule keeps_change [OF k ru_set_get])
  show "keeps_foreign R u (au_unset (ru_base R) v ''network'' n k)" by (rule keeps_change [OF k unset_other])
  show "keeps_foreign R u (au_remove (ru_base R) ''network'' n v)"
    by (rule keeps_change [OF k]) (unfold au_remove_def au_get_def, rule remove_other)
  show "keeps_foreign R u (uci_add (au_base (ru_base R)) v ''network'' t n)"
    by (rule keeps_change [OF k]) (unfold au_get_def, rule add_other)
qed simp

lemma may_write_wan [simp]: "may_write R u ''wan''" "may_write R u ''wan6''"
  by (simp_all add: may_write_def)

text \<open>A section that is the program's or is missing later was so before.\<close>

lemma managed_before:
  assumes "keeps_foreign R u v" "is_managed_vlan R v n"
  shows "may_write R u n"
  using assms unfolding keeps_foreign_def is_managed_vlan_def may_write_def by metis

lemma missing_before: "keeps_foreign R u v \<Longrightarrow> get v ''network'' n = JNull \<Longrightarrow> may_write R u n"
  unfolding keeps_foreign_def may_write_def by metis

lemma keeps_release: "keeps_foreign R u v \<Longrightarrow> keeps_foreign R u (releaseManagedVlan R n v)"
  unfolding releaseManagedVlan_def by (intro keeps_rules managed_before) simp_all

lemma keeps_add: "keeps_foreign R u v \<Longrightarrow> ru_add R ''network'' t v = (n, w) \<Longrightarrow> keeps_foreign R u w \<and> may_write R u n"
  using ru_add_new [of "''network''" t v n w] missing_before [of u v n] keeps_rules(5) [of u v n t]
  by (auto simp: ru_add_def)

lemma keeps_pick:
  assumes "keeps_foreign R u v" "pick_section R V vlan desired t matches v = (n, w)"
  shows "keeps_foreign R u w \<and> may_write R u n"
proof -
  let ?n = "wn_section V" and ?cur = "au_get (ru_base R) v ''network'' (wn_section V)"
  let ?left = "(is_managed_vlan R v ?n \<and> (field ?cur ''name'' \<noteq> JStr desired \<or> field ?cur ''ifname'' \<noteq> JStr (wn_base V)
      \<or> to_str (or_else (field ?cur ''vid'') (JStr [])) \<noteq> vlan)) \<and> hasForeignDeviceReferences R v (field ?cur ''name'') ?n"
  obtain n1 v1 where 1: "(if ?left then ([], au_unset (ru_base R) v ''network'' ?n ''freenetic_managed'') else (?n, v)) = (n1, v1)" by fastforce
  have k1: "keeps_foreign R u v1" using 1 assms(1) managed_before [OF assms(1)] keeps_rules(3) [OF assms(1)] by (auto split: if_splits)
  obtain n2 v2 where 2: "(if matches \<and> vi_managed t then (to_str (vi_section t), if n1 \<noteq> [] \<and> JStr n1 \<noteq> vi_section t then releaseManagedVlan R n1 v1 else v1) else (n1, v1)) = (n2, v2)"
    by fastforce
  have k2: "keeps_foreign R u v2" using 2 k1 keeps_release [OF k1] by (auto split: if_splits)
  have "(if is_managed_vlan R v2 n2 then (n2, v2) else ru_add R ''network'' ''device'' v2) = (n, w)"
    using assms(2) unfolding pick_section_def Let_def 1 prod.case 2 by simp
  then show ?thesis using k2 managed_before [OF k2] keeps_add [OF k2] by (auto split: if_splits)
qed

lemma keeps_vlan:
  assumes "keeps_foreign R u v"
  shows "keeps_foreign R u (snd (snd (save_vlan R V vlan v)))"
proof -
  obtain n w where p: "pick_section R V vlan (wn_base V @ ''.'' @ vlan) (findVlanDevice R v (wn_base V @ ''.'' @ vlan))
     (truthy (vi_section (findVlanDevice R v (wn_base V @ ''.'' @ vlan))) \<and> vi_base (findVlanDevice R v (wn_base V @ ''.'' @ vlan)) = JStr (wn_base V)) v = (n, w)"
    by fastforce
  note picked = keeps_pick [OF assms p]
  show ?thesis
    unfolding save_vlan_def Let_def p prod.case using assms keeps_release [OF assms] keeps_rules(2) [of u w n] picked by simp
qed

lemma keeps_drop: "keeps_foreign R u v \<Longrightarrow> keeps_foreign R u (snd (snd (drop_vlan R V v)))"
  by (simp add: drop_vlan_def Let_def keeps_release)

lemma keeps_wan4: "keeps_foreign R u (snd (edit_wan4 R V f u))"
proof -
  let ?w = "write_options R ''network'' ''wan''"
  let ?u = "?w (dns_writes (w4_dns1 f) (w4_dns2 f)) (?w (wan4_proto_writes f) u)"
  have k: "keeps_foreign R u (?w (wan4_proto_writes f) u)" "keeps_foreign R u ?u"
    by (intro keeps_rules keeps_refl may_write_wan)+
  obtain V' d x where x: "(if w4_vlan f \<noteq> [] then save_vlan R V (w4_vlan f) ?u else drop_vlan R V ?u) = (V', d, x)" by (metis prod_cases3)
  have kx: "keeps_foreign R u x" using x keeps_vlan [OF k(2), of V "w4_vlan f"] keeps_drop [OF k(2), of V] by (auto split: if_splits)
  show ?thesis
    using k(1) keeps_rules(2) [OF kx may_write_wan(1)] keeps_rules(2) [OF keeps_rules(2) [OF kx may_write_wan(1)] may_write_wan(2)]
    unfolding edit_wan4_def Let_def x prod.case by simp
qed

lemma keeps_wan6: "keeps_foreign R u (edit_wan6 R V f u)"
  unfolding edit_wan6_def Let_def by (intro keeps_rules keeps_refl may_write_wan)

end

section \<open>The properties\<close>

text \<open>C37: whatever is entered and whichever VLAN device the page found when it was opened, saving the IPv4 or the IPv6
  connection changes the sections \<open>wan\<close> and \<open>wan6\<close>, sections of the program, and new ones only.  A device or
  a bridge of the user is never rewritten, renamed or removed, also when the save fails half way.\<close>

theorem wan_keeps_foreign:
  fixes R :: "'u route_uci"
  assumes "route_store R" "au_get (ru_base R) u c n \<noteq> JNull" "c = ''network'' \<longrightarrow> n \<notin> {''wan'', ''wan6''}"
    and "field (au_get (ru_base R) u c n) ''freenetic_managed'' \<noteq> JStr ''1''"
  shows "au_get (ru_base R) (sr_store (snd (save_wan4 R sv V f u))) c n = au_get (ru_base R) u c n
    \<and> au_get (ru_base R) (sr_store (saveIpv6 R sv V f6 u)) c n = au_get (ru_base R) u c n"
proof -
  have foreign: "\<not> (c = ''network'' \<and> may_write R u n)" using assms(2-4) by (auto simp: may_write_def)
  have same: "sr_store (run_save sv False e failed unloaded msg u) \<in> {u, fst (e u)}" for e :: "'u \<Rightarrow> 'u \<times> string option" and failed unloaded msg
    by (auto simp: run_save_def Let_def split: option.splits prod.splits)
  have keep: "au_get (ru_base R) v c n = au_get (ru_base R) u c n" if "v \<in> {u, w}" "keeps_foreign R u w" for v w
    using that foreign unfolding keeps_foreign_def by blast
  have "sr_store (snd (save_wan4 R sv V f u)) \<in> {u, snd (edit_wan4 R V f u)}"
    using same [of "\<lambda>u. (snd (edit_wan4 R V f u), None)"] by (auto simp: save_wan4_def warn_def split: option.splits)
  moreover have "sr_store (saveIpv6 R sv V f6 u) \<in> {u, edit_wan6 R V f6 u}"
    using same [of "\<lambda>u. (edit_wan6 R V f6 u, None)"] by (auto simp: saveIpv6_def warn_def split: option.splits)
  ultimately show ?thesis using keep route_store.keeps_wan4 [OF assms(1)] route_store.keeps_wan6 [OF assms(1)] by blast
qed

text \<open>A router whose VLAN device was made by hand; the form asks for another VLAN.\<close>

definition wan_config :: list_store where
  "wan_config = [((''network'', ''wan''), [(''.type'', JStr ''interface''), (''proto'', JStr ''dhcp''), (''device'', JStr ''eth1.7'')]),
     ((''network'', ''mine''), [(''.type'', JStr ''device''), (''type'', JStr ''8021q''), (''name'', JStr ''eth1.7''), (''ifname'', JStr ''eth1''), (''vid'', JStr ''7'')])]"

definition wan_entry :: wan4_fields where
  "wan_entry = \<lparr>w4_enabled = True, w4_proto = ''dhcp'', w4_username = [], w4_password = [], w4_ipaddr = [], w4_netmask = [], w4_gateway = [],
     w4_vlan = ''9'', w4_dns1 = [], w4_dns2 = []\<rparr>"

definition wan_entry6 :: wan6_fields where
  "wan_entry6 = wan6_form list_route wan_config"

theorem wan_keeps_foreign_witness:
  "let v = sr_store (snd (save_wan4 list_route ready_services (wan_view_of list_route wan_config) wan_entry wan_config))
   in field (au_get (ru_base list_route) v ''network'' ''mine'') ''vid'' = JStr ''7''"
proof -
  have mine: "au_get (ru_base list_route) wan_config ''network'' ''mine'' \<noteq> JNull" "''network'' = ''network'' \<longrightarrow> ''mine'' \<notin> {''wan'', ''wan6''}"
    "field (au_get (ru_base list_route) wan_config ''network'' ''mine'') ''freenetic_managed'' \<noteq> JStr ''1''"
    "field (au_get (ru_base list_route) wan_config ''network'' ''mine'') ''vid'' = JStr ''7''" by code_simp+
  show ?thesis
    using wan_keeps_foreign [OF list_route.route_store_axioms mine(1-3)] mine(4) unfolding Let_def by simp
qed

end
