(* ===== verification/Spec2Isabelle.thy ===== *)
theory Spec2Isabelle
  imports Prelude Qr_Properties Net_Properties Guest_Properties Multiwan_Properties Rpc_Properties
    Conn_Properties Release_Properties Dashboard_Properties Policy_Properties Routing_Properties Routing_Edit
    Portforward_Properties Zapret_Properties Segments_Guest
    Ddns_Properties Wireguard_Properties Wan_Properties
begin

text \<open>
  \<^bold>\<open>Freenetic: the logic of the browser side\<close>

  Freenetic is an interface for OpenWrt routers.  Its pages are JavaScript modules that run in the browser
  over LuCI: they read the configuration through the module \<open>uci\<close>, call services of the router through
  ubus, run helper programs through the module \<open>fs\<close>, and edit the configuration in handlers that end in
  \<open>uci.save()\<close> and the application of the changes.  This development models the modules that carry logic of
  their own, from the sources below \<open>src/web\<close> (abbreviated: \<open>resources/\<close> is
  \<open>src/web/application/htdocs/luci-static/resources/\<close>, \<open>theme/\<close> is
  \<open>src/web/theme/htdocs/luci-static/resources/\<close>).

  \<^bold>\<open>Conventions\<close>

  \<^item> \<open>Prelude\<close> has the numbers and strings of the language: bitwise operators on 32 bits (a shift takes the
    low five bits of its count), decimal and
    hexadecimal texts, \<open>trim\<close>, \<open>split\<close> and \<open>join\<close>.  \<open>Js_Value\<close> has the values that cross the interfaces
    (answers of services, options, arguments whose type the code tests), with truthiness, conversions and
    the conversion of texts to numbers.  A finite number is rational; what the sources compute with stays
    inside the range where doubles are exact, or the bound is a hypothesis.
  \<^item> A handler is a function from the store to a \<open>save_result\<close>: the store after it, the notices it shows,
    whether the configuration was saved and whether the page was refreshed.  An exception is \<open>Inl\<close> of its
    message or a message of an option type; answers of \<open>window.confirm\<close>, of services (\<open>acl_services\<close>,
    \<open>fs_ops\<close>, \<open>ubus\<close>) and of the collation are arguments.
  \<^item> The store is a parameter.  \<open>Uci\<close> (\<open>uci_store\<close>), \<open>Policy_Store\<close> (\<open>acl_store\<close>) and \<open>Routing_Store\<close>
    (\<open>route_store\<close>) state as locales what the code relies on: an added section is there with its type,
    setting or unsetting an option changes this option only, removing removes, sections know their names, a
    new name is fresh, the list of sections is complete, and a move changes the order only.  The locales
    hold for a list of sections (\<open>list_uci\<close>, \<open>list_acl\<close>, \<open>list_route\<close>), on which the witnesses are
    evaluated.  \<open>Option_Writes\<close> has runs of set and unset on one section.
  \<^item> Loops over lists are structural.  Loops that the code bounds by a condition only are
    \<open>partial_function (option)\<close> (\<open>align_buffer\<close>, \<open>pad_buffer\<close>, \<open>place_column\<close>, \<open>bch_reduce\<close>, \<open>uniqueId\<close>); that they
    return is proved.  No fuel is used.

  \<^bold>\<open>Components\<close>

  \<^item> QR codes, \<open>resources/freenetic-qrcode.js\<close>: \<open>Qr_Field\<close> (tables of GF(256)), \<open>Qr_Code\<close> (Reed-Solomon
    division, over the locale \<open>byte_field\<close>), \<open>Qr_Data\<close> (bit buffer, UTF-8, versions, blocks, interleaving),
    \<open>Qr_Bch\<close> (format and version information), \<open>Qr_Patterns\<close>, \<open>Qr_Layout\<close>, \<open>Qr_Matrix\<close>, \<open>Qr_Zigzag\<close>
    (function patterns and data placement), \<open>Qr_Symbol\<close>, \<open>Qr_Encode\<close>, \<open>Qr_Canvas\<close>.  Shown: a reader of the
    symbol gets the text back, codewords have zero syndromes, every module is set and every function pattern
    intact, the bit buffer refines
    the append of lists, the version is the smallest that has room, and which inputs are refused.
  \<^item> Addresses, \<open>resources/freenetic-network.js\<close>: \<open>Net_Address\<close> with \<open>Net_Cidr\<close>, \<open>Net_Roundtrip\<close>, \<open>Bits\<close>.
    Shown: printing and parsing IPv6, networks keep the leading bits, the validators.
  \<^item> Guest network, same file: \<open>Guest_Network\<close>.  Shown: sections that are not the program's are never
    changed, and the zone and its rules are secured when no error is reported.
  \<^item> Multi-WAN, \<open>resources/freenetic-multiwan-data.js\<close>: \<open>Multiwan\<close>, \<open>Multiwan_State\<close>.  Shown: consistency
    of the traffic state, and the plans of the modes.
  \<^item> Call batching, \<open>theme/freenetic-rpc.js\<close>: \<open>Rpc\<close>, a step relation whose steps are the calls, microtasks and
    answers, an instance of the locales of \<open>Steps\<close>.  A request has two phases, as in the code: the wait for its
    response, which a timer ends, and the reading of the body, which nothing ends.  Shown: each call is pending, in
    flight or settled, one of these and once; it is settled by the reply with its identifier; the client comes to
    rest with every call settled or waiting for a body; when a call is rejected, and that the fallback is remembered.
  \<^item> Connections, \<open>resources/freenetic-connections-core.js\<close>: \<open>Conn_Core\<close> and the wg-quick files
    (\<open>Wg_Config\<close>, \<open>Wg_Roundtrip\<close>).  Shown: what the format carries of a printed connection is parsed back, and what a parsed one
    guarantees.  The editor, \<open>resources/freenetic-connections-wireguard.js\<close> with
    \<open>view/network/freenetic-other-connections.js\<close>: \<open>Wireguard\<close>.  Shown: the connection is read back, foreign
    peers stay, and peers that the form adds are never listed.
  \<^item> Releases and dashboard data, \<open>resources/freenetic-dashboard-data.js\<close>: \<open>Release\<close>, \<open>Dashboard\<close>.  Shown:
    the comparison of tags is an order where numbers have at most 15 digits and those of a prerelease no leading
    zeros, and the groups of uplinks
    partition the interfaces.  The facts on sorting are those of \<open>Comparators\<close> (locale \<open>comparison\<close>).
  \<^item> Traffic policies, \<open>resources/view/network/freenetic-wifi-acl.js\<close>: \<open>Policy\<close>, \<open>Policy_Save\<close>.  Shown: what
    is not the program's stays, the saved policy is the one that is read, its rules come first, and what
    stays after an error.
  \<^item> Routes, \<open>resources/view/network/freenetic-routing.js\<close>: \<open>Routing\<close>, \<open>Routing_Edit\<close>.  Shown: saved routes
    and DNS routes are read back, an import is idempotent, what the reader of files accepts.
  \<^item> Port forwarding, \<open>view/network/freenetic-portforward.js\<close>: \<open>Portforward\<close>; home and guest segments,
    \<open>view/network/freenetic-mynetworks.js\<close>: \<open>Segments\<close>, \<open>Segments_Save\<close>, \<open>Segments_Pool\<close>; Dynamic DNS,
    \<open>view/network/freenetic-ddns.js\<close>: \<open>Ddns\<close>; the internet connection with its VLAN device,
    \<open>view/network/freenetic-wan.js\<close>: \<open>Wan\<close>.  Shown: a VLAN device of the user is never
    changed, the forms read back what was saved, an accepted DHCP pool of a numeric size lies in its subnet, the
    program's sections of a saved guest segment are isolated, a deletion takes only what is owned,
    and the error paths that lose an edit.
  \<^item> Zapret2, \<open>resources/zapret2/v4r30\<close> and \<open>resources/view/zapret2/v4r30\<close>: \<open>Zapret\<close>, \<open>Zapret_Profiles\<close>.
    Shown: the search for new names ends, moving and removing touch what they should, the mark validators.

  The components meet in the store and in the helpers: the segments and the connection editor use the guest
  network and the validators of the address functions; port forwarding, segments, Dynamic DNS,
  the internet connection and the connection editor run their edits through \<open>run_save\<close> of the traffic policies; the connection editor
  exports and imports through the wg-quick functions.  Theories named \<open>..._Properties\<close>, \<open>Routing_Edit\<close> and
  \<open>Segments_Guest\<close> hold the theorems.

  \<^bold>\<open>Not modelled\<close>

  What draws: DOM nodes, canvas, charts, timers and dialogs of the pages, the dashboard, the status and
  system pages, the theme.  What only calls a service and shows its answer: the front ends of optional
  packages, the lists and the log of Zapret2.  Dates and byte sizes, which are formatted by the browser and
  by LuCI.  The pages of switch ports and of the firewall, and the editors of
  OpenVPN and IPsec connections.  The programs in C, shell and ucode on the router are on the other side of
  the parameters.  Strings have characters below 256.
\<close>

end
